(* ===== verification/Prelude.thy ===== *)
theory Prelude
  imports Main "HOL-Library.Word"
begin

text \<open>
  Shared vocabulary of the development: exceptions as values, the machine integer types,
  the parts of \<open>std::string\<close> and \<open>std::string_view\<close> that the sources use, decimal
  printing, and the two generic interfaces (locales) every stateful component is read
  through: a machine whose steps keep an invariant, and one whose steps also never move a
  counter backwards.

  A C++ \<open>std::string\<close> is a list of bytes, so it is Isabelle's \<open>string\<close> (a \<open>char\<close> is one
  byte).  An exception is a value: the class that was thrown and its message.
\<close>

type_synonym u32 = "32 word"
type_synonym u64 = "64 word"

subsection \<open>Exceptions as values\<close>

text \<open>
  One constructor per exception class the modelled sources throw; \<open>Std_exception\<close> stands for
  the exceptions the standard library raises by itself (\<open>std::stoll\<close> and the like).
  \<open>Undefined_behaviour\<close> is not a class of the program: it marks the points where the C++
  standard gives the source no meaning (an out-of-range conversion of a \<open>double\<close>), so that
  the model never makes up a result there.
\<close>

datatype exn_class =
    Runtime_error
  | OutboundPolicyError
  | OutboundBudgetError
  | OutboundActionError
  | ControlStateError
  | ControlRemoteError
  | EnvelopeError
  | JournalError
  | BreakerError
  | RetryableError
  | IngestionStateError
  | ArmError
  | Std_exception
  | Undefined_behaviour

datatype exn = Exn (exn_class: exn_class) (exn_what: string)

type_synonym 'a result = "exn + 'a"

definition throw :: "exn_class \<Rightarrow> string \<Rightarrow> 'a result" where
  "throw c msg = Inl (Exn c msg)"

fun and_then :: "'a result \<Rightarrow> ('a \<Rightarrow> 'b result) \<Rightarrow> 'b result" where
  "and_then (Inl e) f = Inl e"
| "and_then (Inr x) f = f x"

definition require :: "bool \<Rightarrow> exn_class \<Rightarrow> string \<Rightarrow> unit result" where
  "require b c msg = (if b then Inr () else throw c msg)"

fun fold_result :: "('a \<Rightarrow> 's \<Rightarrow> 's result) \<Rightarrow> 'a list \<Rightarrow> 's \<Rightarrow> 's result" where
  "fold_result f [] s = Inr s"
| "fold_result f (x # xs) s = and_then (f x s) (fold_result f xs)"

named_theorems result_simps "unfolding of the exception plumbing"
named_theorems step_inv "operations that keep the invariant of their component"

lemma throw_simps [simp]:
  "throw c m \<noteq> Inr x" "throw c m = Inl e \<longleftrightarrow> e = Exn c m"
  "(case throw c m of Inl e \<Rightarrow> f e | Inr x \<Rightarrow> g x) = f (Exn c m)"
  by (auto simp: throw_def)

lemma and_then_Inr [result_simps]: "and_then r f = Inr y \<longleftrightarrow> (\<exists>x. r = Inr x \<and> f x = Inr y)"
  by (cases r) auto

lemma and_then_throw [simp]: "and_then (throw c m) f = throw c m"
  by (simp add: throw_def)

lemma require_Inr [result_simps]: "require b c m = Inr u \<longleftrightarrow> b"
  by (simp add: require_def)

lemma require_True [simp]: "require True c m = Inr ()"
  by (simp add: require_def)

lemma require_False [simp]: "require False c m = throw c m"
  by (simp add: require_def)

lemma fold_result_inv:
  assumes "fold_result f xs s = Inr t" and "P s"
    and "\<And>x s s'. x \<in> set xs \<Longrightarrow> P s \<Longrightarrow> f x s = Inr s' \<Longrightarrow> P s'"
  shows "P t"
  using assms
proof (induction xs arbitrary: s)
  case Nil
  then show ?case by simp
next
  case (Cons x xs)
  from Cons.prems(1) obtain s' where s': "f x s = Inr s'" and rest: "fold_result f xs s' = Inr t"
    by (auto simp: result_simps)
  have "P s'" using Cons.prems(2,3) s' by auto
  with rest Cons.prems(3) show ?case by (intro Cons.IH) auto
qed

text \<open>A loop that appends one parsed element per turn.\<close>

lemma fold_collect:
  "fold_result (\<lambda>x acc. and_then (g x) (\<lambda>y. Inr (acc @ [y]))) xs acc = Inr ys \<longleftrightarrow>
     (\<exists>zs. ys = acc @ zs \<and> list_all2 (\<lambda>x z. g x = Inr z) xs zs)"
proof (induction xs arbitrary: acc)
  case Nil
  then show ?case by auto
next
  case (Cons x xs)
  then show ?case by (cases "g x") (auto simp: list_all2_Cons1)
qed

subsection \<open>Strings: the operations of \<open>std::string_view\<close> in use\<close>

definition starts_with :: "string \<Rightarrow> string \<Rightarrow> bool" where
  "starts_with s p \<longleftrightarrow> take (length p) s = p"

text \<open>\<open>find_sub p s\<close> is \<open>s.find(p)\<close>: the least position where \<open>p\<close> occurs, \<open>None\<close> for \<open>npos\<close>.\<close>

fun find_sub :: "string \<Rightarrow> string \<Rightarrow> nat option" where
  "find_sub p [] = (if p = [] then Some 0 else None)"
| "find_sub p (c # s) =
     (if starts_with (c # s) p then Some 0 else map_option Suc (find_sub p s))"

text \<open>\<open>find_from p s k\<close> is \<open>s.find(p, k)\<close>.\<close>

definition find_from :: "string \<Rightarrow> string \<Rightarrow> nat \<Rightarrow> nat option" where
  "find_from p s k = (if k \<le> length s then map_option ((+) k) (find_sub p (drop k s)) else None)"

definition contains_sub :: "string \<Rightarrow> string \<Rightarrow> bool" where
  "contains_sub s p \<longleftrightarrow> find_sub p s \<noteq> None"

text \<open>\<open>substr s k n\<close> is \<open>s.substr(k, n)\<close> for \<open>k\<close> inside the string.\<close>

definition substr :: "string \<Rightarrow> nat \<Rightarrow> nat \<Rightarrow> string" where
  "substr s k n = take n (drop k s)"

lemma starts_with_append [simp]: "starts_with (p @ s) p"
  by (simp add: starts_with_def)

lemma starts_with_iff: "starts_with s p \<longleftrightarrow> (\<exists>t. s = p @ t)"
  unfolding starts_with_def by (metis append_eq_conv_conj append_take_drop_id)

lemma starts_with_Nil [simp]: "starts_with s []"
  by (simp add: starts_with_def)

lemma find_sub_Some:
  "find_sub p s = Some i \<Longrightarrow> i \<le> length s \<and> starts_with (drop i s) p"
proof (induction s arbitrary: i)
  case Nil
  then show ?case by (auto simp: starts_with_def split: if_splits)
next
  case (Cons c s)
  then show ?case by (auto split: if_splits)
qed

lemma find_sub_least:
  "find_sub p s = Some i \<Longrightarrow> j < i \<Longrightarrow> \<not> starts_with (drop j s) p"
proof (induction s arbitrary: i j)
  case Nil
  then show ?case by (auto split: if_splits)
next
  case (Cons c s)
  then show ?case by (cases j) (auto split: if_splits)
qed

lemma find_sub_None:
  "find_sub p s = None \<longleftrightarrow> (\<forall>j \<le> length s. \<not> starts_with (drop j s) p)"
proof (induction s)
  case Nil
  then show ?case by (auto simp: starts_with_def)
next
  case (Cons c s)
  show ?case
  proof (cases "starts_with (c # s) p")
    case True
    then show ?thesis by (auto intro!: exI [of _ 0])
  next
    case False
    have "(\<forall>j \<le> length (c # s). \<not> starts_with (drop j (c # s)) p) \<longleftrightarrow>
          (\<forall>j \<le> length s. \<not> starts_with (drop j s) p)"
      using False by (auto simp: All_less_Suc2 less_Suc_eq_le [symmetric] simp del: less_Suc_eq_le)
    with False Cons.IH show ?thesis by auto
  qed
qed

lemma contains_sub_iff: "contains_sub s p \<longleftrightarrow> (\<exists>u v. s = u @ p @ v)"
proof
  assume "contains_sub s p"
  then obtain i where "find_sub p s = Some i" by (auto simp: contains_sub_def)
  then have "starts_with (drop i s) p" by (simp add: find_sub_Some)
  then obtain t where "drop i s = p @ t" by (auto simp: starts_with_iff)
  then have "s = take i s @ p @ t" by (metis append_take_drop_id)
  then show "\<exists>u v. s = u @ p @ v" by blast
next
  assume "\<exists>u v. s = u @ p @ v"
  then obtain u v where s: "s = u @ p @ v" by blast
  then have "starts_with (drop (length u) s) p" and "length u \<le> length s" by auto
  then show "contains_sub s p" by (auto simp: contains_sub_def find_sub_None)
qed

text \<open>
  \<open>scan_from p P s k\<close> is the loop \<open>for (pos = s.find(p, k); pos != npos; pos = s.find(p, pos + 1))\<close>
  that returns true at the first occurrence where \<open>P pos\<close> holds.
\<close>

lemma find_from_Some:
  "find_from p s k = Some i \<Longrightarrow> k \<le> i \<and> i \<le> length s \<and> starts_with (drop i s) p"
  by (auto simp: find_from_def add.commute dest!: find_sub_Some split: if_splits)

function scan_from :: "string \<Rightarrow> (nat \<Rightarrow> bool) \<Rightarrow> string \<Rightarrow> nat \<Rightarrow> bool" where
  "scan_from p P s k = (case find_from p s k of None \<Rightarrow> False | Some i \<Rightarrow> P i \<or> scan_from p P s (Suc i))"
  by pat_completeness auto
termination
  by (relation "measure (\<lambda>(p, P, s, k). Suc (length s) - k)") (auto dest!: find_from_Some)

declare scan_from.simps [simp del]

lemma find_from_least:
  assumes "find_from p s k = Some i" and "k \<le> j" and "j < i"
  shows "\<not> starts_with (drop j s) p"
proof -
  obtain d where d: "find_sub p (drop k s) = Some d" "i = k + d"
    using assms(1) by (auto simp: find_from_def split: if_splits)
  have "\<not> starts_with (drop (j - k) (drop k s)) p"
    using d assms(2,3) by (intro find_sub_least) auto
  then show ?thesis using assms(2) by simp
qed

lemma find_from_None:
  assumes "find_from p s k = None" and "k \<le> j" and "j \<le> length s"
  shows "\<not> starts_with (drop j s) p"
proof -
  have "find_sub p (drop k s) = None" using assms by (auto simp: find_from_def)
  then have "\<not> starts_with (drop (j - k) (drop k s)) p"
    using assms(3) unfolding find_sub_None by simp
  then show ?thesis using assms(2) by simp
qed

lemma scan_from_iff:
  "scan_from p P s k \<longleftrightarrow> (\<exists>i. k \<le> i \<and> i \<le> length s \<and> starts_with (drop i s) p \<and> P i)"
proof (induction p P s k rule: scan_from.induct)
  case (1 p P s k)
  show ?case
  proof (cases "find_from p s k")
    case None
    then show ?thesis using find_from_None [OF None] by (subst scan_from.simps) auto
  next
    case (Some i)
    note i = find_from_Some [OF Some] and least = find_from_least [OF Some]
    have "(\<exists>j. k \<le> j \<and> j \<le> length s \<and> starts_with (drop j s) p \<and> P j) \<longleftrightarrow>
          P i \<or> (\<exists>j. Suc i \<le> j \<and> j \<le> length s \<and> starts_with (drop j s) p \<and> P j)"
    proof
      assume "\<exists>j. k \<le> j \<and> j \<le> length s \<and> starts_with (drop j s) p \<and> P j"
      then obtain j where j: "k \<le> j" "j \<le> length s" "starts_with (drop j s) p" "P j" by blast
      with least have "i \<le> j" by (metis not_le)
      with j show "P i \<or> (\<exists>j. Suc i \<le> j \<and> j \<le> length s \<and> starts_with (drop j s) p \<and> P j)"
        by (metis Suc_leI le_neq_implies_less)
    next
      assume "P i \<or> (\<exists>j. Suc i \<le> j \<and> j \<le> length s \<and> starts_with (drop j s) p \<and> P j)"
      then show "\<exists>j. k \<le> j \<and> j \<le> length s \<and> starts_with (drop j s) p \<and> P j"
        using i by (meson Suc_leD order_trans)
    qed
    with 1 Some show ?thesis by (subst scan_from.simps) auto
  qed
qed

lemma drop_split: "i \<le> length s \<Longrightarrow> starts_with (drop i s) p \<Longrightarrow> \<exists>v. s = take i s @ p @ v"
  by (metis append_take_drop_id starts_with_iff)

lemma find_sub_char_Some:
  "find_sub [d] s = Some i \<longleftrightarrow> (\<exists>a b. s = a @ d # b \<and> d \<notin> set a \<and> i = length a)"
proof
  assume f: "find_sub [d] s = Some i"
  have i: "i \<le> length s" "starts_with (drop i s) [d]" using find_sub_Some [OF f] by auto
  then obtain b where s: "s = take i s @ d # b" using drop_split by fastforce
  have "d \<notin> set (take i s)"
  proof
    assume "d \<in> set (take i s)"
    then obtain j where j: "j < i" "j < length s" "s ! j = d" by (auto simp: in_set_conv_nth)
    then have "starts_with (drop j s) [d]" by (simp add: starts_with_def take_Suc_conv_app_nth Cons_nth_drop_Suc [symmetric])
    with find_sub_least [OF f j(1)] show False by simp
  qed
  with s i(1) show "\<exists>a b. s = a @ d # b \<and> d \<notin> set a \<and> i = length a"
    by (intro exI [of _ "take i s"] exI [of _ b]) auto
next
  assume "\<exists>a b. s = a @ d # b \<and> d \<notin> set a \<and> i = length a"
  then obtain a b where "s = a @ d # b" "d \<notin> set a" "i = length a" by blast
  then show "find_sub [d] s = Some i"
    by (induction a arbitrary: s i) (auto simp: starts_with_def)
qed

lemma find_sub_char_None: "find_sub [d] s = None \<longleftrightarrow> d \<notin> set s"
  by (induction s) (auto simp: starts_with_def)

text \<open>A scan that looks at the text before and after each occurrence.\<close>

lemma scan_split:
  assumes "\<And>i. P i \<longleftrightarrow> Q (take i s) (drop (i + length p) s)"
  shows "scan_from p P s 0 \<longleftrightarrow> (\<exists>u v. s = u @ p @ v \<and> Q u v)"
proof
  assume "scan_from p P s 0"
  then obtain i where i: "i \<le> length s" "starts_with (drop i s) p" "P i" by (auto simp: scan_from_iff)
  obtain v where v: "s = take i s @ p @ v" using drop_split [OF i(1,2)] by blast
  have "drop (i + length p) s = v"
    using i(1) by (subst v) simp
  with i(3) assms v show "\<exists>u v. s = u @ p @ v \<and> Q u v" by metis
next
  assume "\<exists>u v. s = u @ p @ v \<and> Q u v"
  then obtain u v where s: "s = u @ p @ v" and q: "Q u v" by blast
  have "starts_with (drop (length u) s) p" and "P (length u)"
    using s q by (auto simp: assms)
  then show "scan_from p P s 0"
    unfolding scan_from_iff using s by (intro exI [of _ "length u"] conjI) simp_all
qed

lemma split_at_first:
  "c \<notin> set a \<Longrightarrow> c \<notin> set b \<Longrightarrow> a @ c # x = b @ c # y \<Longrightarrow> a = b \<and> x = y"
proof (induction a arbitrary: b)
  case Nil
  then show ?case by (cases b) auto
next
  case (Cons d a)
  then show ?case by (cases b) auto
qed

lemma split_at_last:
  assumes "c \<notin> set x" and "c \<notin> set y" and "a @ c # x = b @ c # y"
  shows "a = b \<and> x = y"
proof -
  have "rev x @ c # rev a = rev y @ c # rev b"
    using arg_cong [OF assms(3), of rev] by simp
  then have "rev x = rev y \<and> rev a = rev b" using assms(1,2) by (intro split_at_first) auto
  then show ?thesis by simp
qed

subsection \<open>Characters\<close>

definition code :: "char \<Rightarrow> nat" where
  "code c = of_char c"

definition is_lower :: "char \<Rightarrow> bool" where
  "is_lower c \<longleftrightarrow> code CHR ''a'' \<le> code c \<and> code c \<le> code CHR ''z''"

definition is_upper :: "char \<Rightarrow> bool" where
  "is_upper c \<longleftrightarrow> code CHR ''A'' \<le> code c \<and> code c \<le> code CHR ''Z''"

definition is_digit :: "char \<Rightarrow> bool" where
  "is_digit c \<longleftrightarrow> code CHR ''0'' \<le> code c \<and> code c \<le> code CHR ''9''"

definition is_alpha :: "char \<Rightarrow> bool" where
  "is_alpha c \<longleftrightarrow> is_lower c \<or> is_upper c"

definition is_alnum :: "char \<Rightarrow> bool" where
  "is_alnum c \<longleftrightarrow> is_alpha c \<or> is_digit c"

definition is_space :: "char \<Rightarrow> bool" where
  "is_space c \<longleftrightarrow> c = CHR '' '' \<or> (9 \<le> code c \<and> code c \<le> 13)"

definition to_lower :: "char \<Rightarrow> char" where
  "to_lower c = (if is_upper c then char_of (code c - code CHR ''A'' + code CHR ''a'') else c)"

subsection \<open>Decimal printing: \<open>std::to_string\<close>\<close>

definition digit_char :: "nat \<Rightarrow> char" where
  "digit_char d = char_of (code CHR ''0'' + d)"

fun nat_to_string :: "nat \<Rightarrow> string" where
  "nat_to_string n =
     (if n < 10 then [digit_char n] else nat_to_string (n div 10) @ [digit_char (n mod 10)])"

declare nat_to_string.simps [simp del]

definition int_to_string :: "int \<Rightarrow> string" where
  "int_to_string i = (if i < 0 then CHR ''-'' # nat_to_string (nat (- i)) else nat_to_string (nat i))"

text \<open>The value of a run of decimal digits, as \<open>std::stoull\<close> and \<open>std::stoll\<close> accumulate it.\<close>

definition digit_val :: "char \<Rightarrow> nat" where
  "digit_val c = code c - code CHR ''0''"

definition dec_value :: "string \<Rightarrow> nat" where
  "dec_value s = foldl (\<lambda>n c. n * 10 + digit_val c) 0 s"

lemma code_digit_char: "d < 10 \<Longrightarrow> code (digit_char d) = 48 + d"
  by (simp add: code_def digit_char_def)

lemma digit_char_is_digit [simp]: "d < 10 \<Longrightarrow> is_digit (digit_char d)"
  using code_digit_char [of d] by (simp add: is_digit_def code_def)

lemma digit_val_digit_char [simp]: "d < 10 \<Longrightarrow> digit_val (digit_char d) = d"
  using code_digit_char [of d] by (simp add: digit_val_def code_def)

lemma dec_value_snoc: "dec_value (s @ [c]) = dec_value s * 10 + digit_val c"
  by (simp add: dec_value_def)

lemma nat_to_string_digits: "\<forall>c \<in> set (nat_to_string n). is_digit c"
proof (induction n rule: nat_to_string.induct)
  case (1 n)
  then show ?case by (subst nat_to_string.simps) auto
qed

lemma nat_to_string_nonempty [simp]: "nat_to_string n \<noteq> []"
  by (subst nat_to_string.simps) simp

lemma dec_value_nat_to_string [simp]: "dec_value (nat_to_string n) = n"
proof (induction n rule: nat_to_string.induct)
  case (1 n)
  show ?case
  proof (cases "n < 10")
    case True
    then show ?thesis by (subst nat_to_string.simps) (simp add: dec_value_def)
  next
    case False
    with 1 show ?thesis by (subst nat_to_string.simps) (simp add: dec_value_snoc)
  qed
qed

subsection \<open>Machines with an invariant\<close>

text \<open>
  The interface every stateful component offers to the proofs about runs: a step for each
  request and an invariant the steps keep.  \<open>run\<close> executes a list of requests.
\<close>

fun run :: "('e \<Rightarrow> 's \<Rightarrow> 's) \<Rightarrow> 'e list \<Rightarrow> 's \<Rightarrow> 's" where
  "run step [] s = s"
| "run step (e # es) s = run step es (step e s)"

lemma run_append: "run step (xs @ ys) s = run step ys (run step xs s)"
  by (induction xs arbitrary: s) auto

locale invariant_machine =
  fixes step :: "'e \<Rightarrow> 's \<Rightarrow> 's"
    and inv :: "'s \<Rightarrow> bool"
  assumes step_keeps: "inv s \<Longrightarrow> inv (step e s)"
begin

lemma run_keeps: "inv s \<Longrightarrow> inv (run step es s)"
  by (induction es arbitrary: s) (auto simp: step_keeps)

end

locale monotone_machine = invariant_machine +
  fixes rank :: "'s \<Rightarrow> 'r::preorder"
  assumes step_rank: "inv s \<Longrightarrow> rank s \<le> rank (step e s)"
begin

lemma run_rank: "inv s \<Longrightarrow> rank s \<le> rank (run step es s)"
proof (induction es arbitrary: s)
  case Nil
  then show ?case by simp
next
  case (Cons e es)
  have "rank s \<le> rank (step e s)" using Cons.prems by (rule step_rank)
  also have "\<dots> \<le> rank (run step es (step e s))" using Cons by (simp add: step_keeps)
  finally show ?case by simp
qed

lemma run_rank_prefix: "inv s \<Longrightarrow> rank (run step xs s) \<le> rank (run step (xs @ ys) s)"
  by (simp add: run_append run_rank run_keeps)

end

end
