(* ===== verification/Outbound_Actions.thy ===== *)
theory Outbound_Actions
  imports Prelude
begin

text \<open>
  The outbound action vocabulary (src/src/app/outbound/actions.hpp and actions.cpp): the
  seven action kinds with their wire names, the proposal that enters policy evaluation, its
  identity for duplicate suppression, and the verdict and reason names.
\<close>

datatype OutboundActionKind =
    Kind_Post | Kind_Reply | Kind_Like | Kind_Repost | Kind_Follow | Kind_Unfollow | Kind_Moderation

definition kind_table :: "(OutboundActionKind \<times> string) list" where
  "kind_table =
     [(Kind_Post, ''post''), (Kind_Reply, ''reply''), (Kind_Like, ''like''),
      (Kind_Repost, ''repost''), (Kind_Follow, ''follow''), (Kind_Unfollow, ''unfollow''),
      (Kind_Moderation, ''moderation'')]"

fun first_name :: "(OutboundActionKind \<times> string) list \<Rightarrow> OutboundActionKind \<Rightarrow> string" where
  "first_name [] kind = ''unknown''"
| "first_name ((k, name) # rest) kind = (if k = kind then name else first_name rest kind)"

fun first_kind :: "(OutboundActionKind \<times> string) list \<Rightarrow> string \<Rightarrow> OutboundActionKind option" where
  "first_kind [] name = None"
| "first_kind ((k, n) # rest) name = (if name = n then Some k else first_kind rest name)"

definition outbound_kind_name :: "OutboundActionKind \<Rightarrow> string" where
  "outbound_kind_name kind = first_name kind_table kind"

definition parse_outbound_kind :: "string \<Rightarrow> OutboundActionKind option" where
  "parse_outbound_kind name = first_kind kind_table name"

definition all_kinds :: "OutboundActionKind list" where
  "all_kinds = map fst kind_table"

record OutboundActionProposal =
  prop_kind :: OutboundActionKind
  prop_target :: string
  prop_digest :: string

definition outbound_dedup_key :: "OutboundActionProposal \<Rightarrow> string" where
  "outbound_dedup_key p = outbound_kind_name (prop_kind p) @ '':'' @ prop_target p @ '':'' @ prop_digest p"

datatype OutboundOutcome = Outcome_Allow | Outcome_Deny | Outcome_Defer

datatype OutboundReason =
    Reason_Allow | KindDisabled | UnsupportedKind | DuplicateSuppressed | CooldownActive
  | WindowExhausted

fun outbound_outcome_name :: "OutboundOutcome \<Rightarrow> string" where
  "outbound_outcome_name Outcome_Allow = ''allow''"
| "outbound_outcome_name Outcome_Deny = ''deny''"
| "outbound_outcome_name Outcome_Defer = ''defer''"

fun outbound_reason_code :: "OutboundReason \<Rightarrow> string" where
  "outbound_reason_code Reason_Allow = ''allow''"
| "outbound_reason_code KindDisabled = ''kind_disabled''"
| "outbound_reason_code UnsupportedKind = ''unsupported_kind''"
| "outbound_reason_code DuplicateSuppressed = ''duplicate_suppressed''"
| "outbound_reason_code CooldownActive = ''cooldown_active''"
| "outbound_reason_code WindowExhausted = ''window_exhausted''"

lemma set_all_kinds [simp]: "set all_kinds = UNIV"
proof -
  have "k \<in> set all_kinds" for k
    by (cases k) (simp_all add: all_kinds_def kind_table_def)
  then show ?thesis by blast
qed

lemma distinct_all_kinds: "distinct all_kinds"
  by (simp add: all_kinds_def kind_table_def)

lemma kind_name_parses: "parse_outbound_kind (outbound_kind_name k) = Some k"
  by (cases k) (simp_all add: parse_outbound_kind_def outbound_kind_name_def kind_table_def)

lemma parsed_kind_name: "parse_outbound_kind s = Some k \<Longrightarrow> outbound_kind_name k = s"
  by (auto simp: parse_outbound_kind_def outbound_kind_name_def kind_table_def split: if_splits)

lemma kind_name_no_colon: "CHR '':'' \<notin> set (outbound_kind_name k)"
  by (cases k) (simp_all add: outbound_kind_name_def kind_table_def)

text \<open>
  The key separates its parts by colons, and a DID or at-URI target holds colons itself.  The
  key still identifies the proposal when the digests have no colon, as every control digest
  (hexadecimal) does: the kind ends at the first colon and the digest starts after the last.
\<close>

lemma dedup_key_inj:
  assumes "outbound_dedup_key p = outbound_dedup_key q"
    and "CHR '':'' \<notin> set (prop_digest p)" and "CHR '':'' \<notin> set (prop_digest q)"
  shows "prop_kind p = prop_kind q \<and> prop_target p = prop_target q \<and> prop_digest p = prop_digest q"
proof -
  have "outbound_kind_name (prop_kind p) = outbound_kind_name (prop_kind q) \<and>
        prop_target p @ '':'' @ prop_digest p = prop_target q @ '':'' @ prop_digest q"
    using assms(1) kind_name_no_colon by (intro split_at_first) (auto simp: outbound_dedup_key_def)
  moreover from this have "prop_target p = prop_target q \<and> prop_digest p = prop_digest q"
    using assms(2,3) by (intro split_at_last) auto
  ultimately show ?thesis
    using kind_name_parses by (metis option.inject)
qed

end
