(* ===== verification/Cjson.thy ===== *)
theory Cjson
  imports Prelude Complex_Main
begin

text \<open>
  The interface of the JSON library (cJSON, a third-party package) as the sources use it.
  Nothing is assumed about the library: every function below that reads a document takes the
  accessors as the record parameter \<open>J\<close>, and the theorems hold for every such record.
  A pointer that may be null is an \<open>option\<close>; the \<open>cJSON_Is...\<close> tests answer false on a null
  pointer, which is what the lifted tests do.

  A \<open>double\<close> is an IEEE value: a finite real, an infinity, or not-a-number.  The sources only
  compare and convert them, so no rounding enters the model.  \<open>static_cast\<close> of a value outside
  the target type is undefined in C++, and is the exception \<open>Undefined_behaviour\<close> here.
\<close>

datatype double = Finite real | PosInfinity | NegInfinity | NaN

text \<open>
  A document the program builds with the \<open>cJSON_Create...\<close> and \<open>cJSON_Add...ToObject\<close>
  calls: the calls in their order are the fields in their order.
\<close>

datatype node =
    Node_Null
  | Node_Bool bool
  | Node_Number real
  | Node_String string
  | Node_Array "node list"
  | Node_Object "(string \<times> node) list"

record 'j cjson =
  j_parse :: "string \<Rightarrow> 'j option"        \<comment> \<open>\<open>cJSON_ParseWithLength\<close>\<close>
  j_is_object :: "'j \<Rightarrow> bool"
  j_is_array :: "'j \<Rightarrow> bool"
  j_is_string :: "'j \<Rightarrow> bool"
  j_is_number :: "'j \<Rightarrow> bool"
  j_is_bool :: "'j \<Rightarrow> bool"
  j_is_true :: "'j \<Rightarrow> bool"
  j_is_null :: "'j \<Rightarrow> bool"
  j_item :: "'j \<Rightarrow> string \<Rightarrow> 'j option"    \<comment> \<open>\<open>cJSON_GetObjectItemCaseSensitive\<close>\<close>
  j_children :: "'j \<Rightarrow> 'j list"            \<comment> \<open>the order \<open>cJSON_ArrayForEach\<close> visits\<close>
  j_name :: "'j \<Rightarrow> string option"          \<comment> \<open>the field \<open>string\<close>\<close>
  j_str :: "'j \<Rightarrow> string option"           \<comment> \<open>the field \<open>valuestring\<close>\<close>
  j_num :: "'j \<Rightarrow> double"                  \<comment> \<open>the field \<open>valuedouble\<close>\<close>
  j_int :: "'j \<Rightarrow> int"                     \<comment> \<open>the field \<open>valueint\<close>\<close>
  j_quote :: "string \<Rightarrow> string"            \<comment> \<open>\<open>cJSON_CreateString\<close>, printed\<close>
  j_print :: "node \<Rightarrow> string"              \<comment> \<open>\<open>cJSON_PrintUnformatted\<close> of a built document\<close>
  dbl_to_string :: "double \<Rightarrow> string"      \<comment> \<open>\<open>std::to_string(double)\<close>\<close>

definition lifted :: "('j \<Rightarrow> bool) \<Rightarrow> 'j option \<Rightarrow> bool" where
  "lifted p v = (case v of None \<Rightarrow> False | Some x \<Rightarrow> p x)"

lemma lifted_simps [simp]: "lifted p None = False" "lifted p (Some x) = p x"
  by (simp_all add: lifted_def)

lemma lifted_Some: "lifted p v \<longleftrightarrow> (\<exists>x. v = Some x \<and> p x)"
  by (cases v) auto

subsection \<open>Doubles\<close>

definition dbl_isfinite :: "double \<Rightarrow> bool" where
  "dbl_isfinite d = (case d of Finite _ \<Rightarrow> True | _ \<Rightarrow> False)"

text \<open>\<open>dbl_lt a b\<close> is \<open>a < b\<close>: every comparison with not-a-number is false.\<close>

fun dbl_lt :: "double \<Rightarrow> double \<Rightarrow> bool" where
  "dbl_lt (Finite x) (Finite y) = (x < y)"
| "dbl_lt NegInfinity (Finite y) = True"
| "dbl_lt (Finite x) PosInfinity = True"
| "dbl_lt NegInfinity PosInfinity = True"
| "dbl_lt _ _ = False"

text \<open>\<open>std::floor(d) == d\<close> on a finite value.\<close>

definition dbl_is_whole :: "double \<Rightarrow> bool" where
  "dbl_is_whole d = (case d of Finite x \<Rightarrow> real_of_int \<lfloor>x\<rfloor> = x | _ \<Rightarrow> False)"

text \<open>Truncation toward zero, as the conversions from \<open>double\<close> do.\<close>

definition trunc_zero :: "real \<Rightarrow> int" where
  "trunc_zero x = (if 0 \<le> x then \<lfloor>x\<rfloor> else \<lceil>x\<rceil>)"

definition dbl_to_int :: "int \<Rightarrow> int \<Rightarrow> double \<Rightarrow> int result" where
  "dbl_to_int low high d =
     (case d of
        Finite x \<Rightarrow>
          (if low \<le> trunc_zero x \<and> trunc_zero x \<le> high then Inr (trunc_zero x)
           else throw Undefined_behaviour ''conversion out of range'')
      | _ \<Rightarrow> throw Undefined_behaviour ''conversion of a non-finite double'')"

definition to_int64 :: "double \<Rightarrow> int result" where
  "to_int64 d = dbl_to_int (- (2 ^ 63)) (2 ^ 63 - 1) d"

definition to_uint32 :: "double \<Rightarrow> int result" where
  "to_uint32 d = dbl_to_int 0 (2 ^ 32 - 1) d"

definition to_uint64 :: "double \<Rightarrow> int result" where
  "to_uint64 d = dbl_to_int 0 (2 ^ 64 - 1) d"

lemma dbl_to_int_bounds: "dbl_to_int low high d = Inr i \<Longrightarrow> low \<le> i \<and> i \<le> high"
  by (auto simp: dbl_to_int_def split: double.splits if_splits)

lemma to_int64_bounds: "to_int64 d = Inr i \<Longrightarrow> - (2 ^ 63) \<le> i \<and> i < 2 ^ 63"
  unfolding to_int64_def by (drule dbl_to_int_bounds) simp

lemma to_uint64_bounds: "to_uint64 d = Inr i \<Longrightarrow> 0 \<le> i \<and> i < 2 ^ 64"
  unfolding to_uint64_def by (drule dbl_to_int_bounds) simp

lemma to_uint32_bounds: "to_uint32 d = Inr i \<Longrightarrow> 0 \<le> i \<and> i < 2 ^ 32"
  unfolding to_uint32_def by (drule dbl_to_int_bounds) simp

text \<open>The helper \<open>integral_number\<close>, repeated in the sources that read whole numbers.\<close>

definition integral_number :: "'j cjson \<Rightarrow> 'j option \<Rightarrow> bool" where
  "integral_number J v = lifted (\<lambda>x. j_is_number J x \<and> dbl_isfinite (j_num J x) \<and> dbl_is_whole (j_num J x)) v"

text \<open>A non-empty C string: \<open>cJSON_IsString(v) && v->valuestring && v->valuestring[0]\<close>.\<close>

definition nonempty_string :: "'j cjson \<Rightarrow> 'j option \<Rightarrow> string option" where
  "nonempty_string J v =
     (case v of
        None \<Rightarrow> None
      | Some x \<Rightarrow>
          (if j_is_string J x then
             (case j_str J x of None \<Rightarrow> None | Some s \<Rightarrow> (if s = [] then None else Some s))
           else None))"

lemma nonempty_string_nonempty: "nonempty_string J v = Some s \<Longrightarrow> s \<noteq> []"
  by (auto simp: nonempty_string_def split: option.splits if_splits)

text \<open>\<open>valuestring\<close> of a string node; a null pointer counts as no string.\<close>

definition string_value :: "'j cjson \<Rightarrow> 'j option \<Rightarrow> string option" where
  "string_value J v =
     (case v of None \<Rightarrow> None | Some x \<Rightarrow> if j_is_string J x then j_str J x else None)"

subsection \<open>Reading back what was printed\<close>

text \<open>
  \<open>reads_back J text members\<close>: the library parses \<open>text\<close> as an object with exactly these
  members.  It is what cJSON documents of the text it printed for that object, and it is a
  hypothesis of the round-trip properties.
\<close>

lemma node_member_size:
  "(k, n) \<in> set ms \<Longrightarrow> size n < size (Node_Object ms)"
  by (induction ms) auto

lemma node_element_size:
  "i < length ns \<Longrightarrow> size (ns ! i) < size (Node_Array ns)"
proof -
  assume "i < length ns"
  then have "size (ns ! i) < Suc (size_list size ns)"
    by (metis less_Suc_eq_le nth_mem order_refl size_list_estimation')
  then show ?thesis by simp
qed

function is_node :: "'j cjson \<Rightarrow> 'j \<Rightarrow> node \<Rightarrow> bool" where
  "is_node J x Node_Null \<longleftrightarrow> j_is_null J x \<and> \<not> j_is_string J x \<and> \<not> j_is_number J x \<and> \<not> j_is_bool J x"
| "is_node J x (Node_Bool b) \<longleftrightarrow>
     j_is_bool J x \<and> j_is_true J x = b \<and> \<not> j_is_null J x \<and> \<not> j_is_string J x \<and> \<not> j_is_number J x"
| "is_node J x (Node_Number r) \<longleftrightarrow>
     j_is_number J x \<and> j_num J x = Finite r \<and> (r = 1 \<longrightarrow> j_int J x = 1) \<and>
     \<not> j_is_null J x \<and> \<not> j_is_string J x \<and> \<not> j_is_bool J x"
| "is_node J x (Node_String s) \<longleftrightarrow>
     j_is_string J x \<and> j_str J x = Some s \<and> \<not> j_is_null J x \<and> \<not> j_is_number J x \<and> \<not> j_is_bool J x"
| "is_node J x (Node_Array ns) \<longleftrightarrow>
     j_is_array J x \<and> \<not> j_is_null J x \<and> length (j_children J x) = length ns \<and>
     (\<forall>i < length ns. is_node J (j_children J x ! i) (ns ! i))"
| "is_node J x (Node_Object ms) \<longleftrightarrow>
     j_is_object J x \<and> \<not> j_is_null J x \<and>
     (\<forall>k. map_of ms k = None \<longrightarrow> j_item J x k = None) \<and>
     (\<forall>m \<in> set ms. case j_item J x (fst m) of None \<Rightarrow> False | Some y \<Rightarrow> is_node J y (snd m))"
  by pat_completeness auto
termination
  by (relation "measure (\<lambda>(J, x, n). size n)") (auto simp: node_member_size [simplified] node_element_size [simplified])

definition reads_back :: "'j cjson \<Rightarrow> string \<Rightarrow> (string \<times> node) list \<Rightarrow> bool" where
  "reads_back J text members \<longleftrightarrow>
     (case j_parse J text of
        None \<Rightarrow> False
      | Some doc \<Rightarrow> j_is_object J doc \<and>
          (\<forall>k. case map_of members k of
                 None \<Rightarrow> j_item J doc k = None
               | Some n \<Rightarrow> (case j_item J doc k of None \<Rightarrow> False | Some x \<Rightarrow> is_node J x n)))"

lemma reads_back_doc:
  assumes "reads_back J text members"
  obtains doc where "j_parse J text = Some doc" "j_is_object J doc"
    "\<And>k n. map_of members k = Some n \<Longrightarrow> \<exists>x. j_item J doc k = Some x \<and> is_node J x n"
    "\<And>k. map_of members k = None \<Longrightarrow> j_item J doc k = None"
proof -
  obtain doc where doc: "j_parse J text = Some doc" "j_is_object J doc"
    and items: "\<And>k. case map_of members k of None \<Rightarrow> j_item J doc k = None
               | Some n \<Rightarrow> (case j_item J doc k of None \<Rightarrow> False | Some x \<Rightarrow> is_node J x n)"
    using assms by (auto simp: reads_back_def split: option.splits)
  have "\<exists>x. j_item J doc k = Some x \<and> is_node J x n" if "map_of members k = Some n" for k n
    using items [of k] that by (auto split: option.splits)
  moreover have "j_item J doc k = None" if "map_of members k = None" for k
    using items [of k] that by simp
  ultimately show thesis using that doc by blast
qed

text \<open>
  A library that knows a given table of texts, for evaluating the definitions on concrete
  documents.  A node carries the key it has in its parent object.
\<close>

definition table_cjson :: "(string \<Rightarrow> node option) \<Rightarrow> (node \<Rightarrow> string) \<Rightarrow> (string option \<times> node) cjson" where
  "table_cjson parse print =
     \<lparr>j_parse = (\<lambda>t. map_option (Pair None) (parse t)),
      j_is_object = (\<lambda>x. case snd x of Node_Object _ \<Rightarrow> True | _ \<Rightarrow> False),
      j_is_array = (\<lambda>x. case snd x of Node_Array _ \<Rightarrow> True | _ \<Rightarrow> False),
      j_is_string = (\<lambda>x. case snd x of Node_String _ \<Rightarrow> True | _ \<Rightarrow> False),
      j_is_number = (\<lambda>x. case snd x of Node_Number _ \<Rightarrow> True | _ \<Rightarrow> False),
      j_is_bool = (\<lambda>x. case snd x of Node_Bool _ \<Rightarrow> True | _ \<Rightarrow> False),
      j_is_true = (\<lambda>x. case snd x of Node_Bool b \<Rightarrow> b | _ \<Rightarrow> False),
      j_is_null = (\<lambda>x. case snd x of Node_Null \<Rightarrow> True | _ \<Rightarrow> False),
      j_item = (\<lambda>x k. case snd x of Node_Object fs \<Rightarrow> map_option (Pair (Some k)) (map_of fs k) | _ \<Rightarrow> None),
      j_children = (\<lambda>x. case snd x of
                          Node_Object fs \<Rightarrow> map (\<lambda>(k, n). (Some k, n)) fs
                        | Node_Array ns \<Rightarrow> map (Pair None) ns | _ \<Rightarrow> []),
      j_name = fst,
      j_str = (\<lambda>x. case snd x of Node_String s \<Rightarrow> Some s | _ \<Rightarrow> None),
      j_num = (\<lambda>x. case snd x of Node_Number r \<Rightarrow> Finite r | _ \<Rightarrow> Finite 0),
      j_int = (\<lambda>x. case snd x of Node_Number r \<Rightarrow> trunc_zero r | _ \<Rightarrow> 0),
      j_quote = (\<lambda>s. [CHR 0x22] @ s @ [CHR 0x22]),
      j_print = print,
      dbl_to_string = (\<lambda>_. [])\<rparr>"

fun well_keyed :: "node \<Rightarrow> bool" where
  "well_keyed (Node_Object ms) \<longleftrightarrow> distinct (map fst ms) \<and> list_all (well_keyed \<circ> snd) ms"
| "well_keyed (Node_Array ns) \<longleftrightarrow> list_all well_keyed ns"
| "well_keyed _ \<longleftrightarrow> True"

lemma table_is_node: "well_keyed n \<Longrightarrow> is_node (table_cjson parse print) (k, n) n"
proof (induction n arbitrary: k)
  case (Node_Object ms)
  have "is_node (table_cjson parse print) (Some (fst m), snd m) (snd m)" if "m \<in> set ms" for m
    using Node_Object that by (cases m) (auto simp: list_all_iff)
  moreover have "j_item (table_cjson parse print) (k, Node_Object ms) (fst m) = Some (Some (fst m), snd m)"
    if "m \<in> set ms" for m
    using Node_Object.prems that by (cases m) (simp add: table_cjson_def)
  ultimately show ?case by (auto simp: table_cjson_def)
next
  case (Node_Array ns)
  have "is_node (table_cjson parse print) (None, n) n" if "n \<in> set ns" for n
    using Node_Array that by (auto simp: list_all_iff)
  then show ?case by (auto simp: table_cjson_def)
qed (auto simp: table_cjson_def trunc_zero_def)

lemma table_reads_back:
  "parse text = Some (Node_Object members) \<Longrightarrow> well_keyed (Node_Object members) \<Longrightarrow>
     reads_back (table_cjson parse print) text members"
proof -
  assume p: "parse text = Some (Node_Object members)" and w: "well_keyed (Node_Object members)"
  have "is_node (table_cjson parse print) (Some k, n) n" if "map_of members k = Some n" for k n
    using w that by (intro table_is_node) (auto simp: list_all_iff dest: map_of_SomeD)
  with p show ?thesis
    by (auto simp: reads_back_def table_cjson_def split: option.splits)
qed

end
