(* ===== verification/Files.thy ===== *)
theory Files
  imports Prelude
begin

text \<open>
  The file system as the stores use it (\<open>std::filesystem\<close>, \<open>std::ifstream\<close>,
  \<open>std::ofstream\<close>): a map from paths to files, where a file that exists may still refuse to
  be opened or read.  Every state file is saved by the same sequence: write \<open><path>.tmp\<close>,
  flush, rename over the committed file.  Which of the three calls fails is an argument of
  the model, and \<open>save_crash_states\<close> lists what a crash at any moment of the sequence can
  leave on disk.
\<close>

datatype file_state = Missing | Unopenable | Unreadable | Present string

type_synonym fs = "string \<Rightarrow> file_state"

record io =
  create_ok :: bool
  write_ok :: bool
  rename_ok :: bool

definition io_ok :: io where
  "io_ok = \<lparr>create_ok = True, write_ok = True, rename_ok = True\<rparr>"

definition tmp_path :: "string \<Rightarrow> string" where
  "tmp_path path = path @ ''.tmp''"

text \<open>\<open>label\<close> is the prefix of the module's messages.\<close>

definition save_atomic :: "string \<Rightarrow> io \<Rightarrow> string \<Rightarrow> string \<Rightarrow> fs \<Rightarrow> unit result \<times> fs" where
  "save_atomic label io path payload fs =
     (let tmp = tmp_path path in
      if \<not> create_ok io then
        (throw Runtime_error (label @ '': could not create '' @ tmp), fs)
      else if \<not> write_ok io then
        (throw Runtime_error (label @ '': could not write '' @ tmp), fs(tmp := Missing))
      else if \<not> rename_ok io then
        (throw Runtime_error (label @ '': could not commit '' @ path), fs(tmp := Missing))
      else
        (Inr (), fs(tmp := Missing, path := Present payload)))"

text \<open>
  The same sequence as the operating system sees it: create the temporary file, add the payload
  a byte at a time, rename.  A crash stops it after any number of these operations.
\<close>

datatype fs_op = Op_Create string | Op_Write string char | Op_Rename string string

fun fs_apply :: "fs \<Rightarrow> fs_op \<Rightarrow> fs" where
  "fs_apply fs (Op_Create p) = fs(p := Present [])"
| "fs_apply fs (Op_Write p c) = (case fs p of Present t \<Rightarrow> fs(p := Present (t @ [c])) | _ \<Rightarrow> fs)"
| "fs_apply fs (Op_Rename p q) = fs(q := fs p, p := Missing)"

definition save_ops :: "string \<Rightarrow> string \<Rightarrow> fs_op list" where
  "save_ops path payload =
     Op_Create (tmp_path path) # map (Op_Write (tmp_path path)) payload @ [Op_Rename (tmp_path path) path]"

definition save_crash_states :: "string \<Rightarrow> string \<Rightarrow> fs \<Rightarrow> fs list" where
  "save_crash_states path payload fs =
     map (\<lambda>n. foldl fs_apply fs (take n (save_ops path payload))) [0..<length (save_ops path payload) + 1]"

definition read_text :: "string \<Rightarrow> string \<Rightarrow> fs \<Rightarrow> string result" where
  "read_text label path fs =
     (case fs path of
        Present text \<Rightarrow> Inr text
      | Unreadable \<Rightarrow> throw Runtime_error (label @ '': could not read '' @ path)
      | _ \<Rightarrow> throw Runtime_error (label @ '': could not open '' @ path))"

lemma tmp_path_neq [simp]: "tmp_path p \<noteq> p" "p \<noteq> tmp_path p"
  by (simp_all add: tmp_path_def)

lemma save_atomic_ok:
  "save_atomic label io path payload fs = (Inr u, fs') \<Longrightarrow> fs' path = Present payload"
  by (auto simp: save_atomic_def Let_def split: if_splits)

lemma save_atomic_ok_iff:
  "(\<exists>fs'. save_atomic label io path payload fs = (Inr (), fs')) \<longleftrightarrow>
     create_ok io \<and> write_ok io \<and> rename_ok io"
  by (auto simp: save_atomic_def Let_def split: if_splits)

lemma save_atomic_failed:
  "save_atomic label io path payload fs = (Inl e, fs') \<Longrightarrow>
     fs' path = fs path \<and> exn_class e = Runtime_error"
  by (auto simp: save_atomic_def Let_def split: if_splits)

lemma save_atomic_other:
  "snd (save_atomic label io path payload fs) p =
     (if p = path \<and> create_ok io \<and> write_ok io \<and> rename_ok io then Present payload
      else if p = tmp_path path \<and> create_ok io then Missing else fs p)"
  by (auto simp: save_atomic_def Let_def)

lemma write_ops: "fs p = Present t \<Longrightarrow> foldl fs_apply fs (map (Op_Write p) cs) = fs(p := Present (t @ cs))"
  by (induction cs arbitrary: fs t) auto

lemma save_ops_run:
  "foldl fs_apply fs (save_ops path payload) = snd (save_atomic label io_ok path payload fs)"
  by (simp add: save_ops_def write_ops save_atomic_def io_ok_def Let_def fun_upd_twist)

lemma save_crash_last:
  "last (save_crash_states path payload fs) = snd (save_atomic label io_ok path payload fs)"
  by (simp add: save_crash_states_def save_ops_run [where label = label])

lemma save_ops_prefix:
  assumes "n < length (save_ops path payload)"
  shows "foldl fs_apply fs (take n (save_ops path payload)) =
     (if n = 0 then fs else fs(tmp_path path := Present (take (n - 1) payload)))"
proof (cases n)
  case (Suc m)
  then have "take m (map (Op_Write (tmp_path path)) payload @ [Op_Rename (tmp_path path) path]) =
      map (Op_Write (tmp_path path)) (take m payload)"
    using assms by (simp add: save_ops_def take_map)
  with Suc show ?thesis by (simp add: save_ops_def write_ops)
qed simp

lemma save_crash_safe:
  assumes "fs' \<in> set (save_crash_states path payload fs)"
  shows "(fs' path = fs path \<or> fs' path = Present payload) \<and>
     (\<forall>p. p \<noteq> path \<longrightarrow> p \<noteq> tmp_path path \<longrightarrow> fs' p = fs p)"
proof -
  let ?ops = "save_ops path payload"
  obtain n where n: "fs' = foldl fs_apply fs (take n ?ops)" "n \<in> {0..<length ?ops + 1}"
    using assms unfolding save_crash_states_def set_map set_upt by (rule imageE)
  show ?thesis
  proof (cases "n < length ?ops")
    case True
    then show ?thesis using n(1) by (simp add: save_ops_prefix)
  next
    case False
    with n have "fs' = foldl fs_apply fs ?ops" by simp
    then show ?thesis by (simp add: save_ops_run [where label = "[]"] save_atomic_def io_ok_def Let_def)
  qed
qed

subsection \<open>Directories\<close>

text \<open>
  A directory of regular files: names with contents, in the order the directory iterator
  yields them, which the operating system chooses.  \<open>dir_ok\<close>: no name twice.
\<close>

type_synonym dir = "(string \<times> string) list"

definition dir_ok :: "dir \<Rightarrow> bool" where
  "dir_ok d \<longleftrightarrow> distinct (map fst d)"

definition dir_remove :: "string \<Rightarrow> dir \<Rightarrow> dir" where
  "dir_remove name d = filter (\<lambda>e. fst e \<noteq> name) d"

definition dir_put :: "string \<Rightarrow> string \<Rightarrow> dir \<Rightarrow> dir" where
  "dir_put name content d = dir_remove name d @ [(name, content)]"

lemma dir_ok_remove [step_inv]: "dir_ok d \<Longrightarrow> dir_ok (dir_remove name d)"
  by (simp add: dir_ok_def dir_remove_def distinct_map_filter)

lemma dir_ok_put [step_inv]: "dir_ok d \<Longrightarrow> dir_ok (dir_put name content d)"
  by (auto simp: dir_ok_def dir_put_def dir_remove_def distinct_map_filter)

lemma map_of_dir_remove: "map_of (dir_remove name d) n = (if n = name then None else map_of d n)"
  by (induction d) (auto simp: dir_remove_def)

lemma map_of_dir_put: "map_of (dir_put name content d) n = (if n = name then Some content else map_of d n)"
  by (simp add: dir_put_def map_of_append map_add_def map_of_dir_remove split: option.split)

lemma set_dir_put: "set (dir_put name content d) = insert (name, content) {e \<in> set d. fst e \<noteq> name}"
  by (auto simp: dir_put_def dir_remove_def)

lemma set_dir_remove: "set (dir_remove name d) = {e \<in> set d. fst e \<noteq> name}"
  by (auto simp: dir_remove_def)

end
