(* ===== verification/Outbound_Config.thy ===== *)
theory Outbound_Config
  imports Outbound_Actions Cjson Files
begin

text \<open>
  The outbound policy (src/src/app/outbound/config.hpp and config.cpp): one budget per action
  kind, its fail-closed default, validation, and the versioned JSON document.  Time lengths
  are \<open>int64_t\<close> seconds bounded by \<open>kMaxOutboundWindowSeconds\<close> in every validated policy,
  so they are \<open>int\<close> here; \<open>max_in_window\<close> is an unsigned count the code only compares.
\<close>

record ActionBudget =
  budget_enabled :: bool
  max_in_window :: nat
  window_seconds :: int
  min_interval_seconds :: int
  duplicate_cooldown_seconds :: int

text \<open>The array indexed by kind is a function of the kind.\<close>

record OutboundPolicy =
  policy_version :: nat
  budgets :: "OutboundActionKind \<Rightarrow> ActionBudget"

definition kMaxOutboundWindowSeconds :: int where
  "kMaxOutboundWindowSeconds = 366 * 24 * 60 * 60"

definition kMaxActionsInWindow :: nat where
  "kMaxActionsInWindow = 100000"

definition policy_format :: string where
  "policy_format = ''atperson-outbound-policy''"

definition default_budget :: ActionBudget where
  "default_budget =
     \<lparr>budget_enabled = False, max_in_window = 1, window_seconds = 24 * 60 * 60,
      min_interval_seconds = 0, duplicate_cooldown_seconds = 0\<rparr>"

definition default_outbound_policy :: OutboundPolicy where
  "default_outbound_policy = \<lparr>policy_version = 1, budgets = (\<lambda>_. default_budget)\<rparr>"

definition budget_for :: "OutboundPolicy \<Rightarrow> OutboundActionKind \<Rightarrow> ActionBudget" where
  "budget_for policy k = budgets policy k"

definition policy_invalid :: "string \<Rightarrow> string \<Rightarrow> 'a result" where
  "policy_invalid source msg = throw OutboundPolicyError (''outbound policy ('' @ source @ ''): '' @ msg)"

definition require_int64 ::
  "'j cjson \<Rightarrow> 'j \<Rightarrow> string \<Rightarrow> int \<Rightarrow> int \<Rightarrow> int \<Rightarrow> string \<Rightarrow> int result" where
  "require_int64 J obj key low high fallback source =
     (case j_item J obj key of
        None \<Rightarrow> Inr fallback
      | Some v \<Rightarrow>
          (if \<not> integral_number J (Some v) then
             policy_invalid source (''field '' @ key @ '' must be an integer'')
           else and_then (to_int64 (j_num J v)) (\<lambda>number.
             if number < low \<or> high < number then
               policy_invalid source (''field '' @ key @ '' out of range'')
             else Inr number)))"

definition parse_budget :: "'j cjson \<Rightarrow> 'j \<Rightarrow> string \<Rightarrow> string \<Rightarrow> ActionBudget result" where
  "parse_budget J obj name source =
     (let enabled = j_item J obj ''enabled'' in
      if \<not> lifted (j_is_bool J) enabled then
        policy_invalid source (''kind '' @ name @ '' is missing a boolean enabled'')
      else
        and_then (require_int64 J obj ''max_in_window'' 1 (int kMaxActionsInWindow)
                    (int (max_in_window default_budget)) source) (\<lambda>m.
        and_then (require_int64 J obj ''window_seconds'' 1 kMaxOutboundWindowSeconds
                    (window_seconds default_budget) source) (\<lambda>w.
        and_then (require_int64 J obj ''min_interval_seconds'' 0 kMaxOutboundWindowSeconds
                    (min_interval_seconds default_budget) source) (\<lambda>i.
        and_then (require_int64 J obj ''duplicate_cooldown_seconds'' 0 kMaxOutboundWindowSeconds
                    (duplicate_cooldown_seconds default_budget) source) (\<lambda>d.
        Inr \<lparr>budget_enabled = lifted (j_is_true J) enabled, max_in_window = nat m,
             window_seconds = w, min_interval_seconds = i, duplicate_cooldown_seconds = d\<rparr>)))))"

definition validate_budget :: "ActionBudget \<Rightarrow> OutboundActionKind \<Rightarrow> string \<Rightarrow> unit result" where
  "validate_budget b k source =
     (let bad = (\<lambda>field. policy_invalid source
                   (''kind '' @ outbound_kind_name k @ '' has an impossible '' @ field)) in
      if max_in_window b = 0 \<or> kMaxActionsInWindow < max_in_window b then bad ''max_in_window''
      else if window_seconds b < 1 \<or> kMaxOutboundWindowSeconds < window_seconds b then
        bad ''window_seconds''
      else if min_interval_seconds b < 0 \<or> kMaxOutboundWindowSeconds < min_interval_seconds b then
        bad ''min_interval_seconds''
      else if duplicate_cooldown_seconds b < 0 \<or>
              kMaxOutboundWindowSeconds < duplicate_cooldown_seconds b then
        bad ''duplicate_cooldown_seconds''
      else Inr ())"

definition validate_policy :: "OutboundPolicy \<Rightarrow> string \<Rightarrow> unit result" where
  "validate_policy policy source =
     (if policy_version policy \<noteq> 1 then
        policy_invalid source (''unsupported version '' @ nat_to_string (policy_version policy))
      else fold_result (\<lambda>k _. validate_budget (budgets policy k) k source) all_kinds ())"

definition append_budget :: "ActionBudget \<Rightarrow> string" where
  "append_budget b =
     ''{\"enabled\":'' @ (if budget_enabled b then ''true'' else ''false'') @
     '',\"max_in_window\":'' @ nat_to_string (max_in_window b) @
     '',\"window_seconds\":'' @ int_to_string (window_seconds b) @
     '',\"min_interval_seconds\":'' @ int_to_string (min_interval_seconds b) @
     '',\"duplicate_cooldown_seconds\":'' @ int_to_string (duplicate_cooldown_seconds b) @ ''}''"

fun join :: "string \<Rightarrow> string list \<Rightarrow> string" where
  "join sep [] = []"
| "join sep [x] = x"
| "join sep (x # y # ys) = x @ sep @ join sep (y # ys)"

definition quoted :: "string \<Rightarrow> string" where
  "quoted s = ''\"'' @ s @ ''\"''"

definition serialise_outbound_policy :: "OutboundPolicy \<Rightarrow> string result" where
  "serialise_outbound_policy policy =
     and_then (validate_policy policy ''<serialise>'') (\<lambda>_.
       Inr (''{\"format\":'' @ quoted policy_format @ '',\"version\":'' @
            nat_to_string (policy_version policy) @ '',\"kinds\":{'' @
            join '','' (map (\<lambda>k. quoted (outbound_kind_name k) @ '':'' @ append_budget (budgets policy k))
                        all_kinds) @
            ''}}'' @ [char_of (10::nat)]))"

text \<open>
  One turn of the loop over the entries of \<open>kinds\<close>: the set holds the kinds already seen.
\<close>

definition parse_policy_entry ::
  "'j cjson \<Rightarrow> string \<Rightarrow> 'j \<Rightarrow> OutboundPolicy \<times> OutboundActionKind set \<Rightarrow>
   (OutboundPolicy \<times> OutboundActionKind set) result" where
  "parse_policy_entry J source entry st =
     (case j_name J entry of
        None \<Rightarrow> policy_invalid source ''kinds entries must be named objects''
      | Some name \<Rightarrow>
          if \<not> j_is_object J entry then
            policy_invalid source ''kinds entries must be named objects''
          else case parse_outbound_kind name of
            None \<Rightarrow> policy_invalid source (''unknown action kind '' @ name)
          | Some k \<Rightarrow>
              if k \<in> snd st then policy_invalid source (''duplicate kind '' @ name)
              else and_then (parse_budget J entry name source) (\<lambda>b.
                Inr ((fst st)\<lparr>budgets := (budgets (fst st))(k := b)\<rparr>, insert k (snd st))))"

definition parse_outbound_policy :: "'j cjson \<Rightarrow> string \<Rightarrow> string \<Rightarrow> OutboundPolicy result" where
  "parse_outbound_policy J json source =
     (case j_parse J json of
        None \<Rightarrow> policy_invalid source ''not valid JSON''
      | Some doc \<Rightarrow>
          if \<not> j_is_object J doc then policy_invalid source ''not a JSON object''
          else case j_item J doc ''format'' of
            None \<Rightarrow> policy_invalid source ''missing string field format''
          | Some f \<Rightarrow>
            (case (if j_is_string J f then j_str J f else None) of
               None \<Rightarrow> policy_invalid source ''missing string field format''
             | Some fmt \<Rightarrow>
               if fmt \<noteq> policy_format then policy_invalid source (''unexpected format '' @ fmt)
               else case j_item J doc ''version'' of
                 None \<Rightarrow> policy_invalid source ''missing or invalid version''
               | Some v \<Rightarrow>
                 if \<not> integral_number J (Some v) then
                   policy_invalid source ''missing or invalid version''
                 else and_then (to_uint32 (j_num J v)) (\<lambda>version.
                   if version \<noteq> 1 then
                     policy_invalid source (''unsupported version '' @ dbl_to_string J (j_num J v))
                   else case j_item J doc ''kinds'' of
                     None \<Rightarrow> policy_invalid source ''missing kinds object''
                   | Some kinds \<Rightarrow>
                     if \<not> j_is_object J kinds then policy_invalid source ''missing kinds object''
                     else and_then (fold_result (parse_policy_entry J source) (j_children J kinds)
                                      (default_outbound_policy, {})) (\<lambda>st.
                       and_then (validate_policy (fst st) source) (\<lambda>_. Inr (fst st))))))"

definition load_outbound_policy :: "'j cjson \<Rightarrow> string \<Rightarrow> fs \<Rightarrow> OutboundPolicy result" where
  "load_outbound_policy J path fs =
     (if fs path = Missing then Inr default_outbound_policy
      else and_then (read_text ''outbound policy'' path fs) (\<lambda>text. parse_outbound_policy J text path))"

subsection \<open>What a loaded policy guarantees\<close>

definition budget_ok :: "ActionBudget \<Rightarrow> bool" where
  "budget_ok b \<longleftrightarrow>
     1 \<le> max_in_window b \<and> max_in_window b \<le> kMaxActionsInWindow \<and>
     1 \<le> window_seconds b \<and> window_seconds b \<le> kMaxOutboundWindowSeconds \<and>
     0 \<le> min_interval_seconds b \<and> min_interval_seconds b \<le> kMaxOutboundWindowSeconds \<and>
     0 \<le> duplicate_cooldown_seconds b \<and> duplicate_cooldown_seconds b \<le> kMaxOutboundWindowSeconds"

definition policy_ok :: "OutboundPolicy \<Rightarrow> bool" where
  "policy_ok policy \<longleftrightarrow> policy_version policy = 1 \<and> (\<forall>k. budget_ok (budgets policy k))"

lemma policy_invalid_neq [simp]: "policy_invalid s m \<noteq> Inr x"
  by (simp add: policy_invalid_def)

lemma validate_budget_iff: "validate_budget b k source = Inr u \<longleftrightarrow> budget_ok b"
  by (auto simp: validate_budget_def budget_ok_def Let_def)

lemma fold_validate:
  "fold_result (\<lambda>k _. validate_budget (budgets policy k) k source) ks () = Inr u \<longleftrightarrow>
     (\<forall>k \<in> set ks. budget_ok (budgets policy k))"
  by (induction ks) (auto simp: result_simps validate_budget_iff)

lemma validate_policy_iff: "validate_policy policy source = Inr u \<longleftrightarrow> policy_ok policy"
  by (auto simp: validate_policy_def policy_ok_def fold_validate)

lemma default_policy_ok: "policy_ok default_outbound_policy"
  by (simp add: policy_ok_def budget_ok_def default_outbound_policy_def default_budget_def
      kMaxActionsInWindow_def kMaxOutboundWindowSeconds_def)

text \<open>
  The loop invariant of the parse: the kinds seen so far are exactly those named by the
  entries read, and every other kind still has the disabled default.
\<close>

lemma parse_policy_entry_Inr:
  assumes "parse_policy_entry J source entry (p, seen) = Inr (p', seen')"
  obtains name k b where "j_name J entry = Some name" "parse_outbound_kind name = Some k"
    "k \<notin> seen" "parse_budget J entry name source = Inr b"
    "p' = p\<lparr>budgets := (budgets p)(k := b)\<rparr>" "seen' = insert k seen"
  using assms
  by (auto simp: parse_policy_entry_def result_simps split: option.splits if_splits)

lemma parse_entries_default:
  assumes "fold_result (parse_policy_entry J source) es st = Inr st'"
    and "\<forall>k. k \<notin> snd st \<longrightarrow> budgets (fst st) k = default_budget"
    and "k \<notin> snd st"
    and "\<forall>e \<in> set es. j_name J e \<noteq> Some (outbound_kind_name k)"
  shows "budgets (fst st') k = default_budget"
  using assms
proof (induction es arbitrary: st)
  case Nil
  then show ?case by simp
next
  case (Cons e es)
  obtain p seen where st: "st = (p, seen)" by (cases st)
  from Cons.prems(1) obtain st1 where one: "parse_policy_entry J source e st = Inr st1"
    and rest: "fold_result (parse_policy_entry J source) es st1 = Inr st'"
    by (auto simp: result_simps)
  obtain p1 seen1 where st1: "st1 = (p1, seen1)" by (cases st1)
  from one [unfolded st st1] obtain name k1 b where e: "j_name J e = Some name"
    "parse_outbound_kind name = Some k1" "p1 = p\<lparr>budgets := (budgets p)(k1 := b)\<rparr>"
    "seen1 = insert k1 seen"
    by (rule parse_policy_entry_Inr)
  have "k1 \<noteq> k" using e(1,2) Cons.prems(4) by (auto dest: parsed_kind_name)
  with e st st1 Cons.prems show ?case by (intro Cons.IH [OF rest]) auto
qed

lemma parse_outbound_policy_Inr:
  assumes "parse_outbound_policy J json source = Inr policy"
  obtains doc kinds st where "j_parse J json = Some doc" "j_item J doc ''kinds'' = Some kinds"
    "fold_result (parse_policy_entry J source) (j_children J kinds) (default_outbound_policy, {}) = Inr st"
    "policy = fst st" "policy_ok policy"
  using assms
  by (auto simp: parse_outbound_policy_def result_simps validate_policy_iff
      split: option.splits if_splits)

lemma parse_policy_ok: "parse_outbound_policy J json source = Inr policy \<Longrightarrow> policy_ok policy"
  by (erule parse_outbound_policy_Inr)

lemma load_policy_ok: "load_outbound_policy J path fs = Inr policy \<Longrightarrow> policy_ok policy"
  by (auto simp: load_outbound_policy_def result_simps default_policy_ok parse_policy_ok
      split: if_splits)

lemma load_policy_missing: "fs path = Missing \<Longrightarrow> load_outbound_policy J path fs = Inr default_outbound_policy"
  by (simp add: load_outbound_policy_def)

end
