(* ===== verification/Control_State.thy ===== *)
theory Control_State
  imports Cjson Files Outbound_Config
begin

text \<open>
  The operator control state (src/src/app/control/state.hpp and state.cpp): pause, write gate,
  dry run, offline mode and the approved action digests, the versioned document they are kept
  in, and the single gate every outbound write passes.
\<close>

definition kMaxApprovedDigests :: nat where
  "kMaxApprovedDigests = 64"

record ControlState =
  ctl_version :: nat
  paused :: bool
  writes_enabled :: bool
  dry_run :: bool
  offline_mode :: bool
  approval_required :: bool
  approved_digests :: "string list"
  last_sync_at :: "string option"
  shutdown_requested_at :: "string option"

definition default_control_state :: ControlState where
  "default_control_state =
     \<lparr>ctl_version = 1, paused = False, writes_enabled = False, dry_run = True,
      offline_mode = False, approval_required = True, approved_digests = [],
      last_sync_at = None, shutdown_requested_at = None\<rparr>"

definition control_format :: string where
  "control_format = ''atperson-control-state''"

definition control_invalid :: "string \<Rightarrow> 'a result" where
  "control_invalid msg = throw ControlStateError (''control state: '' @ msg)"

definition ctl_optional_string :: "'j cjson \<Rightarrow> 'j \<Rightarrow> string \<Rightarrow> string option result" where
  "ctl_optional_string J obj key =
     (case j_item J obj key of
        None \<Rightarrow> Inr None
      | Some v \<Rightarrow>
          if j_is_null J v then Inr None
          else case string_value J (Some v) of
            None \<Rightarrow> control_invalid (''field '' @ key @ '' must be a string or null'')
          | Some s \<Rightarrow>
              if s = [] then control_invalid (''field '' @ key @ '' must not be an empty string'')
              else Inr (Some s))"

definition ctl_require_string :: "'j cjson \<Rightarrow> 'j \<Rightarrow> string \<Rightarrow> string result" where
  "ctl_require_string J obj key =
     (case nonempty_string J (j_item J obj key) of
        None \<Rightarrow> control_invalid (''missing or empty string field '' @ key)
      | Some s \<Rightarrow> Inr s)"

definition ctl_require_bool :: "'j cjson \<Rightarrow> 'j \<Rightarrow> string \<Rightarrow> bool result" where
  "ctl_require_bool J obj key =
     (let v = j_item J obj key in
      if \<not> lifted (j_is_bool J) v then control_invalid (''field '' @ key @ '' must be a boolean'')
      else Inr (lifted (j_is_true J) v))"

definition ctl_require_version :: "'j cjson \<Rightarrow> 'j \<Rightarrow> nat result" where
  "ctl_require_version J obj =
     (case j_item J obj ''version'' of
        None \<Rightarrow> control_invalid ''missing or invalid version''
      | Some v \<Rightarrow>
          if \<not> j_is_number J v \<or> dbl_lt (j_num J v) (Finite 0) then
            control_invalid ''missing or invalid version''
          else and_then (to_uint32 (j_num J v)) (\<lambda>version.
            if version \<noteq> 1 then control_invalid (''unsupported version '' @ int_to_string version)
            else Inr (nat version)))"

definition is_lower_hex :: "char \<Rightarrow> bool" where
  "is_lower_hex c \<longleftrightarrow> is_digit c \<or> (code CHR ''a'' \<le> code c \<and> code c \<le> code CHR ''f'')"

definition is_control_digest_shape :: "string \<Rightarrow> bool" where
  "is_control_digest_shape digest \<longleftrightarrow> length digest = 16 \<and> list_all is_lower_hex digest"

definition control_validate :: "ControlState \<Rightarrow> unit result" where
  "control_validate s =
     (if ctl_version s \<noteq> 1 then
        control_invalid (''unsupported version '' @ nat_to_string (ctl_version s))
      else if kMaxApprovedDigests < length (approved_digests s) then
        control_invalid ''too many approved digests''
      else case find (\<lambda>d. \<not> is_control_digest_shape d) (approved_digests s) of
        Some d \<Rightarrow> control_invalid (''approved digest '' @ d @ '' is not 16 lowercase hex digits'')
      | None \<Rightarrow> Inr ())"

definition parse_digests :: "'j cjson \<Rightarrow> 'j list \<Rightarrow> string list result" where
  "parse_digests J es =
     fold_result (\<lambda>e acc. case string_value J (Some e) of
         None \<Rightarrow> control_invalid ''approved_digests entries must be strings''
       | Some s \<Rightarrow> Inr (acc @ [s])) es []"

definition load_control_state :: "'j cjson \<Rightarrow> string \<Rightarrow> fs \<Rightarrow> ControlState result" where
  "load_control_state J path fs =
     (if fs path = Missing then Inr default_control_state
      else and_then (read_text ''control state'' path fs) (\<lambda>text.
        case j_parse J text of
          None \<Rightarrow> control_invalid (path @ '' is not valid JSON'')
        | Some doc \<Rightarrow>
            if \<not> j_is_object J doc then control_invalid (path @ '' is not a JSON object'')
            else and_then (ctl_require_string J doc ''format'') (\<lambda>fmt.
              if fmt \<noteq> control_format then control_invalid (''unexpected format '' @ fmt)
              else and_then (ctl_require_version J doc) (\<lambda>version.
              and_then (ctl_require_bool J doc ''paused'') (\<lambda>p.
              and_then (ctl_require_bool J doc ''writes_enabled'') (\<lambda>w.
              and_then (ctl_require_bool J doc ''dry_run'') (\<lambda>d.
              and_then (case j_item J doc ''offline_mode'' of
                          None \<Rightarrow> Inr False
                        | Some v \<Rightarrow> if \<not> j_is_bool J v
                                    then control_invalid ''field offline_mode must be a boolean''
                                    else Inr (j_is_true J v)) (\<lambda>off.
              and_then (ctl_require_bool J doc ''approval_required'') (\<lambda>a.
              case j_item J doc ''approved_digests'' of
                None \<Rightarrow> control_invalid ''missing approved_digests array''
              | Some arr \<Rightarrow>
                  if \<not> j_is_array J arr then control_invalid ''missing approved_digests array''
                  else and_then (parse_digests J (j_children J arr)) (\<lambda>ds.
                    and_then (ctl_optional_string J doc ''last_sync_at'') (\<lambda>ls.
                    and_then (ctl_optional_string J doc ''shutdown_requested_at'') (\<lambda>sh.
                    let s = \<lparr>ctl_version = version, paused = p, writes_enabled = w, dry_run = d,
                             offline_mode = off, approval_required = a, approved_digests = ds,
                             last_sync_at = ls, shutdown_requested_at = sh\<rparr>
                    in and_then (control_validate s) (\<lambda>_. Inr s)))))))))))))"

definition bool_text :: "bool \<Rightarrow> string" where
  "bool_text b = (if b then ''true'' else ''false'')"

definition opt_quote :: "'j cjson \<Rightarrow> string option \<Rightarrow> string" where
  "opt_quote J v = (case v of Some s \<Rightarrow> j_quote J s | None \<Rightarrow> ''null'')"

definition serialise_control_state :: "'j cjson \<Rightarrow> ControlState \<Rightarrow> string result" where
  "serialise_control_state J s =
     and_then (control_validate s) (\<lambda>_. Inr (
       ''{\"format\":'' @ quoted control_format @ '',\"version\":'' @ nat_to_string (ctl_version s) @
       '',\"paused\":'' @ bool_text (paused s) @
       '',\"writes_enabled\":'' @ bool_text (writes_enabled s) @
       '',\"dry_run\":'' @ bool_text (dry_run s) @
       '',\"offline_mode\":'' @ bool_text (offline_mode s) @
       '',\"approval_required\":'' @ bool_text (approval_required s) @
       '',\"approved_digests\":['' @ join '','' (map (j_quote J) (approved_digests s)) @
       ''],\"last_sync_at\":'' @ opt_quote J (last_sync_at s) @
       '',\"shutdown_requested_at\":'' @ opt_quote J (shutdown_requested_at s) @
       ''}'' @ [char_of (10::nat)]))"

definition save_control_state ::
  "'j cjson \<Rightarrow> io \<Rightarrow> ControlState \<Rightarrow> string \<Rightarrow> fs \<Rightarrow> unit result \<times> fs" where
  "save_control_state J io s path fs =
     (case serialise_control_state J s of
        Inl e \<Rightarrow> (Inl e, fs)
      | Inr payload \<Rightarrow> save_atomic ''control state'' io path payload fs)"

definition is_digest_approved :: "ControlState \<Rightarrow> string \<Rightarrow> bool" where
  "is_digest_approved s digest \<longleftrightarrow> digest \<in> set (approved_digests s)"

definition ensure_outbound_allowed :: "ControlState \<Rightarrow> string \<Rightarrow> unit result" where
  "ensure_outbound_allowed s digest =
     (if paused s then control_invalid ''outbound refused: runtime is paused''
      else if \<not> writes_enabled s then control_invalid ''outbound refused: network writes are disabled''
      else if dry_run s then control_invalid ''outbound refused: dry-run mode is on''
      else if approval_required s \<and> \<not> is_digest_approved s digest then
        control_invalid ''outbound refused: action digest is not approved''
      else Inr ())"

subsection \<open>What the gate and the loader guarantee\<close>

lemma control_invalid_neq [simp]: "control_invalid m \<noteq> Inr x"
  by (simp add: control_invalid_def)

lemma and_then_control_invalid [simp]: "and_then (control_invalid m) f = control_invalid m"
  by (simp add: control_invalid_def)

lemma digest_shape_nonempty [simp]: "\<not> is_control_digest_shape []"
  by (simp add: is_control_digest_shape_def)

lemma ensure_allowed_iff:
  "ensure_outbound_allowed s digest = Inr u \<longleftrightarrow>
     \<not> paused s \<and> writes_enabled s \<and> \<not> dry_run s \<and>
     (approval_required s \<longrightarrow> digest \<in> set (approved_digests s))"
  by (auto simp: ensure_outbound_allowed_def is_digest_approved_def)

text \<open>Well-formed: what \<open>control_validate\<close> accepts.\<close>

definition control_ok :: "ControlState \<Rightarrow> bool" where
  "control_ok s \<longleftrightarrow> ctl_version s = 1 \<and> length (approved_digests s) \<le> kMaxApprovedDigests \<and>
     (\<forall>d \<in> set (approved_digests s). is_control_digest_shape d)"

lemma control_validate_iff: "control_validate s = Inr u \<longleftrightarrow> control_ok s"
  by (force simp: control_validate_def control_ok_def find_None_iff find_Some_iff
      split: option.splits)

lemma control_ok_default [simp]: "control_ok default_control_state"
  by (simp add: control_ok_def default_control_state_def)

lemma load_control_ok: "load_control_state J path fs = Inr s \<Longrightarrow> control_ok s"
  by (auto simp: load_control_state_def result_simps control_validate_iff Let_def
      split: option.splits if_splits)

lemma load_control_missing: "fs path = Missing \<Longrightarrow> load_control_state J path fs = Inr default_control_state"
  by (simp add: load_control_state_def)

lemma serialise_control_ok_iff: "(\<exists>t. serialise_control_state J s = Inr t) \<longleftrightarrow> control_ok s"
  by (auto simp: serialise_control_state_def result_simps control_validate_iff)

lemma save_control_ok:
  "save_control_state J io s path fs = (Inr u, fs') \<Longrightarrow>
     \<exists>payload. serialise_control_state J s = Inr payload \<and> fs' path = Present payload"
  by (auto simp: save_control_state_def save_atomic_ok split: sum.splits)

lemma save_control_failed:
  "save_control_state J io s path fs = (Inl e, fs') \<Longrightarrow> fs' path = fs path"
  by (auto simp: save_control_state_def dest: save_atomic_failed split: sum.splits)

end
