(* ===== verification/Outbound_Document.thy ===== *)
theory Outbound_Document
  imports Outbound_Actions Control_State
begin

text \<open>
  The outbound action document (src/src/app/outbound/action.hpp and action.cpp): the frozen
  description of one post, reply, like, repost or follow, its JSON form, the policy proposal
  it stands for, and the record body that is sent to the network.
\<close>

record OutboundAction =
  act_kind :: OutboundActionKind
  act_text :: string
  act_rkey :: string
  act_created_at :: string
  act_digest :: string
  act_reply_root :: string
  act_reply_parent :: string
  act_subject :: string
  act_plan_score :: "real option"
  act_support_score :: "real option"

definition outbound_action_is_reply :: "OutboundAction \<Rightarrow> bool" where
  "outbound_action_is_reply a \<longleftrightarrow> act_kind a = Kind_Reply"

definition outbound_action_is_subject_ref :: "OutboundAction \<Rightarrow> bool" where
  "outbound_action_is_subject_ref a \<longleftrightarrow> act_kind a = Kind_Like \<or> act_kind a = Kind_Repost"

definition outbound_action_collection :: "OutboundAction \<Rightarrow> string" where
  "outbound_action_collection a =
     (case act_kind a of
        Kind_Like \<Rightarrow> ''app.bsky.feed.like''
      | Kind_Repost \<Rightarrow> ''app.bsky.feed.repost''
      | Kind_Follow \<Rightarrow> ''app.bsky.graph.follow''
      | _ \<Rightarrow> ''app.bsky.feed.post'')"

definition outbound_action_proposal :: "OutboundAction \<Rightarrow> OutboundActionProposal" where
  "outbound_action_proposal a =
     \<lparr>prop_kind = act_kind a,
      prop_target =
        (if outbound_action_is_reply a then act_reply_parent a
         else if outbound_action_is_subject_ref a \<or> act_kind a = Kind_Follow then act_subject a
         else []),
      prop_digest = act_digest a\<rparr>"

definition action_error :: "string \<Rightarrow> 'a result" where
  "action_error msg = throw OutboundActionError msg"

definition act_require_string :: "'j cjson \<Rightarrow> 'j \<Rightarrow> string \<Rightarrow> string \<Rightarrow> string result" where
  "act_require_string J obj name source =
     (case nonempty_string J (j_item J obj name) of
        None \<Rightarrow> action_error (source @ '': field '' @ name @ '' must be a non-empty string'')
      | Some s \<Rightarrow> Inr s)"

definition act_optional_number :: "'j cjson \<Rightarrow> 'j \<Rightarrow> string \<Rightarrow> string \<Rightarrow> double option result" where
  "act_optional_number J obj name source =
     (case j_item J obj name of
        None \<Rightarrow> Inr None
      | Some v \<Rightarrow> if j_is_number J v then Inr (Some (j_num J v))
                  else action_error (source @ '': '' @ name @ '' must be a number''))"

text \<open>
  cJSON numbers parsed from text are finite (JSON has no other numbers), and the scores are
  kept as the reals they denote.
\<close>

definition finite_score :: "double option \<Rightarrow> real option" where
  "finite_score d = (case d of Some (Finite r) \<Rightarrow> Some r | _ \<Rightarrow> None)"

definition executable_kind :: "OutboundActionKind \<Rightarrow> bool" where
  "executable_kind k \<longleftrightarrow> k \<noteq> Kind_Unfollow \<and> k \<noteq> Kind_Moderation"

definition carries_subject :: "OutboundActionKind \<Rightarrow> bool" where
  "carries_subject k \<longleftrightarrow> k = Kind_Like \<or> k = Kind_Repost \<or> k = Kind_Follow"

text \<open>The text and subject fields: one of the two, by kind.\<close>

definition parse_text_subject ::
  "'j cjson \<Rightarrow> 'j \<Rightarrow> OutboundActionKind \<Rightarrow> string \<Rightarrow> (string \<times> string) result" where
  "parse_text_subject J doc k source =
     (if carries_subject k then
        (if (case j_item J doc ''text'' of None \<Rightarrow> False
             | Some t \<Rightarrow> string_value J (Some t) \<noteq> Some [])
         then action_error (source @ '': kind '' @ outbound_kind_name k @ '' must not carry text'')
         else and_then (act_require_string J doc ''subject'' source) (\<lambda>s. Inr ([], s)))
      else and_then (act_require_string J doc ''text'' source) (\<lambda>t.
        if j_item J doc ''subject'' \<noteq> None then
          action_error (source @ '': a post or reply must not carry a subject'')
        else Inr (t, [])))"

definition parse_reply ::
  "'j cjson \<Rightarrow> 'j \<Rightarrow> OutboundActionKind \<Rightarrow> string \<Rightarrow> (string \<times> string) result" where
  "parse_reply J doc k source =
     (case j_item J doc ''reply'' of
        None \<Rightarrow>
          if k = Kind_Reply then action_error (source @ '': a reply requires a reply object'')
          else Inr ([], [])
      | Some reply \<Rightarrow>
          if k = Kind_Reply then
            (if \<not> j_is_object J reply then action_error (source @ '': a reply requires a reply object'')
             else and_then (act_require_string J reply ''root'' source) (\<lambda>r.
                  and_then (act_require_string J reply ''parent'' source) (\<lambda>p. Inr (r, p))))
          else action_error (source @ '': an original post must not carry reply context''))"

text \<open>The fields after the kind.\<close>

definition parse_action_body ::
  "'j cjson \<Rightarrow> 'j \<Rightarrow> OutboundActionKind \<Rightarrow> string \<Rightarrow> OutboundAction result" where
  "parse_action_body J doc k source =
     and_then (parse_text_subject J doc k source) (\<lambda>ts.
     and_then (act_require_string J doc ''rkey'' source) (\<lambda>rkey.
     and_then (act_require_string J doc ''created_at'' source) (\<lambda>created.
     and_then (act_require_string J doc ''digest'' source) (\<lambda>digest.
     if \<not> is_control_digest_shape digest then
       action_error (source @ '': digest must be the 16-character lowercase hex control digest'')
     else and_then (parse_reply J doc k source) (\<lambda>rp.
     and_then (act_optional_number J doc ''plan_score'' source) (\<lambda>ps.
     and_then (act_optional_number J doc ''support_score'' source) (\<lambda>ss.
     Inr \<lparr>act_kind = k, act_text = fst ts, act_rkey = rkey, act_created_at = created,
          act_digest = digest, act_reply_root = fst rp, act_reply_parent = snd rp,
          act_subject = snd ts, act_plan_score = finite_score ps,
          act_support_score = finite_score ss\<rparr>)))))))"

definition parse_outbound_action :: "'j cjson \<Rightarrow> string \<Rightarrow> string \<Rightarrow> OutboundAction result" where
  "parse_outbound_action J json source =
     (case j_parse J json of
        None \<Rightarrow> action_error (source @ '': not valid JSON'')
      | Some doc \<Rightarrow>
          if \<not> j_is_object J doc then action_error (source @ '': document must be a JSON object'')
          else and_then (act_require_string J doc ''format'' source) (\<lambda>fmt.
            if fmt \<noteq> ''atperson-outbound-action'' then
              action_error (source @ '': unsupported format '' @ fmt)
            else if \<not> lifted (\<lambda>v. j_is_number J v \<and> j_int J v = 1) (j_item J doc ''version'') then
              action_error (source @ '': unsupported version (expected 1)'')
            else and_then (act_require_string J doc ''kind'' source) (\<lambda>kind_name.
              case parse_outbound_kind kind_name of
                None \<Rightarrow> action_error (source @ '': unknown action kind '' @ kind_name)
              | Some k \<Rightarrow>
                  if \<not> executable_kind k then
                    action_error (source @ '': kind '' @ kind_name @ '' is not executable yet'')
                  else parse_action_body J doc k source)))"

definition action_fields :: "OutboundAction \<Rightarrow> (string \<times> node) list" where
  "action_fields a =
     [(''format'', Node_String ''atperson-outbound-action''), (''version'', Node_Number 1),
      (''kind'', Node_String (outbound_kind_name (act_kind a)))] @
     (if act_text a \<noteq> [] then [(''text'', Node_String (act_text a))] else []) @
     (if act_subject a \<noteq> [] then [(''subject'', Node_String (act_subject a))] else []) @
     [(''rkey'', Node_String (act_rkey a)), (''created_at'', Node_String (act_created_at a)),
      (''digest'', Node_String (act_digest a))] @
     (if outbound_action_is_reply a then
        [(''reply'', Node_Object [(''root'', Node_String (act_reply_root a)),
                                  (''parent'', Node_String (act_reply_parent a))])]
      else []) @
     (case act_plan_score a of Some r \<Rightarrow> [(''plan_score'', Node_Number r)] | None \<Rightarrow> []) @
     (case act_support_score a of Some r \<Rightarrow> [(''support_score'', Node_Number r)] | None \<Rightarrow> [])"

definition serialise_outbound_action :: "'j cjson \<Rightarrow> OutboundAction \<Rightarrow> string" where
  "serialise_outbound_action J a = j_print J (Node_Object (action_fields a))"

definition load_outbound_action :: "'j cjson \<Rightarrow> string \<Rightarrow> fs \<Rightarrow> OutboundAction result" where
  "load_outbound_action J path fs =
     (case fs path of
        Present text \<Rightarrow> parse_outbound_action J text path
      | Unreadable \<Rightarrow> throw Runtime_error (''failed while reading outbound action file '' @ path)
      | _ \<Rightarrow> throw Runtime_error (''cannot read outbound action file '' @ path))"

subsection \<open>The record body\<close>

text \<open>\<open>add_strong_ref\<close> adds a field \<open>name\<close> holding the reference to the object built so far.\<close>

definition strong_ref :: "string \<Rightarrow> string \<Rightarrow> node" where
  "strong_ref uri cid =
     Node_Object [(''$type'', Node_String ''com.atproto.repo.strongRef''),
                  (''uri'', Node_String uri), (''cid'', Node_String cid)]"

definition add_strong_ref ::
  "(string \<times> node) list \<Rightarrow> string \<Rightarrow> string \<Rightarrow> string \<Rightarrow> (string \<times> node) list" where
  "add_strong_ref parent name uri cid = parent @ [(name, strong_ref uri cid)]"

definition outbound_record ::
  "OutboundAction \<Rightarrow> string \<Rightarrow> string \<Rightarrow> string \<Rightarrow> (string \<times> node) list result" where
  "outbound_record a root_cid parent_cid subject_cid =
     (let head = [(''$type'', Node_String (outbound_action_collection a))] @
                 (if act_text a \<noteq> [] then [(''text'', Node_String (act_text a))] else []) @
                 [(''createdAt'', Node_String (act_created_at a))] in
      and_then
        (if outbound_action_is_reply a then
           (if root_cid = [] \<or> parent_cid = [] then
              action_error ''a reply needs both root and parent CIDs''
            else Inr (head @ [(''reply'', Node_Object
                    (add_strong_ref (add_strong_ref [] ''root'' (act_reply_root a) root_cid)
                       ''parent'' (act_reply_parent a) parent_cid))]))
         else Inr head) (\<lambda>with_reply.
      and_then
        (if outbound_action_is_subject_ref a then
           (if subject_cid = [] then action_error ''a like/repost needs the subject record CID''
            else Inr (with_reply @ [(''subject'', Node_Object
                    (add_strong_ref [] ''subject'' (act_subject a) subject_cid))]))
         else Inr with_reply) (\<lambda>with_subject.
      if act_kind a = Kind_Follow then Inr (with_subject @ [(''subject'', Node_String (act_subject a))])
      else Inr with_subject)))"

definition build_outbound_record_json ::
  "'j cjson \<Rightarrow> OutboundAction \<Rightarrow> string \<Rightarrow> string \<Rightarrow> string \<Rightarrow> string result" where
  "build_outbound_record_json J a root_cid parent_cid subject_cid =
     and_then (outbound_record a root_cid parent_cid subject_cid) (\<lambda>ms. Inr (j_print J (Node_Object ms)))"

subsection \<open>Parsed documents are well-formed and round-trip\<close>

definition action_ok :: "OutboundAction \<Rightarrow> bool" where
  "action_ok a \<longleftrightarrow>
     executable_kind (act_kind a) \<and> act_rkey a \<noteq> [] \<and> act_created_at a \<noteq> [] \<and>
     is_control_digest_shape (act_digest a) \<and>
     (if carries_subject (act_kind a) then act_text a = [] \<and> act_subject a \<noteq> []
      else act_text a \<noteq> [] \<and> act_subject a = []) \<and>
     (if act_kind a = Kind_Reply then act_reply_root a \<noteq> [] \<and> act_reply_parent a \<noteq> []
      else act_reply_root a = [] \<and> act_reply_parent a = [])"

lemma action_error_neq [simp]: "action_error m \<noteq> Inr x"
  by (simp add: action_error_def)

lemma and_then_action_error [simp]: "and_then (action_error m) f = action_error m"
  by (simp add: action_error_def)

lemma act_require_nonempty: "act_require_string J obj name source = Inr s \<Longrightarrow> s \<noteq> []"
  by (auto simp: act_require_string_def dest: nonempty_string_nonempty split: option.splits)

lemma parse_text_subject_ok:
  "parse_text_subject J doc k source = Inr (t, s) \<Longrightarrow>
     (if carries_subject k then t = [] \<and> s \<noteq> [] else t \<noteq> [] \<and> s = [])"
  by (auto simp: parse_text_subject_def result_simps dest: act_require_nonempty split: if_splits option.splits)

lemma parse_reply_ok:
  "parse_reply J doc k source = Inr (r, p) \<Longrightarrow>
     (if k = Kind_Reply then r \<noteq> [] \<and> p \<noteq> [] else r = [] \<and> p = [])"
  by (auto simp: parse_reply_def result_simps dest: act_require_nonempty split: if_splits option.splits)

lemma parse_action_body_ok:
  assumes "parse_action_body J doc k source = Inr a" and "executable_kind k"
  shows "action_ok a"
proof -
  obtain ts rp where ts: "parse_text_subject J doc k source = Inr ts"
    and rp: "parse_reply J doc k source = Inr rp"
    and a: "act_kind a = k" "act_text a = fst ts" "act_subject a = snd ts"
      "act_reply_root a = fst rp" "act_reply_parent a = snd rp"
      "act_rkey a \<noteq> []" "act_created_at a \<noteq> []" "is_control_digest_shape (act_digest a)"
    using assms(1)
    by (force simp: parse_action_body_def result_simps dest: act_require_nonempty split: if_splits)
  then show ?thesis
    using assms(2) parse_text_subject_ok [of J doc k source "fst ts" "snd ts"]
      parse_reply_ok [of J doc k source "fst rp" "snd rp"]
    by (simp add: action_ok_def)
qed

lemma parse_action_ok: "parse_outbound_action J json source = Inr a \<Longrightarrow> action_ok a"
  by (auto simp: parse_outbound_action_def result_simps intro: parse_action_body_ok
      split: option.splits if_splits)

text \<open>Every field of a document comes back, for a library that reads what it printed.\<close>

lemma item_string:
  assumes "\<And>k n. map_of ms k = Some n \<Longrightarrow> \<exists>x. j_item J doc k = Some x \<and> is_node J x n"
    and "map_of ms name = Some (Node_String s)" and "s \<noteq> []"
  shows "act_require_string J doc name source = Inr s"
  using assms(1) [OF assms(2)] assms(3) by (auto simp: act_require_string_def nonempty_string_def)

lemma item_score:
  assumes "\<And>k n. map_of ms k = Some n \<Longrightarrow> \<exists>x. j_item J doc k = Some x \<and> is_node J x n"
    and "\<And>k. map_of ms k = None \<Longrightarrow> j_item J doc k = None"
    and "map_of ms name = map_option Node_Number score"
  shows "\<exists>d. act_optional_number J doc name source = Inr d \<and> finite_score d = score"
proof (cases score)
  case None
  with assms(2,3) show ?thesis by (simp add: act_optional_number_def finite_score_def)
next
  case (Some r)
  with assms(3) obtain x where "j_item J doc name = Some x" "is_node J x (Node_Number r)"
    using assms(1) [of name "Node_Number r"] by auto
  with Some show ?thesis by (simp add: act_optional_number_def finite_score_def)
qed

lemma action_round_trip:
  assumes reads: "reads_back J (serialise_outbound_action J a) (action_fields a)" and ok: "action_ok a"
  shows "parse_outbound_action J (serialise_outbound_action J a) source = Inr a"
proof -
  define k where "k = act_kind a"
  let ?ms = "action_fields a"
  obtain doc where doc: "j_parse J (serialise_outbound_action J a) = Some doc" "j_is_object J doc"
    and item: "\<And>k n. map_of ?ms k = Some n \<Longrightarrow> \<exists>x. j_item J doc k = Some x \<and> is_node J x n"
    and absent: "\<And>k. map_of ?ms k = None \<Longrightarrow> j_item J doc k = None"
    using reads by (rule reads_back_doc) blast
  note str = item_string [OF item]
  have subj: "carries_subject k \<longleftrightarrow> outbound_action_is_subject_ref a \<or> k = Kind_Follow"
    by (auto simp: carries_subject_def outbound_action_is_subject_ref_def k_def)
  have name: "outbound_kind_name k \<noteq> []"
    by (cases k) (simp_all add: outbound_kind_name_def kind_table_def)
  have ts: "parse_text_subject J doc k source = Inr (act_text a, act_subject a)"
  proof (cases "carries_subject k")
    case True
    then have t: "act_text a = []" "act_subject a \<noteq> []" using ok by (auto simp: action_ok_def k_def)
    then have "j_item J doc ''text'' = None" "act_require_string J doc ''subject'' source = Inr (act_subject a)"
      by (auto intro!: absent str simp: action_fields_def split: option.split)
    with t True show ?thesis by (simp add: parse_text_subject_def)
  next
    case False
    then have t: "act_text a \<noteq> []" "act_subject a = []" using ok by (auto simp: action_ok_def k_def)
    then have "j_item J doc ''subject'' = None" "act_require_string J doc ''text'' source = Inr (act_text a)"
      by (auto intro!: absent str simp: action_fields_def split: option.split)
    with t False show ?thesis by (simp add: parse_text_subject_def)
  qed
  have head: "act_require_string J doc ''format'' source = Inr ''atperson-outbound-action''"
    "act_require_string J doc ''kind'' source = Inr (outbound_kind_name k)"
    by (auto intro!: str simp: action_fields_def name simp flip: k_def)
  have version: "lifted (\<lambda>v. j_is_number J v \<and> j_int J v = 1) (j_item J doc ''version'')"
    using item [of "''version''"] by (auto simp: action_fields_def)
  have body: "act_require_string J doc ''rkey'' source = Inr (act_rkey a)"
    "act_require_string J doc ''created_at'' source = Inr (act_created_at a)"
    "act_require_string J doc ''digest'' source = Inr (act_digest a)"
    using ok by (auto intro!: str simp: action_fields_def action_ok_def)
  have reply: "parse_reply J doc k source = Inr (act_reply_root a, act_reply_parent a)"
  proof (cases "k = Kind_Reply")
    case True
    then have ne: "act_reply_root a \<noteq> []" "act_reply_parent a \<noteq> []" using ok by (auto simp: action_ok_def k_def)
    have "map_of ?ms ''reply'' = Some (Node_Object [(''root'', Node_String (act_reply_root a)),
        (''parent'', Node_String (act_reply_parent a))])"
      using True by (simp add: action_fields_def outbound_action_is_reply_def k_def)
    from item [OF this] ne True show ?thesis
      by (auto simp: parse_reply_def act_require_string_def nonempty_string_def split: option.splits)
  next
    case False
    then have "j_item J doc ''reply'' = None" "act_reply_root a = []" "act_reply_parent a = []"
      using ok by (auto intro!: absent simp: action_fields_def outbound_action_is_reply_def action_ok_def k_def
          split: option.split)
    with False show ?thesis by (simp add: parse_reply_def)
  qed
  have score_fields: "map_of ?ms ''plan_score'' = map_option Node_Number (act_plan_score a)"
    "map_of ?ms ''support_score'' = map_option Node_Number (act_support_score a)"
    by (cases "act_plan_score a"; cases "act_support_score a"; simp add: action_fields_def)+
  note scores = item_score [OF item absent score_fields(1), where source = source]
    item_score [OF item absent score_fields(2), where source = source]
  have "parse_action_body J doc k source = Inr a"
    using ts body reply scores ok by (auto simp: parse_action_body_def action_ok_def k_def)
  then show ?thesis
    using doc head version ok
    by (simp add: parse_outbound_action_def kind_name_parses action_ok_def k_def)
qed

text \<open>
  The record of a like or a repost: the reference is added under the key \<open>subject\<close> of an object
  that is itself stored under \<open>subject\<close>, so it ends up one level too deep.
\<close>

lemma subject_ref_nested:
  assumes "outbound_action_is_subject_ref a" and "outbound_record a rc pc sc = Inr ms"
  shows "map_of ms ''subject'' = Some (Node_Object [(''subject'', strong_ref (act_subject a) sc)])"
  using assms
  by (auto simp: outbound_record_def Let_def add_strong_ref_def result_simps
      outbound_action_is_reply_def outbound_action_is_subject_ref_def split: if_splits)

lemma reply_record_refs:
  assumes "outbound_action_is_reply a" and "outbound_record a rc pc sc = Inr ms"
  shows "map_of ms ''reply'' = Some (Node_Object
           [(''root'', strong_ref (act_reply_root a) rc), (''parent'', strong_ref (act_reply_parent a) pc)])"
  using assms
  by (auto simp: outbound_record_def Let_def add_strong_ref_def result_simps
      outbound_action_is_reply_def outbound_action_is_subject_ref_def split: if_splits)

lemma outbound_record_defined:
  "(\<exists>ms. outbound_record a rc pc sc = Inr ms) \<longleftrightarrow>
     (outbound_action_is_reply a \<longrightarrow> rc \<noteq> [] \<and> pc \<noteq> []) \<and>
     (outbound_action_is_subject_ref a \<longrightarrow> sc \<noteq> [])"
  by (auto simp: outbound_record_def Let_def result_simps)

end
