(* ===== verification/Outbound_Budget.thy ===== *)
theory Outbound_Budget
  imports Outbound_Config
begin

text \<open>
  The durable rate-budget state (src/src/app/outbound/budget.hpp and budget.cpp): per kind the
  last admitted time, the recent admitted times and the recent identities, their pruning, and
  the queries the policy evaluation asks.  Timestamps are \<open>int64_t\<close> seconds; every difference
  taken is between values of a validated document and a clock, far from the ends of the type.
\<close>

definition kMaxOutboundRecordsPerKind :: nat where
  "kMaxOutboundRecordsPerKind = 256"

record OutboundDuplicateRecord =
  dup_key :: string
  dup_at :: int

record OutboundKindUsage =
  last_action_at :: "int option"
  recent_actions :: "int list"
  recent_duplicates :: "OutboundDuplicateRecord list"

record OutboundBudgetState =
  budget_version :: nat
  usage :: "OutboundActionKind \<Rightarrow> OutboundKindUsage"
  saved_at :: "int option"

definition empty_usage :: OutboundKindUsage where
  "empty_usage = \<lparr>last_action_at = None, recent_actions = [], recent_duplicates = []\<rparr>"

definition empty_budget_state :: OutboundBudgetState where
  "empty_budget_state = \<lparr>budget_version = 1, usage = (\<lambda>_. empty_usage), saved_at = None\<rparr>"

subsection \<open>Pruning and recording\<close>

definition keep_last :: "nat \<Rightarrow> nat \<Rightarrow> nat" where
  "keep_last n cap = (if cap < n then n - cap else 0)"

definition drop_oldest :: "'a list \<Rightarrow> 'a list" where
  "drop_oldest xs = drop (keep_last (length xs) kMaxOutboundRecordsPerKind) xs"

definition prune_horizon :: "ActionBudget \<Rightarrow> int" where
  "prune_horizon b = max (max (window_seconds b) (min_interval_seconds b)) 1"

definition prune_kind :: "OutboundKindUsage \<Rightarrow> ActionBudget \<Rightarrow> int \<Rightarrow> OutboundKindUsage" where
  "prune_kind u b now =
     (let action_cutoff = now - prune_horizon b;
          actions = filter (\<lambda>t. \<not> t < action_cutoff) (recent_actions u);
          duplicates =
            (if 0 < duplicate_cooldown_seconds b then
               filter (\<lambda>r. \<not> dup_at r < now - duplicate_cooldown_seconds b) (recent_duplicates u)
             else [])
      in u\<lparr>recent_actions := drop_oldest actions, recent_duplicates := drop_oldest duplicates\<rparr>)"

definition prune_outbound_budget_state ::
  "OutboundBudgetState \<Rightarrow> OutboundPolicy \<Rightarrow> int \<Rightarrow> OutboundBudgetState" where
  "prune_outbound_budget_state s policy now =
     s\<lparr>usage := (\<lambda>k. prune_kind (usage s k) (budget_for policy k) now)\<rparr>"

definition record_usage ::
  "OutboundKindUsage \<Rightarrow> OutboundActionProposal \<Rightarrow> ActionBudget \<Rightarrow> int \<Rightarrow> OutboundKindUsage" where
  "record_usage u p b now0 =
     (let now = (case last_action_at u of Some l \<Rightarrow> if now0 < l then l else now0 | None \<Rightarrow> now0);
          key = outbound_dedup_key p;
          u1 = u\<lparr>last_action_at := Some now,
                 recent_actions := recent_actions u @ [now],
                 recent_duplicates :=
                   filter (\<lambda>r. dup_key r \<noteq> key) (recent_duplicates u) @ [\<lparr>dup_key = key, dup_at = now\<rparr>]\<rparr>
      in prune_kind u1 b now)"

definition record_outbound_action ::
  "OutboundBudgetState \<Rightarrow> OutboundActionProposal \<Rightarrow> ActionBudget \<Rightarrow> int \<Rightarrow> OutboundBudgetState" where
  "record_outbound_action s p b now =
     s\<lparr>usage := (usage s)(prop_kind p := record_usage (usage s (prop_kind p)) p b now)\<rparr>"

subsection \<open>Queries\<close>

definition count_outbound_actions_in_window ::
  "OutboundBudgetState \<Rightarrow> OutboundActionKind \<Rightarrow> int \<Rightarrow> int \<Rightarrow> nat" where
  "count_outbound_actions_in_window s k window now =
     length (filter (\<lambda>t. now - window \<le> t) (recent_actions (usage s k)))"

definition last_outbound_action_at :: "OutboundBudgetState \<Rightarrow> OutboundActionKind \<Rightarrow> int option" where
  "last_outbound_action_at s k = last_action_at (usage s k)"

definition earliest_outbound_action_in_window ::
  "OutboundBudgetState \<Rightarrow> OutboundActionKind \<Rightarrow> int \<Rightarrow> int \<Rightarrow> int option" where
  "earliest_outbound_action_in_window s k window now =
     find (\<lambda>t. now - window \<le> t) (recent_actions (usage s k))"

definition duplicate_outbound_recorded_at ::
  "OutboundBudgetState \<Rightarrow> OutboundActionProposal \<Rightarrow> int option" where
  "duplicate_outbound_recorded_at s p =
     map_option dup_at
       (find (\<lambda>r. dup_key r = outbound_dedup_key p) (recent_duplicates (usage s (prop_kind p))))"

subsection \<open>The document\<close>

definition budget_format :: string where
  "budget_format = ''atperson-outbound-budget''"

definition budget_invalid :: "string \<Rightarrow> 'a result" where
  "budget_invalid msg = throw OutboundBudgetError (''outbound budget: '' @ msg)"

definition require_timestamp :: "'j cjson \<Rightarrow> 'j option \<Rightarrow> string \<Rightarrow> int result" where
  "require_timestamp J v what =
     (case v of
        None \<Rightarrow> budget_invalid (what @ '' must be an integer timestamp'')
      | Some x \<Rightarrow>
          if \<not> integral_number J v then budget_invalid (what @ '' must be an integer timestamp'')
          else and_then (to_int64 (j_num J x)) (\<lambda>number.
            if number < 0 then budget_invalid (what @ '' must not be negative'') else Inr number))"

definition parse_actions :: "'j cjson \<Rightarrow> 'j list \<Rightarrow> int list result" where
  "parse_actions J es =
     fold_result (\<lambda>e acc. and_then (require_timestamp J (Some e) ''recent_actions entry'')
                            (\<lambda>t. Inr (acc @ [t]))) es []"

definition parse_duplicate :: "'j cjson \<Rightarrow> string \<Rightarrow> 'j \<Rightarrow> OutboundDuplicateRecord result" where
  "parse_duplicate J name entry =
     (if \<not> j_is_object J entry then
        budget_invalid (''kind '' @ name @ '' recent_duplicates entries must be objects'')
      else case nonempty_string J (j_item J entry ''key'') of
        None \<Rightarrow> budget_invalid (''kind '' @ name @ '' duplicate record is missing a key'')
      | Some key \<Rightarrow>
          and_then (require_timestamp J (j_item J entry ''at'') ''duplicate at'')
            (\<lambda>t. Inr \<lparr>dup_key = key, dup_at = t\<rparr>))"

definition optional_array :: "'j cjson \<Rightarrow> 'j \<Rightarrow> string \<Rightarrow> string \<Rightarrow> 'j list result" where
  "optional_array J obj key name =
     (case j_item J obj key of
        None \<Rightarrow> Inr []
      | Some a \<Rightarrow>
          if j_is_array J a then Inr (j_children J a)
          else budget_invalid (''kind '' @ name @ '' '' @ key @ '' must be an array''))"

fun non_decreasing :: "int list \<Rightarrow> bool" where
  "non_decreasing (x # y # ys) \<longleftrightarrow> \<not> y < x \<and> non_decreasing (y # ys)"
| "non_decreasing _ \<longleftrightarrow> True"

definition parse_usage :: "'j cjson \<Rightarrow> 'j \<Rightarrow> string \<Rightarrow> OutboundKindUsage result" where
  "parse_usage J obj name =
     and_then
       (case j_item J obj ''last_action_at'' of
          None \<Rightarrow> Inr None
        | Some v \<Rightarrow>
            if j_is_null J v then Inr None
            else and_then (require_timestamp J (Some v) ''last_action_at'') (\<lambda>t. Inr (Some t)))
       (\<lambda>l.
     and_then (optional_array J obj ''recent_actions'' name) (\<lambda>aes.
     and_then (parse_actions J aes) (\<lambda>actions.
     and_then (optional_array J obj ''recent_duplicates'' name) (\<lambda>des.
     and_then (fold_result (\<lambda>e acc. and_then (parse_duplicate J name e) (\<lambda>d. Inr (acc @ [d]))) des [])
       (\<lambda>duplicates.
        if kMaxOutboundRecordsPerKind < length actions then
          budget_invalid (''kind '' @ name @ '' has too many recent_actions'')
        else if kMaxOutboundRecordsPerKind < length duplicates then
          budget_invalid (''kind '' @ name @ '' has too many recent_duplicates'')
        else if \<not> non_decreasing actions then
          budget_invalid (''kind '' @ name @ '' recent_actions must be non-decreasing'')
        else Inr \<lparr>last_action_at = l, recent_actions = actions, recent_duplicates = duplicates\<rparr>)))))"

definition parse_budget_entry ::
  "'j cjson \<Rightarrow> 'j \<Rightarrow> OutboundBudgetState \<times> OutboundActionKind set \<Rightarrow>
   (OutboundBudgetState \<times> OutboundActionKind set) result" where
  "parse_budget_entry J entry st =
     (case j_name J entry of
        None \<Rightarrow> budget_invalid ''kinds entries must be named objects''
      | Some name \<Rightarrow>
          if \<not> j_is_object J entry then budget_invalid ''kinds entries must be named objects''
          else case parse_outbound_kind name of
            None \<Rightarrow> budget_invalid (''unknown action kind '' @ name)
          | Some k \<Rightarrow>
              if k \<in> snd st then budget_invalid (''duplicate kind '' @ name)
              else and_then (parse_usage J entry name) (\<lambda>u.
                Inr ((fst st)\<lparr>usage := (usage (fst st))(k := u)\<rparr>, insert k (snd st))))"

definition load_outbound_budget_state :: "'j cjson \<Rightarrow> string \<Rightarrow> fs \<Rightarrow> OutboundBudgetState result" where
  "load_outbound_budget_state J path fs =
     (if fs path = Missing then Inr empty_budget_state
      else and_then (read_text ''outbound budget'' path fs) (\<lambda>text.
        case j_parse J text of
          None \<Rightarrow> budget_invalid (path @ '' is not valid JSON'')
        | Some doc \<Rightarrow>
            if \<not> j_is_object J doc then budget_invalid (path @ '' is not a JSON object'')
            else case j_item J doc ''format'' of
              None \<Rightarrow> budget_invalid ''missing string field format''
            | Some f \<Rightarrow>
              (case (if j_is_string J f then j_str J f else None) of
                 None \<Rightarrow> budget_invalid ''missing string field format''
               | Some fmt \<Rightarrow>
                 if fmt \<noteq> budget_format then budget_invalid (''unexpected format '' @ fmt)
                 else case j_item J doc ''version'' of
                   None \<Rightarrow> budget_invalid ''missing or invalid version''
                 | Some v \<Rightarrow>
                   if \<not> integral_number J (Some v) then budget_invalid ''missing or invalid version''
                   else and_then (to_uint32 (j_num J v)) (\<lambda>version.
                     if version \<noteq> 1 then
                       budget_invalid (''unsupported version '' @ dbl_to_string J (j_num J v))
                     else and_then
                       (case j_item J doc ''saved_at'' of
                          None \<Rightarrow> Inr None
                        | Some sv \<Rightarrow>
                            if j_is_null J sv then Inr None
                            else and_then (require_timestamp J (Some sv) ''saved_at'') (\<lambda>t. Inr (Some t)))
                       (\<lambda>saved.
                     case j_item J doc ''kinds'' of
                       None \<Rightarrow> Inr (empty_budget_state\<lparr>saved_at := saved\<rparr>)
                     | Some kinds \<Rightarrow>
                         if \<not> j_is_object J kinds then budget_invalid ''kinds must be an object''
                         else and_then (fold_result (parse_budget_entry J) (j_children J kinds)
                                (empty_budget_state\<lparr>saved_at := saved\<rparr>, {})) (\<lambda>st. Inr (fst st)))))))"

definition opt_int_to_string :: "int option \<Rightarrow> string" where
  "opt_int_to_string t = (case t of Some i \<Rightarrow> int_to_string i | None \<Rightarrow> ''null'')"

definition append_usage :: "'j cjson \<Rightarrow> OutboundKindUsage \<Rightarrow> string" where
  "append_usage J u =
     ''{\"last_action_at\":'' @ opt_int_to_string (last_action_at u) @
     '',\"recent_actions\":['' @ join '','' (map int_to_string (recent_actions u)) @
     ''],\"recent_duplicates\":['' @
     join '','' (map (\<lambda>r. ''{\"key\":'' @ j_quote J (dup_key r) @ '',\"at\":'' @
                         int_to_string (dup_at r) @ ''}'') (recent_duplicates u)) @ '']}''"

definition serialise_outbound_budget_state :: "'j cjson \<Rightarrow> OutboundBudgetState \<Rightarrow> string result" where
  "serialise_outbound_budget_state J s =
     (if budget_version s \<noteq> 1 then
        budget_invalid (''unsupported version '' @ nat_to_string (budget_version s))
      else Inr (''{\"format\":'' @ quoted budget_format @ '',\"version\":'' @
                nat_to_string (budget_version s) @ '',\"saved_at\":'' @ opt_int_to_string (saved_at s) @
                '',\"kinds\":{'' @
                join '','' (map (\<lambda>k. quoted (outbound_kind_name k) @ '':'' @ append_usage J (usage s k))
                            all_kinds) @ ''}}'' @ [char_of (10::nat)]))"

definition save_outbound_budget_state ::
  "'j cjson \<Rightarrow> io \<Rightarrow> OutboundBudgetState \<Rightarrow> string \<Rightarrow> fs \<Rightarrow> unit result \<times> fs" where
  "save_outbound_budget_state J io s path fs =
     (case serialise_outbound_budget_state J s of
        Inl e \<Rightarrow> (Inl e, fs)
      | Inr payload \<Rightarrow> save_atomic ''outbound budget'' io path payload fs)"

subsection \<open>Well-formed budget states\<close>

text \<open>
  Well-formed for a kind: the recorded times ascend, none is later than the last action, at
  most 256 records are kept, and no identity is recorded twice.  The empty state is
  well-formed and every operation keeps it.
\<close>

definition usage_ok :: "OutboundKindUsage \<Rightarrow> bool" where
  "usage_ok u \<longleftrightarrow>
     sorted (recent_actions u) \<and>
     (case last_action_at u of None \<Rightarrow> recent_actions u = []
      | Some l \<Rightarrow> \<forall>t \<in> set (recent_actions u). t \<le> l) \<and>
     length (recent_actions u) \<le> kMaxOutboundRecordsPerKind \<and>
     length (recent_duplicates u) \<le> kMaxOutboundRecordsPerKind \<and>
     distinct (map dup_key (recent_duplicates u))"

definition budget_state_ok :: "OutboundBudgetState \<Rightarrow> bool" where
  "budget_state_ok s \<longleftrightarrow> (\<forall>k. usage_ok (usage s k))"

lemma length_drop_oldest: "length (drop_oldest xs) = min (length xs) kMaxOutboundRecordsPerKind"
  by (auto simp: drop_oldest_def keep_last_def)

lemma set_drop_oldest: "set (drop_oldest xs) \<subseteq> set xs"
  by (simp add: drop_oldest_def set_drop_subset)

lemma sorted_drop_oldest: "sorted xs \<Longrightarrow> sorted (drop_oldest xs)"
  by (simp add: drop_oldest_def sorted_wrt_drop)

lemma drop_oldest_short: "length xs \<le> kMaxOutboundRecordsPerKind \<Longrightarrow> drop_oldest xs = xs"
  by (simp add: drop_oldest_def keep_last_def)

lemma non_decreasing_sorted: "non_decreasing xs \<longleftrightarrow> sorted xs"
proof (induction xs rule: non_decreasing.induct)
  case (1 x y ys)
  then show ?case by (force simp: not_less)
qed auto

lemma usage_ok_empty [simp]: "usage_ok empty_usage"
  by (simp add: usage_ok_def empty_usage_def)

lemma budget_state_ok_empty [simp]: "budget_state_ok empty_budget_state"
  by (simp add: budget_state_ok_def empty_budget_state_def)

lemma last_prune_kind [simp]: "last_action_at (prune_kind u b now) = last_action_at u"
  by (simp add: prune_kind_def Let_def)

lemma recent_prune_kind:
  "recent_actions (prune_kind u b now) =
     drop_oldest (filter (\<lambda>t. now - prune_horizon b \<le> t) (recent_actions u))"
  by (simp add: prune_kind_def Let_def not_less)

lemma map_drop_oldest: "map f (drop_oldest xs) = drop_oldest (map f xs)"
  by (simp add: drop_oldest_def drop_map)

lemma distinct_drop_oldest: "distinct xs \<Longrightarrow> distinct (drop_oldest xs)"
  by (simp add: drop_oldest_def)

lemma distinct_prune_kind:
  "distinct (map dup_key (recent_duplicates u)) \<Longrightarrow>
     distinct (map dup_key (recent_duplicates (prune_kind u b now)))"
  by (simp add: prune_kind_def Let_def map_drop_oldest distinct_drop_oldest distinct_map_filter)

lemma usage_ok_prune:
  assumes "sorted (recent_actions u)"
    and "distinct (map dup_key (recent_duplicates u))"
    and "case last_action_at u of None \<Rightarrow> recent_actions u = [] | Some l \<Rightarrow> \<forall>t \<in> set (recent_actions u). t \<le> l"
  shows "usage_ok (prune_kind u b now)"
proof -
  have "set (recent_actions (prune_kind u b now)) \<subseteq> set (recent_actions u)"
    using set_drop_oldest by (fastforce simp: recent_prune_kind)
  moreover have "sorted (recent_actions (prune_kind u b now))"
    using assms(1) by (simp add: recent_prune_kind sorted_drop_oldest sorted_wrt_filter)
  moreover have "length (recent_duplicates (prune_kind u b now)) \<le> kMaxOutboundRecordsPerKind"
    by (simp add: prune_kind_def Let_def length_drop_oldest)
  ultimately show ?thesis using assms(2,3)
    by (auto simp: usage_ok_def recent_prune_kind length_drop_oldest distinct_prune_kind split: option.splits)
qed

lemma usage_ok_prune_kind [step_inv]: "usage_ok u \<Longrightarrow> usage_ok (prune_kind u b now)"
  by (rule usage_ok_prune) (simp_all add: usage_ok_def)

text \<open>The time an action is recorded at: a clock that went back is held at the last action.\<close>

definition clamp_now :: "OutboundKindUsage \<Rightarrow> int \<Rightarrow> int" where
  "clamp_now u now = (case last_action_at u of Some l \<Rightarrow> max l now | None \<Rightarrow> now)"

lemma record_usage_eq:
  "record_usage u p b now =
     prune_kind
       (u\<lparr>last_action_at := Some (clamp_now u now),
          recent_actions := recent_actions u @ [clamp_now u now],
          recent_duplicates :=
            filter (\<lambda>r. dup_key r \<noteq> outbound_dedup_key p) (recent_duplicates u) @
            [\<lparr>dup_key = outbound_dedup_key p, dup_at = clamp_now u now\<rparr>]\<rparr>)
       b (clamp_now u now)"
  by (auto simp: record_usage_def clamp_now_def Let_def max_def split: option.splits)

lemma usage_ok_record [step_inv]:
  assumes "usage_ok u"
  shows "usage_ok (record_usage u p b now)"
proof -
  have le: "t \<le> clamp_now u now" if "t \<in> set (recent_actions u)" for t
    using assms that by (auto simp: usage_ok_def clamp_now_def split: option.splits)
  have "sorted (recent_actions u @ [clamp_now u now])"
    using assms le by (auto simp: usage_ok_def sorted_append)
  moreover have "distinct (map dup_key (filter (\<lambda>r. dup_key r \<noteq> outbound_dedup_key p) (recent_duplicates u)))"
    using assms by (simp add: usage_ok_def distinct_map_filter)
  ultimately show ?thesis
    unfolding record_usage_eq using le by (intro usage_ok_prune) auto
qed

lemma budget_state_ok_record [step_inv]:
  "budget_state_ok s \<Longrightarrow> budget_state_ok (record_outbound_action s p b now)"
  by (auto simp: budget_state_ok_def record_outbound_action_def usage_ok_record)

lemma budget_state_ok_prune [step_inv]:
  "budget_state_ok s \<Longrightarrow> budget_state_ok (prune_outbound_budget_state s policy now)"
  by (auto simp: budget_state_ok_def prune_outbound_budget_state_def usage_ok_prune_kind)

lemma usage_record_other:
  "k \<noteq> prop_kind p \<Longrightarrow> usage (record_outbound_action s p b now) k = usage s k"
  by (simp add: record_outbound_action_def)

lemma save_budget_ok:
  "save_outbound_budget_state J io s path fs = (Inr u, fs') \<Longrightarrow>
     \<exists>payload. serialise_outbound_budget_state J s = Inr payload \<and> fs' path = Present payload"
  by (auto simp: save_outbound_budget_state_def save_atomic_ok split: sum.splits)

end
