(* ===== verification/Outbound_Evaluate.thy ===== *)
theory Outbound_Evaluate
  imports Outbound_Budget
begin

text \<open>
  The policy decision (src/src/app/outbound/evaluate.hpp and evaluate.cpp): the read-only
  evaluation of a proposal against the policy and the budget, and the admission that records
  the action on Allow only.  The lemmas prove what the limits mean over a whole run of
  admissions, with a clock that may go backwards at any moment.
\<close>

record OutboundBudgetStatus =
  status_enabled :: bool
  used_in_window :: nat
  status_max_in_window :: nat
  status_window_seconds :: int
  status_min_interval_seconds :: int
  seconds_since_last :: int

record OutboundPolicyDecision =
  outcome :: OutboundOutcome
  reason :: OutboundReason
  retry_after_seconds :: int
  decision_budget :: OutboundBudgetStatus

definition empty_status :: OutboundBudgetStatus where
  "empty_status =
     \<lparr>status_enabled = False, used_in_window = 0, status_max_in_window = 0,
      status_window_seconds = 0, status_min_interval_seconds = 0, seconds_since_last = -1\<rparr>"

definition outbound_budget_status ::
  "OutboundPolicy \<Rightarrow> OutboundBudgetState \<Rightarrow> OutboundActionKind \<Rightarrow> int \<Rightarrow> OutboundBudgetStatus" where
  "outbound_budget_status policy s k now =
     (let b = budget_for policy k in
      \<lparr>status_enabled = budget_enabled b,
       used_in_window = count_outbound_actions_in_window s k (window_seconds b) now,
       status_max_in_window = max_in_window b,
       status_window_seconds = window_seconds b,
       status_min_interval_seconds = min_interval_seconds b,
       seconds_since_last =
         (case last_outbound_action_at s k of
            Some l \<Rightarrow> (if l \<le> now then now - l else 0)
          | None \<Rightarrow> -1)\<rparr>)"

text \<open>The verdict of the duplicate rule: the elapsed time when it still suppresses.\<close>

definition duplicate_elapsed ::
  "ActionBudget \<Rightarrow> OutboundBudgetState \<Rightarrow> OutboundActionProposal \<Rightarrow> int \<Rightarrow> int option" where
  "duplicate_elapsed b s p now =
     (if 0 < duplicate_cooldown_seconds b then
        (case duplicate_outbound_recorded_at s p of
           None \<Rightarrow> None
         | Some recorded \<Rightarrow>
             (let elapsed = (if recorded < now then now - recorded else 0) in
              if elapsed < duplicate_cooldown_seconds b then Some elapsed else None))
      else None)"

definition evaluate_outbound_policy ::
  "OutboundPolicy \<Rightarrow> OutboundBudgetState \<Rightarrow> OutboundActionProposal \<Rightarrow> int \<Rightarrow> OutboundPolicyDecision" where
  "evaluate_outbound_policy policy s p now =
     (let b = budget_for policy (prop_kind p);
          status = outbound_budget_status policy s (prop_kind p) now;
          verdict = (\<lambda>out why retry. \<lparr>outcome = out, reason = why, retry_after_seconds = retry,
                                        decision_budget = status\<rparr>)
      in if \<not> budget_enabled b then verdict Outcome_Deny KindDisabled 0
      else case duplicate_elapsed b s p now of
        Some elapsed \<Rightarrow>
          verdict Outcome_Defer DuplicateSuppressed (max 1 (duplicate_cooldown_seconds b - elapsed))
      | None \<Rightarrow>
        if 0 < min_interval_seconds b \<and> 0 \<le> seconds_since_last status \<and>
           seconds_since_last status < min_interval_seconds b then
          verdict Outcome_Defer CooldownActive
            (max 1 (min_interval_seconds b - seconds_since_last status))
        else if max_in_window b \<le> used_in_window status then
          verdict Outcome_Defer WindowExhausted
            (case earliest_outbound_action_in_window s (prop_kind p) (window_seconds b) now of
               Some earliest \<Rightarrow>
                 (let age = (if earliest < now then now - earliest else 0)
                  in max 1 (window_seconds b - age + 1))
             | None \<Rightarrow> max 1 (window_seconds b))
        else verdict Outcome_Allow Reason_Allow 0)"

definition admit_outbound_action ::
  "OutboundPolicy \<Rightarrow> OutboundBudgetState \<Rightarrow> OutboundActionProposal \<Rightarrow> int \<Rightarrow>
   OutboundPolicyDecision \<times> OutboundBudgetState" where
  "admit_outbound_action policy s p now =
     (let decision = evaluate_outbound_policy policy s p now in
      (decision,
       if outcome decision = Outcome_Allow
       then record_outbound_action s p (budget_for policy (prop_kind p)) now else s))"

definition unsupported_outbound_decision :: OutboundPolicyDecision where
  "unsupported_outbound_decision =
     \<lparr>outcome = Outcome_Deny, reason = UnsupportedKind, retry_after_seconds = 0,
      decision_budget = empty_status\<rparr>"

fun describe_reason :: "OutboundReason \<Rightarrow> string" where
  "describe_reason Reason_Allow = ''action is permitted by policy''"
| "describe_reason KindDisabled = ''action kind is disabled by policy (default-deny)''"
| "describe_reason UnsupportedKind = ''action kind is not supported by this runtime''"
| "describe_reason DuplicateSuppressed =
     ''an identical action was admitted within its duplicate cooldown''"
| "describe_reason CooldownActive =
     ''the minimum interval between actions of this kind has not elapsed''"
| "describe_reason WindowExhausted = ''the per-window rate limit for this kind is exhausted''"

definition describe_outbound_decision :: "OutboundPolicyDecision \<Rightarrow> string" where
  "describe_outbound_decision d = describe_reason (reason d)"

subsection \<open>One decision\<close>

lemma evaluate_enabled:
  "outcome (evaluate_outbound_policy policy s p now) = Outcome_Allow \<longleftrightarrow>
     budget_enabled (budget_for policy (prop_kind p)) \<and>
     duplicate_elapsed (budget_for policy (prop_kind p)) s p now = None \<and>
     \<not> (0 < min_interval_seconds (budget_for policy (prop_kind p)) \<and>
        0 \<le> seconds_since_last (outbound_budget_status policy s (prop_kind p) now) \<and>
        seconds_since_last (outbound_budget_status policy s (prop_kind p) now)
          < min_interval_seconds (budget_for policy (prop_kind p))) \<and>
     count_outbound_actions_in_window s (prop_kind p)
       (window_seconds (budget_for policy (prop_kind p))) now
       < max_in_window (budget_for policy (prop_kind p))"
  by (simp add: evaluate_outbound_policy_def Let_def outbound_budget_status_def not_le split: option.split)

lemma evaluate_outcome_reason:
  "outcome (evaluate_outbound_policy policy s p now) = Outcome_Deny \<longleftrightarrow>
     reason (evaluate_outbound_policy policy s p now) = KindDisabled"
  "outcome (evaluate_outbound_policy policy s p now) = Outcome_Allow \<longleftrightarrow>
     reason (evaluate_outbound_policy policy s p now) = Reason_Allow"
  by (simp_all add: evaluate_outbound_policy_def Let_def split: option.split)

lemma evaluate_retry:
  "outcome (evaluate_outbound_policy policy s p now) = Outcome_Defer \<Longrightarrow>
     1 \<le> retry_after_seconds (evaluate_outbound_policy policy s p now)"
  "outcome (evaluate_outbound_policy policy s p now) \<noteq> Outcome_Defer \<Longrightarrow>
     retry_after_seconds (evaluate_outbound_policy policy s p now) = 0"
  by (auto simp: evaluate_outbound_policy_def Let_def split: option.splits if_splits)

lemma admit_state:
  "snd (admit_outbound_action policy s p now) =
     (if outcome (evaluate_outbound_policy policy s p now) = Outcome_Allow
      then record_outbound_action s p (budget_for policy (prop_kind p)) now else s)"
  by (simp add: admit_outbound_action_def Let_def)

lemma budget_state_ok_admit [step_inv]:
  "budget_state_ok s \<Longrightarrow> budget_state_ok (snd (admit_outbound_action policy s p now))"
  by (simp add: admit_state budget_state_ok_record)

text \<open>
  The retained records are capped at 256 a kind, so a configured limit above 256 never
  refuses anything: the counted window can never reach it.
\<close>

lemma cap_hides_limit:
  assumes "budget_state_ok s"
    and "kMaxOutboundRecordsPerKind < max_in_window (budget_for policy (prop_kind p))"
  shows "reason (evaluate_outbound_policy policy s p now) \<noteq> WindowExhausted"
proof -
  have "count_outbound_actions_in_window s (prop_kind p) w now
        \<le> length (recent_actions (usage s (prop_kind p)))" for w
    by (simp add: count_outbound_actions_in_window_def)
  moreover have "length (recent_actions (usage s (prop_kind p))) \<le> kMaxOutboundRecordsPerKind"
    using assms(1) by (simp add: budget_state_ok_def usage_ok_def)
  ultimately have few: "\<not> max_in_window (budget_for policy (prop_kind p))
      \<le> count_outbound_actions_in_window s (prop_kind p) w now" for w
    using assms(2) by (meson le_less_trans order_trans not_le)
  show ?thesis
    by (simp add: evaluate_outbound_policy_def Let_def outbound_budget_status_def few
        split: option.split)
qed

subsection \<open>Runs of admissions\<close>

text \<open>
  A run answers a list of requests in order.  Its log, which the program does not keep, is the
  recorded time of every admitted action of each kind, oldest first.
\<close>

type_synonym request = "OutboundActionProposal \<times> int"

record audited =
  au_state :: OutboundBudgetState
  au_log :: "OutboundActionKind \<Rightarrow> int list"

definition admit_step :: "OutboundPolicy \<Rightarrow> request \<Rightarrow> audited \<Rightarrow> audited" where
  "admit_step policy req a =
     (let p = fst req; now = snd req; k = prop_kind p;
          (decision, s') = admit_outbound_action policy (au_state a) p now
      in \<lparr>au_state = s',
          au_log = (if outcome decision = Outcome_Allow
                    then (au_log a)(k := au_log a k @ [clamp_now (usage (au_state a) k) now])
                    else au_log a)\<rparr>)"

definition audited_start :: audited where
  "audited_start = \<lparr>au_state = empty_budget_state, au_log = (\<lambda>_. [])\<rparr>"

definition in_window :: "int list \<Rightarrow> int \<Rightarrow> int \<Rightarrow> nat" where
  "in_window hist w t = length (filter (\<lambda>x. t - w \<le> x \<and> x \<le> t) hist)"

text \<open>
  What ties the stored records to the log of a kind: the records are the newest part of the
  log, what was forgotten is older than the window before the last action, no window of the
  log holds more than the limit, and consecutive actions keep the minimum spacing.
\<close>

fun spaced :: "int \<Rightarrow> int list \<Rightarrow> bool" where
  "spaced d (x # y # ys) \<longleftrightarrow> d \<le> y - x \<and> spaced d (y # ys)"
| "spaced d _ \<longleftrightarrow> True"

definition log_ok :: "ActionBudget \<Rightarrow> OutboundKindUsage \<Rightarrow> int list \<Rightarrow> bool" where
  "log_ok b u hist \<longleftrightarrow>
     sorted hist \<and> spaced (min_interval_seconds b) hist \<and>
     last_action_at u = (if hist = [] then None else Some (last hist)) \<and>
     (\<exists>old. hist = old @ recent_actions u \<and>
            (\<forall>x \<in> set old. x < last hist - window_seconds b)) \<and>
     (\<forall>t. in_window hist (window_seconds b) t \<le> max_in_window b)"

definition audited_ok :: "OutboundPolicy \<Rightarrow> audited \<Rightarrow> bool" where
  "audited_ok policy a \<longleftrightarrow> (\<forall>k. log_ok (budget_for policy k) (usage (au_state a) k) (au_log a k))"

definition policy_enforceable :: "OutboundPolicy \<Rightarrow> bool" where
  "policy_enforceable policy \<longleftrightarrow>
     (\<forall>k. 1 \<le> max_in_window (budget_for policy k) \<and>
          max_in_window (budget_for policy k) \<le> kMaxOutboundRecordsPerKind \<and>
          0 \<le> window_seconds (budget_for policy k) \<and>
          0 \<le> min_interval_seconds (budget_for policy k))"

lemma log_ok_empty: "log_ok b empty_usage []"
  by (simp add: log_ok_def empty_usage_def in_window_def)

lemma spaced_snoc: "spaced d (xs @ [y]) \<longleftrightarrow> spaced d xs \<and> (xs = [] \<or> d \<le> y - last xs)"
  by (induction d xs rule: spaced.induct) auto

lemma in_window_append: "in_window (xs @ ys) w t = in_window xs w t + in_window ys w t"
  by (simp add: in_window_def)

lemma in_window_old: "\<forall>x \<in> set xs. x < t - w \<Longrightarrow> in_window xs w t = 0"
  by (auto simp: in_window_def filter_empty_conv)

text \<open>In a sorted list the elements from a bound on are its newest ones.\<close>

lemma drop_old:
  assumes "sorted xs" and "length (filter (\<lambda>x. c \<le> x) xs) \<le> n" and "n \<le> length xs"
  shows "\<forall>x \<in> set (take (length xs - n) xs). x < c"
proof
  fix x assume x: "x \<in> set (take (length xs - n) xs)"
  show "x < c"
  proof (rule ccontr)
    assume "\<not> x < c"
    obtain i where i: "i < length xs - n" "x = xs ! i"
      using x by (auto simp: in_set_conv_nth)
    have "c \<le> y" if "y \<in> set (drop i xs)" for y
    proof -
      from that obtain j where "j < length (drop i xs)" "y = drop i xs ! j"
        by (metis in_set_conv_nth)
      then have "xs ! i \<le> y" using assms(1) i by (simp add: sorted_nth_mono)
      with \<open>\<not> x < c\<close> i show ?thesis by simp
    qed
    then have "length (filter (\<lambda>x. c \<le> x) (drop i xs)) = length xs - i"
      by (simp add: filter_True)
    moreover have "length (filter (\<lambda>x. c \<le> x) (take i xs @ drop i xs)) \<ge>
        length (filter (\<lambda>x. c \<le> x) (drop i xs))"
      by (simp only: filter_append length_append)
    ultimately have "length xs - i \<le> length (filter (\<lambda>x. c \<le> x) xs)" by simp
    with i assms(2) show False by linarith
  qed
qed

text \<open>
  One admitted action, on the level of the lists: a recorded time \<open>r\<close> no earlier than the
  clock, an earlier history split into forgotten and retained records, and fewer than \<open>m\<close>
  retained records in the window the evaluation looked at.
\<close>

lemma sorted_split:
  fixes xs :: "int list"
  shows "sorted xs \<Longrightarrow> xs = filter (\<lambda>x. \<not> c \<le> x) xs @ filter (\<lambda>x. c \<le> x) xs"
proof (induction xs)
  case Nil
  then show ?case by simp
next
  case (Cons x xs)
  show ?case
  proof (cases "c \<le> x")
    case True
    then have "filter (\<lambda>x. \<not> c \<le> x) xs = []" and "filter (\<lambda>x. c \<le> x) xs = xs"
      using Cons.prems by (auto simp: filter_empty_conv filter_id_conv)
    with True show ?thesis by simp
  next
    case False
    with Cons show ?thesis by simp
  qed
qed

lemma filter_le_mono: "(c::int) \<le> d \<Longrightarrow> length (filter (\<lambda>x. d \<le> x) xs) \<le> length (filter (\<lambda>x. c \<le> x) xs)"
  by (induction xs) auto

lemma few_recent:
  assumes "now \<le> (r::int)" and "length (filter (\<lambda>t. now - w \<le> t) kept) < m"
  shows "length (filter (\<lambda>t. r - w \<le> t) (kept @ [r])) \<le> m"
proof -
  have "length (filter (\<lambda>t. r - w \<le> t) kept) \<le> length (filter (\<lambda>t. now - w \<le> t) kept)"
    using assms(1) by (intro filter_le_mono) simp
  then show ?thesis using assms(2) by simp
qed

lemma admission_retained:
  fixes kept :: "int list"
  assumes asc: "sorted (kept @ [r])"
    and forgotten: "\<And>x. x \<in> set old \<Longrightarrow> x < r - w"
    and horizon: "w \<le> H"
    and few: "length (filter (\<lambda>t. r - w \<le> t) (kept @ [r])) \<le> kMaxOutboundRecordsPerKind"
  shows "\<exists>old'. old @ kept @ [r] = old' @ drop_oldest (filter (\<lambda>t. r - H \<le> t) (kept @ [r])) \<and>
          (\<forall>x \<in> set old'. x < r - w)"
proof -
  define xs where "xs = filter (\<lambda>t. r - H \<le> t) (kept @ [r])"
  define n where "n = keep_last (length xs) kMaxOutboundRecordsPerKind"
  define lows where "lows = filter (\<lambda>t. \<not> r - H \<le> t) (kept @ [r])"
  have split: "kept @ [r] = lows @ xs"
    unfolding xs_def lows_def using asc by (rule sorted_split)
  have cut: "\<forall>x \<in> set (take n xs). x < r - w"
  proof (cases "kMaxOutboundRecordsPerKind < length xs")
    case True
    have "filter (\<lambda>x. r - w \<le> x) xs = filter (\<lambda>t. r - w \<le> t) (kept @ [r])"
      unfolding xs_def using horizon by (auto simp: filter_filter intro!: filter_cong)
    then have "length (filter (\<lambda>x. r - w \<le> x) xs) \<le> kMaxOutboundRecordsPerKind"
      using few by simp
    moreover have "sorted xs" unfolding xs_def using asc by (rule sorted_wrt_filter)
    moreover have "n = length xs - kMaxOutboundRecordsPerKind"
      using True by (simp add: n_def keep_last_def)
    ultimately show ?thesis using True drop_old [of xs "r - w" kMaxOutboundRecordsPerKind] by simp
  next
    case False
    then show ?thesis by (simp add: n_def keep_last_def)
  qed
  let ?old' = "old @ lows @ take n xs"
  have "old @ kept @ [r] = ?old' @ drop_oldest xs"
    using split by (simp add: drop_oldest_def n_def)
  moreover have "\<forall>x \<in> set ?old'. x < r - w"
    using forgotten cut horizon by (auto simp: lows_def)
  ultimately show ?thesis unfolding xs_def by blast
qed

lemma admission_window:
  fixes kept :: "int list"
  assumes forgotten: "\<And>x. x \<in> set old \<Longrightarrow> x < r - w" and clock: "now \<le> r"
    and room: "length (filter (\<lambda>t. now - w \<le> t) kept) < m"
    and before: "in_window (old @ kept) w t \<le> m"
  shows "in_window (old @ kept @ [r]) w t \<le> m"
proof (cases "t < r")
  case True
  then have "in_window [r] w t = 0" by (simp add: in_window_def)
  with before show ?thesis by (simp add: in_window_append)
next
  case False
  have "in_window old w t = 0" using forgotten False by (intro in_window_old) force
  moreover have "in_window kept w t \<le> length (filter (\<lambda>x. t - w \<le> x) kept)"
    unfolding in_window_def by (induction kept) auto
  moreover have "length (filter (\<lambda>x. t - w \<le> x) kept) \<le> length (filter (\<lambda>x. now - w \<le> x) kept)"
    using False clock by (intro filter_le_mono) simp
  moreover have "in_window [r] w t \<le> 1" by (simp add: in_window_def)
  ultimately show ?thesis using room by (simp add: in_window_append)
qed

lemma recent_record_usage:
  "recent_actions (record_usage u p b now) =
     drop_oldest (filter (\<lambda>t. clamp_now u now - prune_horizon b \<le> t)
       (recent_actions u @ [clamp_now u now]))"
  "last_action_at (record_usage u p b now) = Some (clamp_now u now)"
  unfolding record_usage_eq by (simp_all add: recent_prune_kind)

lemma log_ok_record:
  assumes ok: "log_ok b u hist"
    and lim: "max_in_window b \<le> kMaxOutboundRecordsPerKind" and pos: "0 \<le> window_seconds b"
    and room: "length (filter (\<lambda>t. now - window_seconds b \<le> t) (recent_actions u)) < max_in_window b"
    and gap: "\<And>l. last_action_at u = Some l \<Longrightarrow> min_interval_seconds b \<le> clamp_now u now - l"
  shows "log_ok b (record_usage u p b now) (hist @ [clamp_now u now])"
proof -
  define r where "r = clamp_now u now"
  have clock: "now \<le> r" by (auto simp: r_def clamp_now_def split: option.splits)
  have last: "last_action_at u = (if hist = [] then None else Some (last hist))" and sorted: "sorted hist"
    using ok by (auto simp: log_ok_def)
  then have last_r: "hist \<noteq> [] \<Longrightarrow> last hist \<le> r"
    by (auto simp: r_def clamp_now_def)
  have sorted_r: "sorted (hist @ [r])"
    using sorted last_r by (cases hist rule: rev_cases) (auto simp: sorted_append intro: order_trans)
  obtain old where hist: "hist = old @ recent_actions u"
    and old: "\<forall>x \<in> set old. x < last hist - window_seconds b"
    using ok by (auto simp: log_ok_def)
  have old_r: "x < r - window_seconds b" if "x \<in> set old" for x
    using that old last_r hist by (cases "hist = []") force+
  have few: "length (filter (\<lambda>t. r - window_seconds b \<le> t) (recent_actions u @ [r]))
      \<le> kMaxOutboundRecordsPerKind"
    using few_recent [OF clock room] lim by simp
  have "\<exists>old'. old @ recent_actions u @ [r] =
          old' @ drop_oldest (filter (\<lambda>t. r - prune_horizon b \<le> t) (recent_actions u @ [r])) \<and>
          (\<forall>x \<in> set old'. x < r - window_seconds b)"
    using sorted_r hist old_r few
    by (intro admission_retained) (auto simp: sorted_append prune_horizon_def)
  moreover have "in_window (hist @ [r]) (window_seconds b) t \<le> max_in_window b" for t
    using admission_window [OF old_r clock room, where t = t] ok hist by (simp add: log_ok_def)
  moreover have "spaced (min_interval_seconds b) (hist @ [r])"
    using ok last gap by (cases "hist = []") (auto simp: spaced_snoc log_ok_def r_def)
  ultimately show ?thesis
    using sorted_r hist by (simp add: log_ok_def recent_record_usage r_def)
qed

lemma log_ok_admit:
  assumes "log_ok (budget_for policy k) (usage s k) hist" and "policy_enforceable policy"
    and "outcome (evaluate_outbound_policy policy s p now) = Outcome_Allow" and k: "prop_kind p = k"
  shows "log_ok (budget_for policy k) (record_usage (usage s k) p (budget_for policy k) now)
           (hist @ [clamp_now (usage s k) now])"
proof (rule log_ok_record [OF assms(1)])
  show "max_in_window (budget_for policy k) \<le> kMaxOutboundRecordsPerKind"
    and "0 \<le> window_seconds (budget_for policy k)"
    using assms(2) by (auto simp: policy_enforceable_def)
  show "length (filter (\<lambda>t. now - window_seconds (budget_for policy k) \<le> t) (recent_actions (usage s k)))
      < max_in_window (budget_for policy k)"
    using assms(3) k by (simp add: evaluate_enabled count_outbound_actions_in_window_def)
  fix l assume l: "last_action_at (usage s k) = Some l"
  have "0 \<le> min_interval_seconds (budget_for policy k)"
    using assms(2) by (simp add: policy_enforceable_def)
  moreover have "\<not> (0 < min_interval_seconds (budget_for policy k) \<and>
      (if l \<le> now then now - l else 0) < min_interval_seconds (budget_for policy k))"
    using assms(3) k l
    by (auto simp: evaluate_enabled outbound_budget_status_def Let_def last_outbound_action_at_def)
  ultimately show "min_interval_seconds (budget_for policy k) \<le> clamp_now (usage s k) now - l"
    using l by (auto simp: clamp_now_def split: if_splits)
qed

lemma audited_ok_start: "audited_ok policy audited_start"
  by (simp add: audited_ok_def audited_start_def empty_budget_state_def log_ok_empty)

lemma audited_ok_step [step_inv]:
  assumes "policy_enforceable policy" and "audited_ok policy a"
  shows "audited_ok policy (admit_step policy req a)"
proof -
  obtain p now where req: "req = (p, now)" by (cases req)
  show ?thesis
  proof (cases "outcome (evaluate_outbound_policy policy (au_state a) p now) = Outcome_Allow")
    case True
    then have "log_ok (budget_for policy (prop_kind p))
        (record_usage (usage (au_state a) (prop_kind p)) p (budget_for policy (prop_kind p)) now)
        (au_log a (prop_kind p) @ [clamp_now (usage (au_state a) (prop_kind p)) now])"
      using assms by (intro log_ok_admit) (auto simp: audited_ok_def)
    with True assms(2) req show ?thesis
      by (auto simp: audited_ok_def admit_step_def admit_outbound_action_def Let_def
          record_outbound_action_def)
  next
    case False
    with assms(2) req show ?thesis
      by (simp add: audited_ok_def admit_step_def admit_outbound_action_def Let_def)
  qed
qed

text \<open>
  The interface: a limiter answers each request with a new audited state.  Its law is that a
  request keeps the log within the limits; the runs follow from the library's machine.
\<close>

locale rate_limiter = invariant_machine step inv
  for step :: "request \<Rightarrow> audited \<Rightarrow> audited" and inv :: "audited \<Rightarrow> bool" +
  fixes width :: "OutboundActionKind \<Rightarrow> int" and limit :: "OutboundActionKind \<Rightarrow> nat"
    and gap :: "OutboundActionKind \<Rightarrow> int"
  assumes inv_start: "inv audited_start"
    and inv_window: "inv a \<Longrightarrow> in_window (au_log a k) (width k) t \<le> limit k"
    and inv_spaced: "inv a \<Longrightarrow> spaced (gap k) (au_log a k)"
begin

lemma run_window: "in_window (au_log (run step reqs audited_start) k) (width k) t \<le> limit k"
  by (intro inv_window run_keeps inv_start)

lemma run_spaced: "spaced (gap k) (au_log (run step reqs audited_start) k)"
  by (intro inv_spaced run_keeps inv_start)

end

text \<open>
  The provider is the admission under an enforceable policy.  A policy that is not
  enforceable is replaced by the all-disabled default, so that the interpretation is total.
\<close>

definition enforceable_or_default :: "OutboundPolicy \<Rightarrow> OutboundPolicy" where
  "enforceable_or_default policy =
     (if policy_enforceable policy then policy else default_outbound_policy)"

lemma enforceable_or_default [simp]: "policy_enforceable (enforceable_or_default policy)"
  by (simp add: enforceable_or_default_def policy_enforceable_def default_outbound_policy_def
      budget_for_def default_budget_def kMaxOutboundRecordsPerKind_def)

interpretation admission: rate_limiter
  "admit_step (enforceable_or_default policy)" "audited_ok (enforceable_or_default policy)"
  "\<lambda>k. window_seconds (budget_for (enforceable_or_default policy) k)"
  "\<lambda>k. max_in_window (budget_for (enforceable_or_default policy) k)"
  "\<lambda>k. min_interval_seconds (budget_for (enforceable_or_default policy) k)"
  for policy
proof unfold_locales
  show "audited_ok (enforceable_or_default policy) audited_start"
    by (rule audited_ok_start)
next
  fix s e assume "audited_ok (enforceable_or_default policy) s"
  then show "audited_ok (enforceable_or_default policy) (admit_step (enforceable_or_default policy) e s)"
    by (intro audited_ok_step) simp_all
qed (simp_all add: audited_ok_def log_ok_def)

subsection \<open>The attempt's pruning is invisible\<close>

text \<open>
  Every execution attempt prunes the loaded state before evaluating it.  On a well-formed
  state the decision, and the state an admission leaves behind, are the same without it.
\<close>

lemma prune_recent_ok:
  "usage_ok u \<Longrightarrow> recent_actions (prune_kind u b now) =
     filter (\<lambda>t. now - prune_horizon b \<le> t) (recent_actions u)"
  by (simp add: recent_prune_kind drop_oldest_short usage_ok_def le_trans [OF length_filter_le])

lemma prune_duplicates_ok:
  "usage_ok u \<Longrightarrow> recent_duplicates (prune_kind u b now) =
     (if 0 < duplicate_cooldown_seconds b
      then filter (\<lambda>r. now - duplicate_cooldown_seconds b \<le> dup_at r) (recent_duplicates u) else [])"
  by (simp add: prune_kind_def Let_def not_less drop_oldest_short usage_ok_def
      le_trans [OF length_filter_le])

lemma find_as_filter: "find P xs = (case filter P xs of [] \<Rightarrow> None | x # _ \<Rightarrow> Some x)"
  by (induction xs) auto

lemma find_filter_distinct:
  assumes "distinct (map dup_key rs)"
  shows "find (\<lambda>r. dup_key r = key) (filter P rs) =
     (case find (\<lambda>r. dup_key r = key) rs of Some r \<Rightarrow> (if P r then Some r else None) | None \<Rightarrow> None)"
  using assms
proof (induction rs)
  case Nil
  then show ?case by simp
next
  case (Cons r rs)
  have "find (\<lambda>r. dup_key r = key) (filter P rs) = None" if "dup_key r = key"
  proof -
    have "dup_key r \<notin> dup_key ` set rs" using Cons.prems by simp
    with that show ?thesis by (force simp: find_None_iff image_iff)
  qed
  with Cons show ?case by (auto split: option.splits)
qed

lemma filter_later:
  assumes "(now::int) \<le> r"
  shows "filter (\<lambda>x. r - c \<le> f x) (filter (\<lambda>x. now - c \<le> f x) xs) = filter (\<lambda>x. r - c \<le> f x) xs"
proof -
  have "(now - c \<le> f x \<and> r - c \<le> f x) = (r - c \<le> f x)" for x using assms by auto
  then show ?thesis by (simp add: filter_filter conj_commute)
qed

lemma filter_swap: "filter P (filter Q xs) = filter Q (filter P xs)"
  by (simp add: conj_commute)

lemma record_after_prune:
  assumes "usage_ok u"
  shows "record_usage (prune_kind u b now) p b now = record_usage u p b now"
proof -
  define r where "r = clamp_now u now"
  have clamp: "clamp_now (prune_kind u b now) now = r" and now_le: "now \<le> r"
    by (auto simp: r_def clamp_now_def split: option.splits)
  have acts: "filter (\<lambda>t. r - prune_horizon b \<le> t) (recent_actions (prune_kind u b now)) =
      filter (\<lambda>t. r - prune_horizon b \<le> t) (recent_actions u)"
    unfolding prune_recent_ok [OF assms] by (rule filter_later [OF now_le, where f = "\<lambda>x. x"])
  have dups: "filter (\<lambda>x. r - duplicate_cooldown_seconds b \<le> dup_at x)
        (filter P (recent_duplicates (prune_kind u b now))) =
      filter (\<lambda>x. r - duplicate_cooldown_seconds b \<le> dup_at x) (filter P (recent_duplicates u))"
    if "0 < duplicate_cooldown_seconds b" for P
  proof -
    have "(now - duplicate_cooldown_seconds b \<le> t \<and> r - duplicate_cooldown_seconds b \<le> t \<and> q) =
        (r - duplicate_cooldown_seconds b \<le> t \<and> q)" for t q
      using now_le by auto
    with that show ?thesis by (simp add: prune_duplicates_ok [OF assms] conj_ac)
  qed
  show ?thesis
    unfolding record_usage_eq clamp r_def [symmetric] prune_kind_def [where now = r]
    using acts dups by (simp add: Let_def not_less del: filter_filter)
qed

lemma duplicate_after_prune:
  assumes "usage_ok (usage s (prop_kind p))"
    and "usage s' (prop_kind p) = prune_kind (usage s (prop_kind p)) b now"
  shows "duplicate_elapsed b s' p now = duplicate_elapsed b s p now"
proof (cases "0 < duplicate_cooldown_seconds b")
  case True
  have "distinct (map dup_key (recent_duplicates (usage s (prop_kind p))))"
    using assms(1) by (simp add: usage_ok_def)
  from find_filter_distinct [OF this] show ?thesis
    using True assms
    by (auto simp: duplicate_elapsed_def duplicate_outbound_recorded_at_def Let_def
        prune_duplicates_ok split: option.splits)
qed (simp add: duplicate_elapsed_def)

lemma window_after_prune:
  assumes "usage_ok u"
  shows "filter (\<lambda>t. now - window_seconds b \<le> t) (recent_actions (prune_kind u b now)) =
         filter (\<lambda>t. now - window_seconds b \<le> t) (recent_actions u)"
proof -
  have "window_seconds b \<le> prune_horizon b" by (simp add: prune_horizon_def)
  then have "(now - prune_horizon b \<le> t \<and> now - window_seconds b \<le> t) = (now - window_seconds b \<le> t)" for t
    by auto
  then show ?thesis by (simp add: prune_recent_ok [OF assms] conj_commute)
qed

lemma evaluate_after_prune:
  assumes "budget_state_ok s"
  shows "evaluate_outbound_policy policy (prune_outbound_budget_state s policy now) p now =
         evaluate_outbound_policy policy s p now"
proof -
  let ?k = "prop_kind p" and ?s' = "prune_outbound_budget_state s policy now"
  let ?b = "budget_for policy ?k"
  have u': "usage ?s' ?k = prune_kind (usage s ?k) ?b now"
    by (simp add: prune_outbound_budget_state_def)
  have ok: "usage_ok (usage s ?k)" using assms by (simp add: budget_state_ok_def)
  have "count_outbound_actions_in_window ?s' ?k (window_seconds ?b) now =
        count_outbound_actions_in_window s ?k (window_seconds ?b) now"
    and "earliest_outbound_action_in_window ?s' ?k (window_seconds ?b) now =
        earliest_outbound_action_in_window s ?k (window_seconds ?b) now"
    by (simp_all add: count_outbound_actions_in_window_def earliest_outbound_action_in_window_def
        find_as_filter u' window_after_prune [OF ok])
  moreover have "duplicate_elapsed ?b ?s' p now = duplicate_elapsed ?b s p now"
    by (rule duplicate_after_prune [OF ok u'])
  moreover have "last_outbound_action_at ?s' ?k = last_outbound_action_at s ?k"
    by (simp add: last_outbound_action_at_def u')
  ultimately show ?thesis
    by (simp add: evaluate_outbound_policy_def outbound_budget_status_def Let_def
        cong del: option.case_cong_weak if_weak_cong)
qed

end
