(* ===== verification/Rfc3339.thy ===== *)
theory Rfc3339
  imports Prelude
begin

text \<open>
  RFC 3339 instants (src/src/app/state/time.hpp and time.cpp).  The parser reads a fixed
  19-character stem, an optional fraction and an optional zone, and converts the civil date to
  days since 1970-01-01 by era arithmetic.  The lemmas show that the day count is the day
  count of the Gregorian calendar, and which texts are accepted.
\<close>

text \<open>The checks of the character loop, position by position.\<close>

definition stem_char_ok :: "nat \<Rightarrow> char \<Rightarrow> bool" where
  "stem_char_ok i c \<longleftrightarrow>
     is_digit c \<or> ((i = 4 \<or> i = 7) \<and> c = CHR ''-'') \<or> ((i = 13 \<or> i = 16) \<and> c = CHR '':'') \<or>
     (i = 10 \<and> c = CHR ''T'')"

text \<open>
  \<open>sscanf\<close> with the format \<open>%4d-%2d-%2dT%2d:%2d:%2d\<close> on a stem that passed the loop: the
  fields are digits, so it converts six fields exactly when the separators match.
\<close>

definition scan_stem :: "string \<Rightarrow> (int \<times> int \<times> int \<times> int \<times> int \<times> int) option" where
  "scan_stem s =
     (if s ! 4 = CHR ''-'' \<and> s ! 7 = CHR ''-'' \<and> s ! 10 = CHR ''T'' \<and> s ! 13 = CHR '':'' \<and>
         s ! 16 = CHR '':''
      then Some (int (dec_value (substr s 0 4)), int (dec_value (substr s 5 2)),
                 int (dec_value (substr s 8 2)), int (dec_value (substr s 11 2)),
                 int (dec_value (substr s 14 2)), int (dec_value (substr s 17 2)))
      else None)"

text \<open>\<open>std::stol\<close> on a short text: leading white space, a sign, at least one digit, the rest ignored.\<close>

definition stol :: "string \<Rightarrow> int option" where
  "stol s =
     (let t = dropWhile is_space s;
          neg = (t \<noteq> [] \<and> hd t = CHR ''-'');
          u = (if t \<noteq> [] \<and> (hd t = CHR ''-'' \<or> hd t = CHR ''+'') then tl t else t);
          ds = takeWhile is_digit u
      in if ds = [] then None
         else Some (if neg then - int (dec_value ds) else int (dec_value ds)))"

text \<open>The rest after the stem: the fraction is skipped, the zone gives the offset in seconds.\<close>

definition skip_fraction :: "string \<Rightarrow> string" where
  "skip_fraction rest =
     (if rest \<noteq> [] \<and> hd rest = CHR ''.'' then dropWhile is_digit (tl rest) else rest)"

definition parse_zone :: "string \<Rightarrow> int option" where
  "parse_zone rest =
     (case rest of
        [] \<Rightarrow> Some 0
      | zone # more \<Rightarrow>
          if zone = CHR ''Z'' \<or> zone = CHR ''z'' then (if more = [] then Some 0 else None)
          else if zone = CHR ''+'' \<or> zone = CHR ''-'' then
            (if length rest < 6 \<or> rest ! 3 \<noteq> CHR '':'' then None
             else case (stol (substr rest 1 2), stol (substr rest 4 2)) of
               (Some hours, Some minutes) \<Rightarrow>
                 if 23 < hours \<or> 59 < minutes then None
                 else if length rest \<noteq> 6 then None
                 else Some (if zone = CHR ''-'' then - (hours * 3600 + minutes * 60)
                            else hours * 3600 + minutes * 60)
             | _ \<Rightarrow> None)
          else None)"

text \<open>C++ division truncates toward zero.\<close>

definition cdiv :: "int \<Rightarrow> int \<Rightarrow> int" where
  "cdiv a b = (if 0 \<le> a then a div b else - ((- a) div b))"

definition epoch_days :: "int \<Rightarrow> int \<Rightarrow> int \<Rightarrow> int" where
  "epoch_days year month day =
     (let adjusted_month = (if 2 < month then month else month + 12);
          adjusted_year = year - (if 2 < month then 0 else 1);
          era = (if 0 \<le> adjusted_year then cdiv adjusted_year 400 else cdiv (adjusted_year - 399) 400);
          year_of_era = adjusted_year - era * 400;
          day_of_year =
            cdiv (153 * (if 2 < adjusted_month then adjusted_month - 3 else adjusted_month + 9) + 2) 5
              + day - 1;
          day_of_era = year_of_era * 365 + cdiv year_of_era 4 - cdiv year_of_era 100 + day_of_year
      in era * 146097 + day_of_era - 719468)"

definition parse_rfc3339_epoch :: "string \<Rightarrow> nat option" where
  "parse_rfc3339_epoch s =
     (if length s < 19 then None
      else if \<not> list_all (\<lambda>i. stem_char_ok i (s ! i)) [0..<19] then None
      else case scan_stem (take 19 s) of
        None \<Rightarrow> None
      | Some (year, month, day, hour, minute, second) \<Rightarrow>
          if month < 1 \<or> 12 < month \<or> day < 1 \<or> 31 < day \<or> 23 < hour \<or> 59 < minute \<or> 60 < second
          then None
          else case parse_zone (skip_fraction (drop 19 s)) of
            None \<Rightarrow> None
          | Some offset \<Rightarrow>
              (let epoch = epoch_days year month day * 86400 + hour * 3600 + minute * 60 + second - offset
               in if epoch < 0 then None else Some (nat epoch)))"

subsection \<open>The day count is the calendar's\<close>

definition leap_year :: "int \<Rightarrow> bool" where
  "leap_year y \<longleftrightarrow> (y mod 4 = 0 \<and> y mod 100 \<noteq> 0) \<or> y mod 400 = 0"

definition month_length :: "int \<Rightarrow> int \<Rightarrow> int" where
  "month_length y m =
     (if m = 2 then (if leap_year y then 29 else 28)
      else if m \<in> {4, 6, 9, 11} then 30 else 31)"

definition civil_date :: "int \<Rightarrow> int \<Rightarrow> int \<Rightarrow> bool" where
  "civil_date y m d \<longleftrightarrow> 0 \<le> y \<and> 1 \<le> m \<and> m \<le> 12 \<and> 1 \<le> d \<and> d \<le> month_length y m"

definition next_date :: "int \<Rightarrow> int \<Rightarrow> int \<Rightarrow> int \<times> int \<times> int" where
  "next_date y m d =
     (if d < month_length y m then (y, m, d + 1)
      else if m < 12 then (y, m + 1, 1) else (y + 1, 1, 1))"

lemma div_pred:
  fixes y k :: int
  assumes "0 < k"
  shows "y div k = (y - 1) div k + (if y mod k = 0 then 1 else 0)"
proof (cases "y mod k = 0")
  case True
  then have "y = k * (y div k)" by (metis add.right_neutral mult_div_mod_eq)
  then have "y - 1 = k * (y div k - 1) + (k - 1)" by (simp add: right_diff_distrib)
  from int_div_pos_eq [OF this] have "(y - 1) div k = y div k - 1" using assms by simp
  with True show ?thesis by simp
next
  case False
  have "0 \<le> y mod k" "y mod k < k" using assms by auto
  with False have "0 \<le> y mod k - 1" "y mod k - 1 < k" by auto
  moreover have "y - 1 = k * (y div k) + (y mod k - 1)" by (simp add: algebra_simps)
  ultimately have "(y - 1) div k = y div k" using int_div_pos_eq by blast
  with False show ?thesis by simp
qed

lemma div_coarse:
  fixes a k :: int
  assumes "0 < k" and "k dvd 400"
  shows "y div k = (y div 400) * (400 div k) + (y mod 400) div k"
proof -
  obtain c where c: "400 = k * c" using assms(2) by (auto simp: dvd_def)
  have "y = k * (c * (y div 400)) + y mod 400" using c by (metis mult.assoc mult_div_mod_eq)
  then have "y div k = c * (y div 400) + (y mod 400) div k"
    using assms(1) by (metis div_mult_self4 less_irrefl add.commute)
  moreover have "400 div k = c" unfolding c using assms(1) by (intro nonzero_mult_div_cancel_left) simp
  ultimately show ?thesis by (simp add: mult.commute)
qed

text \<open>The era arithmetic in closed form, for years from 0 on.\<close>

lemma year_days:
  "(y div 400) * 146097 + ((y mod 400) * 365 + (y mod 400) div 4 - (y mod 400) div 100) =
     y * 365 + y div 4 - y div 100 + y div 400" for y :: int
proof -
  have "(y div 400) * 400 + y mod 400 = y" by simp
  moreover have "y div 4 = (y div 400) * 100 + (y mod 400) div 4"
    and "y div 100 = (y div 400) * 4 + (y mod 400) div 100"
    using div_coarse [of 4 y] div_coarse [of 100 y] by simp_all
  ultimately show ?thesis by linarith
qed

lemma era_rest: "y - (y div 400) * 400 = y mod 400" "(y div 400) * 400 \<le> y" for y :: int
proof -
  show "y - (y div 400) * 400 = y mod 400" by (simp add: minus_div_mult_eq_mod)
  moreover have "0 \<le> y mod 400" by simp
  ultimately show "(y div 400) * 400 \<le> y" by linarith
qed

lemma cdiv_nonneg: "0 \<le> a \<Longrightarrow> cdiv a b = a div b"
  by (simp add: cdiv_def)

lemma epoch_days_eq:
  assumes "0 \<le> (if 2 < m then y else y - 1)" and "1 \<le> m"
  shows "epoch_days y m d =
     (let a = (if 2 < m then y else y - 1)
      in a * 365 + a div 4 - a div 100 + a div 400
           + (153 * (if 2 < m then m - 3 else m + 9) + 2) div 5 + d - 719469)"
proof -
  define a where "a = (if 2 < m then y else y - 1)"
  have a: "y - (if 2 < m then 0 else 1) = a" "0 \<le> a" using assms by (simp_all add: a_def)
  have month: "(if 2 < (if 2 < m then m else m + 12) then (if 2 < m then m else m + 12) - 3
                else (if 2 < m then m else m + 12) + 9) = (if 2 < m then m - 3 else m + 9)"
    using assms(2) by auto
  have era: "(if 0 \<le> a then cdiv a 400 else cdiv (a - 399) 400) = a div 400"
    using a(2) by (simp add: cdiv_nonneg)
  have "0 \<le> a mod 400" by simp
  then have parts: "cdiv (a mod 400) 4 = a mod 400 div 4" "cdiv (a mod 400) 100 = a mod 400 div 100"
    by (auto intro: cdiv_nonneg)
  have doy: "cdiv (153 * (if 2 < m then m - 3 else m + 9) + 2) 5 =
      (153 * (if 2 < m then m - 3 else m + 9) + 2) div 5"
    using assms(2) by (cases "2 < m") (simp_all add: cdiv_def)
  have "epoch_days y m d = (a div 400) * 146097 + ((a mod 400) * 365 + (a mod 400) div 4 - (a mod 400) div 100
            + ((153 * (if 2 < m then m - 3 else m + 9) + 2) div 5 + d - 1)) - 719468"
    unfolding epoch_days_def Let_def month a(1) era era_rest(1) parts doy by (rule refl)
  then show ?thesis
    unfolding Let_def a_def [symmetric] using year_days [of a] by linarith
qed

lemma count_three:
  fixes q :: int
  shows "q4 = p4 + (if A then 1 else 0) \<Longrightarrow> q100 = p100 + (if B then 1 else 0) \<Longrightarrow>
     q = p + (if C then 1 else 0) \<Longrightarrow> (B \<Longrightarrow> A) \<Longrightarrow> (C \<Longrightarrow> B) \<Longrightarrow>
     q4 - q100 + q = p4 - p100 + p + (if A \<and> \<not> B \<or> C then 1 else 0)"
  by auto

lemma leap_count:
  "y div 4 - y div 100 + y div 400 =
     (y - 1) div 4 - (y - 1) div 100 + (y - 1) div 400 + (if leap_year y then 1 else 0)" for y :: int
  unfolding leap_year_def
proof (rule count_three)
  show "y mod 100 = 0 \<Longrightarrow> y mod 4 = 0" and "y mod 400 = 0 \<Longrightarrow> y mod 100 = 0"
    by (auto simp: mod_eq_0_iff_dvd elim: dvd_trans [rotated])
qed (rule div_pred, simp)+

lemma epoch_days_start: "epoch_days 1970 1 1 = 0"
  by (simp add: epoch_days_def cdiv_def)

text \<open>Each date is one day after the one before it.\<close>

lemma month_cases:
  assumes "1 \<le> (m::int)" and "m \<le> 12"
  shows "m \<in> {1, 2, 3, 4, 5, 6, 7, 8, 9, 10, 11, 12}"
  using assms by (simp; presburger)

lemma epoch_days_next_day: "epoch_days y m (d + 1) = epoch_days y m d + 1"
  by (simp add: epoch_days_def Let_def)

lemma epoch_days_next_month:
  assumes "1 \<le> m" and "m < 12" and "1 \<le> y"
  shows "epoch_days y (m + 1) 1 = epoch_days y m (month_length y m) + 1"
proof -
  have "m \<in> {1, 2, 3, 4, 5, 6, 7, 8, 9, 10, 11, 12}" using assms by (intro month_cases) auto
  then consider "m = 2" | "m \<in> {1, 3, 4, 5, 6, 7, 8, 9, 10, 11}" using assms by auto
  then show ?thesis
  proof cases
    case 1
    have "epoch_days y 3 1 = y * 365 + (y div 4 - y div 100 + y div 400) - 719468"
      using assms(3) by (simp add: epoch_days_eq Let_def)
    moreover have "epoch_days y 2 (month_length y 2) =
        (y - 1) * 365 + ((y - 1) div 4 - (y - 1) div 100 + (y - 1) div 400) + 337 + month_length y 2 - 719469"
      using assms(3) by (simp add: epoch_days_eq Let_def)
    moreover have "month_length y 2 = 28 + (if leap_year y then 1 else 0)"
      by (simp add: month_length_def)
    ultimately show ?thesis using leap_count [of y] 1 by simp
  next
    case 2
    then show ?thesis using assms(3)
      by (elim insertE emptyE) (simp_all add: epoch_days_eq month_length_def Let_def)
  qed
qed

lemma epoch_days_next_year:
  "0 \<le> y \<Longrightarrow> epoch_days (y + 1) 1 1 = epoch_days y 12 (month_length y 12) + 1"
  by (simp add: epoch_days_eq Let_def month_length_def)

lemma epoch_days_next:
  assumes "civil_date y m d" and "1 \<le> y"
  shows "(case next_date y m d of (y', m', d') \<Rightarrow> epoch_days y' m' d') = epoch_days y m d + 1"
proof -
  consider "d < month_length y m" | "d = month_length y m" "m < 12" | "d = month_length y m" "m = 12"
    using assms(1) by (force simp: civil_date_def)
  then show ?thesis
  proof cases
    case 1
    then show ?thesis by (simp add: next_date_def epoch_days_next_day)
  next
    case 2
    then show ?thesis using assms
      by (simp add: next_date_def civil_date_def epoch_days_next_month)
  next
    case 3
    then show ?thesis using assms by (simp add: next_date_def epoch_days_next_year)
  qed
qed

subsection \<open>Evaluation on literal texts\<close>

lemma stem_range: "[0..<19] = [0,1,2,3,4,5,6,7,8,9,10,11,12,13,14,15,16,17,18::nat]"
  by code_simp

lemmas rfc3339_eval =
  parse_rfc3339_epoch_def stem_range scan_stem_def substr_def dec_value_def digit_val_def code_def
  stem_char_ok_def is_digit_def parse_zone_def skip_fraction_def epoch_days_def cdiv_def Let_def
  stol_def is_space_def

text \<open>
  Dates that do not exist and malformed zones are accepted as instants: 31 February, and a zone
  offset written \<open>+1x:0y\<close>.
\<close>

lemma impossible_instants_accepted:
  "parse_rfc3339_epoch ''2026-02-31T00:00:00Z'' = parse_rfc3339_epoch ''2026-03-03T00:00:00Z''"
  "parse_rfc3339_epoch ''2026-02-31T00:00:00Z'' \<noteq> None"
  "parse_rfc3339_epoch ''2026-01-01T00:00:00+1x:0y'' \<noteq> None"
  by (simp_all add: rfc3339_eval)

end
