(* ===== verification/Envelope.thy ===== *)
theory Envelope
  imports Outbound_Evaluate Control_State Rfc3339 "HOL-Library.Multiset" "HOL-Library.Char_ord" "HOL-Library.List_Lexorder"
begin

text \<open>
  Standing authorization envelopes (src/src/app/control/envelope.hpp and envelope.cpp): the
  document and its validation against the policy it may only narrow, the coverage of one
  action, the directory of envelopes, and revocation.  A directory is the list of its regular
  file names and the file system.
\<close>

record EnvelopeKindRule =
  rule_kind :: OutboundActionKind
  rule_max_in_window :: nat
  rule_window_seconds :: int
  min_plan_score :: double
  min_support_score :: double

record AuthorizationEnvelope =
  ae_version :: nat
  ae_id :: string
  expires_at :: "string option"
  scope_terms :: "string list"
  rules :: "EnvelopeKindRule list"
  note_text :: string
  created_at :: string

definition envelope_invalid :: "string \<Rightarrow> 'a result" where
  "envelope_invalid msg = throw EnvelopeError (''authorization envelope: '' @ msg)"

definition env_require_string :: "'j cjson \<Rightarrow> 'j \<Rightarrow> string \<Rightarrow> string result" where
  "env_require_string J obj key =
     (case nonempty_string J (j_item J obj key) of
        None \<Rightarrow> envelope_invalid (''missing or empty string field '' @ key)
      | Some s \<Rightarrow> Inr s)"

definition env_optional_string :: "'j cjson \<Rightarrow> 'j \<Rightarrow> string \<Rightarrow> string option result" where
  "env_optional_string J obj key =
     (case j_item J obj key of
        None \<Rightarrow> Inr None
      | Some v \<Rightarrow>
          if j_is_null J v then Inr None
          else case nonempty_string J (Some v) of
            None \<Rightarrow> envelope_invalid (''field '' @ key @ '' must be a string or null'')
          | Some s \<Rightarrow> Inr (Some s))"

definition has_key :: "'j cjson \<Rightarrow> 'j \<Rightarrow> string \<Rightarrow> bool" where
  "has_key J obj key = lifted (j_is_string J) (j_item J obj key)"

definition is_envelope_id :: "string \<Rightarrow> bool" where
  "is_envelope_id s \<longleftrightarrow>
     s \<noteq> [] \<and> length s \<le> 64 \<and> hd s \<noteq> CHR ''-'' \<and> last s \<noteq> CHR ''-'' \<and>
     list_all (\<lambda>c. is_lower c \<or> is_digit c \<or> c = CHR ''-'') s"

subsection \<open>Parsing\<close>

definition parse_scope :: "'j cjson \<Rightarrow> 'j list \<Rightarrow> string list result" where
  "parse_scope J es =
     fold_result (\<lambda>e acc. case nonempty_string J (Some e) of
         None \<Rightarrow> envelope_invalid ''scope_terms entries must be non-empty strings''
       | Some s \<Rightarrow> Inr (acc @ [s])) es []"

definition parse_floor :: "'j cjson \<Rightarrow> 'j \<Rightarrow> string \<Rightarrow> double result" where
  "parse_floor J entry key =
     (case j_item J entry key of
        Some v \<Rightarrow>
          if j_is_number J v then Inr (j_num J v)
          else if has_key J entry key then envelope_invalid (''field '' @ key @ '' must be a number'')
          else Inr (Finite 0)
      | None \<Rightarrow> Inr (Finite 0))"

definition number_at_least_one :: "'j cjson \<Rightarrow> 'j \<Rightarrow> string \<Rightarrow> double result" where
  "number_at_least_one J entry key =
     (case j_item J entry key of
        None \<Rightarrow> envelope_invalid (''field '' @ key @ '' must be a number >= 1'')
      | Some v \<Rightarrow>
          if \<not> j_is_number J v \<or> dbl_lt (j_num J v) (Finite 1) then
            envelope_invalid (''field '' @ key @ '' must be a number >= 1'')
          else Inr (j_num J v))"

definition parse_rule :: "'j cjson \<Rightarrow> OutboundPolicy \<Rightarrow> 'j \<Rightarrow> EnvelopeKindRule result" where
  "parse_rule J policy entry =
     (if \<not> j_is_object J entry then envelope_invalid ''kinds entries must be objects''
      else and_then (env_require_string J entry ''kind'') (\<lambda>kind_name.
        case parse_outbound_kind kind_name of
          None \<Rightarrow> envelope_invalid (''unknown action kind '' @ kind_name)
        | Some k \<Rightarrow>
            and_then (number_at_least_one J entry ''max_in_window'') (\<lambda>md.
            and_then (to_uint32 md) (\<lambda>m.
            and_then (number_at_least_one J entry ''window_seconds'') (\<lambda>wd.
            and_then (to_int64 wd) (\<lambda>w.
            if kMaxOutboundWindowSeconds < w then
              envelope_invalid ''window_seconds exceeds the maximum of 366 days''
            else and_then (parse_floor J entry ''min_plan_score'') (\<lambda>ps.
            and_then (parse_floor J entry ''min_support_score'') (\<lambda>ss.
            let b = budget_for policy k in
            if \<not> budget_enabled b then
              envelope_invalid (''kind '' @ kind_name @
                '' is not enabled in the outbound policy; an envelope cannot enable it'')
            else if int (max_in_window b) < m then
              envelope_invalid (''max_in_window exceeds the policy ceiling for kind '' @ kind_name)
            else if window_seconds b < w then
              envelope_invalid (''window_seconds exceeds the policy window for kind '' @ kind_name)
            else Inr \<lparr>rule_kind = k, rule_max_in_window = nat m, rule_window_seconds = w,
                      min_plan_score = ps, min_support_score = ss\<rparr>))))))))"

definition parse_rules :: "'j cjson \<Rightarrow> OutboundPolicy \<Rightarrow> 'j list \<Rightarrow> EnvelopeKindRule list result" where
  "parse_rules J policy es =
     fold_result (\<lambda>e acc. and_then (parse_rule J policy e) (\<lambda>r. Inr (acc @ [r]))) es []"

definition required_array :: "'j cjson \<Rightarrow> 'j \<Rightarrow> string \<Rightarrow> 'j list result" where
  "required_array J doc key =
     (case j_item J doc key of
        None \<Rightarrow> envelope_invalid (''missing '' @ key @ '' array'')
      | Some a \<Rightarrow> if j_is_array J a then Inr (j_children J a)
                  else envelope_invalid (''missing '' @ key @ '' array''))"

definition bad_instant :: "string option \<Rightarrow> bool" where
  "bad_instant t = (case t of Some x \<Rightarrow> parse_rfc3339_epoch x = None | None \<Rightarrow> False)"

definition value_or_empty :: "string option \<Rightarrow> string" where
  "value_or_empty t = (case t of Some x \<Rightarrow> x | None \<Rightarrow> [])"

definition parse_authorization_envelope ::
  "'j cjson \<Rightarrow> string \<Rightarrow> OutboundPolicy \<Rightarrow> string \<Rightarrow> AuthorizationEnvelope result" where
  "parse_authorization_envelope J json policy source =
     (case j_parse J json of
        None \<Rightarrow> envelope_invalid (source @ '': not a valid JSON object'')
      | Some doc \<Rightarrow>
          if \<not> j_is_object J doc then envelope_invalid (source @ '': not a valid JSON object'')
          else and_then (env_require_string J doc ''format'') (\<lambda>fmt.
            if fmt \<noteq> ''atperson-authorization-envelope'' then
              envelope_invalid (''unexpected format '' @ fmt)
            else case j_item J doc ''version'' of
              None \<Rightarrow> envelope_invalid ''missing or invalid version''
            | Some v \<Rightarrow>
                if \<not> j_is_number J v then envelope_invalid ''missing or invalid version''
                else and_then (to_uint32 (j_num J v)) (\<lambda>version.
                  if version \<noteq> 1 then
                    envelope_invalid (''unsupported version '' @ int_to_string version)
                  else and_then (env_require_string J doc ''id'') (\<lambda>eid.
                  if \<not> is_envelope_id eid then
                    envelope_invalid (''id '' @ eid @ '' must be 1-64 of [a-z0-9-], no edge hyphens'')
                  else and_then (env_optional_string J doc ''expires_at'') (\<lambda>ex.
                  if bad_instant ex then
                    envelope_invalid ''expires_at is not a valid RFC 3339 instant''
                  else and_then (env_require_string J doc ''created_at'') (\<lambda>cr.
                  if parse_rfc3339_epoch cr = None then
                    envelope_invalid ''created_at is not a valid RFC 3339 instant''
                  else and_then (env_optional_string J doc ''note'') (\<lambda>nt.
                  and_then (required_array J doc ''scope_terms'') (\<lambda>ses.
                  and_then (parse_scope J ses) (\<lambda>scope.
                  and_then (required_array J doc ''kinds'') (\<lambda>kes.
                  and_then (parse_rules J policy kes) (\<lambda>rs.
                  if rs = [] then envelope_invalid ''an envelope must cover at least one action kind''
                  else Inr \<lparr>ae_version = nat version, ae_id = eid, expires_at = ex,
                            scope_terms = scope, rules = rs,
                            note_text = value_or_empty nt,
                            created_at = cr\<rparr>))))))))))) "

definition append_rule :: "'j cjson \<Rightarrow> EnvelopeKindRule \<Rightarrow> string" where
  "append_rule J r =
     ''{\"kind\":'' @ quoted (outbound_kind_name (rule_kind r)) @
     '',\"max_in_window\":'' @ nat_to_string (rule_max_in_window r) @
     '',\"window_seconds\":'' @ int_to_string (rule_window_seconds r) @
     '',\"min_plan_score\":'' @ dbl_to_string J (min_plan_score r) @
     '',\"min_support_score\":'' @ dbl_to_string J (min_support_score r) @ ''}''"

definition serialise_authorization_envelope :: "'j cjson \<Rightarrow> AuthorizationEnvelope \<Rightarrow> string" where
  "serialise_authorization_envelope J e =
     ''{\"format\":\"atperson-authorization-envelope\",\"version\":'' @ nat_to_string (ae_version e) @
     '',\"id\":'' @ j_quote J (ae_id e) @
     '',\"created_at\":'' @ j_quote J (created_at e) @
     '',\"expires_at\":'' @ opt_quote J (expires_at e) @
     '',\"scope_terms\":['' @ join '','' (map (j_quote J) (scope_terms e)) @
     ''],\"kinds\":['' @ join '','' (map (append_rule J) (rules e)) @
     (if note_text e = [] then ''],\"note\":null'' else ''],\"note\":'' @ j_quote J (note_text e)) @
     ''}'' @ [char_of (10::nat)]"

subsection \<open>Coverage\<close>

record EnvelopeCoverage =
  covered :: bool
  cov_envelope_id :: string
  cov_reason :: string

record EnvelopeEvidence =
  ev_plan_score :: "double option"
  ev_support_score :: "double option"

definition count_in_window :: "OutboundKindUsage \<Rightarrow> int \<Rightarrow> int \<Rightarrow> nat" where
  "count_in_window u window now =
     length (takeWhile (\<lambda>t. now - t < window) (rev (recent_actions u)))"

definition lower_text :: "string \<Rightarrow> string" where
  "lower_text s = map to_lower s"

text \<open>The two nested loops compare the lower-cased characters at every position.\<close>

definition text_contains_term :: "string \<Rightarrow> string \<Rightarrow> bool" where
  "text_contains_term text term \<longleftrightarrow>
     term \<noteq> [] \<and> length term \<le> length text \<and>
     list_ex (\<lambda>i. list_all (\<lambda>j. to_lower (text ! (i + j)) = to_lower (term ! j)) [0..<length term])
       [0..<Suc (length text - length term)]"

definition below_floor :: "double \<Rightarrow> double option \<Rightarrow> bool" where
  "below_floor least evidence \<longleftrightarrow>
     dbl_lt (Finite 0) least \<and> (case evidence of None \<Rightarrow> True | Some s \<Rightarrow> dbl_lt s least)"

definition covers_action ::
  "AuthorizationEnvelope \<Rightarrow> OutboundActionKind \<Rightarrow> string \<Rightarrow> EnvelopeEvidence \<Rightarrow> OutboundKindUsage \<Rightarrow>
   int \<Rightarrow> EnvelopeCoverage" where
  "covers_action e k text evidence u now =
     (let no = (\<lambda>why. \<lparr>covered = False, cov_envelope_id = ae_id e, cov_reason = why\<rparr>) in
      if (case expires_at e of
            None \<Rightarrow> False
          | Some x \<Rightarrow> (case parse_rfc3339_epoch x of None \<Rightarrow> True | Some expires \<Rightarrow> int expires \<le> now))
      then no ''expired''
      else case find (\<lambda>r. rule_kind r = k) (rules e) of
        None \<Rightarrow> no ''kind_not_covered''
      | Some r \<Rightarrow>
          if rule_max_in_window r \<le> count_in_window u (rule_window_seconds r) now then
            no ''rate_ceiling''
          else if below_floor (min_plan_score r) (ev_plan_score evidence) then no ''score_floor''
          else if below_floor (min_support_score r) (ev_support_score evidence) then no ''score_floor''
          else if scope_terms e \<noteq> [] \<and> \<not> list_ex (text_contains_term text) (scope_terms e) then
            no ''scope''
          else \<lparr>covered = True, cov_envelope_id = ae_id e, cov_reason = []\<rparr>)"

subsection \<open>The directory\<close>

definition envelope_path :: "string \<Rightarrow> string \<Rightarrow> string" where
  "envelope_path dir eid = dir @ ''/'' @ eid @ ''.json''"

definition load_authorization_envelope ::
  "'j cjson \<Rightarrow> string \<Rightarrow> string \<Rightarrow> OutboundPolicy \<Rightarrow> fs \<Rightarrow> AuthorizationEnvelope option result" where
  "load_authorization_envelope J dir eid policy fs =
     (if \<not> is_envelope_id eid then Inr None
      else if fs (envelope_path dir eid) = Missing then Inr None
      else and_then (read_text ''authorization envelope'' (envelope_path dir eid) fs) (\<lambda>text.
        and_then (parse_authorization_envelope J text policy (envelope_path dir eid)) (\<lambda>e. Inr (Some e))))"

definition save_authorization_envelope ::
  "'j cjson \<Rightarrow> io \<Rightarrow> AuthorizationEnvelope \<Rightarrow> string \<Rightarrow> fs \<Rightarrow> unit result \<times> fs" where
  "save_authorization_envelope J io e dir fs =
     (if \<not> is_envelope_id (ae_id e) then
        (envelope_invalid (''id '' @ ae_id e @ '' is not a valid envelope id''), fs)
      else save_atomic ''authorization envelope'' io (envelope_path dir (ae_id e))
             (serialise_authorization_envelope J e) fs)"

text \<open>\<open>removable\<close>: whether the operating system lets the file be removed.\<close>

definition revoke_authorization_envelope :: "bool \<Rightarrow> string \<Rightarrow> string \<Rightarrow> fs \<Rightarrow> unit result \<times> fs" where
  "revoke_authorization_envelope removable dir eid fs =
     (if \<not> is_envelope_id eid then
        (envelope_invalid (''id '' @ eid @ '' is not a valid envelope id''), fs)
      else if fs (envelope_path dir eid) \<noteq> Missing \<and> \<not> removable then
        (throw Runtime_error (''authorization envelope: could not revoke '' @ eid), fs)
      else (Inr (), fs(envelope_path dir eid := Missing)))"

text \<open>The stem of a name whose extension is \<open>.json\<close>; a name that is only \<open>.json\<close> has no extension.\<close>

definition json_stem :: "string \<Rightarrow> string option" where
  "json_stem name =
     (if 5 < length name \<and> drop (length name - 5) name = ''.json''
      then Some (take (length name - 5) name) else None)"

definition list_authorization_envelopes :: "string list \<Rightarrow> string list" where
  "list_authorization_envelopes names = sort (filter is_envelope_id (List.map_filter json_stem names))"

definition prefer_coverage :: "EnvelopeCoverage \<Rightarrow> EnvelopeCoverage \<Rightarrow> EnvelopeCoverage" where
  "prefer_coverage best c =
     (if cov_reason c \<noteq> ''expired'' \<or> cov_reason best = ''no_envelope'' \<or> cov_reason best = ''not_covered''
      then c else best)"

fun find_covering ::
  "'j cjson \<Rightarrow> string \<Rightarrow> OutboundPolicy \<Rightarrow> fs \<Rightarrow> (AuthorizationEnvelope \<Rightarrow> EnvelopeCoverage) \<Rightarrow>
   string list \<Rightarrow> EnvelopeCoverage \<Rightarrow> EnvelopeCoverage result" where
  "find_covering J dir policy fs cover [] best = Inr best"
| "find_covering J dir policy fs cover (eid # ids) best =
     and_then (load_authorization_envelope J dir eid policy fs) (\<lambda>found.
       case found of
         None \<Rightarrow> find_covering J dir policy fs cover ids best
       | Some e \<Rightarrow>
           if covered (cover e) then Inr (cover e)
           else find_covering J dir policy fs cover ids (prefer_coverage best (cover e)))"

definition find_covering_envelope ::
  "'j cjson \<Rightarrow> string \<Rightarrow> string list \<Rightarrow> fs \<Rightarrow> OutboundPolicy \<Rightarrow> OutboundActionKind \<Rightarrow> string \<Rightarrow>
   EnvelopeEvidence \<Rightarrow> OutboundBudgetState \<Rightarrow> int \<Rightarrow> EnvelopeCoverage result" where
  "find_covering_envelope J dir names fs policy k text evidence budget now =
     (let ids = list_authorization_envelopes names in
      find_covering J dir policy fs (\<lambda>e. covers_action e k text evidence (usage budget k) now) ids
        \<lparr>covered = False, cov_envelope_id = [],
         cov_reason = (if ids = [] then ''no_envelope'' else ''not_covered'')\<rparr>)"

subsection \<open>An envelope narrows, never widens\<close>

definition rule_within :: "OutboundPolicy \<Rightarrow> EnvelopeKindRule \<Rightarrow> bool" where
  "rule_within policy r \<longleftrightarrow>
     budget_enabled (budget_for policy (rule_kind r)) \<and>
     1 \<le> rule_max_in_window r \<and> rule_max_in_window r \<le> max_in_window (budget_for policy (rule_kind r)) \<and>
     1 \<le> rule_window_seconds r \<and> rule_window_seconds r \<le> window_seconds (budget_for policy (rule_kind r)) \<and>
     rule_window_seconds r \<le> kMaxOutboundWindowSeconds"

lemma envelope_invalid_neq [simp]: "envelope_invalid m \<noteq> Inr x"
  by (simp add: envelope_invalid_def)

lemma trunc_zero_ge_one: "\<not> x < 1 \<Longrightarrow> 1 \<le> trunc_zero x"
  by (simp add: trunc_zero_def le_floor_iff)

lemma at_least_one:
  "number_at_least_one J entry key = Inr d \<Longrightarrow> dbl_to_int low high d = Inr i \<Longrightarrow> 1 \<le> i"
  by (auto simp: number_at_least_one_def dbl_to_int_def trunc_zero_ge_one
      split: option.splits if_splits double.splits)

lemma parse_rule_within: "parse_rule J policy entry = Inr r \<Longrightarrow> rule_within policy r"
  by (auto simp: parse_rule_def result_simps rule_within_def Let_def to_uint32_def to_int64_def
      split: option.splits if_splits dest: at_least_one)

lemma parse_rules_within:
  "parse_rules J policy es = Inr rs \<Longrightarrow> \<forall>r \<in> set rs. rule_within policy r"
  unfolding parse_rules_def
  by (erule fold_result_inv [where P = "\<lambda>rs. \<forall>r \<in> set rs. rule_within policy r"])
    (auto simp: result_simps parse_rule_within)

definition envelope_ok :: "OutboundPolicy \<Rightarrow> AuthorizationEnvelope \<Rightarrow> bool" where
  "envelope_ok policy e \<longleftrightarrow>
     is_envelope_id (ae_id e) \<and> rules e \<noteq> [] \<and> (\<forall>r \<in> set (rules e). rule_within policy r) \<and>
     \<not> bad_instant (expires_at e)"

lemma parse_envelope_ok:
  "parse_authorization_envelope J json policy source = Inr e \<Longrightarrow> envelope_ok policy e"
  by (auto simp: parse_authorization_envelope_def result_simps envelope_ok_def parse_rules_within
      split: option.splits if_splits)

lemma load_envelope_ok:
  "load_authorization_envelope J dir eid policy fs = Inr (Some e) \<Longrightarrow> envelope_ok policy e"
  by (auto simp: load_authorization_envelope_def result_simps parse_envelope_ok split: if_splits)

lemma load_envelope_missing:
  "fs (envelope_path dir eid) = Missing \<Longrightarrow> load_authorization_envelope J dir eid policy fs = Inr None"
  by (simp add: load_authorization_envelope_def)

lemma covered_iff:
  "covered (covers_action e k text ev u now) \<longleftrightarrow>
     (\<forall>x. expires_at e = Some x \<longrightarrow> (\<exists>t. parse_rfc3339_epoch x = Some t \<and> now < int t)) \<and>
     (\<exists>r. find (\<lambda>r. rule_kind r = k) (rules e) = Some r \<and>
          count_in_window u (rule_window_seconds r) now < rule_max_in_window r \<and>
          \<not> below_floor (min_plan_score r) (ev_plan_score ev) \<and>
          \<not> below_floor (min_support_score r) (ev_support_score ev)) \<and>
     (scope_terms e = [] \<or> (\<exists>t \<in> set (scope_terms e). text_contains_term text t))"
  by (auto simp: covers_action_def Let_def list_ex_iff not_le split: option.splits if_splits)

lemma cov_id [simp]: "cov_envelope_id (covers_action e k text ev u now) = ae_id e"
  by (auto simp: covers_action_def Let_def split: option.split)

text \<open>
  On an ascending record the backward scan of the envelope counts exactly the actions younger
  than its window.  The policy counts an action whose age is the window itself, the envelope
  does not.
\<close>

lemma count_in_window_eq:
  assumes "sorted (recent_actions u)"
  shows "count_in_window u w now = length (filter (\<lambda>t. now - t < w) (recent_actions u))"
proof -
  have "takeWhile (\<lambda>t. now - t < w) (rev xs) = rev (filter (\<lambda>t. now - t < w) xs)"
    if "sorted xs" for xs :: "int list"
    using that
  proof (induction xs rule: rev_induct)
    case Nil
    then show ?case by simp
  next
    case (snoc x xs)
    have "filter (\<lambda>t. now - t < w) xs = []" if "\<not> now - x < w"
      using snoc.prems that by (auto simp: sorted_append filter_empty_conv)
    with snoc show ?case by (auto simp: sorted_append)
  qed
  then show ?thesis using assms by (simp add: count_in_window_def)
qed

lemma count_in_window_policy:
  assumes "usage_ok (usage s k)" and "w \<le> v"
  shows "count_in_window (usage s k) w now \<le> count_outbound_actions_in_window s k v now"
proof -
  have "length (filter (\<lambda>t. now - t < w) xs) \<le> length (filter (\<lambda>t. now - v \<le> t) xs)" for xs
    using assms(2) by (induction xs) auto
  then show ?thesis
    using assms(1) by (simp add: count_in_window_eq usage_ok_def count_outbound_actions_in_window_def)
qed

lemma find_covering_covered:
  assumes "find_covering J dir policy fs cover ids best = Inr c" and "covered c" and "\<not> covered best"
  shows "\<exists>eid \<in> set ids. \<exists>e. load_authorization_envelope J dir eid policy fs = Inr (Some e) \<and>
           cover e = c"
  using assms
proof (induction ids arbitrary: best)
  case Nil
  then show ?case by simp
next
  case (Cons eid ids)
  then obtain found where found: "load_authorization_envelope J dir eid policy fs = Inr found"
    by (auto simp: result_simps)
  show ?case
  proof (cases found)
    case None
    with Cons found show ?thesis by auto
  next
    case (Some e)
    with found Cons.prems Cons.IH [of "prefer_coverage best (cover e)"] show ?thesis
      by (cases "covered (cover e)") (auto simp: prefer_coverage_def)
  qed
qed

lemma find_covering_envelope_covered:
  assumes "find_covering_envelope J dir names fs policy k text ev budget now = Inr c" and "covered c"
  shows "\<exists>eid e. eid \<in> set (list_authorization_envelopes names) \<and>
           load_authorization_envelope J dir eid policy fs = Inr (Some e) \<and>
           envelope_ok policy e \<and> c = covers_action e k text ev (usage budget k) now"
proof -
  have "\<exists>eid \<in> set (list_authorization_envelopes names). \<exists>e.
      load_authorization_envelope J dir eid policy fs = Inr (Some e) \<and>
      covers_action e k text ev (usage budget k) now = c"
    using assms unfolding find_covering_envelope_def Let_def
    by (intro find_covering_covered) auto
  then show ?thesis using load_envelope_ok by blast
qed

text \<open>The directory order of the file names does not matter, nor do foreign files.\<close>

lemma list_envelopes_mset:
  "mset names = mset names' \<Longrightarrow> list_authorization_envelopes names = list_authorization_envelopes names'"
  unfolding list_authorization_envelopes_def
  by (rule properties_for_sort) (simp_all add: List.map_filter_def)

lemma load_after_revoke:
  assumes "revoke_authorization_envelope removable dir eid fs = (Inr u, fs')"
  shows "load_authorization_envelope J dir eid policy fs' = Inr None \<and>
         (\<forall>p. p \<noteq> envelope_path dir eid \<longrightarrow> fs' p = fs p)"
  using assms by (auto simp: revoke_authorization_envelope_def load_envelope_missing split: if_splits)

end
