(* ===== verification/Execute.thy ===== *)
theory Execute
  imports Outbound_Document Outbound_Evaluate Envelope
begin

text \<open>
  Outbound execution (src/src/app/outbound/execute.hpp and execute.cpp): the ordered gates from
  an action document to one network write.  The writer is the program's \<open>OutboundWriter\<close>
  interface: functions of a world \<open>'w\<close> that may fail and may change it, so a theorem that the
  world is unchanged says that nothing was called.  \<open>connect\<close> is the writer factory.
\<close>

record OutboundWriteResult =
  wr_uri :: string
  wr_cid :: string

record 'w OutboundWriter =
  connect :: "'w \<Rightarrow> unit result \<times> 'w"
  resolve_record_cid :: "string \<Rightarrow> 'w \<Rightarrow> string result \<times> 'w"
  put_record :: "string \<Rightarrow> string \<Rightarrow> string \<Rightarrow> 'w \<Rightarrow> OutboundWriteResult result \<times> 'w"

record OutboundAttestation =
  payload_cid :: string
  signature_hex :: string
  public_key_did :: string
  key_id :: string
  algorithm :: string

type_synonym attestation_factory = "string \<Rightarrow> OutboundAction \<Rightarrow> OutboundAttestation option result"

datatype OutboundExecutionOutcome = Exec_Executed | Exec_DryRun | Exec_Denied | Exec_Deferred | Exec_Failed

fun outbound_execution_outcome_name :: "OutboundExecutionOutcome \<Rightarrow> string" where
  "outbound_execution_outcome_name Exec_Executed = ''executed''"
| "outbound_execution_outcome_name Exec_DryRun = ''dry_run''"
| "outbound_execution_outcome_name Exec_Denied = ''denied''"
| "outbound_execution_outcome_name Exec_Deferred = ''deferred''"
| "outbound_execution_outcome_name Exec_Failed = ''failed''"

record OutboundAuthorization =
  digest_approved :: bool
  authz_envelope_id :: string

record OutboundExecutionResult =
  exe_outcome :: OutboundExecutionOutcome
  exe_reason :: string
  exe_detail :: string
  exe_written :: OutboundWriteResult
  exe_attestation :: "OutboundAttestation option"
  exe_budget_recorded :: bool
  exe_budget :: OutboundBudgetStatus
  exe_authorization :: OutboundAuthorization

definition no_write :: OutboundWriteResult where
  "no_write = \<lparr>wr_uri = [], wr_cid = []\<rparr>"

definition no_authorization :: OutboundAuthorization where
  "no_authorization = \<lparr>digest_approved = False, authz_envelope_id = []\<rparr>"

definition denied :: "OutboundExecutionOutcome \<Rightarrow> string \<Rightarrow> string \<Rightarrow> OutboundBudgetStatus \<Rightarrow> OutboundExecutionResult" where
  "denied out why detail budget =
     \<lparr>exe_outcome = out, exe_reason = why, exe_detail = detail, exe_written = no_write,
      exe_attestation = None, exe_budget_recorded = False, exe_budget = budget,
      exe_authorization = no_authorization\<rparr>"

definition control_denial_code :: "ControlState \<Rightarrow> OutboundAction \<Rightarrow> string" where
  "control_denial_code c a =
     (if \<not> writes_enabled c then ''writes_disabled''
      else if approval_required c \<and> \<not> is_digest_approved c (act_digest a) then ''approval_required''
      else ''control_refused'')"

definition authorize_outbound ::
  "ControlState \<Rightarrow> OutboundAction \<Rightarrow> EnvelopeCoverage option \<Rightarrow> OutboundAuthorization result" where
  "authorize_outbound c a envelope =
     (if \<not> writes_enabled c then
        throw ControlStateError ''outbound refused: network writes are disabled''
      else if \<not> approval_required c \<or> is_digest_approved c (act_digest a) then
        Inr \<lparr>digest_approved = approval_required c \<and> is_digest_approved c (act_digest a),
             authz_envelope_id = []\<rparr>
      else case envelope of
        Some cov \<Rightarrow>
          if covered cov then Inr \<lparr>digest_approved = False, authz_envelope_id = cov_envelope_id cov\<rparr>
          else throw ControlStateError
                 (''outbound refused: action digest is not approved and no envelope covers it ('' @
                  cov_reason cov @ '')'')
      | None \<Rightarrow> throw ControlStateError ''outbound refused: action digest is not approved'')"

subsection \<open>The write\<close>

definition resolve_if ::
  "'w OutboundWriter \<Rightarrow> bool \<Rightarrow> string \<Rightarrow> 'w \<Rightarrow> string result \<times> 'w" where
  "resolve_if W needed uri w = (if needed then resolve_record_cid W uri w else (Inr [], w))"

text \<open>
  The body of the \<open>try\<close> block of step 5 up to the write: a failure is its reason code and
  message.
\<close>

definition write_phase ::
  "'j cjson \<Rightarrow> 'w OutboundWriter \<Rightarrow> attestation_factory option \<Rightarrow> OutboundAction \<Rightarrow> 'w \<Rightarrow>
   ((string \<times> string) + (OutboundWriteResult \<times> OutboundAttestation option)) \<times> 'w" where
  "write_phase J W attest a w0 =
     (let failed = (\<lambda>e. Inl (''write_failed'', exn_what e)) in
      case connect W w0 of
        (Inl e, w1) \<Rightarrow> (failed e, w1)
      | (Inr _, w1) \<Rightarrow>
      (case resolve_if W (outbound_action_is_reply a) (act_reply_root a) w1 of
        (Inl e, w2) \<Rightarrow> (failed e, w2)
      | (Inr root_cid, w2) \<Rightarrow>
      (case resolve_if W (outbound_action_is_reply a) (act_reply_parent a) w2 of
        (Inl e, w3) \<Rightarrow> (failed e, w3)
      | (Inr parent_cid, w3) \<Rightarrow>
      (case resolve_if W (outbound_action_is_subject_ref a) (act_subject a) w3 of
        (Inl e, w4) \<Rightarrow> (failed e, w4)
      | (Inr subject_cid, w4) \<Rightarrow>
      (case build_outbound_record_json J a root_cid parent_cid subject_cid of
        Inl e \<Rightarrow> (failed e, w4)
      | Inr record_json \<Rightarrow>
      (case (case attest of None \<Rightarrow> Inr None | Some f \<Rightarrow> f record_json a) of
        Inl e \<Rightarrow> (Inl (''attestation_failed'', exn_what e), w4)
      | Inr attestation \<Rightarrow>
      (case put_record W (outbound_action_collection a) (act_rkey a) record_json w4 of
        (Inl e, w5) \<Rightarrow> (failed e, w5)
      | (Inr written, w5) \<Rightarrow> (Inr (written, attestation), w5))))))))"

definition execute_outbound_action ::
  "'j cjson \<Rightarrow> ControlState \<Rightarrow> OutboundPolicy \<Rightarrow> OutboundBudgetState \<Rightarrow> OutboundAction \<Rightarrow>
   'w OutboundWriter \<Rightarrow> int \<Rightarrow> attestation_factory option \<Rightarrow> bool \<Rightarrow> EnvelopeCoverage option \<Rightarrow> 'w \<Rightarrow>
   OutboundExecutionResult \<times> OutboundBudgetState \<times> 'w" where
  "execute_outbound_action J c policy budget a W now attest external_ok envelope w =
     (let proposal = outbound_action_proposal a;
          budget_status = outbound_budget_status policy budget (act_kind a) now in
      if paused c then
        (denied Exec_Denied ''paused'' ''runtime is paused; no outbound action may be attempted''
           budget_status, budget, w)
      else
      let decision = evaluate_outbound_policy policy budget proposal now in
      if outcome decision = Outcome_Deny then
        (denied Exec_Denied (outbound_reason_code (reason decision))
           (describe_outbound_decision decision) (decision_budget decision), budget, w)
      else if outcome decision = Outcome_Defer then
        (denied Exec_Deferred (outbound_reason_code (reason decision))
           (describe_outbound_decision decision) (decision_budget decision), budget, w)
      else if dry_run c then
        (denied Exec_DryRun ''dry_run'' ''policy allows this action, but dry-run mode is on''
           (decision_budget decision), budget, w)
      else case authorize_outbound c a envelope of
        Inl e \<Rightarrow>
          (denied Exec_Denied (control_denial_code c a) (exn_what e) (decision_budget decision), budget, w)
      | Inr authorization \<Rightarrow>
          if \<not> external_ok then
            (denied Exec_Denied ''external_publishing_disabled''
               ''external publishing is disabled; set ATPERSON_ALLOW_EXTERNAL_PUBLISHING=true''
               (decision_budget decision), budget, w)
          else case write_phase J W attest a w of
            (Inl (why, detail), w') \<Rightarrow>
              (denied Exec_Failed why detail (decision_budget decision), budget, w')
          | (Inr (written, attestation), w') \<Rightarrow>
              (\<lparr>exe_outcome = Exec_Executed, exe_reason = ''allow'', exe_detail = ''action written'',
                exe_written = written, exe_attestation = attestation, exe_budget_recorded = True,
                exe_budget = decision_budget decision, exe_authorization = authorization\<rparr>,
               record_outbound_action budget proposal (budget_for policy (act_kind a)) now, w'))"

definition describe_outbound_execution :: "OutboundExecutionResult \<Rightarrow> string" where
  "describe_outbound_execution r =
     (case exe_outcome r of
        Exec_Executed \<Rightarrow> ''action executed''
      | Exec_DryRun \<Rightarrow> ''dry run: '' @ exe_detail r
      | Exec_Denied \<Rightarrow> ''denied: '' @ exe_detail r
      | Exec_Deferred \<Rightarrow> ''deferred: '' @ exe_detail r
      | Exec_Failed \<Rightarrow> (if exe_reason r = ''attestation_failed'' then ''attestation failed: '' @ exe_detail r
                        else ''write failed: '' @ exe_detail r))"

subsection \<open>The gates\<close>

text \<open>Every condition a write needs, and nothing about the network.\<close>

definition gates_pass ::
  "ControlState \<Rightarrow> OutboundPolicy \<Rightarrow> OutboundBudgetState \<Rightarrow> OutboundAction \<Rightarrow> int \<Rightarrow> bool \<Rightarrow>
   EnvelopeCoverage option \<Rightarrow> bool" where
  "gates_pass c policy budget a now external_ok envelope \<longleftrightarrow>
     \<not> paused c \<and>
     outcome (evaluate_outbound_policy policy budget (outbound_action_proposal a) now) = Outcome_Allow \<and>
     \<not> dry_run c \<and> writes_enabled c \<and>
     (\<not> approval_required c \<or> act_digest a \<in> set (approved_digests c) \<or>
      (\<exists>cov. envelope = Some cov \<and> covered cov)) \<and>
     external_ok"

lemma authorize_iff:
  "(\<exists>z. authorize_outbound c a envelope = Inr z) \<longleftrightarrow>
     writes_enabled c \<and>
     (\<not> approval_required c \<or> act_digest a \<in> set (approved_digests c) \<or>
      (\<exists>cov. envelope = Some cov \<and> covered cov))"
  by (auto simp: authorize_outbound_def is_digest_approved_def split: option.split)

lemma authorize_fails:
  "authorize_outbound c a envelope = Inl e \<Longrightarrow>
     \<not> (writes_enabled c \<and>
        (\<not> approval_required c \<or> act_digest a \<in> set (approved_digests c) \<or>
         (\<exists>cov. envelope = Some cov \<and> covered cov)))"
  using authorize_iff [of c a envelope] by auto

lemma outcome_cases:
  "outcome d \<noteq> Outcome_Deny \<Longrightarrow> outcome d \<noteq> Outcome_Defer \<Longrightarrow> outcome d = Outcome_Allow"
  by (cases "outcome d") auto

lemma execute_closed:
  assumes "\<not> gates_pass c policy budget a now external_ok envelope"
  shows "\<exists>res. execute_outbound_action J c policy budget a W now attest external_ok envelope w = (res, budget, w)
           \<and> exe_outcome res \<in> {Exec_Denied, Exec_Deferred, Exec_DryRun} \<and> \<not> exe_budget_recorded res"
proof -
  let ?d = "evaluate_outbound_policy policy budget (outbound_action_proposal a) now"
  consider "paused c \<or> outcome ?d = Outcome_Deny \<or> outcome ?d = Outcome_Defer \<or> dry_run c"
    | e where "authorize_outbound c a envelope = Inl e"
    | z where "authorize_outbound c a envelope = Inr z" "\<not> external_ok"
    using assms authorize_iff [of c a envelope] outcome_cases [of ?d]
    unfolding gates_pass_def by (cases "authorize_outbound c a envelope") auto
  then show ?thesis
    by cases (auto simp: execute_outbound_action_def Let_def denied_def)
qed

lemma execute_open:
  assumes "gates_pass c policy budget a now external_ok envelope"
  shows "execute_outbound_action J c policy budget a W now attest external_ok envelope w =
     (let d = evaluate_outbound_policy policy budget (outbound_action_proposal a) now in
      case write_phase J W attest a w of
        (Inl (why, detail), w') \<Rightarrow> (denied Exec_Failed why detail (decision_budget d), budget, w')
      | (Inr (written, attestation), w') \<Rightarrow>
          (\<lparr>exe_outcome = Exec_Executed, exe_reason = ''allow'', exe_detail = ''action written'',
            exe_written = written, exe_attestation = attestation, exe_budget_recorded = True,
            exe_budget = decision_budget d,
            exe_authorization = (case authorize_outbound c a envelope of Inr z \<Rightarrow> z | Inl e \<Rightarrow> no_authorization)\<rparr>,
           record_outbound_action budget (outbound_action_proposal a) (budget_for policy (act_kind a)) now, w'))"
proof -
  obtain authz where "authorize_outbound c a envelope = Inr authz"
    using assms authorize_iff [of c a envelope] by (auto simp: gates_pass_def)
  with assms show ?thesis
    by (simp add: gates_pass_def execute_outbound_action_def Let_def split: prod.split sum.split)
qed

text \<open>The three ways an execution ends: a closed gate, a failed write, a confirmed write.\<close>

lemma execute_cases [consumes 1, case_names closed failed executed]:
  assumes "execute_outbound_action J c policy budget a W now attest external_ok envelope w = (res, budget', w')"
  obtains "\<not> gates_pass c policy budget a now external_ok envelope" "budget' = budget" "w' = w"
      "exe_outcome res \<in> {Exec_Denied, Exec_Deferred, Exec_DryRun}" "\<not> exe_budget_recorded res"
  | why detail where "gates_pass c policy budget a now external_ok envelope"
      "write_phase J W attest a w = (Inl (why, detail), w')" "budget' = budget"
      "exe_outcome res = Exec_Failed" "\<not> exe_budget_recorded res" "exe_reason res = why"
  | written att where "gates_pass c policy budget a now external_ok envelope"
      "write_phase J W attest a w = (Inr (written, att), w')"
      "budget' = record_outbound_action budget (outbound_action_proposal a) (budget_for policy (act_kind a)) now"
      "exe_outcome res = Exec_Executed" "exe_budget_recorded res" "exe_written res = written"
proof (cases "gates_pass c policy budget a now external_ok envelope")
  case True
  obtain r w1 where wp: "write_phase J W attest a w = (r, w1)" by fastforce
  show thesis
  proof (cases r)
    case (Inl e)
    obtain why detail where "e = (why, detail)" by (cases e)
    with True wp Inl assms show thesis
      by (intro that(2) [of why detail]) (auto simp: execute_open Let_def denied_def)
  next
    case (Inr y)
    obtain written att where "y = (written, att)" by (cases y)
    with True wp Inr assms show thesis
      by (intro that(3) [of written att]) (auto simp: execute_open Let_def)
  qed
next
  case False
  from execute_closed [OF False, of J W attest w] assms False show thesis by (intro that(1)) auto
qed

lemma execute_executed_iff:
  assumes "execute_outbound_action J c policy budget a W now attest external_ok envelope w = (res, budget', w')"
  shows "exe_outcome res = Exec_Executed \<longleftrightarrow>
     gates_pass c policy budget a now external_ok envelope \<and>
     (\<exists>written att. write_phase J W attest a w = (Inr (written, att), w'))"
  using assms by (cases rule: execute_cases) auto

text \<open>
  The effect on the budget is the admission of the policy component: either nothing, with any
  outcome other than Executed, or exactly what \<open>admit_outbound_action\<close> does.
\<close>

lemma execute_budget:
  assumes "execute_outbound_action J c policy budget a W now attest external_ok envelope w = (res, budget', w')"
  shows "exe_budget_recorded res = (exe_outcome res = Exec_Executed) \<and>
     budget' = (if exe_outcome res = Exec_Executed
                then snd (admit_outbound_action policy budget (outbound_action_proposal a) now)
                else budget)"
proof -
  have "prop_kind (outbound_action_proposal a) = act_kind a"
    by (simp add: outbound_action_proposal_def)
  with assms show ?thesis
    by (cases rule: execute_cases) (auto simp: admit_state gates_pass_def)
qed

lemma budget_state_ok_execute [step_inv]:
  assumes "execute_outbound_action J c policy budget a W now attest external_ok envelope w = (res, budget', w')"
    and "budget_state_ok budget"
  shows "budget_state_ok budget'"
  using execute_budget [OF assms(1)] assms(2) by (simp add: budget_state_ok_admit)

lemma write_phase_codes:
  "write_phase J W attest a w = (Inl (why, detail), w') \<Longrightarrow>
     why = ''write_failed'' \<or> why = ''attestation_failed''"
  by (auto simp: write_phase_def Let_def split: prod.splits sum.splits)

lemma execute_failed_codes:
  assumes "execute_outbound_action J c policy budget a W now attest external_ok envelope w = (res, budget', w')"
    and "exe_outcome res = Exec_Failed"
  shows "exe_reason res = ''write_failed'' \<or> exe_reason res = ''attestation_failed''"
  using assms by (cases rule: execute_cases) (auto dest: write_phase_codes)

end
