(* ===== verification/Fixed_Width.thy ===== *)
theory Fixed_Width
  imports Prelude "HOL-Library.Char_ord" "HOL-Library.List_Lexorder"
begin

text \<open>
  Fixed-width positional encodings.  Record keys and file names of the program are numbers
  written with a fixed number of digits over an ascending alphabet, so that the order of the
  strings is the order of the numbers.  The locale states that contract; the components
  interpret it on their own encoders.
\<close>

fun digits :: "nat \<Rightarrow> nat \<Rightarrow> nat \<Rightarrow> nat list" where
  "digits b 0 n = []"
| "digits b (Suc w) n = digits b w (n div b) @ [n mod b]"

definition encode :: "string \<Rightarrow> nat \<Rightarrow> nat \<Rightarrow> string" where
  "encode alphabet w n = map ((!) alphabet) (digits (length alphabet) w n)"

lemma length_digits [simp]: "length (digits b w n) = w"
  by (induction w arbitrary: n) auto

lemma length_encode [simp]: "length (encode alphabet w n) = w"
  by (simp add: encode_def)

lemma digits_bound: "0 < b \<Longrightarrow> d \<in> set (digits b w n) \<Longrightarrow> d < b"
  by (induction w arbitrary: n) auto

lemma digits_less:
  assumes "m < n" and "n < b ^ w"
  shows "digits b w m < digits b w n"
  using assms
proof (induction w arbitrary: m n)
  case 0
  then show ?case by simp
next
  case (Suc w)
  have b: "0 < b" using Suc.prems by (cases "b = 0") auto
  show ?case
  proof (cases "m div b = n div b")
    case True
    moreover have "m mod b < n mod b"
      using Suc.prems(1) True by (metis add_less_cancel_left mult_div_mod_eq)
    ultimately show ?thesis
      by (auto simp: list_less_def intro!: lexord_append_leftI)
  next
    case False
    then have "m div b < n div b"
      using Suc.prems(1) by (simp add: div_le_mono le_neq_implies_less)
    moreover have "n div b < b ^ w"
      using Suc.prems(2) b by (simp add: less_mult_imp_div_less mult.commute)
    ultimately have "digits b w (m div b) < digits b w (n div b)" by (rule Suc.IH)
    then show ?thesis by (auto simp: list_less_def intro!: lexord_sufI)
  qed
qed

lemma map_less:
  fixes f :: "'a::linorder \<Rightarrow> 'b::linorder"
  assumes "\<And>x y. x \<in> set xs \<Longrightarrow> y \<in> set ys \<Longrightarrow> x < y \<Longrightarrow> f x < f y"
    and "xs < ys" and "length xs = length ys"
  shows "map f xs < map f ys"
  using assms
proof (induction xs arbitrary: ys)
  case Nil
  then show ?case by simp
next
  case (Cons x xs)
  obtain y zs where ys: "ys = y # zs" using Cons.prems(3) by (cases ys) auto
  consider "x < y" | "x = y" "xs < zs" using Cons.prems(2) ys by auto
  then show ?case
  proof cases
    case 1
    then show ?thesis using Cons.prems(1) ys by simp
  next
    case 2
    then show ?thesis using Cons ys by auto
  qed
qed

lemma encode_less:
  assumes "sorted_wrt (<) alphabet" and "m < n" and "n < length alphabet ^ w"
  shows "encode alphabet w m < encode alphabet w n"
proof -
  have b: "0 < length alphabet"
    using assms(2,3) by (cases w) (auto intro: Nat.gr0I)
  have "digits (length alphabet) w m < digits (length alphabet) w n"
    using assms(2,3) by (rule digits_less)
  moreover have "alphabet ! x < alphabet ! y"
    if "x \<in> set (digits (length alphabet) w m)" "y \<in> set (digits (length alphabet) w n)" "x < y" for x y
    using that assms(1) digits_bound [OF b] by (auto simp: sorted_wrt_iff_nth_less)
  ultimately show ?thesis
    unfolding encode_def by (intro map_less) auto
qed

text \<open>
  The contract: over the encodable values the strings are ordered as the values.  A client
  may then compare, sort and identify records by their strings.
\<close>

locale sortable_key =
  fixes key :: "'a::linorder \<Rightarrow> string" and fits :: "'a \<Rightarrow> bool"
  assumes key_mono: "fits n \<Longrightarrow> m < n \<Longrightarrow> key m < key n"
begin

lemma key_less_iff: "fits m \<Longrightarrow> fits n \<Longrightarrow> key m < key n \<longleftrightarrow> m < n"
  using key_mono [of n m] key_mono [of m n] by (metis less_asym not_less_iff_gr_or_eq)

lemma key_inj: "fits m \<Longrightarrow> fits n \<Longrightarrow> key m = key n \<longleftrightarrow> m = n"
  using key_mono [of n m] key_mono [of m n] by (metis less_irrefl not_less_iff_gr_or_eq)

lemma key_le_iff: "fits m \<Longrightarrow> fits n \<Longrightarrow> key m \<le> key n \<longleftrightarrow> m \<le> n"
  by (auto simp: key_less_iff key_inj order.order_iff_strict)

lemma sorted_keys: "list_all fits ns \<Longrightarrow> sorted (map key ns) \<longleftrightarrow> sorted ns"
  by (induction ns) (auto simp: key_le_iff list_all_iff)

end

end
