(* ===== verification/Records.thy ===== *)
theory Records
  imports Files Fixed_Width "HOL-Library.Multiset"
begin

text \<open>
  The write-once record store (src/src/app/state/records.hpp and records.cpp): one JSON file
  per plain record id, committed by write and rename, never overwritten, never outside its
  directory.
\<close>

definition is_plain_record_id :: "string \<Rightarrow> bool" where
  "is_plain_record_id s \<longleftrightarrow>
     s \<noteq> [] \<and> length s \<le> 200 \<and> s \<noteq> ''.'' \<and> s \<noteq> ''..'' \<and>
     list_all (\<lambda>c. is_lower c \<or> is_upper c \<or> is_digit c \<or> c = CHR ''.'' \<or> c = CHR ''_'' \<or> c = CHR ''-'') s"

text \<open>The file name inside the store's directory.\<close>

definition record_path :: "string \<Rightarrow> string result" where
  "record_path s =
     (if \<not> is_plain_record_id s then
        throw Runtime_error (''invalid record id '' @ s @ '': ids are plain file names of [A-Za-z0-9._-]'')
      else Inr (s @ ''.json''))"

definition record_exists :: "dir \<Rightarrow> string \<Rightarrow> bool" where
  "record_exists d s \<longleftrightarrow> is_plain_record_id s \<and> map_of d (s @ ''.json'') \<noteq> None"

definition write_record :: "io \<Rightarrow> string \<Rightarrow> string \<Rightarrow> dir \<Rightarrow> unit result \<times> dir" where
  "write_record io s payload d =
     (case record_path s of
        Inl e \<Rightarrow> (Inl e, d)
      | Inr path \<Rightarrow>
          if map_of d path \<noteq> None then
            (throw Runtime_error (''record '' @ path @ '' already exists''), d)
          else if \<not> create_ok io then
            (throw Runtime_error (''cannot create record '' @ path @ ''.tmp''), d)
          else if \<not> write_ok io then
            (throw Runtime_error (''failed while writing record '' @ path @ ''.tmp''),
             dir_remove (path @ ''.tmp'') d)
          else if \<not> rename_ok io then
            (throw Runtime_error (''could not commit record '' @ path), dir_remove (path @ ''.tmp'') d)
          else (Inr (), dir_put path payload (dir_remove (path @ ''.tmp'') d)))"

definition list_record_files :: "dir \<Rightarrow> string list" where
  "list_record_files d =
     sort (filter (\<lambda>n. 5 < length n \<and> drop (length n - 5) n = ''.json'') (map fst d))"

text \<open>The id of a new record: the clock's microseconds, most significant five bits first.\<close>

definition new_record_id :: "u64 \<Rightarrow> string" where
  "new_record_id micros =
     map (\<lambda>i. ''234567abcdefghijklmnopqrstuvwxyz'' !
                unat (and (drop_bit (5 * (12 - i)) micros) 0x1F)) [0..<13]"

lemma record_path_inside:
  "record_path s = Inr p \<Longrightarrow> p = s @ ''.json'' \<and> CHR ''/'' \<notin> set p"
  by (auto simp: record_path_def is_plain_record_id_def is_lower_def is_upper_def is_digit_def
      code_def list_all_iff dest!: bspec [where x = "CHR ''/''"] split: if_splits)

lemma write_record_ok:
  assumes "write_record io s payload d = (Inr u, d')"
  shows "map_of d (s @ ''.json'') = None \<and> map_of d' (s @ ''.json'') = Some payload \<and>
         (\<forall>n. n \<noteq> s @ ''.json'' \<longrightarrow> n \<noteq> s @ ''.json.tmp'' \<longrightarrow> map_of d' n = map_of d n)"
  using assms
  by (auto simp: write_record_def record_path_def map_of_dir_put map_of_dir_remove split: if_splits)

lemma write_record_keeps:
  assumes "write_record io s payload d = (r, d')" and "map_of d n = Some c" and "n \<noteq> s @ ''.json.tmp''"
  shows "map_of d' n = Some c"
  using assms
  by (auto simp: write_record_def record_path_def map_of_dir_put map_of_dir_remove split: if_splits)

lemma dir_ok_write_record [step_inv]:
  "write_record io s payload d = (r, d') \<Longrightarrow> dir_ok d \<Longrightarrow> dir_ok d'"
  by (auto simp: write_record_def record_path_def dir_ok_put dir_ok_remove split: if_splits)

lemma list_record_files_mset:
  "mset (map fst d) = mset (map fst d') \<Longrightarrow> list_record_files d = list_record_files d'"
  unfolding list_record_files_def by (rule properties_for_sort) (simp_all flip: mset_map)

end
