(* ===== verification/Spool.thy ===== *)
theory Spool
  imports Outbound_Document Records Rfc3339
begin

text \<open>
  The offline spool (src/src/app/outbound/spool.hpp and spool.cpp): the entry text and its
  hand-written reader, the sequence-named files of \<open>pending/\<close> and \<open>denied/\<close>, and the status,
  listing, append, remove and deny operations.  The spool-first writer and the drain are in
  the attempt theory, which they need.
\<close>

record SpoolEntry =
  sp_seq :: int
  sp_action_json :: string
  sp_spooled_at :: string

record spool_dirs =
  pending :: dir
  denied_dir :: dir

definition spool_error :: "string \<Rightarrow> 'a result" where
  "spool_error msg = throw Runtime_error (''spool: '' @ msg)"

subsection \<open>File names\<close>

definition zero_pad :: "nat \<Rightarrow> string \<Rightarrow> string" where
  "zero_pad n s = replicate (n - length s) (CHR ''0'') @ s"

text \<open>\<open>%020lld.json\<close>: the sign counts in the width.\<close>

definition seq_filename :: "int \<Rightarrow> string" where
  "seq_filename seq =
     (if seq < 0 then CHR ''-'' # zero_pad 19 (nat_to_string (nat (- seq)))
      else zero_pad 20 (nat_to_string (nat seq))) @ ''.json''"

subsection \<open>The entry text\<close>

definition quote_char :: char where
  "quote_char = CHR 0x22"

definition backslash :: char where
  "backslash = CHR 0x5C"

definition hex_digit :: "nat \<Rightarrow> char" where
  "hex_digit d = ''0123456789abcdef'' ! d"

definition escape_char :: "char \<Rightarrow> string" where
  "escape_char c =
     (if c = CHR 0x0A then [backslash, CHR ''n'']
      else if c = CHR 0x09 then [backslash, CHR ''t'']
      else if c = CHR 0x0D then [backslash, CHR ''r'']
      else if c = quote_char then [backslash, quote_char]
      else if c = backslash then [backslash, backslash]
      else if code c < 0x20 then
        [backslash, CHR ''u'', CHR ''0'', CHR ''0'', hex_digit (code c div 16), hex_digit (code c mod 16)]
      else [c])"

definition escape :: "string \<Rightarrow> string" where
  "escape s = concat (map escape_char s)"

definition key_pattern :: "string \<Rightarrow> string" where
  "key_pattern key = [quote_char] @ key @ [quote_char, CHR '':'']"

definition serialise_spool_entry :: "SpoolEntry \<Rightarrow> string" where
  "serialise_spool_entry e =
     ''{'' @ key_pattern ''seq'' @ int_to_string (sp_seq e) @ '','' @ key_pattern ''action'' @
     [quote_char] @ escape (sp_action_json e) @ [quote_char] @ '','' @ key_pattern ''spooled_at'' @
     [quote_char] @ sp_spooled_at e @ [quote_char] @ ''}''"

text \<open>The scanning loop after the opening quote, with its \<open>escaped\<close> flag; \<open>None\<close>: unterminated.\<close>

definition unescape_char :: "char \<Rightarrow> char" where
  "unescape_char c =
     (if c = CHR ''n'' then CHR 0x0A else if c = CHR ''t'' then CHR 0x09
      else if c = CHR ''r'' then CHR 0x0D else c)"

fun scan_string :: "bool \<Rightarrow> string \<Rightarrow> string \<Rightarrow> string option" where
  "scan_string escaped value [] = None"
| "scan_string escaped value (c # rest) =
     (if escaped then scan_string False (value @ [unescape_char c]) rest
      else if c = backslash then scan_string True value rest
      else if c = quote_char then Some value
      else scan_string False (value @ [c]) rest)"

definition spool_string_value :: "string \<Rightarrow> string \<Rightarrow> string result" where
  "spool_string_value json key =
     (case find_sub (key_pattern key) json of
        None \<Rightarrow> spool_error (''entry missing '' @ key)
      | Some key_at \<Rightarrow>
          (case find_from [quote_char] json (key_at + length key + 3) of
             None \<Rightarrow> spool_error (''entry '' @ key @ '' not a string'')
           | Some cursor \<Rightarrow>
               (case scan_string False [] (drop (cursor + 1) json) of
                  None \<Rightarrow> spool_error (''entry '' @ key @ '' unterminated'')
                | Some value \<Rightarrow> Inr value)))"

definition stoll :: "string \<Rightarrow> int result" where
  "stoll s =
     (case stol s of
        None \<Rightarrow> throw Std_exception ''stoll''
      | Some i \<Rightarrow> if i < - (2 ^ 63) \<or> 2 ^ 63 \<le> i then throw Std_exception ''stoll'' else Inr i)"

definition parse_spool_entry :: "string \<Rightarrow> SpoolEntry result" where
  "parse_spool_entry json =
     (case find_sub (key_pattern ''seq'') json of
        None \<Rightarrow> spool_error ''entry missing seq''
      | Some seq_at \<Rightarrow>
          and_then (stoll (drop (seq_at + 6) json)) (\<lambda>seq.
          and_then (spool_string_value json ''action'') (\<lambda>a.
          and_then (spool_string_value json ''spooled_at'') (\<lambda>t.
          Inr \<lparr>sp_seq = seq, sp_action_json = a, sp_spooled_at = t\<rparr>))))"

subsection \<open>The directories\<close>

definition parse_entries :: "dir \<Rightarrow> SpoolEntry list result" where
  "parse_entries d = fold_result (\<lambda>f acc. and_then (parse_spool_entry (snd f)) (\<lambda>e. Inr (acc @ [e]))) d []"

record SpoolStatus =
  st_pending_count :: nat
  st_denied_count :: nat
  st_last_seq :: int
  st_earliest :: "int option"

definition spool_status :: "spool_dirs \<Rightarrow> SpoolStatus result" where
  "spool_status sp =
     and_then (parse_entries (pending sp)) (\<lambda>es.
       Inr \<lparr>st_pending_count = length es, st_denied_count = length (denied_dir sp),
            st_last_seq = foldl max 0 (map sp_seq es),
            st_earliest = (case map sp_seq es of [] \<Rightarrow> None | q # qs \<Rightarrow> Some (foldl min q qs))\<rparr>)"

definition spool_pending :: "spool_dirs \<Rightarrow> SpoolEntry list result" where
  "spool_pending sp = and_then (parse_entries (pending sp)) (\<lambda>es. Inr (sort_key sp_seq es))"

definition spool_append ::
  "'j cjson \<Rightarrow> io \<Rightarrow> string \<Rightarrow> string \<Rightarrow> spool_dirs \<Rightarrow> SpoolEntry result \<times> spool_dirs" where
  "spool_append J io action_json now sp =
     (case parse_outbound_action J action_json ''spool'' of
        Inl e \<Rightarrow> (Inl e, sp)
      | Inr _ \<Rightarrow>
          (case parse_entries (pending sp) of
             Inl e \<Rightarrow> (Inl e, sp)
           | Inr es \<Rightarrow>
               let entry = \<lparr>sp_seq = foldl max 0 (map sp_seq es) + 1, sp_action_json = action_json,
                            sp_spooled_at = now\<rparr> in
               (case write_record io (take 20 (seq_filename (sp_seq entry)))
                       (serialise_spool_entry entry) (pending sp) of
                  (Inl e, d) \<Rightarrow> (Inl e, sp\<lparr>pending := d\<rparr>)
                | (Inr _, d) \<Rightarrow> (Inr entry, sp\<lparr>pending := d\<rparr>))))"

definition spool_remove :: "SpoolEntry \<Rightarrow> spool_dirs \<Rightarrow> spool_dirs" where
  "spool_remove e sp = sp\<lparr>pending := dir_remove (seq_filename (sp_seq e)) (pending sp)\<rparr>"

text \<open>\<open>rename\<close> of a missing file fails and is ignored; over an existing file it replaces it.\<close>

definition spool_deny :: "SpoolEntry \<Rightarrow> spool_dirs \<Rightarrow> spool_dirs" where
  "spool_deny e sp =
     (let name = seq_filename (sp_seq e) in
      case map_of (pending sp) name of
        None \<Rightarrow> sp
      | Some content \<Rightarrow>
          sp\<lparr>pending := dir_remove name (pending sp),
             denied_dir := dir_put name content (denied_dir sp)\<rparr>)"

subsection \<open>Names sort as sequences\<close>

definition decimal :: string where
  "decimal = ''0123456789''"

lemma decimal_nth: "d < 10 \<Longrightarrow> decimal ! d = digit_char d"
proof -
  have "list_all (\<lambda>d. decimal ! d = digit_char d) [0..<10]" by code_simp
  then show "d < 10 \<Longrightarrow> ?thesis" by (simp add: list_all_iff)
qed

lemma decimal_facts: "length decimal = 10" "sorted_wrt (<) decimal"
  by (simp_all add: decimal_def less_char_def)

lemma encode_zero: "encode decimal w 0 = replicate w (CHR ''0'')"
  by (induction w) (simp_all add: encode_def decimal_facts decimal_def replicate_append_same)

lemma encode_Suc: "encode alphabet (Suc w) n = encode alphabet w (n div length alphabet) @ [alphabet ! (n mod length alphabet)]"
  by (simp add: encode_def)

lemma zero_pad_encode: "n < 10 ^ w \<Longrightarrow> 0 < w \<Longrightarrow> zero_pad w (nat_to_string n) = encode decimal w n"
proof (induction w arbitrary: n)
  case 0
  then show ?case by simp
next
  case (Suc w)
  show ?case
  proof (cases "n < 10")
    case True
    then show ?thesis
      by (subst nat_to_string.simps)
        (simp add: zero_pad_def encode_Suc encode_zero decimal_facts decimal_nth)
  next
    case False
    then have "w \<noteq> 0" and "n div 10 < 10 ^ w" using Suc.prems(1) by (cases w; auto)+
    with Suc.IH [of "n div 10"] show ?thesis using False
      by (subst nat_to_string.simps)
        (simp add: zero_pad_def encode_Suc decimal_facts decimal_nth)
  qed
qed

lemma seq_filename_encode:
  "n < 10 ^ 20 \<Longrightarrow> seq_filename (int n) = encode decimal 20 n @ ''.json''"
  by (simp add: seq_filename_def zero_pad_encode)

lemma append_less: "xs < ys \<Longrightarrow> length xs = length ys \<Longrightarrow> xs @ zs < ys @ zs" for xs :: string
  by (auto simp: list_less_def intro: lexord_sufI)

interpretation spool_name: sortable_key "\<lambda>n. seq_filename (int n)" "\<lambda>n. n < 10 ^ 20"
proof unfold_locales
  fix m n :: nat
  assume n: "n < 10 ^ 20" and less: "m < n"
  then have "encode decimal 20 m < encode decimal 20 n"
    by (intro encode_less) (simp_all add: decimal_facts)
  then show "seq_filename (int m) < seq_filename (int n)"
    using n less by (simp add: seq_filename_encode append_less)
qed

subsection \<open>The entry text reads back\<close>

text \<open>
  What the reader recovers: texts whose control characters are only newline, tab and carriage
  return (the writer's \<open>\u00xx\<close> form is not decoded), and a time stamp without quotes.
\<close>

definition spoolable :: "string \<Rightarrow> bool" where
  "spoolable s \<longleftrightarrow> list_all (\<lambda>c. 0x20 \<le> code c \<or> c \<in> {CHR 0x0A, CHR 0x09, CHR 0x0D}) s"

definition entry_ok :: "SpoolEntry \<Rightarrow> bool" where
  "entry_ok e \<longleftrightarrow> - (2 ^ 63) \<le> sp_seq e \<and> sp_seq e < 2 ^ 63 \<and> spoolable (sp_action_json e) \<and>
     quote_char \<notin> set (sp_spooled_at e) \<and> backslash \<notin> set (sp_spooled_at e)"

lemma special_chars [simp]: "quote_char \<noteq> backslash" "backslash \<noteq> quote_char"
  by (simp_all add: quote_char_def backslash_def)

lemma escape_simps [simp]: "escape [] = []" "escape (c # s) = escape_char c @ escape s"
  by (simp_all add: escape_def)

lemma scan_escaped:
  "spoolable s \<Longrightarrow> scan_string False v (escape s @ rest) = scan_string False (v @ s) rest"
proof (induction s arbitrary: v)
  case Nil
  then show ?case by simp
next
  case (Cons c s)
  have "scan_string False v (escape_char c @ escape s @ rest) = scan_string False (v @ [c]) (escape s @ rest)"
    using Cons.prems
    by (auto simp: spoolable_def escape_char_def unescape_char_def quote_char_def backslash_def)
  with Cons show ?case by (simp add: spoolable_def)
qed

lemma scan_plain:
  "quote_char \<notin> set s \<Longrightarrow> backslash \<notin> set s \<Longrightarrow>
     scan_string False v (s @ rest) = scan_string False (v @ s) rest"
  by (induction s arbitrary: v) auto

text \<open>
  A key is found at its own place: its last letter, the closing quote and the colon never
  follow each other earlier, because inside the escaped text a quote follows a backslash.
\<close>

fun has3 :: "char \<Rightarrow> string \<Rightarrow> bool" where
  "has3 c (x # y # z # r) \<longleftrightarrow> (x = c \<and> y = quote_char \<and> z = CHR '':'') \<or> has3 c (y # z # r)"
| "has3 c _ \<longleftrightarrow> False"

lemma has3_skip: "x \<noteq> c \<Longrightarrow> has3 c (x # r) = has3 c r"
  by (cases r; cases "tl r") auto

lemma has3_skip_all: "c \<notin> set xs \<Longrightarrow> has3 c (xs @ r) = has3 c r"
  by (induction xs) (auto simp: has3_skip)

lemma has3_prefix: "has3 c xs \<Longrightarrow> has3 c (xs @ ys)"
  by (induction c xs rule: has3.induct) auto

lemma has3_suffix: "has3 c ys \<Longrightarrow> has3 c (xs @ ys)"
proof (induction xs)
  case (Cons x xs)
  then have "has3 c (xs @ ys)" by simp
  then show ?case by (cases "xs @ ys"; cases "tl (xs @ ys)") auto
qed simp

lemma has3_escape_step:
  "has3 c (x # escape s @ quote_char # CHR '','' # r) = has3 c (escape s @ quote_char # CHR '','' # r)"
proof (cases s)
  case Nil
  then show ?thesis by (cases r) auto
next
  case (Cons y t)
  have "\<exists>z zs. escape_char y = z # zs \<and> z \<noteq> quote_char" by (auto simp: escape_char_def)
  with Cons obtain z zs where "escape s @ quote_char # CHR '','' # r = z # zs" "z \<noteq> quote_char"
    by auto
  then show ?thesis by (cases zs) auto
qed

lemma escape_char_cases:
  assumes "spoolable [x]"
  obtains "escape_char x = [x]" "x \<noteq> quote_char" "x \<noteq> backslash" | y where "escape_char x = [backslash, y]"
proof -
  have "(escape_char x = [x] \<and> x \<noteq> quote_char \<and> x \<noteq> backslash) \<or> (\<exists>y. escape_char x = [backslash, y])"
    using assms by (auto simp: escape_char_def spoolable_def)
  then show thesis using that by blast
qed

lemma has3_escape:
  assumes "spoolable s" and c: "c \<noteq> backslash"
  shows "has3 c (escape s @ quote_char # CHR '','' # r) = has3 c (quote_char # CHR '','' # r)"
  using assms(1)
proof (induction s)
  case (Cons x s)
  have "spoolable [x]" using Cons.prems by (simp add: spoolable_def)
  then have "has3 c (escape_char x @ escape s @ quote_char # CHR '','' # r) =
        has3 c (escape s @ quote_char # CHR '','' # r)"
    by (cases rule: escape_char_cases) (use c in \<open>auto simp: has3_escape_step has3_skip\<close>)
  with Cons show ?case by (simp add: spoolable_def)
qed simp

lemma find_key:
  assumes none: "\<not> has3 c (u @ [quote_char] @ k @ [c, quote_char])"
  shows "find_sub (key_pattern (k @ [c])) (u @ key_pattern (k @ [c]) @ t) = Some (length u)"
proof -
  let ?p = "key_pattern (k @ [c])"
  let ?w = "u @ ?p @ t"
  have has: "has3 c (x @ ?p)" for x
    unfolding key_pattern_def using has3_suffix [of c "[c, quote_char, CHR '':'']" "x @ [quote_char] @ k"] by simp
  have early: "\<not> starts_with (drop j ?w) ?p" if "j < length u" for j
  proof
    assume "starts_with (drop j ?w) ?p"
    then obtain z where "drop j ?w = ?p @ z" by (auto simp: starts_with_iff)
    then have w: "?w = take j ?w @ ?p @ z" by (metis append_take_drop_id)
    let ?n = "j + length ?p"
    have a: "take ?n ?w = take j ?w @ ?p"
      by (subst w) (use that in simp)
    define v where "v = u @ [quote_char] @ k @ [c, quote_char]"
    have wv: "?w = v @ CHR '':'' # t" by (simp add: key_pattern_def v_def)
    have "?n \<le> length v" using that by (simp add: key_pattern_def v_def)
    then have "take ?n ?w = take ?n v" by (subst wv) simp
    with a have "take ?n v = take j ?w @ ?p" by (metis (no_types))
    then have "has3 c (take ?n v)" using has [of "take j ?w"] by simp
    then have "has3 c v" using has3_prefix by (metis append_take_drop_id)
    with none show False by (simp add: v_def)
  qed
  have here: "starts_with (drop (length u) ?w) ?p" "length u \<le> length ?w" by simp_all
  then have "find_sub ?p ?w \<noteq> None" unfolding find_sub_None by blast
  then obtain i where i: "find_sub ?p ?w = Some i" by blast
  have "\<not> i < length u" using early i find_sub_Some by blast
  moreover have "\<not> length u < i" using find_sub_least [OF i] here(1) by blast
  ultimately show ?thesis using i by simp
qed

lemma string_value_at:
  assumes "\<not> has3 c (u @ [quote_char] @ k @ [c, quote_char])"
    and "scan_string False [] rest = Some v"
  shows "spool_string_value (u @ key_pattern (k @ [c]) @ quote_char # rest) (k @ [c]) = Inr v"
proof -
  let ?w = "u @ key_pattern (k @ [c]) @ quote_char # rest"
  let ?n = "length u + length (k @ [c]) + 3"
  have w: "?w = (u @ key_pattern (k @ [c])) @ quote_char # rest" by simp
  have n: "?n = length (u @ key_pattern (k @ [c]))" by (simp add: key_pattern_def)
  have "find_from [quote_char] ?w ?n = Some ?n"
    unfolding w n by (simp add: find_from_def starts_with_def)
  moreover have "drop (?n + 1) ?w = rest" unfolding w n by simp
  ultimately show ?thesis
    using find_key [OF assms(1)] assms(2) by (simp add: spool_string_value_def)
qed

lemma int_text: "\<forall>d \<in> set (int_to_string i). is_digit d \<or> d = CHR ''-''"
  using nat_to_string_digits by (auto simp: int_to_string_def)

lemma int_text_no_letter: "\<not> is_digit c \<Longrightarrow> c \<noteq> CHR ''-'' \<Longrightarrow> c \<notin> set (int_to_string i)"
  using int_text by blast

lemma takeWhile_digits: "takeWhile is_digit (nat_to_string n @ CHR '','' # r) = nat_to_string n"
  using nat_to_string_digits [of n] by (subst takeWhile_append2) (auto simp: is_digit_def code_def)

lemma digit_not_space: "is_digit c \<Longrightarrow> \<not> is_space c \<and> c \<noteq> CHR ''-'' \<and> c \<noteq> CHR ''+''"
  by (auto simp: is_digit_def is_space_def code_def)

lemma stol_int: "stol (int_to_string i @ CHR '','' # r) = Some i"
proof -
  obtain d ds where n: "nat_to_string (nat i) = d # ds" by (cases "nat_to_string (nat i)") auto
  have d: "is_digit d" using nat_to_string_digits [of "nat i"] n by simp
  show ?thesis
  proof (cases "i < 0")
    case True
    then show ?thesis
      by (simp add: stol_def Let_def int_to_string_def takeWhile_digits is_space_def code_def)
  next
    case False
    have "stol (nat_to_string (nat i) @ CHR '','' # r) = Some (int (dec_value (nat_to_string (nat i))))"
      using takeWhile_digits [of "nat i" r] d digit_not_space [OF d]
      by (simp add: stol_def Let_def n)
    with False show ?thesis by (simp add: int_to_string_def)
  qed
qed

lemma spool_entry_round_trip:
  assumes "entry_ok e"
  shows "parse_spool_entry (serialise_spool_entry e) = Inr e"
proof -
  let ?N = "int_to_string (sp_seq e)" and ?E = "escape (sp_action_json e)"
  let ?tail = "quote_char # CHR '','' # key_pattern ''spooled_at'' @ quote_char # sp_spooled_at e @ quote_char # ''}''"
  let ?a = "CHR ''{'' # key_pattern ''seq'' @ ?N @ '',''"
  let ?b = "?a @ key_pattern ''action'' @ quote_char # ?E @ quote_char # '',''"
  have entry: "serialise_spool_entry e = ''{'' @ key_pattern ''seq'' @ ?N @ CHR '','' # key_pattern ''action'' @ quote_char # ?E @ ?tail"
    by (simp add: serialise_spool_entry_def)
  have safe: "spoolable (sp_action_json e)" using assms by (simp add: entry_ok_def)
  have "find_sub (key_pattern (''se'' @ ''q'')) (''{'' @ key_pattern (''se'' @ ''q'') @ t) = Some (length ''{'')" for t
    by (rule find_key) (simp add: quote_char_def)
  then have seq_at: "find_sub (key_pattern ''seq'') (serialise_spool_entry e) = Some 1"
    by (simp add: entry)
  have "drop 7 (serialise_spool_entry e) = ?N @ CHR '','' # key_pattern ''action'' @ quote_char # ?E @ ?tail"
    by (simp add: entry key_pattern_def)
  then have seq: "stoll (drop (1 + 6) (serialise_spool_entry e)) = Inr (sp_seq e)"
    using assms by (simp add: stoll_def stol_int entry_ok_def)
  have n_digit: "CHR ''n'' \<notin> set ?N" "CHR ''t'' \<notin> set ?N"
    by (rule int_text_no_letter; simp add: is_digit_def code_def)+
  have "\<not> has3 (CHR ''n'') (?a @ [quote_char] @ ''actio'' @ [CHR ''n'', quote_char])"
    using n_digit by (simp add: key_pattern_def has3_skip has3_skip_all quote_char_def)
  moreover have "scan_string False [] (?E @ ?tail) = Some (sp_action_json e)"
    using safe by (simp add: scan_escaped)
  ultimately have "spool_string_value (?a @ key_pattern (''actio'' @ ''n'') @ quote_char # ?E @ ?tail) (''actio'' @ ''n'')
      = Inr (sp_action_json e)"
    by (rule string_value_at)
  then have action: "spool_string_value (serialise_spool_entry e) ''action'' = Inr (sp_action_json e)"
    by (simp add: entry)
  have "has3 (CHR ''t'') (?E @ quote_char # CHR '','' # [quote_char] @ ''spooled_a'' @ [CHR ''t'', quote_char]) =
      has3 (CHR ''t'') (quote_char # CHR '','' # [quote_char] @ ''spooled_a'' @ [CHR ''t'', quote_char])"
    by (rule has3_escape [OF safe]) (simp add: backslash_def)
  then have "\<not> has3 (CHR ''t'') (?b @ [quote_char] @ ''spooled_a'' @ [CHR ''t'', quote_char])"
    using n_digit by (simp add: key_pattern_def has3_skip has3_skip_all quote_char_def)
  moreover have "scan_string False [] (sp_spooled_at e @ quote_char # ''}'') = Some (sp_spooled_at e)"
    using assms by (simp add: scan_plain entry_ok_def)
  ultimately have "spool_string_value (?b @ key_pattern (''spooled_a'' @ ''t'') @ quote_char # sp_spooled_at e @ quote_char # ''}'')
      (''spooled_a'' @ ''t'') = Inr (sp_spooled_at e)"
    by (rule string_value_at)
  then have stamp: "spool_string_value (serialise_spool_entry e) ''spooled_at'' = Inr (sp_spooled_at e)"
    by (simp add: entry)
  show ?thesis using seq_at seq action stamp by (simp add: parse_spool_entry_def)
qed

subsection \<open>The pending directory\<close>

text \<open>
  The invariant: every pending file is the entry whose sequence names it.  Appending gives a
  sequence above every pending one, so the listing is the order of creation.
\<close>

definition named_entry :: "string \<times> string \<Rightarrow> bool" where
  "named_entry f \<longleftrightarrow>
     (\<exists>e. parse_spool_entry (snd f) = Inr e \<and> fst f = seq_filename (sp_seq e) \<and> 1 \<le> sp_seq e \<and>
          sp_seq e < 2 ^ 63)"

definition spool_ok :: "spool_dirs \<Rightarrow> bool" where
  "spool_ok sp \<longleftrightarrow> dir_ok (pending sp) \<and> list_all named_entry (pending sp)"

lemma parse_entries_iff:
  "parse_entries d = Inr es \<longleftrightarrow> list_all2 (\<lambda>f e. parse_spool_entry (snd f) = Inr e) d es"
  by (simp add: parse_entries_def fold_collect)

lemma foldl_max: "a \<le> foldl max (a::int) xs \<and> (\<forall>x \<in> set xs. x \<le> foldl max a xs)"
proof (induction xs arbitrary: a)
  case (Cons x xs)
  then have "max a x \<le> foldl max (max a x) xs" "\<forall>y \<in> set xs. y \<le> foldl max (max a x) xs" by blast+
  then show ?case by auto
qed simp

lemma seq_name_inj:
  assumes "0 \<le> i" "0 \<le> j" "i < 2 ^ 63" "j < 2 ^ 63"
  shows "seq_filename i = seq_filename j \<longleftrightarrow> i = j"
  using spool_name.key_inj [of "nat i" "nat j"] assms by auto

lemma entries_named:
  assumes "spool_ok sp"
  obtains es where "parse_entries (pending sp) = Inr es" "map fst (pending sp) = map (seq_filename \<circ> sp_seq) es"
    "\<forall>e \<in> set es. 1 \<le> sp_seq e \<and> sp_seq e < 2 ^ 63" "distinct (map sp_seq es)"
proof -
  have "\<exists>es. list_all2 (\<lambda>f e. parse_spool_entry (snd f) = Inr e) d es \<and>
        map fst d = map (seq_filename \<circ> sp_seq) es \<and> (\<forall>e \<in> set es. 1 \<le> sp_seq e \<and> sp_seq e < 2 ^ 63)"
    if "list_all named_entry d" for d
    using that
  proof (induction d)
    case (Cons f d)
    then obtain es e where "list_all2 (\<lambda>f e. parse_spool_entry (snd f) = Inr e) d es"
        "map fst d = map (seq_filename \<circ> sp_seq) es" "\<forall>e \<in> set es. 1 \<le> sp_seq e \<and> sp_seq e < 2 ^ 63"
        "parse_spool_entry (snd f) = Inr e" "fst f = seq_filename (sp_seq e)" "1 \<le> sp_seq e" "sp_seq e < 2 ^ 63"
      by (auto simp: named_entry_def)
    then show ?case by (intro exI [of _ "e # es"]) auto
  qed simp
  then obtain es where es: "parse_entries (pending sp) = Inr es"
      "map fst (pending sp) = map (seq_filename \<circ> sp_seq) es" "\<forall>e \<in> set es. 1 \<le> sp_seq e \<and> sp_seq e < 2 ^ 63"
    using assms by (auto simp: spool_ok_def parse_entries_iff)
  have "distinct (map (seq_filename \<circ> sp_seq) es)"
    using assms unfolding spool_ok_def dir_ok_def es(2) by simp
  then have "distinct (map sp_seq es)" by (metis distinct_map map_map)
  with es that show thesis by blast
qed

lemma spool_append_ok:
  assumes "spool_append J io action now sp = (Inr e, sp')"
  shows "sp_action_json e = action \<and> denied_dir sp' = denied_dir sp \<and>
         (\<exists>es. parse_entries (pending sp) = Inr es \<and> (\<forall>x \<in> set es. sp_seq x < sp_seq e)) \<and> 1 \<le> sp_seq e"
proof -
  obtain es where es: "parse_entries (pending sp) = Inr es" and seq: "sp_seq e = foldl max 0 (map sp_seq es) + 1"
    and rest: "sp_action_json e = action" "denied_dir sp' = denied_dir sp"
    using assms by (auto simp: spool_append_def Let_def split: sum.splits prod.splits)
  have "0 \<le> foldl max 0 (map sp_seq es)" "\<forall>x \<in> set (map sp_seq es). x \<le> foldl max 0 (map sp_seq es)"
    using foldl_max [of 0 "map sp_seq es"] by blast+
  with es seq rest show ?thesis by auto
qed

lemma spool_ok_remove [step_inv]: "spool_ok sp \<Longrightarrow> spool_ok (spool_remove e sp)"
  by (auto simp: spool_ok_def spool_remove_def dir_ok_remove list_all_iff set_dir_remove)

lemma spool_ok_deny [step_inv]: "spool_ok sp \<Longrightarrow> spool_ok (spool_deny e sp)"
  by (auto simp: spool_ok_def spool_deny_def Let_def dir_ok_remove list_all_iff set_dir_remove split: option.split)

lemma dir_remove_absent: "name \<notin> fst ` set d \<Longrightarrow> dir_remove name d = d"
  by (force simp: dir_remove_def filter_id_conv)

lemma seq_filename_id:
  assumes "0 \<le> seq" and "seq < 2 ^ 63"
  shows "take 20 (seq_filename seq) @ ''.json'' = seq_filename seq"
proof -
  have "seq_filename seq = encode decimal 20 (nat seq) @ ''.json''"
    using seq_filename_encode [of "nat seq"] assms by simp
  then show ?thesis by simp
qed

lemma spool_ok_append [step_inv]:
  assumes ap: "spool_append J io action now sp = (Inr e, sp')" and ok: "spool_ok sp"
    and entry: "entry_ok e"
  shows "spool_ok sp' \<and> map_of (pending sp') (seq_filename (sp_seq e)) = Some (serialise_spool_entry e)"
proof -
  have seq: "1 \<le> sp_seq e" "sp_seq e < 2 ^ 63" using spool_append_ok [OF ap] entry by (auto simp: entry_ok_def)
  obtain d where w: "write_record io (take 20 (seq_filename (sp_seq e))) (serialise_spool_entry e) (pending sp)
      = (Inr (), d)" and sp': "sp' = sp\<lparr>pending := d\<rparr>"
    using ap by (auto simp: spool_append_def Let_def split: sum.splits prod.splits)
  have d: "d = dir_put (seq_filename (sp_seq e)) (serialise_spool_entry e)
      (dir_remove (seq_filename (sp_seq e) @ ''.tmp'') (pending sp))"
    using w seq_filename_id [of "sp_seq e"] seq
    by (auto simp: write_record_def record_path_def split: if_splits)
  have "named_entry (seq_filename (sp_seq e), serialise_spool_entry e)"
    using seq spool_entry_round_trip [OF entry] by (auto simp: named_entry_def)
  with ok show ?thesis
    by (auto simp: sp' d spool_ok_def dir_ok_put dir_ok_remove list_all_iff set_dir_put set_dir_remove
        map_of_dir_put)
qed

text \<open>
  A refused entry is moved to \<open>denied/\<close>, but the sequence restarts when \<open>pending/\<close> is empty, so
  an earlier refused entry of the same sequence is replaced.
\<close>

lemma deny_replaces:
  assumes "map_of (pending sp) (seq_filename (sp_seq e)) = Some new"
  shows "map_of (denied_dir (spool_deny e sp)) (seq_filename (sp_seq e)) = Some new"
  using assms by (simp add: spool_deny_def Let_def map_of_dir_put)

text \<open>The new file sorts after every pending one.\<close>

lemma spool_append_sorts:
  assumes ap: "spool_append J io action now sp = (Inr e, sp')" and ok: "spool_ok sp" and entry: "entry_ok e"
  shows "list_all (\<lambda>f. fst f < seq_filename (sp_seq e)) (pending sp)"
proof -
  obtain es where es: "parse_entries (pending sp) = Inr es" "\<forall>x \<in> set es. sp_seq x < sp_seq e"
    using spool_append_ok [OF ap] by blast
  obtain es' where es': "parse_entries (pending sp) = Inr es'" "map fst (pending sp) = map (seq_filename \<circ> sp_seq) es'"
    "\<forall>e \<in> set es'. 1 \<le> sp_seq e \<and> sp_seq e < 2 ^ 63"
    by (rule entries_named [OF ok])
  have "seq_filename (sp_seq x) < seq_filename (sp_seq e)" if "x \<in> set es" for x
  proof -
    have "1 \<le> sp_seq x" "sp_seq x < sp_seq e" "sp_seq e < 2 ^ 63"
      using that es es' entry by (auto simp: entry_ok_def)
    then show ?thesis
      using spool_name.key_less_iff [of "nat (sp_seq x)" "nat (sp_seq e)"] by simp
  qed
  then have "list_all (\<lambda>n. n < seq_filename (sp_seq e)) (map fst (pending sp))"
    using es(1) es'(1,2) by (auto simp: list_all_iff)
  then show ?thesis by (simp add: list_all_iff)
qed

end
