(* ===== verification/Float32.thy ===== *)
theory Float32
  imports Cjson
begin

text \<open>
  \<open>static_cast<float>(double)\<close>: rounding to binary32, nearest with ties to even.  The binade of
  a magnitude is found by doubling and halving; values that round beyond the largest float are
  undefined in C++.
\<close>

definition round_half_even :: "real \<Rightarrow> int" where
  "round_half_even y =
     (let f = \<lfloor>y\<rfloor>; d = y - real_of_int f in
      if d < 1 / 2 then f else if 1 / 2 < d then f + 1 else if even f then f else f + 1)"

fun binade_up :: "nat \<Rightarrow> real \<Rightarrow> real \<Rightarrow> real" where
  "binade_up 0 p a = p"
| "binade_up (Suc n) p a = (if a < 2 * p then p else binade_up n (2 * p) a)"

fun binade_down :: "nat \<Rightarrow> real \<Rightarrow> real \<Rightarrow> real" where
  "binade_down 0 p a = p"
| "binade_down (Suc n) p a = (if p \<le> a then p else binade_down n (p / 2) a)"

definition float32 :: "real \<Rightarrow> real" where
  "float32 x =
     (let a = \<bar>x\<bar>; u = binade_down 126 (binade_up 127 1 a) a / 2 ^ 23;
          r = real_of_int (round_half_even (a / u)) * u
      in if x < 0 then - r else r)"

text \<open>\<open>static_cast<double>\<close> of a 64-bit count: 53 significant bits.\<close>

fun count_unit :: "nat \<Rightarrow> real" where
  "count_unit n = (if n < 2 ^ 53 then 1 else 2 * count_unit (n div 2))"

declare count_unit.simps [simp del]

definition u64_to_double :: "64 word \<Rightarrow> real" where
  "u64_to_double w =
     (let u = count_unit (unat w) in real_of_int (round_half_even (real (unat w) / u)) * u)"

definition dbl_to_float :: "double \<Rightarrow> double result" where
  "dbl_to_float d =
     (case d of
        Finite x \<Rightarrow> (if \<bar>float32 x\<bar> < 2 ^ 128 then Inr (Finite (float32 x))
                     else throw Undefined_behaviour ''conversion to float out of range'')
      | _ \<Rightarrow> Inr d)"

lemma round_half_even_int [simp]: "round_half_even (real_of_int i) = i"
  by (simp add: round_half_even_def)

lemma u64_to_double_exact: "unat w < 2 ^ 53 \<Longrightarrow> u64_to_double w = real (unat w)"
  using round_half_even_int [of "int (unat w)"] by (simp add: u64_to_double_def count_unit.simps)

lemma round_half_even_mono:
  assumes "x \<le> y"
  shows "round_half_even x \<le> round_half_even y"
proof (cases "\<lfloor>x\<rfloor> = \<lfloor>y\<rfloor>")
  case True
  then show ?thesis using assms by (auto simp: round_half_even_def Let_def)
next
  case False
  then have "\<lfloor>x\<rfloor> + 1 \<le> \<lfloor>y\<rfloor>" using floor_mono [OF assms] by linarith
  then show ?thesis by (auto simp: round_half_even_def Let_def)
qed

lemma binade_down_pos: "0 < p \<Longrightarrow> 0 < binade_down n p a"
  by (induction n p a rule: binade_down.induct) auto

lemma binade_up_pos: "0 < p \<Longrightarrow> 0 < binade_up n p a"
  by (induction n p a rule: binade_up.induct) auto

lemma binade_up_small: "a < 2 * p \<Longrightarrow> binade_up n p a = p"
  by (cases n) auto

lemma float32_0 [simp]: "float32 0 = 0"
  by (simp add: float32_def round_half_even_def)

lemma float32_1 [simp]: "float32 1 = 1"
proof -
  have "binade_up 127 1 1 = 1" by (rule binade_up_small) simp
  moreover have "binade_down 126 1 1 = 1" by (simp add: numeral_eq_Suc)
  moreover have "round_half_even 8388608 = 8388608" using round_half_even_int [of 8388608] by simp
  ultimately show ?thesis by (simp add: float32_def Let_def)
qed

text \<open>Halvings reach the binade of one in whole steps, so a value up to one stays up to one.\<close>

lemma binade_down_steps: "\<exists>k. binade_down n p a = p / 2 ^ k"
proof (induction n p a rule: binade_down.induct)
  case (1 p a)
  then show ?case by (intro exI [of _ 0]) simp
next
  case (2 n p a)
  show ?case
  proof (cases "p \<le> a")
    case True
    then show ?thesis by (intro exI [of _ 0]) simp
  next
    case False
    then obtain k where "binade_down n (p / 2) a = p / 2 / 2 ^ k" using 2 by blast
    then show ?thesis using False by (intro exI [of _ "Suc k"]) simp
  qed
qed

lemma float32_unit: "0 \<le> x \<Longrightarrow> x \<le> 1 \<Longrightarrow> 0 \<le> float32 x \<and> float32 x \<le> 1"
proof -
  assume x: "0 \<le> x" "x \<le> 1"
  have up: "binade_up 127 1 x = 1" using x by (intro binade_up_small) simp
  obtain k where d: "binade_down 126 1 x = 1 / 2 ^ k" using binade_down_steps by blast
  define u :: real where "u = 1 / 2 ^ k / 2 ^ 23"
  have u: "0 < u" "1 / u = real_of_int (2 ^ k * 2 ^ 23)" by (simp_all add: u_def)
  have "0 \<le> x / u" "x / u \<le> 1 / u" using x u(1) by (simp_all add: divide_right_mono)
  then have "round_half_even 0 \<le> round_half_even (x / u)" "round_half_even (x / u) \<le> round_half_even (1 / u)"
    by (blast intro: round_half_even_mono)+
  then have r: "0 \<le> round_half_even (x / u)" "round_half_even (x / u) \<le> 2 ^ k * 2 ^ 23"
    using round_half_even_int [of 0, simplified] unfolding u(2) round_half_even_int by simp_all
  then have "real_of_int (round_half_even (x / u)) \<le> real_of_int (2 ^ k * 2 ^ 23)"
    by (simp only: of_int_le_iff)
  then have "real_of_int (round_half_even (x / u)) * u \<le> (2 ^ k * 2 ^ 23) * u"
    using u(1) by (intro mult_right_mono) simp_all
  also have "\<dots> = 1" by (simp add: u_def)
  finally have "real_of_int (round_half_even (x / u)) * u \<le> 1" .
  moreover have "0 \<le> real_of_int (round_half_even (x / u)) * u" using r(1) u(1) by simp
  moreover have "float32 x = real_of_int (round_half_even (x / u)) * u"
    using x by (simp only: float32_def Let_def abs_of_nonneg up d flip: u_def) simp
  ultimately show ?thesis by (simp only: conj_absorb)
qed

end
