(* ===== verification/Jsonl.thy ===== *)
theory Jsonl
  imports Files
begin

text \<open>
  Newline-delimited append-only files (src/src/app/state/jsonl.hpp): the repair of a torn last
  line, which scans backwards in chunks of 4096 bytes, and the append every such store makes
  after it.  The lemmas show that the chunked scan keeps exactly the complete lines, and that
  a crash in the middle of an append costs at most the line being appended.
\<close>

definition newline :: char where
  "newline = CHR 0x0A"

text \<open>The inner loop: one past the last newline of a chunk.\<close>

fun last_newline :: "string \<Rightarrow> nat option" where
  "last_newline [] = None"
| "last_newline (c # s) =
     (case last_newline s of
        Some i \<Rightarrow> Some (Suc i)
      | None \<Rightarrow> if c = newline then Some 1 else None)"

definition chunk_size :: nat where
  "chunk_size = 4096"

text \<open>The outer loop: the number of bytes to keep, with \<open>position\<close> bytes left to search.\<close>

function repair_loop :: "string \<Rightarrow> nat \<Rightarrow> nat" where
  "repair_loop bytes position =
     (if position = 0 then 0
      else let len = min chunk_size position; start = position - len in
        case last_newline (take len (drop start bytes)) of
          Some i \<Rightarrow> start + i
        | None \<Rightarrow> repair_loop bytes start)"
  by pat_completeness auto
termination
  by (relation "measure snd") (auto simp: chunk_size_def)

declare repair_loop.simps [simp del]

definition repair_torn_tail :: "string \<Rightarrow> string" where
  "repair_torn_tail bytes =
     (if bytes = [] \<or> last bytes = newline then bytes
      else take (repair_loop bytes (length bytes)) bytes)"

text \<open>How an append can end: the file does not open, or only some bytes reach it.\<close>

datatype append_outcome = Append_ok | Append_not_opened | Append_torn nat

definition append_line :: "string \<Rightarrow> append_outcome \<Rightarrow> string \<Rightarrow> string \<Rightarrow> unit result \<times> string" where
  "append_line label ao line bytes =
     (let kept = repair_torn_tail bytes in
      case ao of
        Append_ok \<Rightarrow> (Inr (), kept @ line @ [newline])
      | Append_not_opened \<Rightarrow> (throw Runtime_error (''cannot append '' @ label), kept)
      | Append_torn n \<Rightarrow>
          (throw Runtime_error (''failed while writing '' @ label), kept @ take n (line @ [newline])))"

subsection \<open>Exactly the complete lines are kept\<close>

definition complete_part :: "string \<Rightarrow> string" where
  "complete_part s = rev (dropWhile (\<lambda>c. c \<noteq> newline) (rev s))"

lemma last_newline_None: "last_newline s = None \<longleftrightarrow> newline \<notin> set s"
  by (induction s) (auto split: option.split)

lemma last_newline_Some:
  "last_newline s = Some i \<Longrightarrow> \<exists>u v. s = u @ newline # v \<and> newline \<notin> set v \<and> i = Suc (length u)"
proof (induction s arbitrary: i)
  case (Cons c s)
  show ?case
  proof (cases "last_newline s")
    case None
    with Cons.prems have "c = newline" "i = 1" by (auto split: if_splits)
    with None show ?thesis by (intro exI [of _ "[]"] exI [of _ s]) (simp add: last_newline_None)
  next
    case (Some j)
    with Cons.IH obtain u v where "s = u @ newline # v" "newline \<notin> set v" "j = Suc (length u)" by blast
    with Cons.prems Some show ?thesis by (intro exI [of _ "c # u"] exI [of _ v]) auto
  qed
qed simp

lemma complete_part_split:
  "newline \<notin> set v \<Longrightarrow> complete_part (u @ newline # v) = u @ [newline]"
proof -
  assume v: "newline \<notin> set v"
  have "dropWhile (\<lambda>c. c \<noteq> newline) (rev v @ newline # rev u) = newline # rev u"
    using v by (subst dropWhile_append2) auto
  then show ?thesis by (simp add: complete_part_def)
qed

lemma complete_part_none: "newline \<notin> set v \<Longrightarrow> complete_part v = []"
  by (auto simp: complete_part_def dropWhile_eq_Nil_conv)

lemma repair_loop_take:
  assumes "newline \<notin> set (drop p s)" and "p \<le> length s"
  shows "take (repair_loop s p) s = complete_part s"
  using assms
proof (induction s p rule: repair_loop.induct)
  case (1 s p)
  show ?case
  proof (cases "p = 0")
    case True
    then show ?thesis using 1(2) by (subst repair_loop.simps) (simp add: complete_part_none)
  next
    case False
    let ?len = "min chunk_size p" and ?start = "p - min chunk_size p"
    define chunk where "chunk = take ?len (drop ?start s)"
    have s: "s = take ?start s @ chunk @ drop p s"
    proof -
      have "drop ?start s = chunk @ drop ?len (drop ?start s)"
        unfolding chunk_def by (rule append_take_drop_id [symmetric])
      moreover have "drop ?len (drop ?start s) = drop p s" by simp
      ultimately show ?thesis by (metis append_take_drop_id)
    qed
    show ?thesis
    proof (cases "last_newline chunk")
      case None
      have "drop ?start s = chunk @ drop p s"
        by (metis s append_eq_append_conv append_take_drop_id)
      then have "newline \<notin> set (drop ?start s)" using None 1(2) by (simp add: last_newline_None)
      moreover have "repair_loop s p = repair_loop s ?start"
        using False None by (subst repair_loop.simps) (simp add: chunk_def Let_def)
      ultimately show ?thesis
        using 1(1) [OF False refl refl] None 1(3) by (simp add: chunk_def)
    next
      case (Some i)
      then obtain u v where uv: "chunk = u @ newline # v" "newline \<notin> set v" "i = Suc (length u)"
        using last_newline_Some by blast
      have loop: "repair_loop s p = ?start + i"
        using False Some by (subst repair_loop.simps) (simp add: chunk_def Let_def)
      have len: "length (take ?start s) = ?start" using 1(3) by simp
      have s': "s = (take ?start s @ u) @ newline # (v @ drop p s)" using s uv(1) by simp
      have "complete_part s = (take ?start s @ u) @ [newline]"
        by (subst s', rule complete_part_split) (use uv(2) 1(2) in auto)
      moreover have "take (?start + i) s = (take ?start s @ u) @ [newline]"
        by (subst s') (use uv(3) len in simp)
      ultimately show ?thesis using loop by simp
    qed
  qed
qed

lemma repair_torn_tail_eq: "repair_torn_tail s = complete_part s"
proof (cases "s = [] \<or> last s = newline")
  case True
  then show ?thesis
    by (cases s rule: rev_cases) (auto simp: repair_torn_tail_def complete_part_def)
next
  case False
  then show ?thesis using repair_loop_take [of "length s" s] by (simp add: repair_torn_tail_def)
qed

text \<open>A log of lines, and an append that a crash cut anywhere: the next append repairs it.\<close>

definition log_of :: "string list \<Rightarrow> string" where
  "log_of ls = concat (map (\<lambda>l. l @ [newline]) ls)"

lemma log_of_snoc: "log_of (ls @ [l]) = log_of ls @ l @ [newline]"
  by (simp add: log_of_def)

lemma complete_part_log: "complete_part (log_of ls) = log_of ls"
  by (cases ls rule: rev_cases) (auto simp: log_of_def complete_part_def)

lemma complete_part_log_torn: "newline \<notin> set v \<Longrightarrow> complete_part (log_of ls @ v) = log_of ls"
proof (cases ls rule: rev_cases)
  case Nil
  then show "newline \<notin> set v \<Longrightarrow> ?thesis" by (simp add: log_of_def complete_part_none)
next
  case (snoc ls' l)
  then show "newline \<notin> set v \<Longrightarrow> ?thesis"
    using complete_part_split [of v "log_of ls' @ l"] by (simp add: log_of_def)
qed

lemma torn_append_repaired:
  assumes "newline \<notin> set line"
  shows "repair_torn_tail (log_of ls @ take n (line @ [newline])) =
     (if length line < n then log_of (ls @ [line]) else log_of ls)"
proof (cases "length line < n")
  case True
  then have "log_of ls @ take n (line @ [newline]) = log_of (ls @ [line])" by (simp add: log_of_def)
  with True show ?thesis by (simp add: repair_torn_tail_eq complete_part_log)
next
  case False
  have "newline \<notin> set (take n line)" using assms by (meson in_set_takeD)
  with False show ?thesis by (simp add: repair_torn_tail_eq complete_part_log_torn)
qed

lemma append_line_log:
  assumes "append_line label ao line (log_of ls) = (r, bytes)" and "newline \<notin> set line"
  shows "(\<exists>n. bytes = log_of ls @ take n (line @ [newline])) \<and>
     (r = Inr () \<longrightarrow> bytes = log_of (ls @ [line]))"
proof (cases ao)
  case Append_ok
  then have "r = Inr ()" "bytes = log_of ls @ take (Suc (length line)) (line @ [newline])"
    using assms by (auto simp: append_line_def Let_def repair_torn_tail_eq complete_part_log)
  moreover have "take (Suc (length line)) (line @ [newline]) = line @ [newline]" by simp
  ultimately show ?thesis unfolding log_of_snoc by metis
next
  case Append_not_opened
  then have "bytes = log_of ls @ take 0 (line @ [newline])" "r \<noteq> Inr ()"
    using assms by (auto simp: append_line_def Let_def repair_torn_tail_eq complete_part_log)
  then show ?thesis by blast
next
  case (Append_torn n)
  then show ?thesis
    using assms by (auto simp: append_line_def Let_def repair_torn_tail_eq complete_part_log)
qed

end
