(* ===== verification/Journal_Store.thy ===== *)
theory Journal_Store
  imports Float32 Jsonl
begin

text \<open>
  The action journal (src/src/app/journal/store.hpp and store.cpp): the entry kinds, their
  printed documents, the line parser with its version rules, appending and loading.  The file is
  its bytes; \<open>load_journal\<close> drops a last line without a newline and refuses any complete line
  it does not understand.
\<close>

datatype JournalActionOutcome = J_Executed | J_Denied | J_Deferred | J_Failed | J_DryRun
datatype JournalExpectationState = State_None | State_Pending | State_Met | State_Unmet | State_Expired
datatype IntentState = Intent_Open | Intent_Expired | Intent_Closed
datatype valence_kind = Valence_Action | Valence_Interaction | Valence_Approach | Valence_Avoid

record JournalExpectation =
  exp_kind :: string
  exp_reply_likelihood :: double
  exp_tokens :: "string list"

definition kExpectationMaxTokens :: nat where
  "kExpectationMaxTokens = 8"

record JournalMac =
  mac_mode :: string
  mac_key_hint :: string
  mac_sig :: string
  mac_digest :: string

record JournalAction =
  ja_id :: string
  ja_kind :: string
  ja_text :: string
  ja_digest :: string
  ja_outcome :: JournalActionOutcome
  ja_reason :: string
  ja_uri :: string
  ja_cid :: string
  ja_at :: string
  ja_mac :: "JournalMac option"
  ja_expectation :: "JournalExpectation option"

record JournalResolution =
  jr_action_id :: string
  jr_state :: JournalExpectationState
  jr_at_epoch :: u64
  jr_at :: string

record JournalIntent =
  ji_id :: string
  ji_actions :: "string list"
  responder :: string
  expires_at_epoch :: u64
  ji_expires_at :: string
  max_continuations :: u32
  ji_state :: IntentState
  ji_at_epoch :: u64
  ji_at :: string

record JournalEvent =
  je_action_id :: string
  event_uri :: string
  je_author_did :: string
  via :: string
  je_at :: string

record JournalValence =
  jv_token :: string
  jv_kind :: string
  signal :: double
  jv_source :: string
  jv_at_epoch :: u64
  jv_at :: string
  provenance :: string

record JournalContents =
  jc_actions :: "JournalAction list"
  jc_events :: "JournalEvent list"
  jc_valence :: "JournalValence list"
  jc_resolutions :: "JournalResolution list"
  jc_intents :: "JournalIntent list"
  repaired_torn_tail :: bool

definition empty_journal :: JournalContents where
  "empty_journal =
     \<lparr>jc_actions = [], jc_events = [], jc_valence = [], jc_resolutions = [], jc_intents = [],
      repaired_torn_tail = False\<rparr>"

subsection \<open>Names\<close>

fun journal_action_outcome_name :: "JournalActionOutcome \<Rightarrow> string" where
  "journal_action_outcome_name J_Executed = ''executed''"
| "journal_action_outcome_name J_Denied = ''denied''"
| "journal_action_outcome_name J_Deferred = ''deferred''"
| "journal_action_outcome_name J_Failed = ''failed''"
| "journal_action_outcome_name J_DryRun = ''dry_run''"

definition journal_action_outcome_from_name :: "string \<Rightarrow> JournalActionOutcome option" where
  "journal_action_outcome_from_name n =
     (if n = ''executed'' then Some J_Executed
      else if n = ''denied'' then Some J_Denied
      else if n = ''deferred'' then Some J_Deferred
      else if n = ''failed'' then Some J_Failed
      else if n = ''dry_run'' then Some J_DryRun
      else None)"

fun journal_expectation_state_name :: "JournalExpectationState \<Rightarrow> string" where
  "journal_expectation_state_name State_None = ''none''"
| "journal_expectation_state_name State_Pending = ''pending''"
| "journal_expectation_state_name State_Met = ''met''"
| "journal_expectation_state_name State_Unmet = ''unmet''"
| "journal_expectation_state_name State_Expired = ''expired''"

definition journal_expectation_state_from_name :: "string \<Rightarrow> JournalExpectationState option" where
  "journal_expectation_state_from_name n =
     (if n = ''none'' then Some State_None
      else if n = ''pending'' then Some State_Pending
      else if n = ''met'' then Some State_Met
      else if n = ''unmet'' then Some State_Unmet
      else if n = ''expired'' then Some State_Expired
      else None)"

fun intent_state_name :: "IntentState \<Rightarrow> string" where
  "intent_state_name Intent_Open = ''open''"
| "intent_state_name Intent_Expired = ''expired''"
| "intent_state_name Intent_Closed = ''closed''"

definition intent_state_from_name :: "string \<Rightarrow> IntentState option" where
  "intent_state_from_name n =
     (if n = ''open'' then Some Intent_Open
      else if n = ''expired'' then Some Intent_Expired
      else if n = ''closed'' then Some Intent_Closed
      else None)"

fun valence_kind_name :: "valence_kind \<Rightarrow> string" where
  "valence_kind_name Valence_Action = ''action''"
| "valence_kind_name Valence_Interaction = ''interaction''"
| "valence_kind_name Valence_Approach = ''approach''"
| "valence_kind_name Valence_Avoid = ''avoid''"

definition valence_kind_from_name :: "string \<Rightarrow> valence_kind option" where
  "valence_kind_from_name n =
     (if n = ''action'' then Some Valence_Action
      else if n = ''interaction'' then Some Valence_Interaction
      else if n = ''approach'' then Some Valence_Approach
      else if n = ''avoid'' then Some Valence_Avoid
      else None)"

lemma journal_names_read_back [simp]:
  "journal_action_outcome_from_name (journal_action_outcome_name oc) = Some oc"
  "journal_expectation_state_from_name (journal_expectation_state_name st) = Some st"
  "intent_state_from_name (intent_state_name it) = Some it"
  "valence_kind_from_name (valence_kind_name vk) = Some vk"
  subgoal by (cases oc) (simp_all add: journal_action_outcome_from_name_def)
  subgoal by (cases st) (simp_all add: journal_expectation_state_from_name_def)
  subgoal by (cases it) (simp_all add: intent_state_from_name_def)
  subgoal by (cases vk) (simp_all add: valence_kind_from_name_def)
  done

subsection \<open>Fields\<close>

definition fail :: "string \<Rightarrow> 'a result" where
  "fail msg = throw JournalError msg"

definition jou_required_string :: "'j cjson \<Rightarrow> 'j \<Rightarrow> string \<Rightarrow> string result" where
  "jou_required_string J entry name =
     (case string_value J (j_item J entry name) of
        Some s \<Rightarrow> Inr s
      | None \<Rightarrow> fail (''journal entry field '' @ name @ '' is missing or not a string''))"

definition jou_optional_string :: "'j cjson \<Rightarrow> 'j \<Rightarrow> string \<Rightarrow> string result" where
  "jou_optional_string J entry name =
     (case j_item J entry name of
        None \<Rightarrow> Inr []
      | Some x \<Rightarrow>
          (case string_value J (Some x) of
             Some s \<Rightarrow> Inr s
           | None \<Rightarrow> fail (''journal entry field '' @ name @ '' is present but not a string'')))"

definition required_u64 :: "'j cjson \<Rightarrow> 'j \<Rightarrow> string \<Rightarrow> u64 result" where
  "required_u64 J entry name =
     (case j_item J entry name of
        None \<Rightarrow> fail (''journal entry field '' @ name @ '' is missing or not a number'')
      | Some x \<Rightarrow>
          if \<not> j_is_number J x then fail (''journal entry field '' @ name @ '' is missing or not a number'')
          else if dbl_lt (j_num J x) (Finite 0) then fail (''journal entry field '' @ name @ '' is negative'')
          else and_then (to_uint64 (j_num J x)) (\<lambda>i. Inr (word_of_int i)))"

definition required_float :: "'j cjson \<Rightarrow> 'j \<Rightarrow> string \<Rightarrow> double result" where
  "required_float J entry name =
     (case j_item J entry name of
        None \<Rightarrow> fail (''journal entry field '' @ name @ '' is missing or not a number'')
      | Some x \<Rightarrow>
          if \<not> j_is_number J x then fail (''journal entry field '' @ name @ '' is missing or not a number'')
          else dbl_to_float (j_num J x))"

text \<open>\<open>cJSON_AddNumberToObject\<close>: the library prints \<open>null\<close> for what is not finite.\<close>

definition number_node :: "double \<Rightarrow> node" where
  "number_node d = (case d of Finite r \<Rightarrow> Node_Number r | _ \<Rightarrow> Node_Null)"

subsection \<open>Printing\<close>

definition kJournalFormatVersion :: real where
  "kJournalFormatVersion = 4"

definition mac_fields :: "JournalMac option \<Rightarrow> (string \<times> node) list" where
  "mac_fields mac =
     (case mac of
        None \<Rightarrow> []
      | Some m \<Rightarrow>
          [(''mac'', Node_Object
             [(''mode'', Node_String (mac_mode m)), (''key_hint'', Node_String (mac_key_hint m)),
              (''sig'', Node_String (mac_sig m)), (''digest'', Node_String (mac_digest m))])])"

definition expectation_fields :: "JournalExpectation option \<Rightarrow> (string \<times> node) list" where
  "expectation_fields x =
     (case x of
        None \<Rightarrow> []
      | Some e \<Rightarrow>
          [(''expectation'', Node_Object
             [(''kind'', Node_String (exp_kind e)),
              (''reply_likelihood'', number_node (exp_reply_likelihood e)),
              (''tokens'', Node_Array (map Node_String (exp_tokens e)))])])"

definition journal_action_fields :: "JournalAction \<Rightarrow> (string \<times> node) list" where
  "journal_action_fields e =
     [(''type'', Node_String ''action''), (''version'', Node_Number kJournalFormatVersion),
      (''id'', Node_String (ja_id e)), (''kind'', Node_String (ja_kind e)),
      (''text'', Node_String (ja_text e)), (''digest'', Node_String (ja_digest e)),
      (''outcome'', Node_String (journal_action_outcome_name (ja_outcome e))),
      (''reason'', Node_String (ja_reason e)), (''uri'', Node_String (ja_uri e)),
      (''cid'', Node_String (ja_cid e)), (''at'', Node_String (ja_at e))] @
     mac_fields (ja_mac e) @ expectation_fields (ja_expectation e)"

definition journal_event_fields :: "JournalEvent \<Rightarrow> (string \<times> node) list" where
  "journal_event_fields e =
     [(''type'', Node_String ''event''), (''version'', Node_Number kJournalFormatVersion),
      (''action_id'', Node_String (je_action_id e)), (''event_uri'', Node_String (event_uri e)),
      (''author_did'', Node_String (je_author_did e)), (''via'', Node_String (via e)),
      (''at'', Node_String (je_at e))]"

definition journal_valence_fields :: "JournalValence \<Rightarrow> (string \<times> node) list" where
  "journal_valence_fields e =
     [(''type'', Node_String ''valence''), (''version'', Node_Number kJournalFormatVersion),
      (''token'', Node_String (jv_token e)), (''kind'', Node_String (jv_kind e)),
      (''signal'', number_node (signal e)), (''source'', Node_String (jv_source e)),
      (''at_epoch'', Node_Number (u64_to_double (jv_at_epoch e))), (''at'', Node_String (jv_at e))] @
     (if provenance e \<noteq> [] then [(''provenance'', Node_String (provenance e))] else [])"

definition journal_resolution_fields :: "JournalResolution \<Rightarrow> (string \<times> node) list" where
  "journal_resolution_fields e =
     [(''type'', Node_String ''resolution''), (''version'', Node_Number kJournalFormatVersion),
      (''action_id'', Node_String (jr_action_id e)),
      (''state'', Node_String (journal_expectation_state_name (jr_state e))),
      (''at_epoch'', Node_Number (u64_to_double (jr_at_epoch e))), (''at'', Node_String (jr_at e))]"

definition journal_intent_fields :: "JournalIntent \<Rightarrow> (string \<times> node) list" where
  "journal_intent_fields e =
     [(''type'', Node_String ''intent''), (''version'', Node_Number kJournalFormatVersion),
      (''id'', Node_String (ji_id e)), (''actions'', Node_Array (map Node_String (ji_actions e))),
      (''responder'', Node_String (responder e)),
      (''expires_at_epoch'', Node_Number (u64_to_double (expires_at_epoch e))),
      (''expires_at'', Node_String (ji_expires_at e)),
      (''max_continuations'', Node_Number (u64_to_double (ucast (max_continuations e)))),
      (''state'', Node_String (intent_state_name (ji_state e))),
      (''at_epoch'', Node_Number (u64_to_double (ji_at_epoch e))), (''at'', Node_String (ji_at e))]"

text \<open>The five append functions share the line writer; an entry is one of the five kinds.\<close>

datatype journal_entry =
    Entry_Action JournalAction
  | Entry_Event JournalEvent
  | Entry_Valence JournalValence
  | Entry_Resolution JournalResolution
  | Entry_Intent JournalIntent

fun entry_fields :: "journal_entry \<Rightarrow> (string \<times> node) list" where
  "entry_fields (Entry_Action e) = journal_action_fields e"
| "entry_fields (Entry_Event e) = journal_event_fields e"
| "entry_fields (Entry_Valence e) = journal_valence_fields e"
| "entry_fields (Entry_Resolution e) = journal_resolution_fields e"
| "entry_fields (Entry_Intent e) = journal_intent_fields e"

definition serialise_journal_entry :: "'j cjson \<Rightarrow> journal_entry \<Rightarrow> string" where
  "serialise_journal_entry J e = j_print J (Node_Object (entry_fields e))"

definition append_journal_entry ::
  "'j cjson \<Rightarrow> append_outcome \<Rightarrow> journal_entry \<Rightarrow> string \<Rightarrow> unit result \<times> string" where
  "append_journal_entry J ao e bytes =
     append_line ''action journal'' ao (serialise_journal_entry J e) bytes"

fun add_entry :: "journal_entry \<Rightarrow> JournalContents \<Rightarrow> JournalContents" where
  "add_entry (Entry_Action e) c = c\<lparr>jc_actions := jc_actions c @ [e]\<rparr>"
| "add_entry (Entry_Event e) c = c\<lparr>jc_events := jc_events c @ [e]\<rparr>"
| "add_entry (Entry_Valence e) c = c\<lparr>jc_valence := jc_valence c @ [e]\<rparr>"
| "add_entry (Entry_Resolution e) c = c\<lparr>jc_resolutions := jc_resolutions c @ [e]\<rparr>"
| "add_entry (Entry_Intent e) c = c\<lparr>jc_intents := jc_intents c @ [e]\<rparr>"

end
