(* ===== verification/Attempt.thy ===== *)
theory Attempt
  imports Execute Spool Journal_Store
begin

text \<open>
  One composed attempt (src/src/app/outbound/attempt.cpp): gates reloaded from disk, standing
  authorization, the spool-first write, the budget save, the audit line and the journal entry;
  and the two users of the spool that need it (src/src/app/outbound/spool.cpp), the spool-first
  writer and the drain.  The audit entry is src/src/app/outbound/audit.cpp and the expectation
  src/src/app/outbound/expectation.cpp.
\<close>

subsection \<open>Audit entries and expectations\<close>

record OutboundAuditEntry =
  au_at :: string
  au_kind :: string
  au_rkey :: string
  au_digest :: string
  au_outcome :: OutboundExecutionOutcome
  au_reason :: string
  au_detail :: string
  au_uri :: string
  au_cid :: string
  au_envelope_id :: string
  au_attestation :: "OutboundAttestation option"

definition audit_fields :: "OutboundAuditEntry \<Rightarrow> (string \<times> node) list" where
  "audit_fields e =
     [(''at'', Node_String (au_at e)), (''kind'', Node_String (au_kind e)),
      (''rkey'', Node_String (au_rkey e)), (''digest'', Node_String (au_digest e)),
      (''outcome'', Node_String (outbound_execution_outcome_name (au_outcome e))),
      (''reason'', Node_String (au_reason e)), (''detail'', Node_String (au_detail e)),
      (''uri'', Node_String (au_uri e)), (''cid'', Node_String (au_cid e))] @
     (if au_envelope_id e \<noteq> [] then [(''envelope_id'', Node_String (au_envelope_id e))] else []) @
     (case au_attestation e of
        Some t \<Rightarrow>
          (if payload_cid t \<noteq> [] then
             [(''attestation_cid'', Node_String (payload_cid t)),
              (''attestation_signature'', Node_String (signature_hex t)),
              (''attestation_public_key'', Node_String (public_key_did t)),
              (''attestation_key_id'', Node_String (key_id t)),
              (''attestation_algorithm'', Node_String (algorithm t))]
           else [])
      | None \<Rightarrow> [])"

definition serialise_outbound_audit_entry :: "'j cjson \<Rightarrow> OutboundAuditEntry \<Rightarrow> string" where
  "serialise_outbound_audit_entry J e = j_print J (Node_Object (audit_fields e))"

definition append_outbound_audit ::
  "'j cjson \<Rightarrow> append_outcome \<Rightarrow> OutboundAuditEntry \<Rightarrow> string \<Rightarrow> unit result \<times> string" where
  "append_outbound_audit J ao e bytes =
     append_line ''outbound audit log'' ao (serialise_outbound_audit_entry J e) bytes"

text \<open>
  The tokens of the text: the tokeniser is the C core's and is an argument; the collector keeps
  the first occurrences and stops at its cap.
\<close>

fun collect_tokens :: "nat \<Rightarrow> string list \<Rightarrow> string list \<Rightarrow> string list" where
  "collect_tokens cap [] kept = kept"
| "collect_tokens cap (t # ts) kept =
     (let kept' = (if t \<in> set kept then kept else kept @ [t]) in
      if length kept' < cap then collect_tokens cap ts kept' else kept')"

definition distinct_tokens :: "(string \<Rightarrow> string list) \<Rightarrow> string \<Rightarrow> nat \<Rightarrow> string list" where
  "distinct_tokens tokenise text cap =
     (if text = [] \<or> cap = 0 then [] else collect_tokens cap (tokenise text) [])"

definition clamp01 :: "real \<Rightarrow> real" where
  "clamp01 x = (if x < 0 then 0 else if 1 < x then 1 else x)"

definition derive_action_expectation ::
  "(string \<Rightarrow> string list) \<Rightarrow> OutboundAction \<Rightarrow> JournalExpectation option" where
  "derive_action_expectation tokenise a =
     (case act_plan_score a of
        None \<Rightarrow> None
      | Some s \<Rightarrow>
          (let plan_score = clamp01 s in
           Some \<lparr>exp_kind = (if 6 / 10 \<le> plan_score then ''approach''
                             else if 35 / 100 \<le> plan_score then ''interaction'' else ''action''),
                 exp_reply_likelihood = Finite (float32 plan_score),
                 exp_tokens = distinct_tokens tokenise (act_text a) kExpectationMaxTokens\<rparr>))"

subsection \<open>The spool-first writer\<close>

text \<open>Its world is the network's and the spool.\<close>

definition spool_first_writer ::
  "'j cjson \<Rightarrow> io \<Rightarrow> string \<Rightarrow> string \<Rightarrow> 'w OutboundWriter \<Rightarrow> ('w \<times> spool_dirs) OutboundWriter" where
  "spool_first_writer J io action_json now W =
     \<lparr>connect = (\<lambda>s. (Inr (), s)),
      resolve_record_cid = (\<lambda>uri (w, sp).
        case resolve_record_cid W uri w of (r, w') \<Rightarrow> (r, (w', sp))),
      put_record = (\<lambda>collection rkey json (w, sp).
        case spool_append J io action_json now sp of
          (Inl e, sp1) \<Rightarrow> (Inl e, (w, sp1))
        | (Inr entry, sp1) \<Rightarrow>
            (case put_record W collection rkey json w of
               (Inl e, w') \<Rightarrow> (Inl e, (w', sp1))
             | (Inr r, w') \<Rightarrow> (Inr r, (w', spool_remove entry sp1))))\<rparr>"

subsection \<open>The attempt\<close>

fun journal_outcome :: "OutboundExecutionOutcome \<Rightarrow> JournalActionOutcome" where
  "journal_outcome Exec_Executed = J_Executed"
| "journal_outcome Exec_DryRun = J_DryRun"
| "journal_outcome Exec_Denied = J_Denied"
| "journal_outcome Exec_Deferred = J_Deferred"
| "journal_outcome Exec_Failed = J_Failed"

text \<open>
  What an attempt reads and changes.  The journal is the list of its action entries; its line
  format is \<open>Journal_Store\<close>'s.
\<close>

record 'w attempt_world =
  aw_files :: fs
  aw_spool :: spool_dirs
  aw_audit :: string
  aw_journal :: "JournalAction list"
  aw_net :: 'w

text \<open>
  The environment of an attempt: libraries, clock text, paths (an empty path is \<open>None\<close> or
  \<open>False\<close>), and how each write ends.
\<close>

record ('j, 'w) attempt_env =
  at_json :: "'j cjson"
  at_tokenise :: "string \<Rightarrow> string list"
  at_rfc3339 :: "int \<Rightarrow> string"
  at_policy_file :: string
  at_budget_file :: string
  at_control_file :: string
  at_envelopes :: "(string \<times> string list) option"
  at_has_spool :: bool
  at_spool_io :: io
  at_budget_io :: io
  at_audit_append :: append_outcome
  at_journal_ok :: bool
  at_writer :: "'w OutboundWriter"
  at_attest :: "attestation_factory option"
  at_mac :: "OutboundAction \<Rightarrow> JournalMac option"
  at_external_ok :: bool

definition envelope_gate ::
  "('j, 'w) attempt_env \<Rightarrow> fs \<Rightarrow> OutboundPolicy \<Rightarrow> OutboundAction \<Rightarrow> OutboundBudgetState \<Rightarrow> int \<Rightarrow>
   EnvelopeCoverage option result" where
  "envelope_gate E files policy a budget now =
     (case at_envelopes E of
        None \<Rightarrow> Inr None
      | Some (dir, names) \<Rightarrow>
          and_then (find_covering_envelope (at_json E) dir names files policy (act_kind a) (act_text a)
              \<lparr>ev_plan_score = map_option Finite (act_plan_score a),
               ev_support_score = map_option Finite (act_support_score a)\<rparr> budget now)
            (\<lambda>c. Inr (Some c)))"

definition spooled_result :: "OutboundBudgetStatus \<Rightarrow> OutboundExecutionResult" where
  "spooled_result budget =
     denied Exec_DryRun ''offline_spooled'' ''offline mode: action spooled locally for a later drain'' budget"

text \<open>The execution part: offline spooling, the plain write, or the spool-first write.\<close>

definition run_execution ::
  "('j, 'w) attempt_env \<Rightarrow> ControlState \<Rightarrow> OutboundPolicy \<Rightarrow> OutboundBudgetState \<Rightarrow>
   EnvelopeCoverage option \<Rightarrow> OutboundAction \<Rightarrow> int \<Rightarrow> 'w attempt_world \<Rightarrow>
   (OutboundExecutionResult \<times> OutboundBudgetState) result \<times> 'w attempt_world" where
  "run_execution E c policy budget gate a now A =
     (let J = at_json E; text = serialise_outbound_action J a; stamp = at_rfc3339 E now in
      if offline_mode c \<and> at_has_spool E then
        (case spool_append J (at_spool_io E) text stamp (aw_spool A) of
           (Inl e, sp) \<Rightarrow> (Inl e, A\<lparr>aw_spool := sp\<rparr>)
         | (Inr _, sp) \<Rightarrow>
             (Inr (spooled_result (outbound_budget_status policy budget (act_kind a) now), budget),
              A\<lparr>aw_spool := sp\<rparr>))
      else if \<not> at_has_spool E then
        (case execute_outbound_action J c policy budget a (at_writer E) now (at_attest E)
                (at_external_ok E) gate (aw_net A) of
           (res, budget', w') \<Rightarrow> (Inr (res, budget'), A\<lparr>aw_net := w'\<rparr>))
      else
        (case connect (at_writer E) (aw_net A) of
           (Inl e, w1) \<Rightarrow> (Inl e, A\<lparr>aw_net := w1\<rparr>)
         | (Inr _, w1) \<Rightarrow>
             (case execute_outbound_action J c policy budget a
                     (spool_first_writer J (at_spool_io E) text stamp (at_writer E)) now (at_attest E)
                     (at_external_ok E) gate (w1, aw_spool A) of
                (res, budget', (w', sp')) \<Rightarrow>
                  (Inr (res, budget'), A\<lparr>aw_net := w', aw_spool := sp'\<rparr>))))"

definition audit_entry ::
  "('j, 'w) attempt_env \<Rightarrow> OutboundAction \<Rightarrow> OutboundExecutionResult \<Rightarrow> int \<Rightarrow> OutboundAuditEntry" where
  "audit_entry E a r now =
     \<lparr>au_at = at_rfc3339 E now, au_kind = outbound_kind_name (act_kind a), au_rkey = act_rkey a,
      au_digest = act_digest a, au_outcome = exe_outcome r, au_reason = exe_reason r,
      au_detail = exe_detail r, au_uri = wr_uri (exe_written r), au_cid = wr_cid (exe_written r),
      au_envelope_id = authz_envelope_id (exe_authorization r), au_attestation = exe_attestation r\<rparr>"

definition journal_action ::
  "('j, 'w) attempt_env \<Rightarrow> OutboundAction \<Rightarrow> OutboundExecutionResult \<Rightarrow> int \<Rightarrow> JournalAction" where
  "journal_action E a r now =
     \<lparr>ja_id = act_rkey a, ja_kind = outbound_kind_name (act_kind a), ja_text = act_text a,
      ja_digest = act_digest a, ja_outcome = journal_outcome (exe_outcome r), ja_reason = exe_reason r,
      ja_uri = wr_uri (exe_written r), ja_cid = wr_cid (exe_written r), ja_at = at_rfc3339 E now,
      ja_mac = (if exe_outcome r = Exec_Executed then at_mac E a else None),
      ja_expectation = derive_action_expectation (at_tokenise E) a\<rparr>"

text \<open>What follows the execution: the budget is saved first, then the audit line, then the journal.\<close>

definition record_attempt ::
  "('j, 'w) attempt_env \<Rightarrow> OutboundAction \<Rightarrow> OutboundExecutionResult \<Rightarrow> OutboundBudgetState \<Rightarrow> int \<Rightarrow>
   'w attempt_world \<Rightarrow> OutboundExecutionResult result \<times> 'w attempt_world" where
  "record_attempt E a r budget now A =
     (case (if exe_budget_recorded r then
              save_outbound_budget_state (at_json E) (at_budget_io E) (budget\<lparr>saved_at := Some now\<rparr>)
                (at_budget_file E) (aw_files A)
            else (Inr (), aw_files A)) of
        (Inl e, files) \<Rightarrow> (Inl e, A\<lparr>aw_files := files\<rparr>)
      | (Inr _, files) \<Rightarrow>
          (case append_outbound_audit (at_json E) (at_audit_append E) (audit_entry E a r now) (aw_audit A) of
             (Inl e, bytes) \<Rightarrow> (Inl e, A\<lparr>aw_files := files, aw_audit := bytes\<rparr>)
           | (Inr _, bytes) \<Rightarrow>
               (let A1 = A\<lparr>aw_files := files, aw_audit := bytes\<rparr> in
                if at_journal_ok E
                then (Inr r, A1\<lparr>aw_journal := aw_journal A1 @ [journal_action E a r now]\<rparr>)
                else (throw Runtime_error ''cannot append action journal'', A1))))"

definition attempt_outbound_action ::
  "('j, 'w) attempt_env \<Rightarrow> OutboundAction \<Rightarrow> int \<Rightarrow> 'w attempt_world \<Rightarrow>
   OutboundExecutionResult result \<times> 'w attempt_world" where
  "attempt_outbound_action E a now A =
     (case and_then (load_control_state (at_json E) (at_control_file E) (aw_files A)) (\<lambda>c.
           and_then (load_outbound_policy (at_json E) (at_policy_file E) (aw_files A)) (\<lambda>policy.
           and_then (load_outbound_budget_state (at_json E) (at_budget_file E) (aw_files A)) (\<lambda>loaded.
           let budget = prune_outbound_budget_state loaded policy now in
           and_then (envelope_gate E (aw_files A) policy a budget now) (\<lambda>gate.
             Inr (c, policy, budget, gate))))) of
        Inl e \<Rightarrow> (Inl e, A)
      | Inr (c, policy, budget, gate) \<Rightarrow>
          (case run_execution E c policy budget gate a now A of
             (Inl e, A1) \<Rightarrow> (Inl e, A1)
           | (Inr (r, budget'), A1) \<Rightarrow> record_attempt E a r budget' now A1))"

subsection \<open>The drain\<close>

record SpoolDrainReport =
  dr_published :: nat
  dr_denied :: nat
  dr_deferred :: nat
  dr_failed :: nat
  dr_transport_failed :: bool
  dr_failure_detail :: string

definition empty_drain_report :: SpoolDrainReport where
  "empty_drain_report =
     \<lparr>dr_published = 0, dr_denied = 0, dr_deferred = 0, dr_failed = 0,
      dr_transport_failed = False, dr_failure_detail = []\<rparr>"

text \<open>
  A replay is an attempt without a spool and with the default options: no attestation, no
  integrity code, and external publishing allowed.
\<close>

definition replay_env :: "('j, 'w) attempt_env \<Rightarrow> ('j, 'w) attempt_env" where
  "replay_env E =
     E\<lparr>at_has_spool := False, at_attest := None, at_mac := (\<lambda>_. None), at_external_ok := True\<rparr>"

fun drain_loop ::
  "('j, 'w) attempt_env \<Rightarrow> int \<Rightarrow> SpoolEntry list \<Rightarrow> SpoolDrainReport \<Rightarrow> 'w attempt_world \<Rightarrow>
   SpoolDrainReport result \<times> 'w attempt_world" where
  "drain_loop E now [] rep A = (Inr rep, A)"
| "drain_loop E now (e # es) rep A =
     (case parse_outbound_action (at_json E) (sp_action_json e) ''spool'' of
        Inl x \<Rightarrow> (Inl x, A)
      | Inr a \<Rightarrow>
          (case attempt_outbound_action (replay_env E) a now A of
             (Inl x, A1) \<Rightarrow> (Inl x, A1)
           | (Inr r, A1) \<Rightarrow>
               (case exe_outcome r of
                  Exec_Executed \<Rightarrow>
                    drain_loop E now es (rep\<lparr>dr_published := Suc (dr_published rep)\<rparr>)
                      (A1\<lparr>aw_spool := spool_remove e (aw_spool A1)\<rparr>)
                | Exec_Denied \<Rightarrow>
                    drain_loop E now es (rep\<lparr>dr_denied := Suc (dr_denied rep)\<rparr>)
                      (A1\<lparr>aw_spool := spool_deny e (aw_spool A1)\<rparr>)
                | Exec_DryRun \<Rightarrow> drain_loop E now es (rep\<lparr>dr_deferred := Suc (dr_deferred rep)\<rparr>) A1
                | Exec_Deferred \<Rightarrow> drain_loop E now es (rep\<lparr>dr_deferred := Suc (dr_deferred rep)\<rparr>) A1
                | Exec_Failed \<Rightarrow>
                    (Inr (rep\<lparr>dr_failed := Suc (dr_failed rep), dr_transport_failed := True,
                              dr_failure_detail := exe_detail r\<rparr>), A1))))"

definition spool_drain ::
  "('j, 'w) attempt_env \<Rightarrow> int \<Rightarrow> 'w attempt_world \<Rightarrow> SpoolDrainReport result \<times> 'w attempt_world" where
  "spool_drain E now A =
     (case spool_pending (aw_spool A) of
        Inl e \<Rightarrow> (Inl e, A)
      | Inr es \<Rightarrow> drain_loop E now es empty_drain_report A)"

subsection \<open>What an attempt guarantees\<close>

text \<open>Loading fails closed: any unreadable or malformed gate file ends the attempt untouched.\<close>

definition load_gates ::
  "('j, 'w) attempt_env \<Rightarrow> OutboundAction \<Rightarrow> int \<Rightarrow> 'w attempt_world \<Rightarrow>
   (ControlState \<times> OutboundPolicy \<times> OutboundBudgetState \<times> EnvelopeCoverage option) result" where
  "load_gates E a now A =
     and_then (load_control_state (at_json E) (at_control_file E) (aw_files A)) (\<lambda>c.
     and_then (load_outbound_policy (at_json E) (at_policy_file E) (aw_files A)) (\<lambda>policy.
     and_then (load_outbound_budget_state (at_json E) (at_budget_file E) (aw_files A)) (\<lambda>loaded.
     let budget = prune_outbound_budget_state loaded policy now in
     and_then (envelope_gate E (aw_files A) policy a budget now) (\<lambda>gate.
       Inr (c, policy, budget, gate)))))"

lemma attempt_eq:
  "attempt_outbound_action E a now A =
     (case load_gates E a now A of
        Inl e \<Rightarrow> (Inl e, A)
      | Inr (c, policy, budget, gate) \<Rightarrow>
          (case run_execution E c policy budget gate a now A of
             (Inl e, A1) \<Rightarrow> (Inl e, A1)
           | (Inr (r, budget'), A1) \<Rightarrow> record_attempt E a r budget' now A1))"
  by (simp only: attempt_outbound_action_def load_gates_def)

lemma record_attempt_net:
  "record_attempt E a r budget now A = (x, A') \<Longrightarrow> aw_net A' = aw_net A \<and> aw_spool A' = aw_spool A"
  by (auto simp: record_attempt_def Let_def split: prod.splits sum.splits if_splits)

text \<open>
  Without a spool, the network is called only when every gate, as read from disk on this very
  attempt, is open.
\<close>

lemma attempt_gated:
  assumes "attempt_outbound_action E a now A = (x, A')" and "\<not> at_has_spool E"
    and "aw_net A' \<noteq> aw_net A"
  shows "\<exists>c policy budget gate. load_gates E a now A = Inr (c, policy, budget, gate) \<and>
     gates_pass c policy budget a now (at_external_ok E) gate"
proof (cases "load_gates E a now A")
  case (Inl e)
  then show ?thesis using assms by (simp add: attempt_eq)
next
  case (Inr g)
  obtain c policy budget gate where g: "g = (c, policy, budget, gate)" by (cases g)
  obtain res budget' w' where ex: "execute_outbound_action (at_json E) c policy budget a (at_writer E) now
      (at_attest E) (at_external_ok E) gate (aw_net A) = (res, budget', w')"
    by (metis prod_cases3)
  have changed: "w' \<noteq> aw_net A"
    using assms Inr g ex
    by (auto simp: attempt_eq run_execution_def Let_def dest!: record_attempt_net)
  have "gates_pass c policy budget a now (at_external_ok E) gate"
    using ex changed by (cases rule: execute_cases) auto
  with Inr g show ?thesis by blast
qed

text \<open>Every completed attempt leaves one journal entry naming its outcome, and one audit line.\<close>

lemma record_attempt_logged:
  assumes "record_attempt E a r budget now A = (Inr r', A')"
  shows "r' = r \<and> aw_journal A' = aw_journal A @ [journal_action E a r now] \<and>
     (\<exists>u. append_outbound_audit (at_json E) (at_audit_append E) (audit_entry E a r now) (aw_audit A) =
            (Inr u, aw_audit A'))"
  using assms
  by (auto simp: record_attempt_def Let_def split: prod.splits sum.splits if_splits)

lemma run_execution_journal:
  "run_execution E c policy budget gate a now A = (x, A') \<Longrightarrow>
     aw_journal A' = aw_journal A \<and> aw_audit A' = aw_audit A \<and> aw_files A' = aw_files A"
  by (auto simp: run_execution_def Let_def split: prod.splits sum.splits if_splits)

lemma attempt_logged:
  assumes "attempt_outbound_action E a now A = (Inr r, A')"
  shows "aw_journal A' = aw_journal A @ [journal_action E a r now]"
  using assms
  by (auto simp: attempt_eq split: sum.splits prod.splits
      dest!: run_execution_journal record_attempt_logged)

lemma record_attempt_failed:
  "record_attempt E a r budget now A = (Inl e, A') \<Longrightarrow> aw_journal A' = aw_journal A"
  by (auto simp: record_attempt_def Let_def split: prod.splits sum.splits if_splits)

lemma attempt_journal:
  "case attempt_outbound_action E a now A of
     (Inr r, A') \<Rightarrow> aw_journal A' = aw_journal A @ [journal_action E a r now]
   | (Inl e, A') \<Rightarrow> aw_journal A' = aw_journal A"
  by (auto simp: attempt_eq split: sum.split prod.split
      dest!: run_execution_journal record_attempt_failed record_attempt_logged)

text \<open>The budget on disk changes only after a confirmed write, and before the logs.\<close>

lemma record_attempt_budget:
  assumes "record_attempt E a r budget now A = (x, A')" and "\<not> exe_budget_recorded r"
  shows "aw_files A' = aw_files A"
  using assms by (auto simp: record_attempt_def Let_def split: prod.splits sum.splits if_splits)

subsection \<open>The drain loses nothing\<close>

lemma drain_ignores_switch:
  "drain_loop (E\<lparr>at_external_ok := b\<rparr>) now es rep A = drain_loop E now es rep A"
proof (induction es arbitrary: rep A)
  case (Cons e es)
  have "replay_env (E\<lparr>at_external_ok := b\<rparr>) = replay_env E" by (simp add: replay_env_def)
  with Cons show ?case
    by (simp split: sum.split prod.split OutboundExecutionOutcome.split)
qed simp

lemma attempt_replay_spool:
  assumes "attempt_outbound_action (replay_env E) a now A = (x, A')"
  shows "aw_spool A' = aw_spool A"
  using assms
  by (auto simp: attempt_eq run_execution_def replay_env_def Let_def
      split: sum.splits prod.splits if_splits dest!: record_attempt_net)

definition drain_accounted :: "nat \<Rightarrow> SpoolDrainReport \<Rightarrow> spool_dirs \<Rightarrow> bool" where
  "drain_accounted tot rep sp \<longleftrightarrow>
     spool_ok sp \<and> length (pending sp) + dr_published rep + dr_denied rep = tot"

definition waiting :: "spool_dirs \<Rightarrow> SpoolEntry list \<Rightarrow> bool" where
  "waiting sp es \<longleftrightarrow> distinct (map sp_seq es) \<and>
     (\<forall>e \<in> set es. 1 \<le> sp_seq e \<and> sp_seq e < 2 ^ 63 \<and> seq_filename (sp_seq e) \<in> fst ` set (pending sp))"

lemma length_dir_remove:
  "dir_ok d \<Longrightarrow> name \<in> fst ` set d \<Longrightarrow> Suc (length (dir_remove name d)) = length d"
proof (induction d)
  case (Cons f d)
  show ?case
  proof (cases "fst f = name")
    case True
    then have "name \<notin> fst ` set d" using Cons.prems by (simp add: dir_ok_def)
    then have "dir_remove name d = d" by (rule dir_remove_absent)
    with True show ?thesis by (simp add: dir_remove_def)
  next
    case False
    have "dir_ok d" using Cons.prems by (simp add: dir_ok_def)
    moreover have "name \<in> fst ` set d" using Cons.prems False by simp
    ultimately have "Suc (length (dir_remove name d)) = length d" by (rule Cons.IH)
    with False show ?thesis by (simp add: dir_remove_def)
  qed
qed simp

lemma waiting_step:
  assumes w: "waiting sp (e # es)" and p: "pending sp' = pending sp \<or>
      pending sp' = dir_remove (seq_filename (sp_seq e)) (pending sp)"
  shows "waiting sp' es"
proof -
  have "seq_filename (sp_seq x) \<in> fst ` set (pending sp')" if x: "x \<in> set es" for x
  proof -
    have "sp_seq x \<in> sp_seq ` set es" "sp_seq e \<notin> sp_seq ` set es" using w x by (auto simp: waiting_def)
    then have "sp_seq x \<noteq> sp_seq e" by metis
    moreover have "1 \<le> sp_seq x" "sp_seq x < 2 ^ 63" "1 \<le> sp_seq e" "sp_seq e < 2 ^ 63"
      using w x by (auto simp: waiting_def)
    ultimately have "seq_filename (sp_seq x) \<noteq> seq_filename (sp_seq e)" by (simp add: seq_name_inj)
    moreover have "seq_filename (sp_seq x) \<in> fst ` set (pending sp)" using w x by (simp add: waiting_def)
    ultimately show ?thesis using p by (auto simp: set_dir_remove image_iff)
  qed
  with w show ?thesis by (simp add: waiting_def)
qed

lemma drain_loop_accounted:
  assumes "drain_loop E now es rep A = (Inr rep', A')" and "waiting (aw_spool A) es"
    and "drain_accounted tot rep (aw_spool A)"
  shows "drain_accounted tot rep' (aw_spool A')"
  using assms
proof (induction es arbitrary: rep A)
  case Nil
  then show ?case by simp
next
  case (Cons e es)
  from Cons.prems(1) obtain a r A1 where
    att: "attempt_outbound_action (replay_env E) a now A = (Inr r, A1)"
    and go: "(case exe_outcome r of
                  Exec_Executed \<Rightarrow>
                    drain_loop E now es (rep\<lparr>dr_published := Suc (dr_published rep)\<rparr>)
                      (A1\<lparr>aw_spool := spool_remove e (aw_spool A1)\<rparr>)
                | Exec_Denied \<Rightarrow>
                    drain_loop E now es (rep\<lparr>dr_denied := Suc (dr_denied rep)\<rparr>)
                      (A1\<lparr>aw_spool := spool_deny e (aw_spool A1)\<rparr>)
                | Exec_DryRun \<Rightarrow> drain_loop E now es (rep\<lparr>dr_deferred := Suc (dr_deferred rep)\<rparr>) A1
                | Exec_Deferred \<Rightarrow> drain_loop E now es (rep\<lparr>dr_deferred := Suc (dr_deferred rep)\<rparr>) A1
                | Exec_Failed \<Rightarrow>
                    (Inr (rep\<lparr>dr_failed := Suc (dr_failed rep), dr_transport_failed := True,
                              dr_failure_detail := exe_detail r\<rparr>), A1)) = (Inr rep', A')"
    by (auto split: sum.splits prod.splits)
  have sp: "aw_spool A1 = aw_spool A" using att by (rule attempt_replay_spool)
  let ?n = "seq_filename (sp_seq e)"
  have dir: "dir_ok (pending (aw_spool A))" and here: "?n \<in> fst ` set (pending (aw_spool A))"
    and ok: "spool_ok (aw_spool A)"
    using Cons.prems(2,3) by (auto simp: drain_accounted_def spool_ok_def waiting_def)
  have len: "Suc (length (dir_remove ?n (pending (aw_spool A)))) = length (pending (aw_spool A))"
    using dir here by (rule length_dir_remove)
  obtain content where found: "map_of (pending (aw_spool A)) ?n = Some content"
    using here by (metis map_of_eq_None_iff option.exhaust)
  have gone: "pending (spool_remove e (aw_spool A)) = dir_remove ?n (pending (aw_spool A))"
    "pending (spool_deny e (aw_spool A)) = dir_remove ?n (pending (aw_spool A))"
    using found by (simp_all add: spool_remove_def spool_deny_def Let_def)
  note step = waiting_step [OF Cons.prems(2)]
  show ?case
  proof (cases "exe_outcome r")
    case Exec_Executed
    show ?thesis
      by (rule Cons.IH [of "rep\<lparr>dr_published := Suc (dr_published rep)\<rparr>"
            "A1\<lparr>aw_spool := spool_remove e (aw_spool A1)\<rparr>"])
        (use go Exec_Executed sp len gone step spool_ok_remove [OF ok] Cons.prems(3) in
          \<open>auto simp: drain_accounted_def\<close>)
  next
    case Exec_Denied
    show ?thesis
      by (rule Cons.IH [of "rep\<lparr>dr_denied := Suc (dr_denied rep)\<rparr>"
            "A1\<lparr>aw_spool := spool_deny e (aw_spool A1)\<rparr>"])
        (use go Exec_Denied sp len gone step spool_ok_deny [OF ok] Cons.prems(3) in
          \<open>auto simp: drain_accounted_def\<close>)
  next
    case Exec_DryRun
    show ?thesis
      by (rule Cons.IH [of "rep\<lparr>dr_deferred := Suc (dr_deferred rep)\<rparr>" A1])
        (use go Exec_DryRun sp step Cons.prems(3) in \<open>auto simp: drain_accounted_def\<close>)
  next
    case Exec_Deferred
    show ?thesis
      by (rule Cons.IH [of "rep\<lparr>dr_deferred := Suc (dr_deferred rep)\<rparr>" A1])
        (use go Exec_Deferred sp step Cons.prems(3) in \<open>auto simp: drain_accounted_def\<close>)
  next
    case Exec_Failed
    then show ?thesis using go sp Cons.prems(3) by (auto simp: drain_accounted_def)
  qed
qed

lemma spool_drain_accounted:
  assumes "spool_drain E now A = (Inr rep, A')" and "spool_ok (aw_spool A)"
  shows "spool_ok (aw_spool A') \<and>
     length (pending (aw_spool A')) + dr_published rep + dr_denied rep = length (pending (aw_spool A))"
proof -
  obtain es where es: "parse_entries (pending (aw_spool A)) = Inr es"
    and names: "map fst (pending (aw_spool A)) = map (seq_filename \<circ> sp_seq) es"
    and bounds: "\<forall>e \<in> set es. 1 \<le> sp_seq e \<and> sp_seq e < 2 ^ 63" and dist: "distinct (map sp_seq es)"
    using assms(2) by (rule entries_named)
  have "fst ` set (pending (aw_spool A)) = (seq_filename \<circ> sp_seq) ` set es"
    using names by (metis list.set_map)
  moreover have "distinct (map sp_seq (sort_key sp_seq es))"
    using dist by (simp add: distinct_map inj_on_def)
  ultimately have "waiting (aw_spool A) (sort_key sp_seq es)"
    using bounds by (auto simp: waiting_def)
  moreover have "drain_loop E now (sort_key sp_seq es) empty_drain_report A = (Inr rep, A')"
    using assms(1) es by (simp add: spool_drain_def spool_pending_def)
  moreover have "drain_accounted (length (pending (aw_spool A))) empty_drain_report (aw_spool A)"
    using assms(2) by (simp add: drain_accounted_def empty_drain_report_def)
  ultimately show ?thesis using drain_loop_accounted by (fastforce simp: drain_accounted_def)
qed

end
