(* ===== verification/Control_Remote.thy ===== *)
theory Control_Remote
  imports Control_State Fixed_Width
begin

text \<open>
  Remote operator control (src/src/app/control/remote.hpp and remote.cpp): the request
  document, its sequence-derived record key, the provenance rules, the application of one
  request to the control state, and the durable watermark.  Sequence numbers are \<open>uint64_t\<close>
  and wrap.
\<close>

unbundle bit_operations_syntax

datatype ControlOp =
    Pause | Resume | WritesOn | WritesOff | DryRunOn | DryRunOff | OfflineOn | OfflineOff
  | ApprovalOn | ApprovalOff | Approve | Revoke | Shutdown | CancelShutdown

record ControlRequest =
  req_seq :: u64
  req_op :: ControlOp
  req_arg :: string
  req_at :: "string option"

definition remote_invalid :: "string \<Rightarrow> 'a result" where
  "remote_invalid msg = throw ControlRemoteError (''remote control: '' @ msg)"

fun control_op_name :: "ControlOp \<Rightarrow> string" where
  "control_op_name Pause = ''pause''"
| "control_op_name Resume = ''resume''"
| "control_op_name WritesOn = ''writes-on''"
| "control_op_name WritesOff = ''writes-off''"
| "control_op_name DryRunOn = ''dry-run-on''"
| "control_op_name DryRunOff = ''dry-run-off''"
| "control_op_name OfflineOn = ''offline-on''"
| "control_op_name OfflineOff = ''offline-off''"
| "control_op_name ApprovalOn = ''approval-on''"
| "control_op_name ApprovalOff = ''approval-off''"
| "control_op_name Approve = ''approve''"
| "control_op_name Revoke = ''revoke''"
| "control_op_name Shutdown = ''shutdown''"
| "control_op_name CancelShutdown = ''cancel-shutdown''"

definition control_ops :: "ControlOp list" where
  "control_ops =
     [Pause, Resume, WritesOn, WritesOff, DryRunOn, DryRunOff, OfflineOn, OfflineOff,
      ApprovalOn, ApprovalOff, Approve, Revoke, Shutdown, CancelShutdown]"

definition control_op_from_name :: "string \<Rightarrow> ControlOp option" where
  "control_op_from_name name = find (\<lambda>candidate. control_op_name candidate = name) control_ops"

definition control_op_takes_argument :: "ControlOp \<Rightarrow> bool" where
  "control_op_takes_argument op \<longleftrightarrow> op = Approve \<or> op = Revoke"

datatype OperatorChannelStatus = Channel_Disabled | Channel_Ready | Channel_Conflict

definition check_operator_channel :: "string \<Rightarrow> string \<Rightarrow> OperatorChannelStatus" where
  "check_operator_channel account_did operator_did =
     (if operator_did = [] then Channel_Disabled
      else if account_did \<noteq> [] \<and> account_did = operator_did then Channel_Conflict
      else Channel_Ready)"

definition operator_channel_denial :: "string \<Rightarrow> string \<Rightarrow> string" where
  "operator_channel_denial account_did operator_did =
     (case check_operator_channel account_did operator_did of
        Channel_Disabled \<Rightarrow>
          ''remote control is disabled: set ATPERSON_OPERATOR_DID to a DID that is '' @
          ''not this entity's account''
      | Channel_Ready \<Rightarrow> []
      | Channel_Conflict \<Rightarrow>
          ''remote control refused: ATPERSON_OPERATOR_DID is '' @ operator_did @
          '', which is also this entity's own account DID. The operator must be a '' @
          ''separate account, or the entity could command itself; set '' @
          ''ATPERSON_OPERATOR_DID to a different DID or unset it to disable the '' @
          ''channel'')"

subsection \<open>The request document\<close>

text \<open>The argument rule, checked by the writer, the parser and again on application.\<close>

definition check_argument :: "ControlOp \<Rightarrow> string \<Rightarrow> unit result" where
  "check_argument op arg =
     (if control_op_takes_argument op then
        (if arg = [] then
           remote_invalid (''op '' @ control_op_name op @ '' requires a digest argument'')
         else if \<not> is_control_digest_shape arg then
           remote_invalid (''op '' @ control_op_name op @ '' needs a digest of 16 lowercase hex digits'')
         else Inr ())
      else if arg \<noteq> [] then
        remote_invalid (''op '' @ control_op_name op @ '' does not take an argument'')
      else Inr ())"

definition request_fields :: "ControlRequest \<Rightarrow> (string \<times> node) list" where
  "request_fields r =
     [(''format'', Node_String ''atperson-control-request''),
      (''version'', Node_Number 1),
      (''type'', Node_String ''click.croft.atperson.control#request''),
      (''seq'', Node_String (nat_to_string (unat (req_seq r)))),
      (''op'', Node_String (control_op_name (req_op r)))] @
     (if control_op_takes_argument (req_op r) then [(''arg'', Node_String (req_arg r))] else []) @
     [(''at'', case req_at r of Some t \<Rightarrow> Node_String t | None \<Rightarrow> Node_Null)]"

definition serialise_control_request :: "'j cjson \<Rightarrow> ControlRequest \<Rightarrow> string result" where
  "serialise_control_request J r =
     and_then (check_argument (req_op r) (req_arg r)) (\<lambda>_.
       Inr (j_print J (Node_Object (request_fields r))))"

definition rem_require_string :: "'j cjson \<Rightarrow> 'j \<Rightarrow> string \<Rightarrow> string result" where
  "rem_require_string J obj key =
     (case nonempty_string J (j_item J obj key) of
        None \<Rightarrow> remote_invalid (''missing or invalid string field '' @ key)
      | Some s \<Rightarrow> Inr s)"

definition rem_optional_string :: "'j cjson \<Rightarrow> 'j \<Rightarrow> string \<Rightarrow> string option result" where
  "rem_optional_string J obj key =
     (case j_item J obj key of
        None \<Rightarrow> Inr None
      | Some v \<Rightarrow>
          if j_is_null J v then Inr None
          else case string_value J (Some v) of
            None \<Rightarrow> remote_invalid (''field '' @ key @ '' must be a string or null'')
          | Some s \<Rightarrow> Inr (Some s))"

definition require_u64_field :: "'j cjson \<Rightarrow> 'j \<Rightarrow> string \<Rightarrow> u64 result" where
  "require_u64_field J obj key =
     (case string_value J (j_item J obj key) of
        Some s \<Rightarrow>
          if s = [] \<or> \<not> list_all is_digit s then
            remote_invalid (''field '' @ key @ '' is not a decimal string'')
          else if 2 ^ 64 \<le> dec_value s then remote_invalid (''field '' @ key @ '' overflows u64'')
          else Inr (of_nat (dec_value s))
      | None \<Rightarrow>
          (case j_item J obj key of
             None \<Rightarrow> remote_invalid (''missing or invalid field '' @ key)
           | Some v \<Rightarrow>
               if \<not> j_is_number J v \<or> dbl_lt (j_num J v) (Finite 0) then
                 remote_invalid (''missing or invalid field '' @ key)
               else and_then (to_uint64 (j_num J v)) (\<lambda>i.
                 if j_num J v \<noteq> Finite (of_int i) then
                   remote_invalid (''field '' @ key @ '' must be a whole number'')
                 else Inr (of_int i))))"

definition is_version_one :: "'j cjson \<Rightarrow> 'j \<Rightarrow> bool" where
  "is_version_one J doc \<longleftrightarrow> lifted (\<lambda>v. j_is_number J v \<and> j_num J v = Finite 1) (j_item J doc ''version'')"

definition parse_control_request :: "'j cjson \<Rightarrow> string \<Rightarrow> ControlRequest result" where
  "parse_control_request J json =
     (case j_parse J json of
        None \<Rightarrow> remote_invalid ''not a JSON object''
      | Some doc \<Rightarrow>
          if \<not> j_is_object J doc then remote_invalid ''not a JSON object''
          else and_then (rem_require_string J doc ''format'') (\<lambda>fmt.
            if fmt \<noteq> ''atperson-control-request'' then remote_invalid ''unknown request format''
            else if \<not> is_version_one J doc then remote_invalid ''unsupported request version''
            else and_then (rem_require_string J doc ''type'') (\<lambda>ty.
              if ty \<noteq> ''click.croft.atperson.control#request'' then
                remote_invalid ''unexpected record type''
              else and_then (require_u64_field J doc ''seq'') (\<lambda>seq.
                and_then (rem_require_string J doc ''op'') (\<lambda>op_name.
                case control_op_from_name op_name of
                  None \<Rightarrow> remote_invalid (''unknown op '' @ op_name)
                | Some op \<Rightarrow>
                    and_then (rem_optional_string J doc ''arg'') (\<lambda>arg.
                    and_then (rem_optional_string J doc ''at'') (\<lambda>t.
                    let a = (case arg of Some s \<Rightarrow> s | None \<Rightarrow> [])
                    in and_then (check_argument op a) (\<lambda>_.
                      Inr \<lparr>req_seq = seq, req_op = op, req_arg = a, req_at = t\<rparr>))))))))"

text \<open>The loop of \<open>control_request_rkey\<close>, filling position \<open>i - 1\<close> down to position 0.\<close>

definition tid_alphabet :: string where
  "tid_alphabet = ''234567abcdefghijklmnopqrstuvwxyz''"

fun rkey_loop :: "nat \<Rightarrow> u64 \<Rightarrow> string \<Rightarrow> string" where
  "rkey_loop 0 seq acc = acc"
| "rkey_loop (Suc i) seq acc =
     rkey_loop i (drop_bit 5 seq) ((tid_alphabet ! unat (seq AND 0x1F)) # acc)"

definition control_request_rkey :: "u64 \<Rightarrow> string" where
  "control_request_rkey seq = rkey_loop 13 seq []"

subsection \<open>Applying one request\<close>

record RemoteApplyReport =
  rep_applied :: bool
  rep_seq :: u64
  rep_op :: string
  rep_reason :: string

definition apply_op :: "string \<Rightarrow> ControlOp \<Rightarrow> string \<Rightarrow> ControlState \<Rightarrow> ControlState" where
  "apply_op now op arg s =
     (case op of
        Pause \<Rightarrow> s\<lparr>paused := True\<rparr>
      | Resume \<Rightarrow> s\<lparr>paused := False\<rparr>
      | WritesOn \<Rightarrow> s\<lparr>writes_enabled := True\<rparr>
      | WritesOff \<Rightarrow> s\<lparr>writes_enabled := False\<rparr>
      | DryRunOn \<Rightarrow> s\<lparr>dry_run := True\<rparr>
      | DryRunOff \<Rightarrow> s\<lparr>dry_run := False\<rparr>
      | OfflineOn \<Rightarrow> s\<lparr>offline_mode := True\<rparr>
      | OfflineOff \<Rightarrow> s\<lparr>offline_mode := False\<rparr>
      | ApprovalOn \<Rightarrow> s\<lparr>approval_required := True\<rparr>
      | ApprovalOff \<Rightarrow> s\<lparr>approval_required := False\<rparr>
      | Approve \<Rightarrow>
          (if is_digest_approved s arg then s
           else s\<lparr>approved_digests := arg # approved_digests s\<rparr>)
      | Revoke \<Rightarrow> s\<lparr>approved_digests := filter (\<lambda>d. d \<noteq> arg) (approved_digests s)\<rparr>
      | Shutdown \<Rightarrow> s\<lparr>shutdown_requested_at := Some now\<rparr>
      | CancelShutdown \<Rightarrow> s\<lparr>shutdown_requested_at := None\<rparr>)"

definition apply_control_request ::
  "string \<Rightarrow> ControlState \<Rightarrow> u64 \<Rightarrow> ControlRequest \<Rightarrow> string \<Rightarrow> string \<Rightarrow>
   RemoteApplyReport \<times> ControlState \<times> u64" where
  "apply_control_request now s watermark r operator_did request_did =
     (let report = (\<lambda>ok why. \<lparr>rep_applied = ok, rep_seq = req_seq r,
                              rep_op = control_op_name (req_op r), rep_reason = why\<rparr>);
          refuse = (\<lambda>why. (report False why, s, watermark))
      in if operator_did = [] then refuse ''no operator DID configured; remote control is disabled''
      else if request_did \<noteq> operator_did then refuse ''record author is not the configured operator''
      else if req_seq r \<noteq> watermark + 1 then
        refuse (if req_seq r \<le> watermark then ''sequence already applied or replayed''
                else ''sequence gap; an earlier command is missing'')
      else if control_op_takes_argument (req_op r) \<and> req_arg r = [] then
        refuse ''op requires a digest argument''
      else if control_op_takes_argument (req_op r) \<and> \<not> is_control_digest_shape (req_arg r) then
        refuse ''digest argument must be 16 lowercase hex digits''
      else if \<not> control_op_takes_argument (req_op r) \<and> req_arg r \<noteq> [] then
        refuse ''op does not take an argument''
      else if req_op r = Approve \<and> \<not> is_digest_approved s (req_arg r) \<and>
              kMaxApprovedDigests \<le> length (approved_digests s) then
        refuse ''approval list is full; revoke an action first''
      else (report True ''applied'', apply_op now (req_op r) (req_arg r) s, req_seq r))"

subsection \<open>Provenance\<close>

definition find_char :: "char \<Rightarrow> string \<Rightarrow> nat option" where
  "find_char c s = find_sub [c] s"

definition aturi_authority :: "string \<Rightarrow> string option" where
  "aturi_authority uri =
     (if length uri \<le> 5 \<or> take 5 uri \<noteq> ''at://'' then None
      else let rest = drop 5 uri in
        (case find_char (CHR ''/'') rest of
           None \<Rightarrow> None
         | Some slash \<Rightarrow>
             if slash = 0 then None
             else if take 4 (take slash rest) \<noteq> ''did:'' then None
             else Some (take slash rest)))"

definition is_operator_control_uri :: "string \<Rightarrow> string \<Rightarrow> string \<Rightarrow> bool" where
  "is_operator_control_uri uri did collection =
     (if did = [] then False
      else case aturi_authority uri of
        None \<Rightarrow> False
      | Some a \<Rightarrow> if a \<noteq> did then False
                  else contains_sub uri (''/'' @ collection @ ''/''))"

subsection \<open>The durable watermark\<close>

definition cursor_fields :: "u64 \<Rightarrow> (string \<times> node) list" where
  "cursor_fields last_seq =
     [(''format'', Node_String ''atperson-control-cursor''),
      (''version'', Node_Number 1),
      (''last_seq'', Node_String (nat_to_string (unat last_seq)))]"

definition parse_cursor :: "'j cjson \<Rightarrow> string \<Rightarrow> u64 result" where
  "parse_cursor J payload =
     (case j_parse J payload of
        None \<Rightarrow> throw Runtime_error ''remote control: cursor is not a JSON object''
      | Some doc \<Rightarrow>
          if \<not> j_is_object J doc then throw Runtime_error ''remote control: cursor is not a JSON object''
          else and_then (rem_require_string J doc ''format'') (\<lambda>fmt.
            if fmt \<noteq> ''atperson-control-cursor'' then remote_invalid ''unknown cursor format''
            else if \<not> is_version_one J doc then remote_invalid ''unsupported cursor version''
            else require_u64_field J doc ''last_seq''))"

text \<open>The stream iterators read as much as they can: only a failed open is an error.\<close>

definition load_remote_control_cursor :: "'j cjson \<Rightarrow> string \<Rightarrow> fs \<Rightarrow> u64 result" where
  "load_remote_control_cursor J path fs =
     (case fs path of
        Missing \<Rightarrow> Inr 0
      | Unopenable \<Rightarrow> throw Runtime_error (''remote control: could not read '' @ path)
      | Unreadable \<Rightarrow> parse_cursor J []
      | Present payload \<Rightarrow> parse_cursor J payload)"

definition save_remote_control_cursor ::
  "'j cjson \<Rightarrow> io \<Rightarrow> u64 \<Rightarrow> string \<Rightarrow> fs \<Rightarrow> unit result \<times> fs" where
  "save_remote_control_cursor J io last_seq path fs =
     save_atomic ''remote control'' io path (j_print J (Node_Object (cursor_fields last_seq))) fs"

subsection \<open>Names and record keys\<close>

lemma op_name_round_trip: "control_op_from_name (control_op_name op) = Some op"
  by (cases op) (simp_all add: control_op_from_name_def control_ops_def)

lemma op_from_name_name: "control_op_from_name name = Some op \<Longrightarrow> control_op_name op = name"
  by (auto simp: control_op_from_name_def find_Some_iff)

lemma remote_invalid_neq [simp]: "remote_invalid m \<noteq> Inr x"
  by (simp add: remote_invalid_def)

lemma and_then_remote_invalid [simp]: "and_then (remote_invalid m) f = remote_invalid m"
  by (simp add: remote_invalid_def)

lemma length_tid_alphabet: "length tid_alphabet = 32"
  by (simp add: tid_alphabet_def)

lemma tid_alphabet_ascending: "sorted_wrt (<) tid_alphabet"
  by (simp add: tid_alphabet_def less_char_def)

lemma low_five: "unat (seq AND 0x1F :: u64) = unat seq mod 32"
proof -
  have "(seq AND 0x1F) = (take_bit 5 seq :: u64)"
    by (simp add: take_bit_eq_mask mask_numeral)
  then show ?thesis by (simp add: take_bit_eq_mod unat_mod)
qed

lemma rkey_loop_encode:
  "rkey_loop i seq acc = encode tid_alphabet i (unat seq) @ acc"
proof (induction i arbitrary: seq acc)
  case 0
  then show ?case by (simp add: encode_def)
next
  case (Suc i)
  have "unat (drop_bit 5 seq) = unat seq div 32"
    by (simp add: drop_bit_eq_div unat_div)
  with Suc show ?case
    by (simp add: encode_def low_five length_tid_alphabet)
qed

lemma rkey_encode: "control_request_rkey seq = encode tid_alphabet 13 (unat seq)"
  by (simp add: control_request_rkey_def rkey_loop_encode)

lemma rkey_mono: "m < n \<Longrightarrow> control_request_rkey m < control_request_rkey n"
  unfolding rkey_encode
proof (rule encode_less [OF tid_alphabet_ascending])
  have "unat n < 2 ^ 64" using unsigned_less [of n] by simp
  then show "unat n < length tid_alphabet ^ 13" by (simp add: length_tid_alphabet)
qed (simp add: word_less_nat_alt)

interpretation request_key: sortable_key control_request_rkey "\<lambda>_. True"
  by unfold_locales (rule rkey_mono)

subsection \<open>Application\<close>

definition request_shape_ok :: "ControlRequest \<Rightarrow> bool" where
  "request_shape_ok r \<longleftrightarrow>
     (if control_op_takes_argument (req_op r) then is_control_digest_shape (req_arg r)
      else req_arg r = [])"

lemma check_argument_iff: "check_argument op arg = Inr u \<longleftrightarrow>
   (if control_op_takes_argument op then is_control_digest_shape arg else arg = [])"
  by (auto simp: check_argument_def)

lemma apply_refused:
  assumes "apply_control_request now s w r op_did did = (rep, s', w')" and "\<not> rep_applied rep"
  shows "s' = s \<and> w' = w"
  using assms by (auto simp: apply_control_request_def Let_def split: if_splits)

lemma apply_accepted_iff:
  assumes "apply_control_request now s w r op_did did = (rep, s', w')"
  shows "rep_applied rep \<longleftrightarrow>
     op_did \<noteq> [] \<and> did = op_did \<and> req_seq r = w + 1 \<and> request_shape_ok r \<and>
     \<not> (req_op r = Approve \<and> req_arg r \<notin> set (approved_digests s) \<and>
        kMaxApprovedDigests \<le> length (approved_digests s))"
  using assms
  by (auto simp: apply_control_request_def Let_def request_shape_ok_def is_digest_approved_def
      split: if_splits)

lemma apply_accepted:
  assumes "apply_control_request now s w r op_did did = (rep, s', w')" and "rep_applied rep"
  shows "s' = apply_op now (req_op r) (req_arg r) s \<and> w' = req_seq r"
  using assms by (auto simp: apply_control_request_def Let_def split: if_splits)

lemma control_ok_apply_op:
  assumes "control_ok s" and "op = Approve \<Longrightarrow> is_control_digest_shape arg"
    and "op = Approve \<Longrightarrow> arg \<notin> set (approved_digests s) \<Longrightarrow>
           length (approved_digests s) < kMaxApprovedDigests"
  shows "control_ok (apply_op now op arg s)"
  using assms
  by (cases op) (auto simp: apply_op_def control_ok_def is_digest_approved_def
      intro: le_trans [OF length_filter_le])

lemma control_ok_apply [step_inv]:
  assumes "apply_control_request now s w r op_did did = (rep, s', w')" and "control_ok s"
  shows "control_ok s'"
proof (cases "rep_applied rep")
  case True
  then have "request_shape_ok r"
    and "\<not> (req_op r = Approve \<and> req_arg r \<notin> set (approved_digests s) \<and>
              kMaxApprovedDigests \<le> length (approved_digests s))"
    unfolding apply_accepted_iff [OF assms(1)] by simp_all
  then have "control_ok (apply_op now (req_op r) (req_arg r) s)"
    using assms(2)
    by (intro control_ok_apply_op) (auto simp: request_shape_ok_def control_op_takes_argument_def not_le)
  with apply_accepted [OF assms(1) True] show ?thesis by simp
next
  case False
  with assms show ?thesis using apply_refused by blast
qed

text \<open>
  A request can only tighten or loosen the switch it names: which actions the gate lets
  through changes for no other reason.
\<close>

lemma apply_op_gate:
  assumes "op \<notin> {Resume, WritesOn, DryRunOff, ApprovalOff, Approve}"
    and "ensure_outbound_allowed (apply_op now op arg s) d = Inr ()"
  shows "ensure_outbound_allowed s d = Inr ()"
  using assms by (cases op) (auto simp: apply_op_def ensure_allowed_iff)

lemma apply_op_idempotent:
  "apply_op now op arg (apply_op now op arg s) = apply_op now op arg s"
  by (cases op) (auto simp: apply_op_def is_digest_approved_def)

subsection \<open>A channel as a machine\<close>

text \<open>
  The poller skips what is at or below the watermark and applies the rest; requests arrive in
  any order and any number of times.  The machine keeps the control state valid and never
  moves the watermark backwards, even though the sequence numbers wrap.
\<close>

definition deliver ::
  "string \<Rightarrow> string \<times> ControlRequest \<Rightarrow> ControlState \<times> u64 \<Rightarrow> ControlState \<times> u64" where
  "deliver op_did msg st =
     (let (now, r) = msg; (s, w) = st in
      if req_seq r \<le> w then st
      else let (rep, s', w') = apply_control_request now s w r op_did op_did in (s', w'))"

lemma deliver_cases:
  obtains (skipped) "deliver op_did (now, r) (s, w) = (s, w)"
  | (applied) "w < req_seq r" "req_seq r = w + 1"
      "deliver op_did (now, r) (s, w) = (apply_op now (req_op r) (req_arg r) s, w + 1)"
proof -
  obtain rep s' w' where a: "apply_control_request now s w r op_did op_did = (rep, s', w')"
    by (metis prod_cases3)
  show thesis
  proof (cases "\<not> req_seq r \<le> w \<and> rep_applied rep")
    case True
    with apply_accepted [OF a] apply_accepted_iff [OF a]
    show thesis by (intro applied) (auto simp: deliver_def a)
  next
    case False
    with apply_refused [OF a] show thesis by (intro skipped) (auto simp: deliver_def a)
  qed
qed

lemma deliver_control_ok: "control_ok (fst st) \<Longrightarrow> control_ok (fst (deliver op_did msg st))"
  by (cases st; cases msg)
    (auto simp: deliver_def Let_def split: prod.splits intro: control_ok_apply)

lemma deliver_watermark: "snd st \<le> snd (deliver op_did msg st)"
proof -
  obtain now r s w where "msg = (now, r)" "st = (s, w)" by (cases msg; cases st)
  then show ?thesis by (cases rule: deliver_cases [of op_did now r s w]) auto
qed

interpretation channel: monotone_machine "deliver op_did" "\<lambda>st. control_ok (fst st)" snd
  for op_did
  by unfold_locales (auto intro: deliver_control_ok deliver_watermark)

lemma deliver_replay:
  "deliver op_did (now', r) (deliver op_did (now, r) st) = deliver op_did (now, r) st"
  if "req_seq r \<le> snd (deliver op_did (now, r) st)"
  using that by (cases "deliver op_did (now, r) st") (simp add: deliver_def)

subsection \<open>Provenance and round trips\<close>

lemma find_char_Some:
  "find_char c s = Some i \<longleftrightarrow> i < length s \<and> s ! i = c \<and> c \<notin> set (take i s)"
proof (induction s arbitrary: i)
  case Nil
  then show ?case by (simp add: find_char_def)
next
  case (Cons d s)
  then show ?case by (cases i) (auto simp: find_char_def starts_with_def)
qed

lemma find_char_append: "c \<notin> set a \<Longrightarrow> find_char c (a @ c # b) = Some (length a)"
  by (simp add: find_char_Some)

lemma aturi_authority_iff:
  "aturi_authority uri = Some a \<longleftrightarrow>
     (\<exists>rest. uri = ''at://'' @ a @ ''/'' @ rest \<and> CHR ''/'' \<notin> set a \<and> starts_with a ''did:'')"
proof
  assume "aturi_authority uri = Some a"
  then obtain slash where pre: "take 5 uri = ''at://''" and slash: "find_char (CHR ''/'') (drop 5 uri) = Some slash"
    and a: "a = take slash (drop 5 uri)" and did: "take 4 a = ''did:''"
    by (auto simp: aturi_authority_def Let_def split: option.splits if_splits)
  have "drop 5 uri = a @ CHR ''/'' # drop (Suc slash) (drop 5 uri)"
    using slash a by (metis find_char_Some id_take_nth_drop)
  then have "uri = ''at://'' @ a @ ''/'' @ drop (Suc slash) (drop 5 uri)"
    using pre by (metis append_Cons append_Nil append_take_drop_id)
  moreover have "CHR ''/'' \<notin> set a" using slash a by (simp add: find_char_Some)
  ultimately show "\<exists>rest. uri = ''at://'' @ a @ ''/'' @ rest \<and> CHR ''/'' \<notin> set a \<and> starts_with a ''did:''"
    using did by (auto simp: starts_with_def eval_nat_numeral)
next
  assume "\<exists>rest. uri = ''at://'' @ a @ ''/'' @ rest \<and> CHR ''/'' \<notin> set a \<and> starts_with a ''did:''"
  then obtain rest t where uri: "uri = ''at://'' @ a @ CHR ''/'' # rest" and no: "CHR ''/'' \<notin> set a"
    and t: "a = ''did:'' @ t" by (auto simp: starts_with_iff)
  have "find_char (CHR ''/'') (a @ CHR ''/'' # rest) = Some (length a)" using no by (rule find_char_append)
  then show "aturi_authority uri = Some a"
    using uri t by (simp add: aturi_authority_def)
qed

lemma u64_text_reads:
  assumes "is_node J x (Node_String (nat_to_string (unat w)))" and "j_item J doc key = Some x"
  shows "require_u64_field J doc key = Inr w"
proof -
  have "list_all is_digit (nat_to_string (unat w))"
    using nat_to_string_digits by (simp add: list_all_iff)
  moreover have "unat w < 2 ^ 64" using unsigned_less [of w] by simp
  ultimately show ?thesis using assms by (simp add: require_u64_field_def string_value_def not_le)
qed

lemma cursor_round_trip:
  assumes "reads_back J (j_print J (Node_Object (cursor_fields w))) (cursor_fields w)"
  shows "parse_cursor J (j_print J (Node_Object (cursor_fields w))) = Inr w"
proof -
  from assms obtain doc where doc: "j_parse J (j_print J (Node_Object (cursor_fields w))) = Some doc"
    "j_is_object J doc"
    and item: "\<And>k n. map_of (cursor_fields w) k = Some n \<Longrightarrow> \<exists>x. j_item J doc k = Some x \<and> is_node J x n"
    by (rule reads_back_doc) blast
  show ?thesis
    using doc item [of "''format''"] item [of "''version''"] item [of "''last_seq''"]
    by (auto simp: parse_cursor_def cursor_fields_def rem_require_string_def nonempty_string_def
        is_version_one_def u64_text_reads)
qed

lemma request_round_trip:
  assumes reads: "reads_back J (j_print J (Node_Object (request_fields r))) (request_fields r)"
    and out: "serialise_control_request J r = Inr text"
  shows "parse_control_request J text = Inr r"
proof -
  have shape: "check_argument (req_op r) (req_arg r) = Inr ()"
    and text': "text = j_print J (Node_Object (request_fields r))"
    using out by (auto simp: serialise_control_request_def result_simps)
  from reads obtain doc where doc: "j_parse J text = Some doc" "j_is_object J doc"
    and item: "\<And>k n. map_of (request_fields r) k = Some n \<Longrightarrow> \<exists>x. j_item J doc k = Some x \<and> is_node J x n"
    and absent: "\<And>k. map_of (request_fields r) k = None \<Longrightarrow> j_item J doc k = None"
    unfolding text' by (rule reads_back_doc) blast
  have op: "rem_require_string J doc ''op'' = Inr (control_op_name (req_op r))"
    using item [of "''op''"] by (cases "req_op r")
      (auto simp: request_fields_def rem_require_string_def nonempty_string_def)
  have arg: "\<exists>a. rem_optional_string J doc ''arg'' = Inr a \<and>
      (case a of Some s \<Rightarrow> s | None \<Rightarrow> []) = req_arg r"
    using item [of "''arg''"] absent [of "''arg''"] shape
    by (auto simp: request_fields_def rem_optional_string_def string_value_def check_argument_iff
        split: if_splits)
  have t: "rem_optional_string J doc ''at'' = Inr (req_at r)"
    using item [of "''at''"]
    by (cases "control_op_takes_argument (req_op r)"; cases "req_at r")
      (auto simp: request_fields_def rem_optional_string_def string_value_def)
  have "rem_require_string J doc ''format'' = Inr ''atperson-control-request''"
    and "is_version_one J doc"
    and "rem_require_string J doc ''type'' = Inr ''click.croft.atperson.control#request''"
    and "require_u64_field J doc ''seq'' = Inr (req_seq r)"
    using item [of "''format''"] item [of "''version''"] item [of "''type''"] item [of "''seq''"]
    by (auto simp: request_fields_def rem_require_string_def nonempty_string_def
        is_version_one_def u64_text_reads)
  with doc op arg t shape show ?thesis
    by (auto simp: parse_control_request_def op_name_round_trip)
qed

end
