(* ===== verification/Remote_Poll.thy ===== *)
theory Remote_Poll
  imports Control_Remote
begin

text \<open>
  One bounded pass of the remote control channel (src/src/app/control/remote_poll.hpp and
  remote_poll.cpp).  The listing of the operator's collection comes from the Wolfram client
  library and is an argument: either the failure of the call or the records, newest first,
  each with its at-URI and its printed value when present.  The outcome of each file write
  is an argument too, indexed by the number of records examined.
\<close>

record RemotePollConfig =
  cfg_operator_did :: string
  cfg_account_did :: string
  cfg_max_records :: nat
  cfg_max_applies :: nat

record RemotePollReport =
  poll_enabled :: bool
  poll_conflict :: bool
  poll_examined :: nat
  poll_applied :: nat
  poll_watermark :: u64
  poll_last_op :: string
  poll_refusals :: "(string \<times> string) list"

definition empty_poll_report :: RemotePollReport where
  "empty_poll_report =
     \<lparr>poll_enabled = False, poll_conflict = False, poll_examined = 0, poll_applied = 0,
      poll_watermark = 0, poll_last_op = [], poll_refusals = []\<rparr>"

record Candidate =
  cand_rkey :: string
  cand_json :: string

type_synonym repo_record = "string option \<times> string option"

definition rfind_char :: "char \<Rightarrow> string \<Rightarrow> nat option" where
  "rfind_char c s = map_option (\<lambda>i. length s - 1 - i) (find_char c (rev s))"

definition uri_rkey :: "string \<Rightarrow> string result" where
  "uri_rkey at_uri =
     (case rfind_char (CHR ''/'') at_uri of
        None \<Rightarrow> throw Runtime_error (''remote control: record at-URI has no record key: '' @ at_uri)
      | Some slash \<Rightarrow>
          if slash + 1 = length at_uri then
            throw Runtime_error (''remote control: record at-URI has no record key: '' @ at_uri)
          else Inr (drop (slash + 1) at_uri))"

definition uri_authority :: "string \<Rightarrow> string" where
  "uri_authority at_uri =
     (case find_sub ''://'' at_uri of
        None \<Rightarrow> []
      | Some start \<Rightarrow>
          (case find_from ''/'' at_uri (start + 3) of
             None \<Rightarrow> []
           | Some slash \<Rightarrow> substr at_uri (start + 3) (slash - (start + 3))))"

text \<open>The loop that collects the candidates.\<close>

fun collect :: "string \<Rightarrow> repo_record list \<Rightarrow> Candidate list result" where
  "collect operator_did [] = Inr []"
| "collect operator_did ((None, _) # rest) = collect operator_did rest"
| "collect operator_did ((Some uri, json) # rest) =
     and_then (uri_rkey uri) (\<lambda>rkey.
       if uri_authority uri \<noteq> operator_did then collect operator_did rest
       else and_then (collect operator_did rest) (\<lambda>cs.
         Inr (\<lparr>cand_rkey = rkey, cand_json = (case json of Some j \<Rightarrow> j | None \<Rightarrow> [])\<rparr> # cs)))"

definition refusal :: "RemotePollReport \<Rightarrow> string \<Rightarrow> string \<Rightarrow> RemotePollReport" where
  "refusal rep rkey why = rep\<lparr>poll_refusals := poll_refusals rep @ [(rkey, why)]\<rparr>"

text \<open>What surrounds a pass: the library, the configuration, the two files, their outcomes.\<close>

record 'j poll_env =
  env_json :: "'j cjson"
  env_config :: RemotePollConfig
  env_control_file :: string
  env_cursor_file :: string
  env_now :: "nat \<Rightarrow> string"
  env_control_io :: "nat \<Rightarrow> io"
  env_cursor_io :: "nat \<Rightarrow> io"

text \<open>One turn of the loop: it ends the pass (with a report or an exception) or goes on.\<close>

datatype poll_turn =
    Pass_ends "RemotePollReport result" fs
  | Pass_continues RemotePollReport u64 fs

definition poll_one :: "'j poll_env \<Rightarrow> Candidate \<Rightarrow> RemotePollReport \<Rightarrow> u64 \<Rightarrow> fs \<Rightarrow> poll_turn" where
  "poll_one E c rep w fs =
     (if cfg_max_records (env_config E) \<le> poll_examined rep then Pass_ends (Inr rep) fs
      else let rep1 = rep\<lparr>poll_examined := Suc (poll_examined rep)\<rparr>; n = poll_examined rep in
      case parse_control_request (env_json E) (cand_json c) of
        Inl e \<Rightarrow>
          if exn_class e = ControlRemoteError
          then Pass_continues (refusal rep1 (cand_rkey c) (exn_what e)) w fs
          else Pass_ends (Inl e) fs
      | Inr r \<Rightarrow>
          if req_seq r \<le> w then Pass_continues rep1 w fs
          else if cfg_max_applies (env_config E) \<le> poll_applied rep1 then
            Pass_ends (Inr (refusal rep1 (cand_rkey c)
                    ''apply budget exhausted for this pass; a later pass continues'')) fs
          else case load_control_state (env_json E) (env_control_file E) fs of
            Inl e \<Rightarrow> Pass_ends (Inl e) fs
          | Inr s \<Rightarrow>
              (case apply_control_request (env_now E n) s w r (cfg_operator_did (env_config E))
                      (cfg_operator_did (env_config E)) of
                 (applied, s', w') \<Rightarrow>
                   if \<not> rep_applied applied then
                     Pass_continues (refusal rep1 (cand_rkey c) (rep_reason applied)) w' fs
                   else case save_control_state (env_json E) (env_control_io E n) s'
                               (env_control_file E) fs of
                     (Inl e, fs1) \<Rightarrow> Pass_ends (Inl e) fs1
                   | (Inr _, fs1) \<Rightarrow>
                       (case save_remote_control_cursor (env_json E) (env_cursor_io E n) w'
                               (env_cursor_file E) fs1 of
                          (Inl e, fs2) \<Rightarrow> Pass_ends (Inl e) fs2
                        | (Inr _, fs2) \<Rightarrow>
                            Pass_continues
                              (rep1\<lparr>poll_applied := Suc (poll_applied rep1),
                                    poll_last_op := rep_op applied, poll_watermark := w'\<rparr>) w' fs2)))"

fun poll_loop ::
  "'j poll_env \<Rightarrow> Candidate list \<Rightarrow> RemotePollReport \<Rightarrow> u64 \<Rightarrow> fs \<Rightarrow> RemotePollReport result \<times> fs" where
  "poll_loop E [] rep w fs = (Inr rep, fs)"
| "poll_loop E (c # cs) rep w fs =
     (case poll_one E c rep w fs of
        Pass_ends r fs' \<Rightarrow> (r, fs')
      | Pass_continues rep' w' fs' \<Rightarrow> poll_loop E cs rep' w' fs')"

text \<open>\<open>listing limit\<close> is the call of the client library, asked for that many records.\<close>

definition poll ::
  "'j poll_env \<Rightarrow> (nat \<Rightarrow> repo_record list result) \<Rightarrow> fs \<Rightarrow> RemotePollReport result \<times> fs" where
  "poll E listing fs =
     (let cfg = env_config E;
          denial = operator_channel_denial (cfg_account_did cfg) (cfg_operator_did cfg) in
      if check_operator_channel (cfg_account_did cfg) (cfg_operator_did cfg) = Channel_Conflict then
        (Inr (refusal (empty_poll_report\<lparr>poll_conflict := True\<rparr>) [] denial), fs)
      else if cfg_operator_did cfg = [] then (Inr (refusal empty_poll_report [] denial), fs)
      else case load_remote_control_cursor (env_json E) (env_cursor_file E) fs of
        Inl e \<Rightarrow> (Inl e, fs)
      | Inr w \<Rightarrow>
          (case and_then (listing (max (cfg_max_records cfg) 1)) (collect (cfg_operator_did cfg)) of
             Inl e \<Rightarrow> (Inl e, fs)
           | Inr candidates \<Rightarrow>
               poll_loop E (rev candidates)
                 (empty_poll_report\<lparr>poll_enabled := True, poll_watermark := w\<rparr>) w fs))"

subsection \<open>What a pass can and cannot do\<close>

text \<open>
  The invariant of the loop: the watermark of the report has advanced by exactly the number
  of applied requests and did not wrap, and both counters stay within their bounds.
\<close>

definition pass_ok :: "RemotePollConfig \<Rightarrow> u64 \<Rightarrow> RemotePollReport \<Rightarrow> bool" where
  "pass_ok cfg start rep \<longleftrightarrow>
     unat (poll_watermark rep) = unat start + poll_applied rep \<and>
     poll_applied rep \<le> cfg_max_applies cfg \<and> poll_applied rep \<le> poll_examined rep \<and>
     poll_examined rep \<le> cfg_max_records cfg"

lemma pass_ok_refusal [simp]: "pass_ok cfg start (refusal rep k why) \<longleftrightarrow> pass_ok cfg start rep"
  by (simp add: pass_ok_def refusal_def)

lemma refusal_watermark [simp]: "poll_watermark (refusal rep k why) = poll_watermark rep"
  by (simp add: refusal_def)

lemma pass_ok_examined:
  "pass_ok cfg start rep \<Longrightarrow> poll_examined rep < cfg_max_records cfg \<Longrightarrow>
     pass_ok cfg start (rep\<lparr>poll_examined := Suc (poll_examined rep)\<rparr>)"
  by (simp add: pass_ok_def)

lemma next_sequence: "w < w + 1 \<Longrightarrow> unat (w + 1) = Suc (unat w)" for w :: u64
proof -
  assume "w < w + 1"
  then have "1 + w \<noteq> 0" by (metis add.commute word_not_simps(1))
  then show ?thesis using unatSuc [of w] by (simp add: add.commute)
qed

lemma poll_one_continues_cases [consumes 1, case_names unchanged applied]:
  assumes "poll_one E c rep w fs = Pass_continues rep' w' fs'"
  obtains "poll_examined rep < cfg_max_records (env_config E)" "fs' = fs" "w' = w"
      "rep' = rep\<lparr>poll_examined := Suc (poll_examined rep)\<rparr> \<or>
       (\<exists>k why. rep' = refusal (rep\<lparr>poll_examined := Suc (poll_examined rep)\<rparr>) k why)"
  | r s report s' fs1 where "poll_examined rep < cfg_max_records (env_config E)"
      "parse_control_request (env_json E) (cand_json c) = Inr r" "w < req_seq r"
      "poll_applied rep < cfg_max_applies (env_config E)"
      "load_control_state (env_json E) (env_control_file E) fs = Inr s"
      "apply_control_request (env_now E (poll_examined rep)) s w r
         (cfg_operator_did (env_config E)) (cfg_operator_did (env_config E)) = (report, s', w')"
      "rep_applied report"
      "save_control_state (env_json E) (env_control_io E (poll_examined rep)) s' (env_control_file E) fs
         = (Inr (), fs1)"
      "save_remote_control_cursor (env_json E) (env_cursor_io E (poll_examined rep)) w' (env_cursor_file E) fs1
         = (Inr (), fs')"
      "rep' = rep\<lparr>poll_examined := Suc (poll_examined rep), poll_applied := Suc (poll_applied rep),
                  poll_last_op := rep_op report, poll_watermark := w'\<rparr>"
proof (cases "parse_control_request (env_json E) (cand_json c)")
  case (Inl e)
  with assms show thesis
    by (intro that(1)) (auto simp: poll_one_def Let_def split: if_splits)
next
  case (Inr r)
  note parsed = Inr
  show thesis
  proof (cases "w < req_seq r")
    case False
    with assms parsed show thesis
      by (intro that(1)) (auto simp: poll_one_def Let_def not_less split: if_splits)
  next
    case True
    with assms parsed obtain s where s: "load_control_state (env_json E) (env_control_file E) fs = Inr s"
      by (auto simp: poll_one_def Let_def split: if_splits sum.splits)
    obtain report s' w1 where a: "apply_control_request (env_now E (poll_examined rep)) s w r
         (cfg_operator_did (env_config E)) (cfg_operator_did (env_config E)) = (report, s', w1)"
      by (metis prod_cases3)
    show thesis
    proof (cases "rep_applied report")
      case True
      with assms parsed \<open>w < req_seq r\<close> s a obtain fs1 where
        "save_control_state (env_json E) (env_control_io E (poll_examined rep)) s' (env_control_file E) fs
         = (Inr (), fs1)"
        by (auto simp: poll_one_def Let_def not_le split: if_splits sum.splits prod.splits)
      with assms parsed \<open>w < req_seq r\<close> s a True show thesis
        by (intro that(2)) (auto simp: poll_one_def Let_def not_le split: if_splits sum.splits prod.splits)
    next
      case False
      with assms parsed \<open>w < req_seq r\<close> s a apply_refused [OF a False] show thesis
        by (intro that(1)) (auto simp: poll_one_def Let_def not_le split: if_splits)
    qed
  qed
qed

lemma poll_one_continues:
  assumes "poll_one E c rep w fs = Pass_continues rep' w' fs'"
    and ok: "pass_ok (env_config E) start rep" and w: "poll_watermark rep = w"
  shows "pass_ok (env_config E) start rep' \<and> poll_watermark rep' = w'"
  using assms(1)
proof (cases rule: poll_one_continues_cases)
  case unchanged
  with pass_ok_examined [OF ok] w show ?thesis by auto
next
  case (applied r s report s' fs1)
  then have "w' = w + 1" "w < w + 1"
    using apply_accepted [OF applied(6,7)] applied(3) apply_accepted_iff [OF applied(6)] by auto
  then have "unat w' = Suc (unat w)" using next_sequence by simp
  with applied ok w show ?thesis by (simp add: pass_ok_def)
qed

lemma poll_one_ends:
  assumes "poll_one E c rep w fs = Pass_ends (Inr rep') fs'" and "pass_ok (env_config E) start rep"
  shows "pass_ok (env_config E) start rep'"
proof -
  have "poll_examined rep < cfg_max_records (env_config E) \<Longrightarrow>
      pass_ok (env_config E) start (rep\<lparr>poll_examined := Suc (poll_examined rep)\<rparr>)"
    using assms(2) by (rule pass_ok_examined)
  with assms show ?thesis
    by (auto simp: poll_one_def Let_def not_le split: if_splits sum.splits prod.splits)
qed

lemma poll_loop_ok:
  assumes "poll_loop E cs rep w fs = (Inr rep', fs')"
    and "pass_ok (env_config E) start rep" and "poll_watermark rep = w"
  shows "pass_ok (env_config E) start rep'"
  using assms
proof (induction cs arbitrary: rep w fs)
  case Nil
  then show ?case by simp
next
  case (Cons c cs)
  show ?case
  proof (cases "poll_one E c rep w fs")
    case (Pass_ends r fs1)
    with Cons.prems poll_one_ends show ?thesis by auto
  next
    case (Pass_continues rep1 w1 fs1)
    with poll_one_continues [OF this Cons.prems(2,3)] Cons.prems(1) show ?thesis
      by (intro Cons.IH [of rep1 w1 fs1]) auto
  qed
qed

text \<open>A completed pass advanced the watermark by one for each applied request, within its bounds.\<close>

lemma poll_advances:
  assumes "poll E listing fs = (Inr rep, fs')" and "poll_enabled rep"
  shows "\<exists>w. load_remote_control_cursor (env_json E) (env_cursor_file E) fs = Inr w \<and>
             pass_ok (env_config E) w rep"
proof -
  obtain w candidates where w: "load_remote_control_cursor (env_json E) (env_cursor_file E) fs = Inr w"
    and pass: "poll_loop E (rev candidates)
           (empty_poll_report\<lparr>poll_enabled := True, poll_watermark := w\<rparr>) w fs = (Inr rep, fs')"
    using assms
    by (auto simp: poll_def Let_def refusal_def empty_poll_report_def split: if_splits sum.splits)
  have "pass_ok (env_config E) w (empty_poll_report\<lparr>poll_enabled := True, poll_watermark := w\<rparr>)"
    by (simp add: pass_ok_def empty_poll_report_def)
  from poll_loop_ok [OF pass this] w show ?thesis by simp
qed

text \<open>
  An operator that is the account itself, or no operator, is refused before anything is read
  or written, whatever the service returns.
\<close>

lemma poll_separation:
  assumes "check_operator_channel (cfg_account_did (env_config E)) (cfg_operator_did (env_config E))
             \<noteq> Channel_Ready"
  shows "\<exists>rep. poll E listing fs = (Inr rep, fs) \<and> \<not> poll_enabled rep \<and> poll_applied rep = 0"
  using assms
  by (auto simp: poll_def Let_def check_operator_channel_def refusal_def empty_poll_report_def)

text \<open>
  Every candidate carries the operator's authority: a record of another repository is dropped,
  and a URI without a record key aborts the listing.
\<close>

lemma collect_operator:
  "collect did recs = Inr cs \<Longrightarrow> length cs \<le> length (filter (\<lambda>(u, j). \<exists>uri. u = Some uri \<and> uri_authority uri = did) recs)"
proof (induction did recs arbitrary: cs rule: collect.induct)
  case (3 did uri json rest)
  then show ?case by (fastforce simp: result_simps split: if_splits)
qed auto

end
