(* ===== verification/Std_Map.thy ===== *)
theory Std_Map
  imports Prelude "HOL-Library.Char_ord" "HOL-Library.List_Lexorder"
begin

text \<open>
  \<open>std::map\<close> with string keys: an association list in ascending key order, which is the order
  the sources iterate it in.
\<close>

type_synonym 'v std_map = "(string \<times> 'v) list"

definition map_ok :: "'v std_map \<Rightarrow> bool" where
  "map_ok m \<longleftrightarrow> sorted_wrt (<) (map fst m)"

fun map_set :: "string \<Rightarrow> 'v \<Rightarrow> 'v std_map \<Rightarrow> 'v std_map" where
  "map_set k v [] = [(k, v)]"
| "map_set k v ((k', v') # m) =
     (if k < k' then (k, v) # (k', v') # m
      else if k = k' then (k, v) # m
      else (k', v') # map_set k v m)"

definition map_erase :: "string \<Rightarrow> 'v std_map \<Rightarrow> 'v std_map" where
  "map_erase k m = filter (\<lambda>e. fst e \<noteq> k) m"

lemma map_of_set [simp]: "map_ok m \<Longrightarrow> map_of (map_set k v m) x = (if x = k then Some v else map_of m x)"
proof (induction m)
  case (Cons e m)
  then show ?case
    by (cases e) (auto simp: map_ok_def)
qed simp

lemma keys_set: "set (map fst (map_set k v m)) = insert k (set (map fst m))"
  by (induction k v m rule: map_set.induct) auto

lemma map_ok_set [step_inv]: "map_ok m \<Longrightarrow> map_ok (map_set k v m)"
proof (induction m)
  case (Cons e m)
  obtain k' v' where e: "e = (k', v')" by (cases e)
  have "\<forall>x \<in> set (map fst (map_set k v m)). k' < x" if "\<not> k < k'" "k \<noteq> k'"
    using that Cons.prems unfolding keys_set by (auto simp: e map_ok_def)
  with Cons e show ?case by (auto simp: map_ok_def)
qed (simp add: map_ok_def)

lemma map_of_erase [simp]: "map_of (map_erase k m) x = (if x = k then None else map_of m x)"
  by (induction m) (auto simp: map_erase_def)

lemma map_ok_filter: "map_ok m \<Longrightarrow> map_ok (filter P m)"
  unfolding map_ok_def by (induction m) auto

lemma map_ok_erase [step_inv]: "map_ok m \<Longrightarrow> map_ok (map_erase k m)"
  by (simp add: map_erase_def map_ok_filter)

lemma map_ok_distinct: "map_ok m \<Longrightarrow> distinct (map fst m)"
  by (simp add: map_ok_def strict_sorted_iff)

lemma map_of_filter_keys: "map_ok m \<Longrightarrow> map_of (filter (\<lambda>e. P (fst e)) m) k = (if P k then map_of m k else None)"
  by (induction m) (auto simp: map_ok_def)

end
