(* ===== verification/Breaker.thy ===== *)
theory Breaker
  imports Std_Map Cjson Files
begin

text \<open>
  The circuit breaker and the poison-proposal quarantine of unattended execution
  (src/src/app/scheduler/breaker.hpp and breaker.cpp).  The counters are \<open>uint32_t\<close> and
  \<open>uint64_t\<close> and wrap; times are \<open>int64_t\<close> seconds bounded by the loader.
\<close>

record BreakerConfig =
  failure_threshold :: u32
  base_cooldown_seconds :: int
  max_cooldown_seconds :: int
  proposal_failure_limit :: u32

definition default_breaker_config :: BreakerConfig where
  "default_breaker_config =
     \<lparr>failure_threshold = 3, base_cooldown_seconds = 15 * 60, max_cooldown_seconds = 6 * 60 * 60,
      proposal_failure_limit = 3\<rparr>"

record BreakerState =
  consecutive_failures :: u32
  open_until :: int
  cooldown_seconds :: int
  trips :: u64
  last_failure_at :: int
  last_failure_detail :: string
  proposal_failures :: "u32 std_map"

definition closed_breaker :: BreakerState where
  "closed_breaker =
     \<lparr>consecutive_failures = 0, open_until = 0, cooldown_seconds = 0, trips = 0,
      last_failure_at = 0, last_failure_detail = [], proposal_failures = []\<rparr>"

datatype BreakerGate = Gate_Closed | Gate_Open | Gate_HalfOpen

fun breaker_gate_name :: "BreakerGate \<Rightarrow> string" where
  "breaker_gate_name Gate_Closed = ''closed''"
| "breaker_gate_name Gate_Open = ''open''"
| "breaker_gate_name Gate_HalfOpen = ''half-open''"

definition breaker_gate :: "BreakerState \<Rightarrow> int \<Rightarrow> BreakerGate" where
  "breaker_gate s now =
     (if open_until s = 0 then Gate_Closed
      else if now < open_until s then Gate_Open else Gate_HalfOpen)"

definition record_success :: "string \<Rightarrow> BreakerState \<Rightarrow> BreakerState" where
  "record_success digest s =
     s\<lparr>consecutive_failures := 0, open_until := 0, cooldown_seconds := 0,
       proposal_failures := map_erase digest (proposal_failures s)\<rparr>"

record FailureEffect =
  tripped :: bool
  quarantine :: bool

text \<open>The streak part of a failure, and the per-proposal part.\<close>

definition trip :: "BreakerConfig \<Rightarrow> int \<Rightarrow> BreakerState \<Rightarrow> bool \<times> BreakerState" where
  "trip cfg now s =
     (let s1 = s\<lparr>consecutive_failures := consecutive_failures s + 1\<rparr>;
          half_open_failure = (open_until s1 \<noteq> 0)
      in if half_open_failure \<or> failure_threshold cfg \<le> consecutive_failures s1 then
           (let c = (if cooldown_seconds s1 = 0 then base_cooldown_seconds cfg
                     else min (cooldown_seconds s1 * 2) (max_cooldown_seconds cfg));
                c' = min c (max_cooldown_seconds cfg)
            in (True, s1\<lparr>cooldown_seconds := c', open_until := now + c', trips := trips s1 + 1\<rparr>))
         else (False, s1))"

definition count_proposal :: "BreakerConfig \<Rightarrow> string \<Rightarrow> BreakerState \<Rightarrow> bool \<times> BreakerState" where
  "count_proposal cfg digest s =
     (let failures = (case map_of (proposal_failures s) digest of Some n \<Rightarrow> n | None \<Rightarrow> 0) + 1 in
      if proposal_failure_limit cfg \<le> failures
      then (True, s\<lparr>proposal_failures := map_erase digest (proposal_failures s)\<rparr>)
      else (False, s\<lparr>proposal_failures := map_set digest failures (proposal_failures s)\<rparr>))"

definition record_failure ::
  "BreakerConfig \<Rightarrow> string \<Rightarrow> string \<Rightarrow> int \<Rightarrow> BreakerState \<Rightarrow> FailureEffect \<times> BreakerState" where
  "record_failure cfg digest detail now s =
     (let s0 = s\<lparr>last_failure_at := now, last_failure_detail := take 200 detail\<rparr>;
          (tr, s1) = trip cfg now s0;
          (q, s2) = count_proposal cfg digest s1
      in (\<lparr>tripped = tr, quarantine = q\<rparr>, s2))"

definition retain_proposals :: "string set \<Rightarrow> BreakerState \<Rightarrow> BreakerState" where
  "retain_proposals digests s =
     s\<lparr>proposal_failures := filter (\<lambda>e. fst e \<in> digests) (proposal_failures s)\<rparr>"

subsection \<open>The state file\<close>

definition breaker_invalid :: "string \<Rightarrow> 'a result" where
  "breaker_invalid what = throw BreakerError (''scheduler breaker state: '' @ what)"

definition number_field :: "'j cjson \<Rightarrow> 'j \<Rightarrow> string \<Rightarrow> int result" where
  "number_field J obj name =
     (case j_item J obj name of
        None \<Rightarrow> breaker_invalid (''field '' @ name @ '' is missing or not a non-negative number'')
      | Some v \<Rightarrow>
          if \<not> j_is_number J v \<or> dbl_lt (j_num J v) (Finite 0) \<or> dbl_lt (Finite 9000000000000000) (j_num J v)
          then breaker_invalid (''field '' @ name @ '' is missing or not a non-negative number'')
          else to_int64 (j_num J v))"

definition parse_failure_entry :: "'j cjson \<Rightarrow> 'j \<Rightarrow> u32 std_map \<Rightarrow> u32 std_map result" where
  "parse_failure_entry J entry m =
     (case j_name J entry of
        None \<Rightarrow> breaker_invalid ''proposal_failures entries must be non-negative numbers''
      | Some name \<Rightarrow>
          if \<not> j_is_number J entry \<or> dbl_lt (j_num J entry) (Finite 0) then
            breaker_invalid ''proposal_failures entries must be non-negative numbers''
          else and_then (to_uint32 (j_num J entry)) (\<lambda>n. Inr (map_set name (of_int n) m)))"

definition parse_breaker :: "'j cjson \<Rightarrow> string \<Rightarrow> BreakerState result" where
  "parse_breaker J raw =
     (case j_parse J raw of
        None \<Rightarrow> breaker_invalid ''not a JSON object''
      | Some doc \<Rightarrow>
          if \<not> j_is_object J doc then breaker_invalid ''not a JSON object''
          else if \<not> lifted (\<lambda>v. j_is_number J v \<and> j_int J v = 1) (j_item J doc ''version'') then
            breaker_invalid ''unsupported version''
          else and_then (number_field J doc ''consecutive_failures'') (\<lambda>cf.
          and_then (number_field J doc ''open_until'') (\<lambda>ou.
          and_then (number_field J doc ''cooldown_seconds'') (\<lambda>cs.
          and_then (number_field J doc ''trips'') (\<lambda>tr.
          and_then (number_field J doc ''last_failure_at'') (\<lambda>lf.
          let detail = (case string_value J (j_item J doc ''last_failure_detail'') of Some t \<Rightarrow> t | None \<Rightarrow> []) in
          if \<not> lifted (j_is_object J) (j_item J doc ''proposal_failures'') then
            breaker_invalid ''proposal_failures must be an object''
          else and_then (fold_result (parse_failure_entry J)
                 (j_children J (the (j_item J doc ''proposal_failures''))) []) (\<lambda>pf.
          Inr \<lparr>consecutive_failures = of_int (min cf 1000000), open_until = ou, cooldown_seconds = cs,
               trips = of_int tr, last_failure_at = lf, last_failure_detail = detail,
               proposal_failures = pf\<rparr>)))))))"

definition load_breaker_state :: "'j cjson \<Rightarrow> string \<Rightarrow> fs \<Rightarrow> BreakerState result" where
  "load_breaker_state J path fs =
     (case fs path of
        Missing \<Rightarrow> Inr closed_breaker
      | Unopenable \<Rightarrow> throw Runtime_error (''cannot read '' @ path)
      | Unreadable \<Rightarrow> parse_breaker J []
      | Present raw \<Rightarrow> parse_breaker J raw)"

definition breaker_fields :: "BreakerState \<Rightarrow> (string \<times> node) list" where
  "breaker_fields s =
     [(''version'', Node_Number 1),
      (''consecutive_failures'', Node_Number (real (unat (consecutive_failures s)))),
      (''open_until'', Node_Number (of_int (open_until s))),
      (''cooldown_seconds'', Node_Number (of_int (cooldown_seconds s))),
      (''trips'', Node_Number (real (unat (trips s)))),
      (''last_failure_at'', Node_Number (of_int (last_failure_at s))),
      (''last_failure_detail'', Node_String (last_failure_detail s)),
      (''proposal_failures'',
         Node_Object (map (\<lambda>(k, n). (k, Node_Number (real (unat n)))) (proposal_failures s)))]"

text \<open>A failed write or rename leaves the temporary file behind here, unlike in the other stores.\<close>

definition save_breaker_state ::
  "'j cjson \<Rightarrow> io \<Rightarrow> BreakerState \<Rightarrow> string \<Rightarrow> fs \<Rightarrow> unit result \<times> fs" where
  "save_breaker_state J io s path fs =
     (let payload = j_print J (Node_Object (breaker_fields s)) @ [CHR 0x0A]; tmp = tmp_path path in
      if \<not> create_ok io then (throw Runtime_error (''cannot write '' @ tmp), fs)
      else if \<not> write_ok io then
        (throw Runtime_error (''failed while writing '' @ tmp), fs(tmp := Unreadable))
      else if \<not> rename_ok io then
        (throw Runtime_error (''cannot replace '' @ path), fs(tmp := Present payload))
      else (Inr (), fs(tmp := Missing, path := Present payload)))"

subsection \<open>The gate\<close>

definition breaker_config_ok :: "BreakerConfig \<Rightarrow> bool" where
  "breaker_config_ok cfg \<longleftrightarrow>
     0 < failure_threshold cfg \<and> 0 < base_cooldown_seconds cfg \<and>
     base_cooldown_seconds cfg \<le> max_cooldown_seconds cfg \<and> 0 < proposal_failure_limit cfg"

text \<open>
  The invariant: closed means no cool-down; tripped means a cool-down between the base and the
  maximum, counted from the last failure.
\<close>

definition breaker_ok :: "BreakerConfig \<Rightarrow> BreakerState \<Rightarrow> bool" where
  "breaker_ok cfg s \<longleftrightarrow>
     (if open_until s = 0 then cooldown_seconds s = 0
      else base_cooldown_seconds cfg \<le> cooldown_seconds s \<and> cooldown_seconds s \<le> max_cooldown_seconds cfg \<and>
           open_until s = last_failure_at s + cooldown_seconds s) \<and>
     map_ok (proposal_failures s)"

lemma breaker_ok_closed [simp]: "breaker_ok cfg closed_breaker"
  by (simp add: breaker_ok_def closed_breaker_def map_ok_def)

lemma count_proposal_rest:
  "count_proposal cfg digest s = (q, s') \<Longrightarrow>
     open_until s' = open_until s \<and> cooldown_seconds s' = cooldown_seconds s \<and>
     last_failure_at s' = last_failure_at s \<and> consecutive_failures s' = consecutive_failures s \<and>
     trips s' = trips s \<and> (map_ok (proposal_failures s) \<longrightarrow> map_ok (proposal_failures s'))"
  by (auto simp: count_proposal_def Let_def map_ok_set map_ok_erase split: if_splits)

lemma trip_rest:
  "trip cfg now s = (tr, s') \<Longrightarrow>
     last_failure_at s' = last_failure_at s \<and> proposal_failures s' = proposal_failures s \<and>
     consecutive_failures s' = consecutive_failures s + 1 \<and>
     (tr \<longleftrightarrow> open_until s \<noteq> 0 \<or> failure_threshold cfg \<le> consecutive_failures s + 1)"
  by (auto simp: trip_def Let_def split: if_splits)

lemma breaker_ok_success [step_inv]: "breaker_ok cfg s \<Longrightarrow> breaker_ok cfg (record_success digest s)"
  by (simp add: breaker_ok_def record_success_def map_ok_erase)

lemma breaker_ok_failure [step_inv]:
  assumes "record_failure cfg digest detail now s = (eff, s')" and "breaker_ok cfg s"
    and "breaker_config_ok cfg" and "0 \<le> now"
  shows "breaker_ok cfg s'"
proof -
  let ?s0 = "s\<lparr>last_failure_at := now, last_failure_detail := take 200 detail\<rparr>"
  obtain tr s1 where t: "trip cfg now ?s0 = (tr, s1)" by fastforce
  obtain q s2 where c: "count_proposal cfg digest s1 = (q, s2)" by fastforce
  have "s' = s2" using assms(1) t c by (simp add: record_failure_def)
  moreover have "breaker_ok cfg s1"
    using t assms(2-) by (auto simp: trip_def Let_def breaker_ok_def breaker_config_ok_def min_def split: if_splits)
  ultimately show ?thesis using count_proposal_rest [OF c] by (auto simp: breaker_ok_def)
qed

lemma breaker_ok_retain [step_inv]: "breaker_ok cfg s \<Longrightarrow> breaker_ok cfg (retain_proposals ds s)"
  by (simp add: breaker_ok_def retain_proposals_def map_ok_filter)

lemma gate_after_success: "breaker_gate (record_success digest s) now = Gate_Closed"
  by (simp add: breaker_gate_def record_success_def)

lemma gate_after_failure:
  assumes "record_failure cfg digest detail now s = (eff, s')" and "breaker_ok cfg s"
    and "breaker_config_ok cfg" and "0 \<le> now"
  shows "tripped eff \<longleftrightarrow> open_until s \<noteq> 0 \<or> failure_threshold cfg \<le> consecutive_failures s + 1"
    and "tripped eff \<Longrightarrow> breaker_gate s' t =
           (if t < now + cooldown_seconds s' then Gate_Open else Gate_HalfOpen)"
    and "tripped eff \<Longrightarrow> base_cooldown_seconds cfg \<le> cooldown_seconds s' \<and>
           cooldown_seconds s' \<le> max_cooldown_seconds cfg"
    and "\<not> tripped eff \<Longrightarrow> breaker_gate s' t = Gate_Closed"
proof -
  let ?s0 = "s\<lparr>last_failure_at := now, last_failure_detail := take 200 detail\<rparr>"
  obtain tr s1 where t: "trip cfg now ?s0 = (tr, s1)" by fastforce
  obtain q s2 where c: "count_proposal cfg digest s1 = (q, s2)" by fastforce
  have e: "tripped eff = tr" "s' = s2" using assms(1) t c by (simp_all add: record_failure_def, auto)
  show "tripped eff \<longleftrightarrow> open_until s \<noteq> 0 \<or> failure_threshold cfg \<le> consecutive_failures s + 1"
    using trip_rest [OF t] e by simp
  have ok: "breaker_ok cfg s'" using assms by (rule breaker_ok_failure)
  have "tr \<Longrightarrow> open_until s1 \<noteq> 0 \<and> last_failure_at s1 = now" and "\<not> tr \<Longrightarrow> open_until s1 = 0"
    using t assms(2-) by (auto simp: trip_def Let_def breaker_ok_def breaker_config_ok_def min_def split: if_splits)
  with ok e count_proposal_rest [OF c]
  show "tripped eff \<Longrightarrow> breaker_gate s' t = (if t < now + cooldown_seconds s' then Gate_Open else Gate_HalfOpen)"
    and "tripped eff \<Longrightarrow> base_cooldown_seconds cfg \<le> cooldown_seconds s' \<and> cooldown_seconds s' \<le> max_cooldown_seconds cfg"
    and "\<not> tripped eff \<Longrightarrow> breaker_gate s' t = Gate_Closed"
    by (auto simp: breaker_ok_def breaker_gate_def)
qed

subsection \<open>A streak of failures\<close>

fun fail_all :: "BreakerConfig \<Rightarrow> (string \<times> int) list \<Rightarrow> BreakerState \<Rightarrow> BreakerState" where
  "fail_all cfg [] s = s"
| "fail_all cfg ((digest, now) # fs) s = fail_all cfg fs (snd (record_failure cfg digest [] now s))"

lemma fail_all_snoc: "fail_all cfg (fs @ [(d, now)]) s = snd (record_failure cfg d [] now (fail_all cfg fs s))"
  by (induction cfg fs s rule: fail_all.induct) auto

text \<open>The cool-down after \<open>k\<close> trips: doubled each time, up to the maximum.\<close>

definition cooldown_after :: "BreakerConfig \<Rightarrow> nat \<Rightarrow> int" where
  "cooldown_after cfg k = min (base_cooldown_seconds cfg * 2 ^ k) (max_cooldown_seconds cfg)"

lemma cooldown_after_Suc:
  assumes "breaker_config_ok cfg"
  shows "min (min (cooldown_after cfg k * 2) (max_cooldown_seconds cfg)) (max_cooldown_seconds cfg) =
         cooldown_after cfg (Suc k)"
proof -
  have "0 < max_cooldown_seconds cfg" using assms by (simp add: breaker_config_ok_def)
  then show ?thesis by (auto simp: cooldown_after_def min_def)
qed

lemma cooldown_after_max [simp]: "min (cooldown_after cfg k) (max_cooldown_seconds cfg) = cooldown_after cfg k"
  by (simp add: cooldown_after_def)

lemma cooldown_after_pos: "breaker_config_ok cfg \<Longrightarrow> 0 < cooldown_after cfg k"
  by (simp add: cooldown_after_def breaker_config_ok_def)

definition streak_ok :: "BreakerConfig \<Rightarrow> nat \<Rightarrow> BreakerState \<Rightarrow> bool" where
  "streak_ok cfg n s \<longleftrightarrow> consecutive_failures s = of_nat n \<and>
     (if n < unat (failure_threshold cfg) then open_until s = 0 \<and> cooldown_seconds s = 0
      else open_until s \<noteq> 0 \<and> cooldown_seconds s = cooldown_after cfg (n - unat (failure_threshold cfg)))"

lemma streak_step:
  assumes "streak_ok cfg n s" and "Suc n < 2 ^ 32" and cfg: "breaker_config_ok cfg" and "0 \<le> now"
  shows "streak_ok cfg (Suc n) (snd (record_failure cfg d [] now s))"
proof -
  let ?s0 = "s\<lparr>last_failure_at := now, last_failure_detail := take 200 []\<rparr>"
  obtain tr s1 where t: "trip cfg now ?s0 = (tr, s1)" by fastforce
  obtain q s2 where c: "count_proposal cfg d s1 = (q, s2)" by fastforce
  have s': "snd (record_failure cfg d [] now s) = s2" using t c by (simp add: record_failure_def)
  have n: "consecutive_failures s + 1 = of_nat (Suc n)" using assms(1) by (simp add: streak_ok_def)
  have "unat (of_nat (Suc n) :: u32) = Suc n" using assms(2) by (simp only: unat_of_nat mod_less) simp
  then have thr: "failure_threshold cfg \<le> of_nat (Suc n) \<longleftrightarrow> unat (failure_threshold cfg) \<le> Suc n"
    by (simp add: word_le_nat_alt)
  have pos: "0 < unat (failure_threshold cfg)"
    using cfg by (simp add: breaker_config_ok_def word_less_nat_alt)
  have base: "cooldown_after cfg 0 = min (base_cooldown_seconds cfg) (max_cooldown_seconds cfg)"
    by (simp add: cooldown_after_def)
  consider (below) "Suc n < unat (failure_threshold cfg)" | (first) "Suc n = unat (failure_threshold cfg)"
    | (more) "unat (failure_threshold cfg) \<le> n" by linarith
  then have "streak_ok cfg (Suc n) s1"
  proof cases
    case below
    with t assms(1) n thr show ?thesis
      by (auto simp: trip_def Let_def streak_ok_def split: if_splits)
  next
    case first
    with t assms(1,4) n thr cooldown_after_pos [OF cfg, of 0] show ?thesis
      by (auto simp: trip_def Let_def streak_ok_def base split: if_splits)
  next
    case more
    have nz: "cooldown_seconds s \<noteq> 0"
      using more assms(1) cooldown_after_pos [OF cfg] by (auto simp: streak_ok_def) (metis less_irrefl)
    have next_c: "min (min (cooldown_seconds s * 2) (max_cooldown_seconds cfg)) (max_cooldown_seconds cfg)
        = cooldown_after cfg (Suc n - unat (failure_threshold cfg))"
      using more assms(1) cooldown_after_Suc [OF cfg] by (simp add: streak_ok_def Suc_diff_le)
    have "cooldown_seconds s1 = cooldown_after cfg (Suc n - unat (failure_threshold cfg))"
      "open_until s1 = now + cooldown_seconds s1" "consecutive_failures s1 = of_nat (Suc n)"
      using t more assms(1) nz next_c n
      by (auto simp: trip_def Let_def streak_ok_def split: if_splits)
    with more assms(4) cooldown_after_pos [OF cfg, of "Suc n - unat (failure_threshold cfg)"]
    show ?thesis by (auto simp: streak_ok_def)
  qed
  with count_proposal_rest [OF c] s' show ?thesis by (simp add: streak_ok_def)
qed

lemma streak_ok_fail_all:
  assumes "breaker_config_ok cfg" and "length fs < 2 ^ 32" and "\<forall>f \<in> set fs. 0 \<le> snd f"
  shows "streak_ok cfg (length fs) (fail_all cfg fs closed_breaker)"
  using assms
proof (induction fs rule: rev_induct)
  case Nil
  then show ?case by (simp add: streak_ok_def closed_breaker_def breaker_config_ok_def word_less_nat_alt)
next
  case (snoc f fs)
  obtain d now where f: "f = (d, now)" by (cases f)
  have "streak_ok cfg (length fs) (fail_all cfg fs closed_breaker)" using snoc by simp
  then show ?case using snoc.prems by (simp add: f fail_all_snoc streak_step)
qed

subsection \<open>Quarantine\<close>

text \<open>A proposal is set aside at its \<open>limit\<close>-th failure, and its count is dropped with it.\<close>

lemma failure_count:
  assumes "record_failure cfg d detail now s = (eff, s')" and "map_ok (proposal_failures s)"
  shows "quarantine eff \<longleftrightarrow> proposal_failure_limit cfg \<le>
           (case map_of (proposal_failures s) d of Some n \<Rightarrow> n | None \<Rightarrow> 0) + 1"
    and "map_of (proposal_failures s') d =
           (if quarantine eff then None
            else Some ((case map_of (proposal_failures s) d of Some n \<Rightarrow> n | None \<Rightarrow> 0) + 1))"
    and "k \<noteq> d \<Longrightarrow> map_of (proposal_failures s') k = map_of (proposal_failures s) k"
proof -
  let ?s0 = "s\<lparr>last_failure_at := now, last_failure_detail := take 200 detail\<rparr>"
  obtain tr s1 where t: "trip cfg now ?s0 = (tr, s1)" by fastforce
  obtain q s2 where c: "count_proposal cfg d s1 = (q, s2)" by fastforce
  have e: "quarantine eff = q" "s' = s2" using assms(1) t c by (simp_all add: record_failure_def, auto)
  have pf: "proposal_failures s1 = proposal_failures s" using trip_rest [OF t] by simp
  show "quarantine eff \<longleftrightarrow> proposal_failure_limit cfg \<le>
           (case map_of (proposal_failures s) d of Some n \<Rightarrow> n | None \<Rightarrow> 0) + 1"
    and "map_of (proposal_failures s') d =
           (if quarantine eff then None
            else Some ((case map_of (proposal_failures s) d of Some n \<Rightarrow> n | None \<Rightarrow> 0) + 1))"
    and "k \<noteq> d \<Longrightarrow> map_of (proposal_failures s') k = map_of (proposal_failures s) k"
    using c e pf assms(2) by (auto simp: count_proposal_def Let_def split: if_splits)
qed

lemma retain_bounds:
  "map_ok (proposal_failures s) \<Longrightarrow>
     map_of (proposal_failures (retain_proposals ds s)) k =
       (if k \<in> ds then map_of (proposal_failures s) k else None)"
  using map_of_filter_keys [of "proposal_failures s" "\<lambda>k. k \<in> ds" k] by (simp add: retain_proposals_def)

end
