(* ===== verification/Bytes.thy ===== *)
theory Bytes
  imports Prelude
begin

text \<open>
  Bit masks on bytes, shared by the byte-level decoders, and the line reader of the
  operator's list files (\<open>std::getline\<close> with \<open>#\<close> comments and trimming), which the output
  guard and the engagement rules both contain.
\<close>

unbundle bit_operations_syntax

lemma and_high: "(n::nat) AND push_bit k (mask m) = 2 ^ k * ((n div 2 ^ k) mod 2 ^ m)"
proof -
  have "n AND push_bit k (mask m) = push_bit k (take_bit m (drop_bit k n))"
    by (rule bit_eqI) (auto simp: bit_and_iff bit_push_bit_iff bit_take_bit_iff bit_drop_bit_eq bit_mask_iff)
  then show ?thesis by (simp add: push_bit_eq_mult drop_bit_eq_div take_bit_eq_mod)
qed

lemma and_low: "(n::nat) AND mask m = n mod 2 ^ m"
  by (simp add: take_bit_eq_mask [symmetric] take_bit_eq_mod)

lemma shift_or:
  assumes "x < 64"
  shows "push_bit 6 (c::nat) OR x = c * 64 + x"
proof -
  have "take_bit 6 x = x" using assms by (simp add: take_bit_nat_eq_self)
  then have "push_bit 6 c AND x = 0"
    by (metis bit_eqI bit_and_iff bit_push_bit_iff bit_take_bit_iff bit_0_eq bot_apply bot_bool_def linorder_not_less)
  then have "push_bit 6 c + x = push_bit 6 c OR x" by (rule disjunctive_add_eq_or)
  then show ?thesis by (simp add: push_bit_eq_mult)
qed

lemma div_range: "0 < k \<Longrightarrow> (n::nat) div k = q \<longleftrightarrow> q * k \<le> n \<and> n < q * k + k"
  by (metis add.commute div_nat_eqI dividend_less_div_times div_times_less_eq_dividend
      mult.commute mult_Suc)

lemma mod_range: "q * k \<le> n \<Longrightarrow> n < q * k + k \<Longrightarrow> (n::nat) mod k = n - q * k"
  by (metis add_cancel_left_left div_range gr0I less_nat_zero_code minus_div_mult_eq_mod mult_is_0 not_add_less1)

text \<open>The tests and the payload masks of UTF-8 bytes, as ranges.\<close>

lemma lead_2: "n < 256 \<Longrightarrow> ((n::nat) AND 0xE0 = 0xC0) = (192 \<le> n \<and> n < 224)"
  using and_high [of n 5 3] div_range [of 32 n 6] by (simp add: mask_eq_exp_minus_1)

lemma lead_3: "n < 256 \<Longrightarrow> ((n::nat) AND 0xF0 = 0xE0) = (224 \<le> n \<and> n < 240)"
  using and_high [of n 4 4] div_range [of 16 n 14] by (simp add: mask_eq_exp_minus_1)

lemma lead_4: "n < 256 \<Longrightarrow> ((n::nat) AND 0xF8 = 0xF0) = (240 \<le> n \<and> n < 248)"
  using and_high [of n 3 5] div_range [of 8 n 30] by (simp add: mask_eq_exp_minus_1)

lemma continuation: "n < 256 \<Longrightarrow> ((n::nat) AND 0xC0 = 0x80) = (128 \<le> n \<and> n < 192)"
  using and_high [of n 6 2] div_range [of 64 n 2] by (simp add: mask_eq_exp_minus_1)

lemma payload:
  "128 \<le> n \<Longrightarrow> n < 192 \<Longrightarrow> (n::nat) AND 0x3F = n - 128"
  "192 \<le> n \<Longrightarrow> n < 224 \<Longrightarrow> (n::nat) AND 0x1F = n - 192"
  "224 \<le> n \<Longrightarrow> n < 240 \<Longrightarrow> (n::nat) AND 0x0F = n - 224"
  "240 \<le> n \<Longrightarrow> n < 248 \<Longrightarrow> (n::nat) AND 0x07 = n - 240"
  using and_low [of n 6] and_low [of n 5] and_low [of n 4] and_low [of n 3]
    mod_range [of 2 64 n] mod_range [of 6 32 n] mod_range [of 14 16 n] mod_range [of 30 8 n]
  by (simp_all add: mask_eq_exp_minus_1)

lemma code_less [simp]: "code c < 256"
  by (simp add: code_def)

lemma char_of_code [simp]: "char_of (code c) = c"
  by (simp add: code_def)

lemma code_char_of: "n < 256 \<Longrightarrow> code (char_of n) = n"
  by (simp add: code_def)

lemma code_eq_iff: "code c = code d \<longleftrightarrow> c = d"
  by (simp add: code_def)

subsection \<open>Operator list files\<close>

fun lines_from :: "string \<Rightarrow> string \<Rightarrow> string list" where
  "lines_from cur [] = (if cur = [] then [] else [cur])"
| "lines_from cur (c # cs) =
     (if code c = 10 then cur # lines_from [] cs else lines_from (cur @ [c]) cs)"

definition text_lines :: "string \<Rightarrow> string list" where
  "text_lines s = lines_from [] s"

definition is_list_blank :: "char \<Rightarrow> bool" where
  "is_list_blank c \<longleftrightarrow> code c = 32 \<or> code c = 9 \<or> code c = 13"

text \<open>The part of a line before \<open>#\<close>, trimmed; \<open>None\<close> for a line the loop skips.\<close>

definition list_entry :: "string \<Rightarrow> string option" where
  "list_entry line =
     (let body = takeWhile (\<lambda>c. c \<noteq> CHR ''#'') line;
          rest = dropWhile is_list_blank body
      in if rest = [] then None else Some (rev (dropWhile is_list_blank (rev rest))))"

definition list_entries :: "string \<Rightarrow> string list" where
  "list_entries text = List.map_filter list_entry (text_lines text)"

lemma list_entry_ok:
  assumes "list_entry line = Some t"
  shows "t \<noteq> []" and "CHR ''#'' \<notin> set t" and "\<not> is_list_blank (hd t)" and "\<not> is_list_blank (last t)"
proof -
  let ?body = "takeWhile (\<lambda>c. c \<noteq> CHR ''#'') line"
  let ?rest = "dropWhile is_list_blank ?body"
  have r: "?rest \<noteq> []" and t: "t = rev (dropWhile is_list_blank (rev ?rest))"
    using assms by (auto simp: list_entry_def Let_def split: if_splits)
  have h: "\<not> is_list_blank (hd ?rest)" using r by (rule hd_dropWhile)
  then have nn: "dropWhile is_list_blank (rev ?rest) \<noteq> []"
    using r by (metis dropWhile_eq_Nil_conv hd_in_set set_rev)
  then show "t \<noteq> []" using t by simp
  show "\<not> is_list_blank (last t)"
    using t nn by (metis hd_dropWhile last_rev rev_rev_ident)
  obtain w where w: "rev ?rest = w @ dropWhile is_list_blank (rev ?rest)"
    by (metis takeWhile_dropWhile_id)
  then have rest: "?rest = t @ rev w" using t by (metis rev_append rev_rev_ident)
  then have "hd ?rest = hd t" using \<open>t \<noteq> []\<close> by (metis hd_append2)
  with h show "\<not> is_list_blank (hd t)" by simp
  have "set t \<subseteq> set ?rest" using rest by (metis Un_upper1 set_append)
  also have "\<dots> \<subseteq> set ?body" by (meson set_dropWhileD subsetI)
  finally show "CHR ''#'' \<notin> set t" by (auto dest: set_takeWhileD)
qed

text \<open>A file of one entry per line reads back as those entries.\<close>

lemma lines_from_line:
  "\<forall>c \<in> set l. code c \<noteq> 10 \<Longrightarrow> lines_from cur (l @ CHR 0x0A # rest) = (cur @ l) # lines_from [] rest"
  by (induction l arbitrary: cur) (auto simp: code_def)

lemma text_lines_lines:
  "\<forall>l \<in> set ls. \<forall>c \<in> set l. code c \<noteq> 10 \<Longrightarrow> text_lines (concat (map (\<lambda>l. l @ [CHR 0x0A]) ls)) = ls"
  by (induction ls) (auto simp: text_lines_def lines_from_line)

lemma list_entry_plain:
  assumes "l \<noteq> []" and "CHR ''#'' \<notin> set l" and "\<forall>c \<in> set l. \<not> is_list_blank c"
  shows "list_entry l = Some l"
proof -
  have b: "takeWhile (\<lambda>c. c \<noteq> CHR ''#'') l = l" using assms(2) by (auto simp: takeWhile_eq_all_conv)
  have d: "dropWhile is_list_blank l = l" "dropWhile is_list_blank (rev l) = rev l"
    using assms(1,3) by (simp_all add: dropWhile_eq_self_iff last_in_set hd_rev)
  show ?thesis using assms(1,3) hd_in_set [OF assms(1)] by (auto simp: list_entry_def b d)
qed

lemma list_entries_lines:
  assumes "\<forall>l \<in> set ls. l \<noteq> [] \<and> CHR ''#'' \<notin> set l \<and> (\<forall>c \<in> set l. \<not> is_list_blank c \<and> code c \<noteq> 10)"
  shows "list_entries (concat (map (\<lambda>l. l @ [CHR 0x0A]) ls)) = ls"
proof -
  have "List.map_filter list_entry ls = ls"
    using assms by (induction ls) (auto simp: list_entry_plain)
  moreover have "text_lines (concat (map (\<lambda>l. l @ [CHR 0x0A]) ls)) = ls"
    using assms by (intro text_lines_lines) auto
  ultimately show ?thesis by (simp add: list_entries_def)
qed

end
