(* ===== verification/Text_Guard.thy ===== *)
theory Text_Guard
  imports Bytes Files
begin

text \<open>
  The output guard for text the entity publishes on its own
  (src/src/app/scheduler/text_guard.hpp and text_guard.cpp): the named rules in their order,
  the UTF-8 decoder, the repeat normal form and the denylist file.  Characters are bytes and
  the classification functions are those of the C locale.
\<close>

record TextGuardConfig =
  max_codepoints :: nat
  denied_terms :: "string list"
  repeat_window_seconds :: int

definition default_text_guard :: TextGuardConfig where
  "default_text_guard =
     \<lparr>max_codepoints = 300, denied_terms = [], repeat_window_seconds = 7 * 24 * 60 * 60\<rparr>"

datatype TextRefusal =
    Text_None
  | Text_Empty
  | Text_InvalidUtf8
  | Text_TooLong
  | Text_Url
  | Text_Mention
  | Text_Hashtag
  | Text_DeniedTerm
  | Text_RepeatedText

fun text_refusal_name :: "TextRefusal \<Rightarrow> string" where
  "text_refusal_name Text_None = ''ok''"
| "text_refusal_name Text_Empty = ''empty''"
| "text_refusal_name Text_InvalidUtf8 = ''invalid_utf8''"
| "text_refusal_name Text_TooLong = ''too_long''"
| "text_refusal_name Text_Url = ''url''"
| "text_refusal_name Text_Mention = ''mention''"
| "text_refusal_name Text_Hashtag = ''hashtag''"
| "text_refusal_name Text_DeniedTerm = ''denied_term''"
| "text_refusal_name Text_RepeatedText = ''repeated_text''"

record TextVerdict =
  refusal :: TextRefusal
  verdict_detail :: string

definition verdict_allowed :: "TextVerdict \<Rightarrow> bool" where
  "verdict_allowed v \<longleftrightarrow> refusal v = Text_None"

record RecentText =
  recent_text :: string
  at_epoch :: int

subsection \<open>Words\<close>

definition is_word_byte :: "char \<Rightarrow> bool" where
  "is_word_byte c \<longleftrightarrow> is_alnum c \<or> c = CHR ''_'' \<or> 0x80 \<le> code c"

definition lower_ascii :: "string \<Rightarrow> string" where
  "lower_ascii text = map to_lower text"

definition has_word_at :: "string \<Rightarrow> nat \<Rightarrow> string \<Rightarrow> bool" where
  "has_word_at text pos word =
     (if substr text pos (length word) \<noteq> word then False
      else
        let left_ok = (pos = 0 \<or> \<not> is_word_byte (text ! (pos - 1)));
            end_pos = pos + length word;
            right_ok = (length text \<le> end_pos \<or> \<not> is_word_byte (text ! end_pos))
        in left_ok \<and> right_ok)"

definition contains_word :: "string \<Rightarrow> string \<Rightarrow> bool" where
  "contains_word lowered word =
     (if word = [] then False else scan_from word (\<lambda>pos. has_word_at lowered pos word) lowered 0)"

definition domain_at :: "string \<Rightarrow> nat \<Rightarrow> bool" where
  "domain_at lowered dot =
     (if dot = 0 \<or> length lowered \<le> dot + 1 then False
      else
        let before = lowered ! (dot - 1) in
        if \<not> (is_alnum before \<or> before = CHR ''-'') then False
        else
          let letters = length (takeWhile is_alpha (drop (dot + 1) lowered));
              end_pos = dot + 1 + letters;
              ends_word = (length lowered \<le> end_pos \<or> \<not> is_word_byte (lowered ! end_pos))
          in 2 \<le> letters \<and> ends_word)"

definition has_domain_shape :: "string \<Rightarrow> bool" where
  "has_domain_shape lowered = scan_from ''.'' (domain_at lowered) lowered 0"

definition followed_by_word :: "string \<Rightarrow> char \<Rightarrow> bool" where
  "followed_by_word text marker =
     scan_from [marker] (\<lambda>pos. pos + 1 < length text \<and> is_word_byte (text ! (pos + 1))) text 0"

definition term_matches :: "string \<Rightarrow> string \<Rightarrow> bool" where
  "term_matches lowered term_text =
     (if list_all is_word_byte term_text then contains_word lowered term_text
      else contains_sub lowered term_text)"

subsection \<open>UTF-8\<close>

text \<open>The length a lead byte announces and the bits it carries.\<close>

definition utf8_lead :: "nat \<Rightarrow> (nat \<times> nat) option" where
  "utf8_lead lead =
     (if lead < 0x80 then Some (1, lead)
      else if lead AND 0xE0 = 0xC0 then Some (2, lead AND 0x1F)
      else if lead AND 0xF0 = 0xE0 then Some (3, lead AND 0x0F)
      else if lead AND 0xF8 = 0xF0 then Some (4, lead AND 0x07)
      else None)"

text \<open>The continuation loop; the value has at most 21 bits, so \<open>uint32_t\<close> never wraps.\<close>

fun utf8_tail :: "string \<Rightarrow> nat \<Rightarrow> nat option" where
  "utf8_tail [] cp = Some cp"
| "utf8_tail (c # cs) cp =
     (if code c AND 0xC0 \<noteq> 0x80 then None
      else utf8_tail cs (push_bit 6 cp OR (code c AND 0x3F)))"

definition utf8_rejected :: "nat \<Rightarrow> nat \<Rightarrow> bool" where
  "utf8_rejected len cp \<longleftrightarrow>
     (len = 2 \<and> cp < 0x80) \<or> (len = 3 \<and> cp < 0x800) \<or> (len = 4 \<and> cp < 0x10000) \<or>
     (0xD800 \<le> cp \<and> cp \<le> 0xDFFF) \<or> 0x10FFFF < cp"

definition utf8_char :: "char \<Rightarrow> string \<Rightarrow> (nat \<times> nat) option" where
  "utf8_char c cs =
     (case utf8_lead (code c) of
        None \<Rightarrow> None
      | Some (len, lead_bits) \<Rightarrow>
          if Suc (length cs) < len then None
          else (case utf8_tail (take (len - 1) cs) lead_bits of
                  None \<Rightarrow> None
                | Some cp \<Rightarrow> if utf8_rejected len cp then None else Some (len, cp)))"

fun utf8_codepoints :: "string \<Rightarrow> nat option" where
  "utf8_codepoints [] = Some 0"
| "utf8_codepoints (c # cs) =
     (case utf8_char c cs of
        None \<Rightarrow> None
      | Some (len, _) \<Rightarrow> map_option Suc (utf8_codepoints (drop (len - 1) cs)))"

subsection \<open>The repeat normal form\<close>

fun normalize_loop :: "string \<Rightarrow> bool \<Rightarrow> string \<Rightarrow> string" where
  "normalize_loop out pending_space [] = out"
| "normalize_loop out pending_space (c # cs) =
     (if is_word_byte c then
        normalize_loop
          ((if pending_space \<and> out \<noteq> [] then out @ '' '' else out) @ [to_lower c]) False cs
      else normalize_loop out True cs)"

definition normalize_for_repeat :: "string \<Rightarrow> string" where
  "normalize_for_repeat text = normalize_loop [] False text"

subsection \<open>The guard\<close>

definition refuse :: "TextRefusal \<Rightarrow> string \<Rightarrow> TextVerdict" where
  "refuse reason detail = \<lparr>refusal = reason, verdict_detail = detail\<rparr>"

definition has_url :: "string \<Rightarrow> bool" where
  "has_url lowered \<longleftrightarrow>
     contains_sub lowered ''://'' \<or> contains_sub lowered ''www.'' \<or>
     contains_word lowered ''http'' \<or> contains_word lowered ''https'' \<or>
     contains_word lowered ''www'' \<or> has_domain_shape lowered"

definition denied_by :: "TextGuardConfig \<Rightarrow> string \<Rightarrow> string option" where
  "denied_by cfg lowered =
     List.find (\<lambda>t. t \<noteq> [] \<and> term_matches lowered t) (denied_terms cfg)"

definition is_repeat :: "TextGuardConfig \<Rightarrow> string \<Rightarrow> RecentText list \<Rightarrow> int \<Rightarrow> bool" where
  "is_repeat cfg text recent now =
     (0 < repeat_window_seconds cfg \<and>
      list_ex (\<lambda>earlier. now - at_epoch earlier \<le> repeat_window_seconds cfg \<and>
                 normalize_for_repeat (recent_text earlier) = normalize_for_repeat text) recent)"

definition check_output_text ::
  "string \<Rightarrow> TextGuardConfig \<Rightarrow> RecentText list \<Rightarrow> int \<Rightarrow> TextVerdict" where
  "check_output_text text cfg recent now =
     (if list_all is_space text then refuse Text_Empty []
      else case utf8_codepoints text of
        None \<Rightarrow> refuse Text_InvalidUtf8 []
      | Some codepoints \<Rightarrow>
          if max_codepoints cfg < codepoints then
            refuse Text_TooLong (nat_to_string codepoints @ '' > '' @ nat_to_string (max_codepoints cfg))
          else
            let lowered = lower_ascii text in
            if has_url lowered then refuse Text_Url []
            else if followed_by_word text (CHR ''@'') \<or> contains_sub lowered ''did:'' then refuse Text_Mention []
            else if followed_by_word text (CHR ''#'') then refuse Text_Hashtag []
            else case denied_by cfg lowered of
              Some t \<Rightarrow> refuse Text_DeniedTerm t
            | None \<Rightarrow>
                if is_repeat cfg text recent now then refuse Text_RepeatedText []
                else refuse Text_None [])"

text \<open>
  \<open>std::ifstream\<close> opens a file that it then cannot read (a directory, for one); the first
  \<open>std::getline\<close> fails and the loop ends as it does at the end of a file.
\<close>

definition load_denylist :: "string \<Rightarrow> fs \<Rightarrow> string list result" where
  "load_denylist path fs =
     (case fs path of
        Missing \<Rightarrow> Inr []
      | Unopenable \<Rightarrow> throw Runtime_error (''cannot read output denylist '' @ path)
      | Unreadable \<Rightarrow> Inr []
      | Present text \<Rightarrow> Inr (map lower_ascii (list_entries text)))"

subsection \<open>The scans as decompositions of the text\<close>

lemma contains_word_iff:
  "contains_word s w \<longleftrightarrow> w \<noteq> [] \<and>
     (\<exists>u v. s = u @ w @ v \<and> (u = [] \<or> \<not> is_word_byte (last u)) \<and> (v = [] \<or> \<not> is_word_byte (hd v)))"
proof (cases "w = []")
  case True
  then show ?thesis by (simp add: contains_word_def)
next
  case False
  have split: "has_word_at (u @ w @ v) (length u) w \<longleftrightarrow>
     (u = [] \<or> \<not> is_word_byte (last u)) \<and> (v = [] \<or> \<not> is_word_byte (hd v))" for u v
    using False
    by (cases u rule: rev_cases; cases v) (auto simp: has_word_at_def substr_def nth_append)
  have "contains_word s w \<longleftrightarrow> (\<exists>i \<le> length s. starts_with (drop i s) w \<and> has_word_at s i w)"
    using False by (auto simp: contains_word_def scan_from_iff)
  also have "\<dots> \<longleftrightarrow> (\<exists>u v. s = u @ w @ v \<and> has_word_at (u @ w @ v) (length u) w)"
  proof
    assume "\<exists>i \<le> length s. starts_with (drop i s) w \<and> has_word_at s i w"
    then obtain i v where "i \<le> length s" "s = take i s @ w @ v" "has_word_at s i w"
      using drop_split by blast
    then show "\<exists>u v. s = u @ w @ v \<and> has_word_at (u @ w @ v) (length u) w"
      by (intro exI [of _ "take i s"] exI [of _ v]) simp
  next
    assume "\<exists>u v. s = u @ w @ v \<and> has_word_at (u @ w @ v) (length u) w"
    then obtain u v where "s = u @ w @ v" "has_word_at s (length u) w" by blast
    then show "\<exists>i \<le> length s. starts_with (drop i s) w \<and> has_word_at s i w"
      by (intro exI [of _ "length u"]) simp
  qed
  finally show ?thesis using False by (simp add: split)
qed

lemma followed_by_word_iff:
  "followed_by_word s m \<longleftrightarrow> (\<exists>u c v. s = u @ m # c # v \<and> is_word_byte c)"
proof -
  have "followed_by_word s m \<longleftrightarrow> (\<exists>u v. s = u @ [m] @ v \<and> v \<noteq> [] \<and> is_word_byte (hd v))"
    unfolding followed_by_word_def
  proof (rule scan_split)
    fix i
    show "(i + 1 < length s \<and> is_word_byte (s ! (i + 1))) =
          (drop (i + length [m]) s \<noteq> [] \<and> is_word_byte (hd (drop (i + length [m]) s)))"
      by (auto simp: hd_drop_conv_nth)
  qed
  also have "\<dots> \<longleftrightarrow> (\<exists>u c v. s = u @ m # c # v \<and> is_word_byte c)"
    by (metis append_Cons append_Nil list.exhaust_sel list.distinct(1) list.sel(1))
  finally show ?thesis .
qed

lemma has_domain_shape_iff:
  "has_domain_shape s \<longleftrightarrow>
     (\<exists>u b t v. s = u @ b # ''.'' @ t @ v \<and> (is_alnum b \<or> b = CHR ''-'') \<and> 2 \<le> length t \<and>
        list_all is_alpha t \<and> (v = [] \<or> \<not> is_word_byte (hd v)))"
proof -
  let ?ends = "\<lambda>v. 2 \<le> length (takeWhile is_alpha v) \<and>
                  (dropWhile is_alpha v = [] \<or> \<not> is_word_byte (hd (dropWhile is_alpha v)))"
  have ends: "?ends w \<longleftrightarrow> (\<exists>t v. w = t @ v \<and> 2 \<le> length t \<and> list_all is_alpha t \<and> (v = [] \<or> \<not> is_word_byte (hd v)))" for w
  proof
    assume "?ends w"
    then show "\<exists>t v. w = t @ v \<and> 2 \<le> length t \<and> list_all is_alpha t \<and> (v = [] \<or> \<not> is_word_byte (hd v))"
      by (intro exI [of _ "takeWhile is_alpha w"] exI [of _ "dropWhile is_alpha w"])
         (auto simp: list_all_iff dest: set_takeWhileD)
  next
    assume "\<exists>t v. w = t @ v \<and> 2 \<le> length t \<and> list_all is_alpha t \<and> (v = [] \<or> \<not> is_word_byte (hd v))"
    then obtain t v where w: "w = t @ v" and t: "2 \<le> length t" "list_all is_alpha t"
      and v: "v = [] \<or> \<not> is_word_byte (hd v)" by blast
    have v': "takeWhile is_alpha v = []" "dropWhile is_alpha v = v"
      using v by (cases v; simp add: is_word_byte_def is_alnum_def)+
    have "takeWhile is_alpha w = t" "dropWhile is_alpha w = v"
      using t(2) v' by (simp_all add: w list_all_iff)
    with t(1) v show "?ends w" by simp
  qed
  have "has_domain_shape s \<longleftrightarrow>
      (\<exists>u v. s = u @ ''.'' @ v \<and> u \<noteq> [] \<and> (is_alnum (last u) \<or> last u = CHR ''-'') \<and> ?ends v)"
    unfolding has_domain_shape_def
  proof (rule scan_split)
    fix i
    have d: "dropWhile is_alpha w = drop (length (takeWhile is_alpha w)) w" for w
      by (simp add: dropWhile_eq_drop)
    show "domain_at s i \<longleftrightarrow> take i s \<noteq> [] \<and> (is_alnum (last (take i s)) \<or> last (take i s) = CHR ''-'') \<and>
        ?ends (drop (i + length ''.'') s)"
    proof (cases "i = 0 \<or> length s \<le> i + 1")
      case True
      then show ?thesis by (auto simp: domain_at_def)
    next
      case False
      then have nn: "take i s \<noteq> []" and "length (take i s) - 1 = i - 1" by auto
      then have "last (take i s) = s ! (i - 1)" using False by (simp add: last_conv_nth)
      note this nn
      with False show ?thesis
        by (auto simp: domain_at_def Let_def d hd_drop_conv_nth add.commute [of i])
    qed
  qed
  also have "\<dots> \<longleftrightarrow> (\<exists>u b v. s = u @ b # ''.'' @ v \<and> (is_alnum b \<or> b = CHR ''-'') \<and> ?ends v)"
  proof
    assume "\<exists>u v. s = u @ ''.'' @ v \<and> u \<noteq> [] \<and> (is_alnum (last u) \<or> last u = CHR ''-'') \<and> ?ends v"
    then obtain u v where "s = u @ ''.'' @ v" "u \<noteq> []" "is_alnum (last u) \<or> last u = CHR ''-''" "?ends v" by blast
    then show "\<exists>u b v. s = u @ b # ''.'' @ v \<and> (is_alnum b \<or> b = CHR ''-'') \<and> ?ends v"
      by (intro exI [of _ "butlast u"] exI [of _ "last u"] exI [of _ v])
         (simp add: append_butlast_last_id [symmetric] del: append_butlast_last_id)
  next
    assume "\<exists>u b v. s = u @ b # ''.'' @ v \<and> (is_alnum b \<or> b = CHR ''-'') \<and> ?ends v"
    then obtain u b v where "s = u @ b # ''.'' @ v" "is_alnum b \<or> b = CHR ''-''" "?ends v" by blast
    then show "\<exists>u v. s = u @ ''.'' @ v \<and> u \<noteq> [] \<and> (is_alnum (last u) \<or> last u = CHR ''-'') \<and> ?ends v"
      by (intro exI [of _ "u @ [b]"] exI [of _ v]) simp
  qed
  finally show ?thesis unfolding ends by (simp add: ex_simps [symmetric] del: ex_simps)
qed

subsection \<open>The decoder accepts exactly the well-formed encodings\<close>

definition scalar_value :: "nat \<Rightarrow> bool" where
  "scalar_value n \<longleftrightarrow> n \<le> 0x10FFFF \<and> \<not> (0xD800 \<le> n \<and> n \<le> 0xDFFF)"

text \<open>The encoding of one scalar value, as RFC 3629 tabulates it.\<close>

definition utf8_encode :: "nat \<Rightarrow> string" where
  "utf8_encode n =
     map char_of
       (if n < 0x80 then [n]
        else if n < 0x800 then [0xC0 + n div 64, 0x80 + n mod 64]
        else if n < 0x10000 then [0xE0 + n div 4096, 0x80 + n div 64 mod 64, 0x80 + n mod 64]
        else [0xF0 + n div 262144, 0x80 + n div 4096 mod 64, 0x80 + n div 64 mod 64, 0x80 + n mod 64])"

lemma utf8_lead_eq:
  assumes "n < 256"
  shows "utf8_lead n =
     (if n < 128 then Some (1, n)
      else if 192 \<le> n \<and> n < 224 then Some (2, n - 192)
      else if 224 \<le> n \<and> n < 240 then Some (3, n - 224)
      else if 240 \<le> n \<and> n < 248 then Some (4, n - 240) else None)"
proof -
  consider "n < 128" | "128 \<le> n \<and> n < 192" | "192 \<le> n \<and> n < 224" | "224 \<le> n \<and> n < 240"
    | "240 \<le> n \<and> n < 248" | "248 \<le> n" by linarith
  then show ?thesis
    by cases (simp_all add: utf8_lead_def lead_2 [OF assms] lead_3 [OF assms] lead_4 [OF assms] payload)
qed

lemma utf8_tail_Cons [simp]:
  "utf8_tail (c # cs) cp =
     (if 128 \<le> code c \<and> code c < 192 then utf8_tail cs (cp * 64 + (code c - 128)) else None)"
proof -
  have "128 \<le> code c \<Longrightarrow> code c < 192 \<Longrightarrow> push_bit 6 cp OR (code c AND 0x3F) = cp * 64 + (code c - 128)"
    by (simp add: payload shift_or)
  with continuation [OF code_less] show ?thesis by simp
qed

declare utf8_tail.simps(2) [simp del]

lemma utf8_char_1: "code c < 128 \<Longrightarrow> utf8_char c cs = Some (1, code c)"
  by (simp add: utf8_char_def utf8_lead_eq utf8_rejected_def)

lemma utf8_char_2:
  "192 \<le> code c \<Longrightarrow> code c < 224 \<Longrightarrow> 128 \<le> code x \<Longrightarrow> code x < 192 \<Longrightarrow>
     cp = (code c - 192) * 64 + (code x - 128) \<Longrightarrow>
     utf8_char c (x # cs) = (if utf8_rejected 2 cp then None else Some (2, cp))"
  by (simp add: utf8_char_def utf8_lead_eq)

lemma utf8_char_3:
  "224 \<le> code c \<Longrightarrow> code c < 240 \<Longrightarrow> 128 \<le> code x \<Longrightarrow> code x < 192 \<Longrightarrow>
     128 \<le> code y \<Longrightarrow> code y < 192 \<Longrightarrow>
     cp = ((code c - 224) * 64 + (code x - 128)) * 64 + (code y - 128) \<Longrightarrow>
     utf8_char c (x # y # cs) = (if utf8_rejected 3 cp then None else Some (3, cp))"
  by (simp add: utf8_char_def utf8_lead_eq)

lemma utf8_char_4:
  "240 \<le> code c \<Longrightarrow> code c < 248 \<Longrightarrow> 128 \<le> code x \<Longrightarrow> code x < 192 \<Longrightarrow>
     128 \<le> code y \<Longrightarrow> code y < 192 \<Longrightarrow> 128 \<le> code z \<Longrightarrow> code z < 192 \<Longrightarrow>
     cp = (((code c - 240) * 64 + (code x - 128)) * 64 + (code y - 128)) * 64 + (code z - 128) \<Longrightarrow>
     utf8_char c (x # y # z # cs) = (if utf8_rejected 4 cp then None else Some (4, cp))"
  by (simp add: utf8_char_def utf8_lead_eq)

lemma utf8_split:
  "(n div 64) * 64 + n mod 64 = (n::nat)"
  "((n div 4096) * 64 + n div 64 mod 64) * 64 + n mod 64 = n"
  "(((n div 262144) * 64 + n div 4096 mod 64) * 64 + n div 64 mod 64) * 64 + n mod 64 = n"
proof -
  show "(n div 64) * 64 + n mod 64 = n" by simp
  have a: "n div 4096 = n div 64 div 64" "n div 262144 = n div 64 div 64 div 64" by (simp_all add: div_mult2_eq [symmetric])
  show "((n div 4096) * 64 + n div 64 mod 64) * 64 + n mod 64 = n" unfolding a by simp
  show "(((n div 262144) * 64 + n div 4096 mod 64) * 64 + n div 64 mod 64) * 64 + n mod 64 = n"
    unfolding a by simp
qed

lemma utf8_char_encode:
  assumes "scalar_value n" and "utf8_encode n @ rest = c # cs"
  shows "utf8_char c cs = Some (length (utf8_encode n), n) \<and> drop (length (utf8_encode n) - 1) cs = rest"
proof -
  consider "n < 0x80" | "0x80 \<le> n" "n < 0x800" | "0x800 \<le> n" "n < 0x10000" | "0x10000 \<le> n"
    by linarith
  then show ?thesis
  proof cases
    case 1
    with assms show ?thesis by (auto simp: utf8_encode_def utf8_char_1 code_char_of)
  next
    case 2
    then have "n div 64 < 32" by (simp add: div_less_iff_less_mult)
    moreover from 2 assms(2) have "c = char_of (0xC0 + n div 64)" "cs = char_of (0x80 + n mod 64) # rest"
      and e: "length (utf8_encode n) = 2" by (simp_all add: utf8_encode_def)
    ultimately have "utf8_char c cs = (if utf8_rejected 2 n then None else Some (2, n))"
      using utf8_split(1) [of n] by (simp add: utf8_char_2 [where cp = n] code_char_of)
    then show ?thesis using 2 assms e by (auto simp: utf8_rejected_def utf8_encode_def)
  next
    case 3
    then have "n div 4096 < 16" by (simp add: div_less_iff_less_mult)
    moreover from 3 assms(2) have "c = char_of (0xE0 + n div 4096)"
        "cs = char_of (0x80 + n div 64 mod 64) # char_of (0x80 + n mod 64) # rest"
      and e: "length (utf8_encode n) = 3" by (simp_all add: utf8_encode_def)
    ultimately have "utf8_char c cs = (if utf8_rejected 3 n then None else Some (3, n))"
      using utf8_split(2) [of n] by (simp add: utf8_char_3 [where cp = n] code_char_of)
    then show ?thesis using 3 assms e by (auto simp: utf8_rejected_def utf8_encode_def scalar_value_def)
  next
    case 4
    then have "n div 262144 < 8" using assms(1) by (simp add: scalar_value_def div_less_iff_less_mult)
    moreover from 4 assms(2) have "c = char_of (0xF0 + n div 262144)"
        "cs = char_of (0x80 + n div 4096 mod 64) # char_of (0x80 + n div 64 mod 64) # char_of (0x80 + n mod 64) # rest"
      and e: "length (utf8_encode n) = 4" by (simp_all add: utf8_encode_def)
    ultimately have "utf8_char c cs = (if utf8_rejected 4 n then None else Some (4, n))"
      using utf8_split(3) [of n] by (simp add: utf8_char_4 [where cp = n] code_char_of)
    then show ?thesis using 4 assms e by (auto simp: utf8_rejected_def utf8_encode_def scalar_value_def)
  qed
qed

lemma utf8_encode_nonempty [simp]: "utf8_encode n \<noteq> []"
  by (simp add: utf8_encode_def)

lemma utf8_codepoints_encode:
  assumes "scalar_value n"
  shows "utf8_codepoints (utf8_encode n @ rest) = map_option Suc (utf8_codepoints rest)"
proof -
  obtain c cs where c: "utf8_encode n @ rest = c # cs" by (metis append_is_Nil_conv list.exhaust utf8_encode_nonempty)
  show ?thesis using utf8_char_encode [OF assms c] by (simp add: c)
qed

lemma block_64: "d < 64 \<Longrightarrow> (q * 64 + d) div 64 = q \<and> (q * 64 + d) mod 64 = (d::nat)"
  by simp

lemma encode_2: "a < 32 \<Longrightarrow> b < 64 \<Longrightarrow> 0x80 \<le> a * 64 + b \<Longrightarrow>
    utf8_encode (a * 64 + b) = [char_of (192 + a), char_of (128 + b)]"
  by (simp add: utf8_encode_def)

lemma encode_3: "a < 16 \<Longrightarrow> b < 64 \<Longrightarrow> d < 64 \<Longrightarrow> 0x800 \<le> (a * 64 + b) * 64 + d \<Longrightarrow>
    utf8_encode ((a * 64 + b) * 64 + d) = [char_of (224 + a), char_of (128 + b), char_of (128 + d)]"
proof -
  assume h: "a < 16" "b < 64" "d < 64" "0x800 \<le> (a * 64 + b) * 64 + d"
  let ?n = "(a * 64 + b) * 64 + d"
  have d1: "?n div 64 = a * 64 + b" "?n mod 64 = d" using block_64 [of d "a * 64 + b"] h(3) by blast+
  have "?n div 4096 = ?n div 64 div 64" by (simp add: div_mult2_eq [symmetric])
  also have "\<dots> = a" using h by (simp add: d1)
  finally have d2: "?n div 4096 = a" .
  have "?n = a * 4096 + b * 64 + d" by simp
  then have lt: "?n < 0x10000" using h(1-3) by linarith
  have d3: "?n div 64 mod 64 = b" unfolding d1 using block_64 [of b a] h(2) by blast
  show ?thesis unfolding utf8_encode_def d3 d1(2) d2 using h lt by simp
qed

lemma encode_4: "a < 8 \<Longrightarrow> b < 64 \<Longrightarrow> d < 64 \<Longrightarrow> e < 64 \<Longrightarrow> 0x10000 \<le> ((a * 64 + b) * 64 + d) * 64 + e \<Longrightarrow>
    utf8_encode (((a * 64 + b) * 64 + d) * 64 + e) =
      [char_of (240 + a), char_of (128 + b), char_of (128 + d), char_of (128 + e)]"
proof -
  assume h: "a < 8" "b < 64" "d < 64" "e < 64" "0x10000 \<le> ((a * 64 + b) * 64 + d) * 64 + e"
  let ?n = "((a * 64 + b) * 64 + d) * 64 + e"
  have d1: "?n div 64 = (a * 64 + b) * 64 + d" "?n mod 64 = e"
    using block_64 [of e "(a * 64 + b) * 64 + d"] h(4) by blast+
  have "?n div 4096 = ?n div 64 div 64" by (simp add: div_mult2_eq [symmetric])
  also have "\<dots> = a * 64 + b" using h by (simp only: d1) simp
  finally have d2: "?n div 4096 = a * 64 + b" .
  have "?n div 262144 = ?n div 4096 div 64" by (simp add: div_mult2_eq [symmetric])
  also have "\<dots> = a" using h by (simp add: d2)
  finally have d3: "?n div 262144 = a" .
  have d4: "?n div 64 mod 64 = d" unfolding d1 using block_64 [of d "a * 64 + b"] h(3) by blast
  have d5: "?n div 4096 mod 64 = b" unfolding d2 using block_64 [of b a] h(2) by blast
  show ?thesis unfolding utf8_encode_def d5 d4 d1(2) d3 using h by simp
qed

lemma byte_offset: "k \<le> code c \<Longrightarrow> char_of (k + (code c - k)) = c"
  by simp

lemma utf8_char_sound:
  assumes "utf8_char c cs = Some (len, cp)"
  shows "scalar_value cp \<and> c # cs = utf8_encode cp @ drop (len - 1) cs"
proof -
  obtain bits where l: "utf8_lead (code c) = Some (len, bits)" and long: "len \<le> Suc (length cs)"
    and t: "utf8_tail (take (len - 1) cs) bits = Some cp" and r: "\<not> utf8_rejected len cp"
    using assms by (auto simp: utf8_char_def split: option.splits if_splits)
  have sc: "scalar_value cp" using r by (auto simp: utf8_rejected_def scalar_value_def)
  consider (one) "len = 1" "code c < 128" "bits = code c"
    | (two) "len = 2" "192 \<le> code c" "code c < 224" "bits = code c - 192"
    | (three) "len = 3" "224 \<le> code c" "code c < 240" "bits = code c - 224"
    | (four) "len = 4" "240 \<le> code c" "code c < 248" "bits = code c - 240"
    using l by (auto simp: utf8_lead_eq split: if_splits)
  then show ?thesis
  proof cases
    case one
    with t have "cp = code c" by simp
    then show ?thesis using sc one by (simp add: utf8_encode_def)
  next
    case two
    with long obtain x r where cs: "cs = x # r" by (cases cs) auto
    with two t have x: "128 \<le> code x" "code x < 192" and cp: "cp = (code c - 192) * 64 + (code x - 128)"
      by (simp_all split: if_splits)
    show ?thesis using sc r two x unfolding cp cs
      by (subst encode_2) (auto simp: utf8_rejected_def cp byte_offset)
  next
    case three
    with long obtain x y r where cs: "cs = x # y # r" by (cases cs; cases "tl cs") auto
    with three t have x: "128 \<le> code x" "code x < 192" "128 \<le> code y" "code y < 192"
      and cp: "cp = ((code c - 224) * 64 + (code x - 128)) * 64 + (code y - 128)"
      by (simp_all add: numeral_2_eq_2 split: if_splits)
    show ?thesis using sc r three x unfolding cp cs
      by (subst encode_3) (auto simp: utf8_rejected_def cp byte_offset)
  next
    case four
    with long obtain x y z r where cs: "cs = x # y # z # r"
      by (cases cs; cases "tl cs"; cases "tl (tl cs)") auto
    with four t have x: "128 \<le> code x" "code x < 192" "128 \<le> code y" "code y < 192" "128 \<le> code z" "code z < 192"
      and cp: "cp = (((code c - 240) * 64 + (code x - 128)) * 64 + (code y - 128)) * 64 + (code z - 128)"
      by (simp_all add: numeral_3_eq_3 split: if_splits)
    show ?thesis using sc r four x unfolding cp cs
      by (subst encode_4) (auto simp: utf8_rejected_def cp byte_offset)
  qed
qed

lemma utf8_codepoints_iff:
  "utf8_codepoints t = Some n \<longleftrightarrow>
     (\<exists>cps. length cps = n \<and> list_all scalar_value cps \<and> t = concat (map utf8_encode cps))"
proof
  show "utf8_codepoints t = Some n \<Longrightarrow>
     \<exists>cps. length cps = n \<and> list_all scalar_value cps \<and> t = concat (map utf8_encode cps)"
  proof (induction t arbitrary: n rule: utf8_codepoints.induct)
    case 1
    then show ?case by simp
  next
    case (2 c cs)
    then obtain len cp m where u: "utf8_char c cs = Some (len, cp)"
      and m: "utf8_codepoints (drop (len - 1) cs) = Some m" "n = Suc m"
      by (auto split: option.splits)
    from "2.IH" [OF u refl m(1)] obtain cps where cps: "length cps = m" "list_all scalar_value cps"
      "drop (len - 1) cs = concat (map utf8_encode cps)" by blast
    with utf8_char_sound [OF u] m(2) show ?case by (intro exI [of _ "cp # cps"]) simp
  qed
  show "\<exists>cps. length cps = n \<and> list_all scalar_value cps \<and> t = concat (map utf8_encode cps) \<Longrightarrow>
     utf8_codepoints t = Some n"
  proof (elim exE conjE)
    fix cps
    show "length cps = n \<Longrightarrow> list_all scalar_value cps \<Longrightarrow> t = concat (map utf8_encode cps) \<Longrightarrow> utf8_codepoints t = Some n"
      by (induction cps arbitrary: n t) (auto simp: utf8_codepoints_encode)
  qed
qed

subsection \<open>The repeat form keeps exactly the lower-cased words\<close>

text \<open>The maximal runs of word bytes, and their text with one space between them.\<close>

fun word_runs :: "string \<Rightarrow> string \<Rightarrow> string list" where
  "word_runs cur [] = (if cur = [] then [] else [cur])"
| "word_runs cur (c # cs) =
     (if is_word_byte c then word_runs (cur @ [c]) cs
      else (if cur = [] then [] else [cur]) @ word_runs [] cs)"

definition words_of :: "string \<Rightarrow> string list" where
  "words_of text = map lower_ascii (word_runs [] text)"

fun unwords :: "string list \<Rightarrow> string" where
  "unwords [] = []"
| "unwords [w] = w"
| "unwords (w # v # ws) = w @ '' '' @ unwords (v # ws)"

lemma unwords_snoc: "unwords (ws @ [w]) = (if ws = [] then w else unwords ws @ '' '' @ w)"
  by (induction ws rule: unwords.induct) auto

lemma unwords_Nil: "[] \<notin> set ws \<Longrightarrow> unwords ws = [] \<longleftrightarrow> ws = []"
  by (induction ws rule: unwords.induct) auto

lemma lower_ascii_simps [simp]:
  "lower_ascii [] = []" "lower_ascii (a @ b) = lower_ascii a @ lower_ascii b" "lower_ascii [c] = [to_lower c]"
  "lower_ascii a = [] \<longleftrightarrow> a = []" "[] = lower_ascii a \<longleftrightarrow> a = []"
  by (simp_all add: lower_ascii_def)

lemma normalize_loop_words:
  assumes "[] \<notin> set ws"
    and "cur \<noteq> [] \<Longrightarrow> out = unwords (ws @ [lower_ascii cur]) \<and> \<not> pending"
    and "cur = [] \<Longrightarrow> out = unwords ws \<and> (ws = [] \<or> pending)"
  shows "normalize_loop out pending cs = unwords (ws @ map lower_ascii (word_runs cur cs))"
  using assms
proof (induction cs arbitrary: out pending ws cur)
  case Nil
  then show ?case by auto
next
  case (Cons c cs)
  show ?case
  proof (cases "is_word_byte c")
    case True
    let ?out = "(if pending \<and> out \<noteq> [] then out @ '' '' else out) @ [to_lower c]"
    have "?out = unwords (ws @ [lower_ascii (cur @ [c])])"
      using Cons.prems by (cases "cur = []") (auto simp: unwords_snoc unwords_Nil)
    then have "normalize_loop ?out False cs = unwords (ws @ map lower_ascii (word_runs (cur @ [c]) cs))"
      using Cons.prems(1) by (intro Cons.IH) auto
    with True show ?thesis by simp
  next
    case False
    let ?ws = "ws @ map lower_ascii (if cur = [] then [] else [cur])"
    have "normalize_loop out True cs = unwords (?ws @ map lower_ascii (word_runs [] cs))"
      using Cons.prems by (intro Cons.IH) auto
    with False show ?thesis by simp
  qed
qed

lemma normalize_for_repeat_words: "normalize_for_repeat text = unwords (words_of text)"
  using normalize_loop_words [of "[]" "[]" "[]" False "text"] by (simp add: normalize_for_repeat_def words_of_def)

lemma code_to_lower: "is_upper c \<Longrightarrow> code (to_lower c) = code c + 32"
  by (simp add: to_lower_def is_upper_def code_def)

lemma to_lower_idem [simp]: "to_lower (to_lower c) = to_lower c"
proof (cases "is_upper c")
  case True
  then have "\<not> is_upper (to_lower c)" using code_to_lower [OF True] by (simp add: is_upper_def code_def)
  then show ?thesis by (simp add: to_lower_def)
qed (simp add: to_lower_def)

lemma is_word_byte_lower [simp]: "is_word_byte (to_lower c) = is_word_byte c"
proof (cases "is_upper c")
  case True
  then have "is_lower (to_lower c)"
    using code_to_lower [OF True] by (simp add: is_upper_def is_lower_def code_def)
  with True show ?thesis by (simp add: is_word_byte_def is_alnum_def is_alpha_def)
qed (simp add: to_lower_def)

lemma word_runs_word: "list_all is_word_byte w \<Longrightarrow> word_runs cur (w @ cs) = word_runs (cur @ w) cs"
  by (induction w arbitrary: cur) auto

lemma word_runs_bytes:
  "list_all is_word_byte cur \<Longrightarrow> list_all (\<lambda>w. w \<noteq> [] \<and> list_all is_word_byte w) (word_runs cur cs)"
  by (induction cs arbitrary: cur) auto

lemma word_runs_unwords:
  "list_all (\<lambda>w. w \<noteq> [] \<and> list_all is_word_byte w) ws \<Longrightarrow> word_runs [] (unwords ws) = ws"
proof (induction ws rule: unwords.induct)
  case (2 w)
  then show ?case using word_runs_word [of w "[]" "[]"] by simp
next
  case (3 w v ws)
  have "\<not> is_word_byte (CHR '' '')"
    by (simp add: is_word_byte_def is_alnum_def is_alpha_def is_lower_def is_upper_def is_digit_def code_def)
  then have "word_runs w ('' '' @ unwords (v # ws)) = w # word_runs [] (unwords (v # ws))" using 3 by simp
  with 3 show ?case using word_runs_word [of w "[]" "'' '' @ unwords (v # ws)"] by simp
qed simp

lemma words_of_normal [simp]: "words_of (normalize_for_repeat text) = words_of text"
proof -
  have "list_all (\<lambda>w. w \<noteq> [] \<and> list_all is_word_byte w) (words_of text)"
    using word_runs_bytes [of "[]" "text"] by (auto simp: words_of_def list_all_iff lower_ascii_def)
  then have "word_runs [] (normalize_for_repeat text) = words_of text"
    unfolding normalize_for_repeat_words by (rule word_runs_unwords)
  then show ?thesis by (simp add: words_of_def lower_ascii_def)
qed

lemma normalize_eq_iff: "normalize_for_repeat a = normalize_for_repeat b \<longleftrightarrow> words_of a = words_of b"
  by (metis normalize_for_repeat_words words_of_normal)

subsection \<open>What an allowed text cannot contain\<close>

lemma check_allowed_iff:
  "verdict_allowed (check_output_text text cfg recent now) \<longleftrightarrow>
     \<not> list_all is_space text \<and>
     (\<exists>n. utf8_codepoints text = Some n \<and> n \<le> max_codepoints cfg) \<and>
     \<not> has_url (lower_ascii text) \<and>
     \<not> followed_by_word text (CHR ''@'') \<and> \<not> contains_sub (lower_ascii text) ''did:'' \<and>
     \<not> followed_by_word text (CHR ''#'') \<and>
     denied_by cfg (lower_ascii text) = None \<and>
     \<not> is_repeat cfg text recent now"
  by (auto simp: check_output_text_def verdict_allowed_def refuse_def Let_def split: option.splits)

lemma denied_by_None:
  "denied_by cfg s = None \<longleftrightarrow> (\<forall>t \<in> set (denied_terms cfg). t \<noteq> [] \<longrightarrow> \<not> term_matches s t)"
  by (auto simp: denied_by_def find_None_iff)

lemma is_repeat_iff:
  "is_repeat cfg text recent now \<longleftrightarrow> 0 < repeat_window_seconds cfg \<and>
     (\<exists>r \<in> set recent. now - at_epoch r \<le> repeat_window_seconds cfg \<and> words_of (recent_text r) = words_of text)"
  by (auto simp: is_repeat_def list_ex_iff normalize_eq_iff)

text \<open>The loaded denylist holds non-empty terms in lower case, so each of them is live.\<close>

lemma load_denylist_terms:
  assumes "load_denylist path fs = Inr ts" and "t \<in> set ts"
  shows "t \<noteq> []" and "lower_ascii t = t" and "CHR ''#'' \<notin> set t"
proof -
  obtain line l where l: "list_entry line = Some l" and t: "t = lower_ascii l"
    using assms by (auto simp: load_denylist_def list_entries_def List.map_filter_def split: file_state.splits)
  show "t \<noteq> []" using list_entry_ok(1) [OF l] t by simp
  show "lower_ascii t = t" by (simp add: t lower_ascii_def)
  have "to_lower c = CHR ''#'' \<Longrightarrow> c = CHR ''#''" for c
  proof (cases "is_upper c")
    case True
    show "to_lower c = CHR ''#'' \<Longrightarrow> c = CHR ''#''"
      using code_to_lower [OF True] True by (simp add: is_upper_def code_def)
  qed (simp add: to_lower_def)
  then show "CHR ''#'' \<notin> set t" using list_entry_ok(2) [OF l] by (force simp: t lower_ascii_def)
qed

end
