(* ===== verification/Protocol_Syntax.thy ===== *)
theory Protocol_Syntax
  imports Bytes "HOL-Library.Sublist"
begin

text \<open>
  The identifier syntax of the protocol layer (src/protocol/protocol.hpp and
  protocol.cpp): DIDs, NSIDs, CIDs, record keys, TIDs, handles and AT URIs, each with the
  grammar its scanning loop decides.
\<close>

definition lower_digit_dash :: "char \<Rightarrow> bool" where
  "lower_digit_dash c \<longleftrightarrow> is_lower c \<or> is_digit c \<or> c = CHR ''-''"

definition did_char :: "char \<Rightarrow> bool" where
  "did_char c \<longleftrightarrow> is_alnum c \<or> c \<in> set ''._:%-''"

definition is_did :: "string \<Rightarrow> bool" where
  "is_did value =
     (if \<not> starts_with value ''did:'' \<or> length value \<le> 8 \<or> 2048 < length value \<or>
         last value = CHR '':'' then False
      else if \<not> list_all did_char value then False
      else case find_from '':'' value 4 of
        None \<Rightarrow> False
      | Some method_end \<Rightarrow>
          if method_end = 4 \<or> length value \<le> method_end + 1 then False
          else list_all lower_digit_dash (substr value 4 (method_end - 4)))"

text \<open>The scan of \<open>is_nsid\<close>: \<open>i\<close>, \<open>start\<close> and \<open>components\<close> are its variables.\<close>

fun nsid_loop :: "string \<Rightarrow> nat \<Rightarrow> nat \<Rightarrow> nat \<Rightarrow> string \<Rightarrow> (nat \<times> nat) option" where
  "nsid_loop value i start components [] = Some (start, components)"
| "nsid_loop value i start components (c # cs) =
     (if c = CHR ''.'' then
        (if i = start \<or> value ! start = CHR ''-'' \<or> value ! (i - 1) = CHR ''-'' then None
         else nsid_loop value (i + 1) (i + 1) (components + 1) cs)
      else if lower_digit_dash c then nsid_loop value (i + 1) start components cs
      else None)"

definition is_nsid :: "string \<Rightarrow> bool" where
  "is_nsid value =
     (if value = [] \<or> hd value = CHR ''.'' \<or> last value = CHR ''.'' then False
      else case nsid_loop value 0 0 0 value of
        None \<Rightarrow> False
      | Some (start, components) \<Rightarrow>
          if length value \<le> start \<or> value ! start = CHR ''-'' \<or> last value = CHR ''-'' then False
          else 3 \<le> components + 1)"

definition base58 :: string where
  "base58 = ''123456789ABCDEFGHJKLMNPQRSTUVWXYZabcdefghijkmnopqrstuvwxyz''"

definition cid_char :: "char \<Rightarrow> bool" where
  "cid_char c \<longleftrightarrow> is_lower c \<or> (code CHR ''2'' \<le> code c \<and> code c \<le> code CHR ''7'')"

definition is_cid :: "string \<Rightarrow> bool" where
  "is_cid value =
     (if starts_with value ''Qm'' then
        (if length value \<noteq> 46 then False else list_all (\<lambda>c. c \<in> set base58) (drop 2 value))
      else if \<not> starts_with value ''b'' \<or> length value < 10 then False
      else list_all cid_char (drop 1 value))"

definition record_key_char :: "char \<Rightarrow> bool" where
  "record_key_char c \<longleftrightarrow> is_alnum c \<or> c \<in> set ''._:~-''"

definition is_record_key :: "string \<Rightarrow> bool" where
  "is_record_key value =
     (if value = [] \<or> 512 < length value \<or> value = ''.'' \<or> value = ''..'' then False
      else list_all record_key_char value)"

definition is_tid :: "string \<Rightarrow> bool" where
  "is_tid value =
     (if length value \<noteq> 13 then False
      else list_all (\<lambda>c. c \<in> set ''234567abcdefghijklmnopqrstuvwxyz'') value)"

definition bad_label :: "string \<Rightarrow> bool" where
  "bad_label label \<longleftrightarrow>
     label = [] \<or> hd label = CHR ''-'' \<or> last label = CHR ''-'' \<or> \<not> list_all lower_digit_dash label"

text \<open>The label loop of \<open>is_handle\<close>; the argument is the text from \<open>label_start\<close> on.\<close>

function handle_labels :: "string \<Rightarrow> bool" where
  "handle_labels rest =
     (if rest = [] then True
      else case find_sub ''.'' rest of
        None \<Rightarrow> \<not> bad_label rest
      | Some dot \<Rightarrow>
          if bad_label (take dot rest) then False else handle_labels (drop (dot + 1) rest))"
  by pat_completeness auto
termination by (relation "measure length") auto

declare handle_labels.simps [simp del]

definition is_handle :: "string \<Rightarrow> bool" where
  "is_handle value =
     (if value = [] \<or> starts_with value ''did:'' \<or> \<not> contains_sub value ''.'' then False
      else if list_ex (\<lambda>c. c \<in> set '' /?#:@'') value then False
      else handle_labels value)"

definition is_did_key :: "string \<Rightarrow> bool" where
  "is_did_key value =
     (if \<not> is_did value \<or> \<not> starts_with value ''did:key:'' \<or> length value \<le> 9 \<or>
         value ! 8 \<noteq> CHR ''z'' then False
      else list_all (\<lambda>c. c \<in> set base58) (drop 9 value))"

record AtUri =
  uri_did :: string
  uri_collection :: string
  uri_rkey :: string

definition parse_at_uri :: "string \<Rightarrow> AtUri option" where
  "parse_at_uri value =
     (if \<not> starts_with value ''at://'' \<or> list_ex (\<lambda>c. c \<in> set ''?#'') value then None
      else
        let v = drop 5 value in
        (case find_sub ''/'' v of
           None \<Rightarrow> None
         | Some first \<Rightarrow>
             if first = 0 then None
             else (case find_from ''/'' v (first + 1) of
                 None \<Rightarrow> None
               | Some second \<Rightarrow>
                   if second = first + 1 \<or> second + 1 = length v then None
                   else
                     let out = \<lparr>uri_did = take first v,
                                uri_collection = substr v (first + 1) (second - first - 1),
                                uri_rkey = drop (second + 1) v\<rparr> in
                     if \<not> is_did (uri_did out) \<or> \<not> is_nsid (uri_collection out) \<or>
                        CHR ''/'' \<in> set (uri_rkey out) then None
                     else Some out)))"

subsection \<open>Splitting at a separator\<close>

fun split_on :: "char \<Rightarrow> string \<Rightarrow> string list" where
  "split_on d [] = [[]]"
| "split_on d (c # cs) =
     (if c = d then [] # split_on d cs
      else (c # hd (split_on d cs)) # tl (split_on d cs))"

lemma split_on_nonempty [simp]: "split_on d s \<noteq> []"
  by (cases s) auto

lemma split_on_append: "d \<notin> set a \<Longrightarrow> split_on d (a @ d # b) = a # split_on d b"
  by (induction a) auto

lemma split_on_plain: "d \<notin> set a \<Longrightarrow> split_on d a = [a]"
  by (induction a) auto

lemma split_on_single: "tl (split_on d s) = [] \<Longrightarrow> hd (split_on d s) = s"
  by (induction s) auto

lemma suffix_last_split: "suffix (last (split_on d s)) s"
proof (induction s)
  case (Cons c cs)
  show ?case
  proof (cases "tl (split_on d cs) = []")
    case True
    then show ?thesis using Cons split_on_single [OF True] by (auto simp: suffix_Cons)
  next
    case False
    then have "last (tl (split_on d cs)) = last (split_on d cs)" by (simp add: last_tl)
    with False Cons show ?thesis by (auto simp: suffix_Cons)
  qed
qed simp

lemma split_on_ends: "last (split_on d (s @ [d])) = [] \<and> tl (split_on d (s @ [d])) \<noteq> []"
  by (induction s) (auto simp: last_tl)

lemma list_all_butlast: "xs \<noteq> [] \<Longrightarrow> list_all P xs \<longleftrightarrow> list_all P (butlast xs) \<and> P (last xs)"
  by (cases xs rule: rev_cases) auto

subsection \<open>The grammars\<close>

lemma is_did_iff:
  "is_did v \<longleftrightarrow>
     (\<exists>m i. v = ''did:'' @ m @ '':'' @ i \<and> m \<noteq> [] \<and> list_all lower_digit_dash m \<and> i \<noteq> [] \<and>
        list_all did_char i \<and> last i \<noteq> CHR '':'' \<and> 8 < length v \<and> length v \<le> 2048)"
proof -
  have nc: "\<not> lower_digit_dash (CHR '':'')"
    by (simp add: lower_digit_dash_def is_lower_def is_digit_def code_def)
  have dc: "lower_digit_dash c \<Longrightarrow> did_char c" for c
    by (auto simp: lower_digit_dash_def did_char_def is_alnum_def is_alpha_def)
  have find: "find_from '':'' (''did:'' @ r) 4 = map_option ((+) 4) (find_sub '':'' r)" for r
    by (simp add: find_from_def)
  show ?thesis
  proof
    assume d: "is_did v"
    then obtain r where v: "v = ''did:'' @ r" by (auto simp: is_did_def starts_with_iff split: if_splits)
    from d obtain e where e: "find_sub '':'' r = Some e" and e0: "e \<noteq> 0" and lt: "e + 1 < length r"
      and m: "list_all lower_digit_dash (take e r)" and all: "list_all did_char v"
      and len: "8 < length v" "length v \<le> 2048" "last v \<noteq> CHR '':''"
      by (auto simp: is_did_def v find [simplified] substr_def split: if_splits option.splits)
    obtain a b where ab: "r = a @ CHR '':'' # b" "e = length a" using e by (auto simp: find_sub_char_Some)
    have "b \<noteq> []" using lt ab by (cases b) auto
    then show "\<exists>m i. v = ''did:'' @ m @ '':'' @ i \<and> m \<noteq> [] \<and> list_all lower_digit_dash m \<and> i \<noteq> [] \<and>
        list_all did_char i \<and> last i \<noteq> CHR '':'' \<and> 8 < length v \<and> length v \<le> 2048"
      using e0 m all len ab by (intro exI [of _ a] exI [of _ b]) (auto simp: v)
  next
    assume "\<exists>m i. v = ''did:'' @ m @ '':'' @ i \<and> m \<noteq> [] \<and> list_all lower_digit_dash m \<and> i \<noteq> [] \<and>
        list_all did_char i \<and> last i \<noteq> CHR '':'' \<and> 8 < length v \<and> length v \<le> 2048"
    then obtain m i where v: "v = ''did:'' @ (m @ CHR '':'' # i)" and m: "m \<noteq> []" "list_all lower_digit_dash m"
      and i: "i \<noteq> []" "list_all did_char i" "last i \<noteq> CHR '':''" and len: "8 < length v" "length v \<le> 2048"
      by auto
    have f: "find_from '':'' v 4 = Some (4 + length m)"
      unfolding v find using m(2) nc by (auto simp: find_sub_char_Some list_all_iff)
    have "list_all did_char v"
      using m i dc by (auto simp: v list_all_iff did_char_def is_alnum_def is_alpha_def is_lower_def code_def)
    moreover have "last v = last i" "substr v 4 (length m) = m" using i(1) by (simp_all add: v substr_def)
    ultimately show "is_did v" using m i len f by (simp add: is_did_def v starts_with_def)
  qed
qed

lemma is_did_chars: "is_did v \<Longrightarrow> c \<in> set v \<Longrightarrow> did_char c"
  by (auto simp: is_did_def list_all_iff split: if_splits)

definition nsid_part :: "string \<Rightarrow> bool" where
  "nsid_part p \<longleftrightarrow> p \<noteq> [] \<and> hd p \<noteq> CHR ''-'' \<and> last p \<noteq> CHR ''-'' \<and> list_all lower_digit_dash p"

lemma nsid_part_Nil [simp]: "\<not> nsid_part []"
  by (simp add: nsid_part_def)

text \<open>The loop reads the rest of a part it is inside of, then the parts after it.\<close>

lemma nsid_loop_iff:
  assumes "value = pre @ part @ rest" and "list_all lower_digit_dash part"
    and "start = length pre" and "i = length pre + length part"
  shows "nsid_loop value i start n rest = Some (s, k) \<longleftrightarrow>
    (let ps = split_on (CHR ''.'') (part @ rest) in
       list_all nsid_part (butlast ps) \<and> list_all lower_digit_dash (last ps) \<and>
       k + 1 = n + length ps \<and> s \<le> length value \<and> drop s value = last ps)"
  using assms
proof (induction rest arbitrary: pre part start i n)
  case Nil
  have "CHR ''.'' \<notin> set part"
    using Nil.prems(2) by (auto simp: list_all_iff lower_digit_dash_def is_lower_def is_digit_def code_def)
  then have "split_on (CHR ''.'') (part @ []) = [part]" by (simp add: split_on_plain)
  moreover have "start = s \<longleftrightarrow> s \<le> length value \<and> drop s value = part"
  proof
    assume "s \<le> length value \<and> drop s value = part"
    then have "length value - s = length part" "s \<le> length value" by (metis length_drop, simp)
    then show "start = s" using Nil.prems by simp
  next
    assume "start = s"
    then show "s \<le> length value \<and> drop s value = part" using Nil.prems by simp
  qed
  ultimately show ?case using Nil.prems by auto
next
  case (Cons c cs)
  have dot: "CHR ''.'' \<notin> set part"
    using Cons.prems(2) by (auto simp: list_all_iff lower_digit_dash_def is_lower_def is_digit_def code_def)
  show ?case
  proof (cases "c = CHR ''.''")
    case True
    have IH: "nsid_loop value (i + 1) (i + 1) (n + 1) cs = Some (s, k) \<longleftrightarrow>
      (let ps = split_on (CHR ''.'') cs in
       list_all nsid_part (butlast ps) \<and> list_all lower_digit_dash (last ps) \<and>
       k + 1 = n + 1 + length ps \<and> s \<le> length value \<and> drop s value = last ps)"
      using Cons.IH [of "pre @ part @ [c]" "[]" "i + 1" "i + 1" "n + 1"] Cons.prems True by simp
    have part: "part \<noteq> [] \<Longrightarrow> value ! start = hd part \<and> value ! (i - 1) = last part"
    proof
      assume pne: "part \<noteq> []"
      then show "value ! start = hd part" using Cons.prems by (simp add: nth_append hd_conv_nth)
      have "value = (pre @ part) @ c # cs" "i - 1 < length (pre @ part)" using Cons.prems pne by auto
      then have "value ! (i - 1) = (pre @ part) ! (i - 1)" by (simp only: nth_append if_True)
      also have "\<dots> = last (pre @ part)" using Cons.prems pne by (subst last_conv_nth) auto
      finally show "value ! (i - 1) = last part" using pne by simp
    qed
    have "(i = start \<or> value ! start = CHR ''-'' \<or> value ! (i - 1) = CHR ''-'') \<longleftrightarrow> \<not> nsid_part part"
      using part Cons.prems by (cases "part = []") (auto simp: nsid_part_def)
    then show ?thesis
      using True IH dot by (auto simp: split_on_append Let_def)
  next
    case False
    show ?thesis
    proof (cases "lower_digit_dash c")
      case True
      then show ?thesis
        using False Cons.IH [of pre "part @ [c]" start "i + 1" n] Cons.prems by simp
    next
      case nc: False
      have "\<not> (list_all nsid_part (butlast ps) \<and> list_all lower_digit_dash (last ps))"
        if ps: "ps = split_on (CHR ''.'') (part @ c # cs)" for ps
      proof -
        have "ps = (part @ c # hd (split_on (CHR ''.'') cs)) # tl (split_on (CHR ''.'') cs)"
          using False dot unfolding ps by (induction part) auto
        then show ?thesis
          using nc by (cases "tl (split_on (CHR ''.'') cs)") (auto simp: nsid_part_def)
      qed
      with False nc show ?thesis by (auto simp: Let_def)
    qed
  qed
qed

lemma is_nsid_iff:
  "is_nsid v \<longleftrightarrow> 3 \<le> length (split_on (CHR ''.'') v) \<and> list_all nsid_part (split_on (CHR ''.'') v)"
proof -
  let ?ps = "split_on (CHR ''.'') v"
  have loop: "nsid_loop v 0 0 0 v = Some (s, k) \<longleftrightarrow>
       list_all nsid_part (butlast ?ps) \<and> list_all lower_digit_dash (last ?ps) \<and>
       k + 1 = length ?ps \<and> s \<le> length v \<and> drop s v = last ?ps" for s k
    using nsid_loop_iff [of v "[]" "[]" v 0 0 0 s k] by (simp add: Let_def)
  have all: "list_all nsid_part ?ps \<longleftrightarrow> list_all nsid_part (butlast ?ps) \<and> nsid_part (last ?ps)"
    by (rule list_all_butlast) simp
  have loop_all: "(case nsid_loop v 0 0 0 v of None \<Rightarrow> False
       | Some (start, components) \<Rightarrow>
          if length v \<le> start \<or> v ! start = CHR ''-'' \<or> last v = CHR ''-'' then False
          else 3 \<le> components + 1) \<longleftrightarrow> 3 \<le> length ?ps \<and> list_all nsid_part ?ps" (is "?L \<longleftrightarrow> ?R")
  proof
    assume ?L
    then obtain st k where l: "nsid_loop v 0 0 0 v = Some (st, k)" and st: "st < length v"
      and h: "v ! st \<noteq> CHR ''-''" and la: "last v \<noteq> CHR ''-''" and k: "3 \<le> k + 1"
      by (auto split: option.splits if_splits)
    from l have "list_all nsid_part (butlast ?ps)" "list_all lower_digit_dash (last ?ps)"
      "k + 1 = length ?ps" and d: "drop st v = last ?ps" by (simp_all add: loop)
    moreover have "hd (last ?ps) = v ! st" "last (last ?ps) = last v" "last ?ps \<noteq> []"
      using st by (simp_all add: d [symmetric] hd_drop_conv_nth)
    ultimately show ?R using h la k by (simp add: all nsid_part_def)
  next
    assume r: ?R
    define st where "st = length v - length (last ?ps)"
    obtain z where z: "v = z @ last ?ps" using suffix_last_split [of "CHR ''.''" v] by (auto simp: suffix_def)
    have "length v = length z + length (last ?ps)" using arg_cong [OF z, of length] by simp
    then have "st = length z" by (simp add: st_def)
    then have d: "drop st v = last ?ps" and st: "st \<le> length v"
      using arg_cong [OF z, of "drop (length z)"] by (simp_all add: st_def)
    have "nsid_loop v 0 0 0 v = Some (st, length ?ps - 1)"
      unfolding loop using r d st by (auto simp: all nsid_part_def)
    moreover have "last ?ps \<noteq> []" using r by (auto simp: all nsid_part_def)
    moreover have "st < length v" using d calculation(2) by (metis drop_all linorder_not_less)
    moreover have "v ! st = hd (last ?ps)" "last v = last (last ?ps)"
      using \<open>st < length v\<close> by (simp_all add: d [symmetric] hd_drop_conv_nth)
    ultimately show ?L using r by (auto simp: all nsid_part_def)
  qed
  have "?ps = [[]] @ split_on (CHR ''.'') w" if "v = CHR ''.'' # w" for w using that by simp
  then have first: "v \<noteq> [] \<Longrightarrow> hd v = CHR ''.'' \<Longrightarrow> \<not> list_all nsid_part ?ps"
    by (cases v) (auto simp: nsid_part_def)
  have "v \<noteq> [] \<Longrightarrow> last v = CHR ''.'' \<Longrightarrow> last ?ps = []"
    using split_on_ends [of "CHR ''.''" "butlast v"] append_butlast_last_id [of v] by simp
  then have "v \<noteq> [] \<Longrightarrow> last v = CHR ''.'' \<Longrightarrow> \<not> list_all nsid_part ?ps"
    by (simp add: all nsid_part_def)
  with first show ?thesis
    unfolding is_nsid_def loop_all by (cases "v = []") auto
qed

lemma split_on_chars: "c \<in> set s \<Longrightarrow> c = d \<or> (\<exists>p \<in> set (split_on d s). c \<in> set p)"
proof (induction s)
  case (Cons x s)
  show ?case
  proof (cases "c = d \<or> x = d")
    case True
    with Cons show ?thesis by auto
  next
    case False
    have sp: "set (split_on d s) = insert (hd (split_on d s)) (set (tl (split_on d s)))"
      by (metis list.collapse list.simps(15) split_on_nonempty)
    from False Cons show ?thesis by (auto simp: sp)
  qed
qed simp

lemma is_nsid_chars: "is_nsid v \<Longrightarrow> c \<in> set v \<Longrightarrow> lower_digit_dash c \<or> c = CHR ''.''"
  using split_on_chars [of c v "CHR ''.''"] by (auto simp: is_nsid_iff list_all_iff nsid_part_def)

lemma delimiter_chars:
  "\<not> did_char (CHR ''/'')" "\<not> did_char (CHR ''?'')" "\<not> did_char (CHR ''#'')"
  "\<not> lower_digit_dash (CHR ''/'')" "\<not> lower_digit_dash (CHR ''?'')" "\<not> lower_digit_dash (CHR ''#'')"
  by (simp_all add: did_char_def lower_digit_dash_def is_alnum_def is_alpha_def is_lower_def is_upper_def
      is_digit_def code_def)

definition format_at_uri :: "AtUri \<Rightarrow> string" where
  "format_at_uri u = ''at://'' @ uri_did u @ ''/'' @ uri_collection u @ ''/'' @ uri_rkey u"

lemma parse_at_uri_iff:
  "parse_at_uri v = Some u \<longleftrightarrow>
     v = format_at_uri u \<and> is_did (uri_did u) \<and> is_nsid (uri_collection u) \<and>
     uri_rkey u \<noteq> [] \<and> (\<forall>c \<in> set ''/?#''. c \<notin> set (uri_rkey u))"
proof
  assume p: "parse_at_uri v = Some u"
  then obtain r where v: "v = ''at://'' @ r" by (auto simp: parse_at_uri_def starts_with_iff split: if_splits)
  have r: "drop 5 v = r" by (simp add: v)
  from p obtain f s where f: "find_sub ''/'' r = Some f" and s: "find_from ''/'' r (f + 1) = Some s"
    and nonempty: "s + 1 \<noteq> length r"
    and u: "u = \<lparr>uri_did = take f r, uri_collection = substr r (f + 1) (s - f - 1), uri_rkey = drop (s + 1) r\<rparr>"
    and ok: "is_did (uri_did u)" "is_nsid (uri_collection u)" "CHR ''/'' \<notin> set (uri_rkey u)"
    and q: "\<forall>c \<in> set v. c \<notin> set ''?#''"
    unfolding parse_at_uri_def r by (auto simp: Let_def list_ex_iff split: if_splits option.splits)
  obtain a b where ab: "r = a @ CHR ''/'' # b" "f = length a" using f by (auto simp: find_sub_char_Some)
  have "find_sub ''/'' b = Some (s - f - 1)" and sf: "f + 1 \<le> s"
    using s find_from_Some [OF s] by (auto simp: find_from_def ab split: if_splits)
  then obtain c e where ce: "b = c @ CHR ''/'' # e" "s - f - 1 = length c" by (auto simp: find_sub_char_Some)
  then have s': "s = length a + length c + 1" using sf ab by simp
  have parts: "uri_did u = a" "uri_collection u = c" "uri_rkey u = e"
    using s' by (simp_all add: u ab ce substr_def)
  moreover have "e \<noteq> []" using nonempty s' ab ce by auto
  ultimately show "v = format_at_uri u \<and> is_did (uri_did u) \<and> is_nsid (uri_collection u) \<and>
     uri_rkey u \<noteq> [] \<and> (\<forall>c \<in> set ''/?#''. c \<notin> set (uri_rkey u))"
    using ok q by (auto simp: format_at_uri_def v ab ce)
next
  assume a: "v = format_at_uri u \<and> is_did (uri_did u) \<and> is_nsid (uri_collection u) \<and>
     uri_rkey u \<noteq> [] \<and> (\<forall>c \<in> set ''/?#''. c \<notin> set (uri_rkey u))"
  let ?d = "uri_did u" and ?c = "uri_collection u" and ?k = "uri_rkey u"
  have v: "v = ''at://'' @ ?d @ CHR ''/'' # ?c @ CHR ''/'' # ?k" using a by (simp add: format_at_uri_def)
  have no: "x \<notin> set ?d" "x \<notin> set ?c" if "x \<in> set ''/?#''" for x
    using that a is_did_chars [of ?d x] is_nsid_chars [of ?c x] delimiter_chars by auto
  have r: "drop 5 v = ?d @ CHR ''/'' # ?c @ CHR ''/'' # ?k" by (simp add: v)
  have f: "find_sub ''/'' (?d @ CHR ''/'' # ?c @ CHR ''/'' # ?k) = Some (length ?d)"
    using no by (auto simp: find_sub_char_Some)
  have f2: "find_sub ''/'' (?c @ CHR ''/'' # ?k) = Some (length ?c)"
    using no by (auto simp: find_sub_char_Some)
  have s: "find_from ''/'' (?d @ CHR ''/'' # ?c @ CHR ''/'' # ?k) (length ?d + 1) = Some (length ?d + 1 + length ?c)"
    by (simp add: find_from_def f2)
  have ne: "?d \<noteq> []" "?c \<noteq> []" using a by (auto simp: is_did_def is_nsid_def)
  have nk: "\<forall>x \<in> set ''/?#''. x \<notin> set ?k" using a by blast
  have "x \<notin> set v" if "x \<in> set ''?#''" for x
    using that no [of x] nk unfolding v by auto
  then have "\<not> list_ex (\<lambda>c. c \<in> set ''?#'') v" unfolding list_ex_iff by blast
  moreover have "starts_with v ''at://''" by (simp add: v starts_with_def)
  moreover have ok: "is_did ?d" "is_nsid ?c" "CHR ''/'' \<notin> set ?k" "?k \<noteq> []" using a by simp_all
  let ?r = "?d @ CHR ''/'' # ?c @ CHR ''/'' # ?k"
  let ?n = "length ?d + 1 + length ?c"
  have cut: "take (length ?d) ?r = ?d" "substr ?r (length ?d + 1) (?n - length ?d - 1) = ?c" "drop (?n + 1) ?r = ?k"
    by (simp_all add: substr_def)
  have ne': "length ?d \<noteq> 0" "?n \<noteq> length ?d + 1" "?n + 1 \<noteq> length ?r" using ne ok(4) by simp_all
  ultimately show "parse_at_uri v = Some u"
    unfolding parse_at_uri_def Let_def r f option.case s cut
    using ok ne' by (simp del: One_nat_def)
qed

lemma handle_labels_iff:
  "handle_labels r \<longleftrightarrow>
     (let ps = split_on (CHR ''.'') r in
      list_all (\<lambda>p. \<not> bad_label p) (if last ps = [] then butlast ps else ps))"
proof (induction r rule: handle_labels.induct)
  case (1 r)
  show ?case
  proof (cases "find_sub ''.'' r")
    case None
    then have "CHR ''.'' \<notin> set r" by (simp add: find_sub_char_None)
    then show ?thesis using None by (subst handle_labels.simps) (auto simp: split_on_plain find_sub_char_None [THEN iffD2])
  next
    case (Some d)
    then obtain a b where ab: "r = a @ CHR ''.'' # b" "CHR ''.'' \<notin> set a" "d = length a"
      by (auto simp: find_sub_char_Some)
    have "handle_labels b \<longleftrightarrow> (let ps = split_on (CHR ''.'') b in
      list_all (\<lambda>p. \<not> bad_label p) (if last ps = [] then butlast ps else ps))"
      if "\<not> bad_label a"
      using 1 [OF _ Some] that ab by simp
    then show ?thesis
      using ab Some by (subst handle_labels.simps) (auto simp: split_on_append Let_def)
  qed
qed

text \<open>
  A handle is dot-separated labels of lower-case letters, digits and inner hyphens, except
  that one trailing dot is accepted: the loop stops before it looks at the empty label.
\<close>

lemma is_handle_iff:
  "is_handle v \<longleftrightarrow> CHR ''.'' \<in> set v \<and>
     (let ps = split_on (CHR ''.'') v in
      list_all (\<lambda>p. \<not> bad_label p) (if last ps = [] then butlast ps else ps))"
proof -
  have chars: "handle_labels v \<Longrightarrow> c \<in> set v \<Longrightarrow> lower_digit_dash c \<or> c = CHR ''.''" for c
  proof -
    assume h: "handle_labels v" and c: "c \<in> set v"
    let ?ps = "split_on (CHR ''.'') v"
    have "p \<in> set ?ps \<Longrightarrow> p = [] \<or> list_all lower_digit_dash p" for p
    proof -
      assume p: "p \<in> set ?ps"
      have "?ps = butlast ?ps @ [last ?ps]" by simp
      with p have "p \<in> set (butlast ?ps) \<or> p = last ?ps"
        by (metis Un_iff append_butlast_last_id empty_iff empty_set insert_iff list.simps(15) set_append split_on_nonempty)
      then have "p = [] \<or> p \<in> set (if last ?ps = [] then butlast ?ps else ?ps)"
        using p by (cases "last ?ps = []") auto
      with h have "p = [] \<or> \<not> bad_label p"
        unfolding handle_labels_iff Let_def list_all_iff by blast
      then show "p = [] \<or> list_all lower_digit_dash p" unfolding bad_label_def by blast
    qed
    with split_on_chars [OF c, of "CHR ''.''"] show ?thesis unfolding list_all_iff by fastforce
  qed
  have bad: "lower_digit_dash c \<or> c = CHR ''.'' \<Longrightarrow> c \<notin> set '' /?#:@''" for c
    by (auto simp: lower_digit_dash_def is_lower_def is_digit_def code_def)
  have sub: "contains_sub v ''.'' \<longleftrightarrow> CHR ''.'' \<in> set v"
    using find_sub_char_None [of "CHR ''.''" v] by (auto simp: contains_sub_def)
  have no_special: "\<not> list_ex (\<lambda>c. c \<in> set '' /?#:@'') v" if h: "handle_labels v"
    unfolding list_ex_iff using chars [OF h] bad by blast
  have no_did: "\<not> starts_with v ''did:''" if h: "handle_labels v"
  proof
    assume "starts_with v ''did:''"
    then have "CHR '':'' \<in> set v" by (auto simp: starts_with_iff)
    from bad [OF chars [OF h this]] show False by simp
  qed
  have "is_handle v \<longleftrightarrow> CHR ''.'' \<in> set v \<and> handle_labels v"
  proof
    assume "is_handle v"
    then show "CHR ''.'' \<in> set v \<and> handle_labels v" by (simp add: is_handle_def sub split: if_splits)
  next
    assume h: "CHR ''.'' \<in> set v \<and> handle_labels v"
    then have "v \<noteq> []" by auto
    with h no_special no_did show "is_handle v" unfolding is_handle_def sub by simp
  qed
  then show ?thesis unfolding handle_labels_iff .
qed

end
