(* ===== verification/Engagement.thy ===== *)
theory Engagement
  imports Protocol_Syntax Outbound_Document
begin

text \<open>
  Whom an unattended account may interact with (src/src/app/scheduler/engagement.hpp and
  engagement.cpp): the operator's do-not-engage list and the consent rule.  A
  \<open>std::set\<close> of strings is only asked for membership, so it is a set here.
\<close>

datatype EngagementMode = Invited | Open

fun engagement_mode_name :: "EngagementMode \<Rightarrow> string" where
  "engagement_mode_name Open = ''open''"
| "engagement_mode_name Invited = ''invited''"

datatype EngagementRefusal = Engage_None | OptedOut | NotInvited

fun engagement_refusal_name :: "EngagementRefusal \<Rightarrow> string" where
  "engagement_refusal_name Engage_None = ''ok''"
| "engagement_refusal_name OptedOut = ''opted_out''"
| "engagement_refusal_name NotInvited = ''not_invited''"

record DoNotEngage =
  dids :: "string set"
  invalid_lines :: nat

definition nobody :: DoNotEngage where
  "nobody = \<lparr>dids = {}, invalid_lines = 0\<rparr>"

definition add_line :: "string \<Rightarrow> DoNotEngage \<Rightarrow> DoNotEngage" where
  "add_line did l =
     (if is_did did then l\<lparr>dids := insert did (dids l)\<rparr>
      else l\<lparr>invalid_lines := invalid_lines l + 1\<rparr>)"

definition load_do_not_engage :: "string \<Rightarrow> fs \<Rightarrow> DoNotEngage result" where
  "load_do_not_engage path fs =
     (case fs path of
        Missing \<Rightarrow> Inr nobody
      | Unopenable \<Rightarrow> throw Runtime_error (''cannot read do-not-engage list '' @ path)
      | Unreadable \<Rightarrow> Inr nobody
      | Present text \<Rightarrow> Inr (fold add_line (list_entries text) nobody))"

definition at_uri_authority :: "string \<Rightarrow> string" where
  "at_uri_authority uri =
     (if \<not> starts_with uri ''at://'' then []
      else let rest = drop 5 uri in
        (case find_sub ''/'' rest of None \<Rightarrow> rest | Some n \<Rightarrow> take n rest))"

text \<open>The argument is the list of \<open>author_did\<close> of the journal's events.\<close>

definition invited_authors :: "string list \<Rightarrow> string set" where
  "invited_authors authors = set (filter (\<lambda>a. a \<noteq> []) authors)"

definition action_target_did :: "OutboundAction \<Rightarrow> string" where
  "action_target_did a =
     (case act_kind a of
        Kind_Reply \<Rightarrow> at_uri_authority (act_reply_parent a)
      | Kind_Like \<Rightarrow> at_uri_authority (act_subject a)
      | Kind_Repost \<Rightarrow> at_uri_authority (act_subject a)
      | Kind_Follow \<Rightarrow> act_subject a
      | Kind_Post \<Rightarrow> []
      | Kind_Unfollow \<Rightarrow> []
      | Kind_Moderation \<Rightarrow> [])"

definition check_engagement ::
  "OutboundActionKind \<Rightarrow> string \<Rightarrow> EngagementMode \<Rightarrow> string set \<Rightarrow> DoNotEngage \<Rightarrow> EngagementRefusal" where
  "check_engagement kind target mode invited opted_out =
     (if target = [] then Engage_None
      else if target \<in> dids opted_out then OptedOut
      else if (kind = Kind_Like \<or> kind = Kind_Repost \<or> kind = Kind_Follow) \<and> mode = Invited \<and>
              target \<notin> invited then NotInvited
      else Engage_None)"

lemma fold_add_line:
  "dids (fold add_line ls l) = dids l \<union> {d \<in> set ls. is_did d} \<and>
   invalid_lines (fold add_line ls l) = invalid_lines l + length (filter (\<lambda>d. \<not> is_did d) ls)"
  by (induction ls arbitrary: l) (auto simp: add_line_def)

text \<open>Every identifier the operator lists, one per line, is on the loaded list.\<close>

lemma is_did_line:
  assumes "is_did d"
  shows "d \<noteq> [] \<and> CHR ''#'' \<notin> set d \<and> (\<forall>c \<in> set d. \<not> is_list_blank c \<and> code c \<noteq> 10)"
proof -
  have "did_char c \<Longrightarrow> c \<noteq> CHR ''#'' \<and> \<not> is_list_blank c \<and> code c \<noteq> 10" for c
    by (auto simp: did_char_def is_alnum_def is_alpha_def is_lower_def is_upper_def is_digit_def
        is_list_blank_def code_def)
  with assms show ?thesis using is_did_chars [OF assms] by (auto simp: is_did_def)
qed

lemma load_do_not_engage_lines:
  assumes "fs path = Present (concat (map (\<lambda>l. l @ [CHR 0x0A]) ds))" and "list_all is_did ds"
  shows "load_do_not_engage path fs = Inr \<lparr>dids = set ds, invalid_lines = 0\<rparr>"
proof -
  have e: "list_entries (concat (map (\<lambda>l. l @ [CHR 0x0A]) ds)) = ds"
    using assms(2) is_did_line by (intro list_entries_lines) (auto simp: list_all_iff)
  have "filter (\<lambda>d. \<not> is_did d) ds = []" "{d \<in> set ds. is_did d} = set ds"
    using assms(2) by (auto simp: list_all_iff filter_empty_conv)
  with e assms(1) fold_add_line [of ds nobody] show ?thesis
    by (simp add: load_do_not_engage_def nobody_def)
qed

lemma loaded_dids:
  assumes "load_do_not_engage path fs = Inr l" and "d \<in> dids l"
  shows "is_did d"
  using assms fold_add_line by (auto simp: load_do_not_engage_def nobody_def split: file_state.splits)

lemma check_engagement_ok:
  "check_engagement kind target mode invited opted_out = Engage_None \<longleftrightarrow>
     target = [] \<or>
     (target \<notin> dids opted_out \<and>
      (mode = Invited \<longrightarrow> kind \<in> {Kind_Like, Kind_Repost, Kind_Follow} \<longrightarrow> target \<in> invited))"
  by (auto simp: check_engagement_def)

text \<open>The target is the author of a well-formed reference.\<close>

lemma at_uri_authority_parsed:
  assumes "parse_at_uri v = Some u"
  shows "at_uri_authority v = uri_did u"
proof -
  have v: "v = ''at://'' @ uri_did u @ CHR ''/'' # uri_collection u @ ''/'' @ uri_rkey u" and d: "is_did (uri_did u)"
    using assms by (simp_all add: parse_at_uri_iff format_at_uri_def)
  have "CHR ''/'' \<notin> set (uri_did u)" using is_did_chars [OF d] delimiter_chars by blast
  then have "find_sub ''/'' (uri_did u @ CHR ''/'' # uri_collection u @ ''/'' @ uri_rkey u) = Some (length (uri_did u))"
    by (auto simp: find_sub_char_Some)
  then show ?thesis by (simp add: at_uri_authority_def v starts_with_def)
qed

end
