(* ===== verification/Samples.thy ===== *)
theory Samples
  imports Attempt Remote_Poll Breaker Text_Guard Engagement
begin

text \<open>
  Concrete values the witnesses evaluate the properties at: an action, a policy, a writer
  that counts its calls, and the documents of an installation whose gates are open.
\<close>

definition sample_action :: OutboundAction where
  "sample_action =
     \<lparr>act_kind = Kind_Post, act_text = ''hello'', act_rkey = ''3k2a'', act_created_at = ''2026-01-01T00:00:00Z'',
      act_digest = ''0123456789abcdef'', act_reply_root = [], act_reply_parent = [], act_subject = [],
      act_plan_score = Some 1, act_support_score = None\<rparr>"

definition sample_like :: OutboundAction where
  "sample_like =
     sample_action\<lparr>act_kind := Kind_Like, act_text := [],
                   act_subject := ''at://did:plc:abcdefg/app.bsky.feed.post/3k2a''\<rparr>"

definition sample_policy :: OutboundPolicy where
  "sample_policy =
     default_outbound_policy\<lparr>budgets :=
       (\<lambda>_. \<lparr>budget_enabled = True, max_in_window = 1, window_seconds = 60,
             min_interval_seconds = 30, duplicate_cooldown_seconds = 0\<rparr>)\<rparr>"

definition sample_proposal :: OutboundActionProposal where
  "sample_proposal = outbound_action_proposal sample_action"

definition sample_writer :: "nat OutboundWriter" where
  "sample_writer =
     \<lparr>connect = (\<lambda>n. (Inr (), n + 1)), resolve_record_cid = (\<lambda>_ n. (Inr ''cid'', n + 1)),
      put_record = (\<lambda>_ _ _ n. (Inr \<lparr>wr_uri = ''at://x'', wr_cid = ''cid''\<rparr>, n + 1))\<rparr>"

definition open_control_fields :: "(string \<times> node) list" where
  "open_control_fields =
     [(''format'', Node_String control_format), (''version'', Node_Number 1),
      (''paused'', Node_Bool False), (''writes_enabled'', Node_Bool True),
      (''dry_run'', Node_Bool False), (''approval_required'', Node_Bool False),
      (''approved_digests'', Node_Array [])]"

definition open_policy_fields :: "(string \<times> node) list" where
  "open_policy_fields =
     [(''format'', Node_String policy_format), (''version'', Node_Number 1),
      (''kinds'', Node_Object [(''post'', Node_Object [(''enabled'', Node_Bool True)])])]"

definition sample_parse :: "string \<Rightarrow> node option" where
  "sample_parse t =
     (if t = ''control'' then Some (Node_Object open_control_fields)
      else if t = ''policy'' then Some (Node_Object open_policy_fields)
      else if t = ''{}'' then Some (Node_Object (action_fields sample_action))
      else None)"

definition sample_json :: "(string option \<times> node) cjson" where
  "sample_json = table_cjson sample_parse (\<lambda>_. ''{}'')"

definition sample_files :: fs where
  "sample_files = (\<lambda>_. Missing)(''control.json'' := Present ''control'', ''policy.json'' := Present ''policy'')"

definition sample_env :: "(string option \<times> node, nat) attempt_env" where
  "sample_env =
     \<lparr>at_json = sample_json, at_tokenise = (\<lambda>t. [t]), at_rfc3339 = (\<lambda>_. ''2026-01-01T00:00:00Z''),
      at_policy_file = ''policy.json'', at_budget_file = ''budget.json'', at_control_file = ''control.json'',
      at_envelopes = None, at_has_spool = False, at_spool_io = io_ok, at_budget_io = io_ok,
      at_audit_append = Append_ok, at_journal_ok = True, at_writer = sample_writer, at_attest = None,
      at_mac = (\<lambda>_. None), at_external_ok = True\<rparr>"

definition sample_world :: "nat attempt_world" where
  "sample_world =
     \<lparr>aw_files = sample_files, aw_spool = \<lparr>pending = [], denied_dir = []\<rparr>, aw_audit = [],
      aw_journal = [], aw_net = 0\<rparr>"

lemma table_simps:
  "j_parse (table_cjson parse print) t = map_option (Pair None) (parse t)"
  "j_is_object (table_cjson parse print) (k, n) = (case n of Node_Object _ \<Rightarrow> True | _ \<Rightarrow> False)"
  "j_is_array (table_cjson parse print) (k, n) = (case n of Node_Array _ \<Rightarrow> True | _ \<Rightarrow> False)"
  "j_is_string (table_cjson parse print) (k, n) = (case n of Node_String _ \<Rightarrow> True | _ \<Rightarrow> False)"
  "j_is_number (table_cjson parse print) (k, n) = (case n of Node_Number _ \<Rightarrow> True | _ \<Rightarrow> False)"
  "j_is_bool (table_cjson parse print) (k, n) = (case n of Node_Bool _ \<Rightarrow> True | _ \<Rightarrow> False)"
  "j_is_true (table_cjson parse print) (k, n) = (case n of Node_Bool b \<Rightarrow> b | _ \<Rightarrow> False)"
  "j_is_null (table_cjson parse print) (k, n) = (case n of Node_Null \<Rightarrow> True | _ \<Rightarrow> False)"
  "j_item (table_cjson parse print) (k, n) key =
     (case n of Node_Object fs \<Rightarrow> map_option (Pair (Some key)) (map_of fs key) | _ \<Rightarrow> None)"
  "j_children (table_cjson parse print) (k, n) =
     (case n of Node_Object fs \<Rightarrow> map (\<lambda>(k, n). (Some k, n)) fs | Node_Array ns \<Rightarrow> map (Pair None) ns | _ \<Rightarrow> [])"
  "j_name (table_cjson parse print) (k, n) = k"
  "j_str (table_cjson parse print) (k, n) = (case n of Node_String s \<Rightarrow> Some s | _ \<Rightarrow> None)"
  "j_num (table_cjson parse print) (k, n) = (case n of Node_Number r \<Rightarrow> Finite r | _ \<Rightarrow> Finite 0)"
  "j_print (table_cjson parse print) = print"
  by (simp_all add: table_cjson_def)

lemma sample_control:
  "load_control_state sample_json ''control.json'' sample_files =
     Inr (default_control_state\<lparr>writes_enabled := True, dry_run := False, approval_required := False\<rparr>)"
  by (simp add: load_control_state_def sample_json_def table_simps sample_parse_def sample_files_def
      read_text_def open_control_fields_def ctl_require_string_def ctl_require_version_def ctl_require_bool_def
      ctl_optional_string_def nonempty_string_def string_value_def control_format_def to_uint32_def dbl_to_int_def trunc_zero_def
      lifted_def default_control_state_def control_validate_def parse_digests_def)

definition loaded_policy :: OutboundPolicy where
  "loaded_policy =
     default_outbound_policy\<lparr>budgets :=
       (budgets default_outbound_policy)(Kind_Post := default_budget\<lparr>budget_enabled := True\<rparr>)\<rparr>"

lemma sample_policy_loads:
  "load_outbound_policy sample_json ''policy.json'' sample_files = Inr loaded_policy"
proof -
  have k: "parse_outbound_kind ''post'' = Some Kind_Post" by code_simp
  have "validate_policy loaded_policy ''policy.json'' = Inr ()"
    using default_policy_ok
    by (simp add: validate_policy_iff policy_ok_def loaded_policy_def budget_ok_def budget_for_def default_budget_def
        default_outbound_policy_def kMaxActionsInWindow_def kMaxOutboundWindowSeconds_def)
  moreover have "fold_result (parse_policy_entry sample_json ''policy.json'')
      [(Some ''post'', Node_Object [(''enabled'', Node_Bool True)])] (default_outbound_policy, {}) =
      Inr (loaded_policy, {Kind_Post})"
    by (simp add: parse_policy_entry_def sample_json_def table_simps k parse_budget_def require_int64_def
        loaded_policy_def lifted_def integral_number_def default_budget_def)
  ultimately show ?thesis
    by (simp add: load_outbound_policy_def parse_outbound_policy_def sample_json_def table_simps sample_parse_def
        sample_files_def read_text_def open_policy_fields_def policy_format_def to_uint32_def dbl_to_int_def
        trunc_zero_def integral_number_def dbl_isfinite_def dbl_is_whole_def del: fold_result.simps)
qed

lemma sample_gates:
  "load_gates sample_env sample_action 1000 sample_world =
     Inr (default_control_state\<lparr>writes_enabled := True, dry_run := False, approval_required := False\<rparr>,
          loaded_policy, prune_outbound_budget_state empty_budget_state loaded_policy 1000, None)"
  by (simp add: load_gates_def sample_env_def sample_world_def sample_control sample_policy_loads
      load_outbound_budget_state_def sample_files_def [THEN fun_cong] envelope_gate_def)

lemma sample_executes:
  "aw_net (snd (attempt_outbound_action sample_env sample_action 1000 sample_world)) = 2"
proof -
  let ?c = "default_control_state\<lparr>writes_enabled := True, dry_run := False, approval_required := False\<rparr>"
  let ?b = "prune_outbound_budget_state empty_budget_state loaded_policy 1000"
  have "evaluate_outbound_policy loaded_policy ?b (outbound_action_proposal sample_action) 1000 =
        evaluate_outbound_policy loaded_policy empty_budget_state (outbound_action_proposal sample_action) 1000"
    by (rule evaluate_after_prune) simp
  moreover have "outcome (evaluate_outbound_policy loaded_policy empty_budget_state
      (outbound_action_proposal sample_action) 1000) = Outcome_Allow"
    by (simp add: evaluate_enabled loaded_policy_def budget_for_def default_budget_def duplicate_elapsed_def
        outbound_action_proposal_def sample_action_def empty_budget_state_def empty_usage_def
        count_outbound_actions_in_window_def)
  ultimately have gates: "gates_pass ?c loaded_policy ?b sample_action 1000 True None"
    by (simp add: gates_pass_def default_control_state_def)
  have "fst (write_phase sample_json sample_writer None sample_action 0) \<noteq> Inl x"
    "snd (write_phase sample_json sample_writer None sample_action 0) = 2" for x
    by (simp_all add: write_phase_def sample_writer_def sample_action_def resolve_if_def
        outbound_action_is_reply_def outbound_action_is_subject_ref_def build_outbound_record_json_def
        outbound_record_def)
  then obtain r b' where "run_execution sample_env ?c loaded_policy ?b None sample_action 1000 sample_world =
      (Inr (r, b'), sample_world\<lparr>aw_net := 2\<rparr>)"
    using execute_open [OF gates, of sample_json sample_writer None 0]
    by (cases "write_phase sample_json sample_writer None sample_action 0"; cases "fst (write_phase sample_json sample_writer None sample_action 0)")
       (auto simp: run_execution_def sample_env_def sample_world_def default_control_state_def Let_def)
  then show ?thesis
    using record_attempt_net [of sample_env sample_action r b' 1000 "sample_world\<lparr>aw_net := 2\<rparr>"]
    by (simp add: attempt_eq sample_gates) (metis prod.collapse)
qed

definition sample_entry :: SpoolEntry where
  "sample_entry = \<lparr>sp_seq = 3, sp_action_json = ''{}'', sp_spooled_at = ''2026-01-01T00:00:00Z''\<rparr>"

definition sample_spool :: spool_dirs where
  "sample_spool =
     \<lparr>pending = [(seq_filename 3, serialise_spool_entry sample_entry)], denied_dir = []\<rparr>"

lemma sample_entry_ok: "entry_ok sample_entry"
  by (simp add: entry_ok_def sample_entry_def spoolable_def code_def quote_char_def backslash_def)

lemma sample_spool_ok: "spool_ok sample_spool"
proof -
  have "named_entry (seq_filename 3, serialise_spool_entry sample_entry)"
    unfolding named_entry_def using spool_entry_round_trip [OF sample_entry_ok]
    by (intro exI [of _ sample_entry]) (simp add: sample_entry_def)
  then show ?thesis by (simp add: spool_ok_def sample_spool_def dir_ok_def)
qed

text \<open>A library that prints the sample action as \<open>{}\<close> and reads it back.\<close>

definition action_json :: "OutboundAction \<Rightarrow> (string option \<times> node) cjson" where
  "action_json a =
     table_cjson (\<lambda>t. if t = ''{}'' then Some (Node_Object (action_fields a)) else None) (\<lambda>_. ''{}'')"

lemma sample_actions_ok: "action_ok sample_action" "action_ok sample_like"
  by (simp_all add: action_ok_def sample_action_def sample_like_def executable_kind_def carries_subject_def
      is_control_digest_shape_def is_lower_hex_def is_digit_def code_def)

lemma action_json_reads_back:
  "well_keyed (Node_Object (action_fields a)) \<Longrightarrow>
     serialise_outbound_action (action_json a) a = ''{}'' \<and> reads_back (action_json a) ''{}'' (action_fields a)"
  by (simp add: action_json_def serialise_outbound_action_def table_simps table_reads_back)

lemma sample_actions_keyed:
  "well_keyed (Node_Object (action_fields sample_action))" "well_keyed (Node_Object (action_fields sample_like))"
  by (simp_all add: action_fields_def sample_action_def sample_like_def outbound_action_is_reply_def)

definition pause_request :: "u64 \<Rightarrow> ControlRequest" where
  "pause_request n = \<lparr>req_seq = n, req_op = Pause, req_arg = [], req_at = None\<rparr>"

text \<open>A library that knows the text of one request.\<close>

definition request_json :: "(string option \<times> node) cjson" where
  "request_json =
     table_cjson (\<lambda>t. if t = ''req'' then Some (Node_Object (request_fields (pause_request 1))) else None) (\<lambda>_. ''req'')"

lemma request_json_reads_back:
  "reads_back request_json (j_print request_json (Node_Object (request_fields (pause_request 1))))
     (request_fields (pause_request 1))"
  by (simp add: request_json_def table_simps, rule table_reads_back)
     (simp_all add: request_fields_def pause_request_def control_op_takes_argument_def)

lemma request_json_serialises: "serialise_control_request request_json (pause_request 1) = Inr ''req''"
  by (simp add: serialise_control_request_def request_json_def table_simps pause_request_def check_argument_def
      control_op_takes_argument_def)

definition poll_sample :: "(string option \<times> node) poll_env" where
  "poll_sample =
     \<lparr>env_json = request_json,
      env_config = \<lparr>cfg_operator_did = ''did:plc:op'', cfg_account_did = ''did:plc:me'',
                    cfg_max_records = 5, cfg_max_applies = 2\<rparr>,
      env_control_file = ''control'', env_cursor_file = ''cursor'', env_now = (\<lambda>_. ''t''),
      env_control_io = (\<lambda>_. io_ok), env_cursor_io = (\<lambda>_. io_ok)\<rparr>"

lemma poll_sample_runs:
  "\<exists>rep fs'. poll poll_sample (\<lambda>_. Inr [(Some ''at://did:plc:op/c/1'', Some ''req'')]) (\<lambda>_. Missing) = (Inr rep, fs') \<and>
     poll_enabled rep \<and> poll_applied rep = 1"
proof -
  have req: "parse_control_request request_json ''req'' = Inr \<lparr>req_seq = 1, req_op = Pause, req_arg = [], req_at = None\<rparr>"
    using request_round_trip [OF request_json_reads_back request_json_serialises] by (simp add: pause_request_def)
  have col: "collect ''did:plc:op'' [(Some ''at://did:plc:op/c/1'', Some ''req'')] =
      Inr [\<lparr>cand_rkey = ''1'', cand_json = ''req''\<rparr>]"
    by code_simp
  have ap: "apply_control_request ''t'' default_control_state 0 \<lparr>req_seq = 1, req_op = Pause, req_arg = [], req_at = None\<rparr> ''did:plc:op'' ''did:plc:op'' =
      (\<lparr>rep_applied = True, rep_seq = 1, rep_op = ''pause'', rep_reason = ''applied''\<rparr>,
       default_control_state\<lparr>paused := True\<rparr>, 1)"
    by (simp add: apply_control_request_def control_op_takes_argument_def apply_op_def)
  have ok: "control_ok (default_control_state\<lparr>paused := True\<rparr>)"
    by (simp add: control_ok_def default_control_state_def)
  obtain payload where sv: "serialise_control_state request_json (default_control_state\<lparr>paused := True\<rparr>) = Inr payload"
    using serialise_control_ok_iff [of request_json "default_control_state\<lparr>paused := True\<rparr>"] ok by blast
  show ?thesis
    by (simp add: poll_def poll_sample_def check_operator_channel_def load_remote_control_cursor_def col
        empty_poll_report_def poll_one_def req load_control_missing ap save_control_state_def sv save_atomic_def
        io_ok_def save_remote_control_cursor_def pause_request_def del: collect.simps)
qed

text \<open>One envelope on disk, covering one post a minute.\<close>

definition envelope_json :: "(string option \<times> node) cjson" where
  "envelope_json =
     table_cjson (\<lambda>t. if t = ''env'' then Some (Node_Object
       [(''format'', Node_String ''atperson-authorization-envelope''), (''version'', Node_Number 1),
        (''id'', Node_String ''e''), (''created_at'', Node_String ''2026-01-01T00:00:00Z''),
        (''scope_terms'', Node_Array []),
        (''kinds'', Node_Array [Node_Object [(''kind'', Node_String ''post''),
           (''max_in_window'', Node_Number 1), (''window_seconds'', Node_Number 60)]])]) else None) (\<lambda>_. ''env'')"

definition envelope_files :: fs where
  "envelope_files = (\<lambda>_. Missing)(''d/e.json'' := Present ''env'')"

lemma sample_envelope:
  "load_authorization_envelope envelope_json ''d'' ''e'' loaded_policy envelope_files =
     Inr (Some \<lparr>ae_version = 1, ae_id = ''e'', expires_at = None, scope_terms = [],
       rules = [\<lparr>rule_kind = Kind_Post, rule_max_in_window = 1, rule_window_seconds = 60,
                 min_plan_score = Finite 0, min_support_score = Finite 0\<rparr>],
       note_text = [], created_at = ''2026-01-01T00:00:00Z''\<rparr>)"
proof -
  have k: "parse_outbound_kind ''post'' = Some Kind_Post" by code_simp
  have t: "parse_rfc3339_epoch ''2026-01-01T00:00:00Z'' \<noteq> None" by (simp add: rfc3339_eval)
  have i: "is_envelope_id ''e''" by (simp add: is_envelope_id_def is_lower_def is_digit_def code_def)
  show ?thesis
    by (simp add: load_authorization_envelope_def i t k envelope_files_def envelope_path_def read_text_def
        parse_authorization_envelope_def envelope_json_def table_simps env_require_string_def nonempty_string_def
        env_optional_string_def bad_instant_def to_uint32_def to_int64_def dbl_to_int_def trunc_zero_def required_array_def
        parse_scope_def parse_rules_def parse_rule_def number_at_least_one_def parse_floor_def has_key_def
        kMaxOutboundWindowSeconds_def loaded_policy_def budget_for_def default_budget_def value_or_empty_def
        default_outbound_policy_def)
qed

definition sample_cover :: EnvelopeCoverage where
  "sample_cover = \<lparr>covered = True, cov_envelope_id = ''e'', cov_reason = []\<rparr>"

lemma sample_coverage:
  "find_covering_envelope envelope_json ''d'' [''e.json''] envelope_files loaded_policy Kind_Post ''hi''
     \<lparr>ev_plan_score = None, ev_support_score = None\<rparr> empty_budget_state 0 = Inr sample_cover"
  "covered sample_cover"
proof -
  have l: "list_authorization_envelopes [''e.json''] = [''e'']" by code_simp
  show "find_covering_envelope envelope_json ''d'' [''e.json''] envelope_files loaded_policy Kind_Post ''hi''
     \<lparr>ev_plan_score = None, ev_support_score = None\<rparr> empty_budget_state 0 = Inr sample_cover"
    by (simp add: find_covering_envelope_def l sample_envelope covers_action_def count_in_window_def below_floor_def
        empty_budget_state_def empty_usage_def sample_cover_def)
qed (simp add: sample_cover_def)

lemma sample_spool_length: "length (pending sample_spool) = 1"
  by (simp add: sample_spool_def)

definition sample_appended :: SpoolEntry where
  "sample_appended = \<lparr>sp_seq = 4, sp_action_json = ''{}'', sp_spooled_at = ''2026''\<rparr>"

lemma sample_appended_ok: "entry_ok sample_appended"
  by (simp add: entry_ok_def sample_appended_def spoolable_def code_def quote_char_def backslash_def)

lemma sample_append:
  "spool_append (action_json sample_action) io_ok ''{}'' ''2026'' sample_spool =
     (Inr sample_appended, snd (spool_append (action_json sample_action) io_ok ''{}'' ''2026'' sample_spool))"
proof -
  have p: "parse_outbound_action (action_json sample_action) ''{}'' ''spool'' = Inr sample_action"
    using action_round_trip [of "action_json sample_action" sample_action "''spool''"]
      action_json_reads_back [OF sample_actions_keyed(1)] sample_actions_ok(1) by simp
  have e: "parse_entries (pending sample_spool) = Inr [sample_entry]"
    using spool_entry_round_trip [OF sample_entry_ok] by (simp add: parse_entries_def sample_spool_def)
  have n: "seq_filename 4 = ''00000000000000000004.json''" "seq_filename 3 = ''00000000000000000003.json''"
    by code_simp+
  have r: "is_plain_record_id ''00000000000000000004''" by code_simp
  have "\<exists>d. write_record io_ok ''00000000000000000004'' c (pending sample_spool) = (Inr (), d)" for c
    by (simp add: write_record_def record_path_def r record_exists_def sample_spool_def n io_ok_def)
  then obtain d where "write_record io_ok ''00000000000000000004'' (serialise_spool_entry sample_appended) (pending sample_spool) = (Inr (), d)"
    by blast
  then show ?thesis
    by (simp add: spool_append_def p e n sample_entry_def sample_appended_def)
qed

end
