(* ===== verification/Protocol_Facts.thy ===== *)
theory Protocol_Facts
  imports Protocol_Syntax
begin

text \<open>
  The protocol layer's facts (src/protocol/protocol.hpp and protocol.cpp): the classifiers, and
  the functions that accept a fact only in the shape the protocol gives it (service, repository,
  identity, OAuth session, lexicon, strong reference, blob), with the loopback OAuth plan.
\<close>

datatype Verification = Verified | Unverified | Rejected
datatype XrpcKind = Query | Procedure | Subscription | Xrpc_Unknown
datatype ServiceRole = Service_Unknown | Pds | Relay | AppView | FeedGenerator | Labeler
datatype RecordState = Record_Present | Record_Deleted | Record_Missing | Record_Unverified
datatype RecordAuthority = Authority_Repository | AppViewDerived | Authority_Unknown
datatype SyncEvent = Event_Commit | Event_Sync | Event_Identity | Event_Account | Event_Unknown
datatype PermissionKind = Permission_Record | AllRecords | RepositoryMigration | DpopBound

record StrongRef =
  ref_uri :: AtUri
  ref_cid :: string

record BlobRef =
  blob_cid :: string
  mime_type :: string
  blob_size :: u64

record LexiconFact =
  lex_nsid :: string
  lex_operation :: XrpcKind
  schema_source :: string
  lex_verification :: Verification

record IdentityFact =
  id_did :: string
  id_handle :: string
  did_document_source :: string
  signing_key :: string
  rotation_keys :: "string list"
  pds_endpoint :: string
  id_verification :: Verification

record ServiceFact =
  svc_role :: ServiceRole
  svc_endpoint :: string
  svc_subject_did :: string
  svc_verification :: Verification

record RecordFact =
  rf_uri :: AtUri
  rf_cid :: string
  rf_state :: RecordState
  app_view_derived :: bool

record OAuthSessionFact =
  oa_issuer :: string
  oa_subject_did :: string
  oa_scope :: string
  dpop_bound :: bool
  oa_verification :: Verification

record OAuthAuthorizationPlan =
  plan_redirect_uri :: string
  plan_scope :: string
  plan_permission :: PermissionKind
  loopback_only :: bool

record OAuthClientMetadata =
  client_id :: string
  meta_redirect_uri :: string
  meta_scope :: string
  meta_dpop_bound :: bool

record RepositoryFact =
  repo_did :: string
  repo_fact_revision :: string
  signed_root_cid :: string
  car_source :: string
  repo_verification :: Verification

subsection \<open>Classifiers\<close>

fun service_role_name :: "ServiceRole \<Rightarrow> string" where
  "service_role_name Pds = ''pds''"
| "service_role_name Relay = ''relay''"
| "service_role_name AppView = ''app-view''"
| "service_role_name FeedGenerator = ''feed-generator''"
| "service_role_name Labeler = ''labeler''"
| "service_role_name Service_Unknown = ''unknown''"

definition classify_service_role :: "string \<Rightarrow> ServiceRole" where
  "classify_service_role t =
     (if t = ''AtprotoPersonalDataServer'' then Pds
      else if t = ''AtprotoRelay'' then Relay
      else if t = ''AtprotoAppView'' then AppView
      else if t = ''AtprotoFeedGenerator'' then FeedGenerator
      else if t = ''AtprotoLabeler'' then Labeler
      else Service_Unknown)"

definition authority_for_service :: "ServiceRole \<Rightarrow> RecordAuthority" where
  "authority_for_service role =
     (if role = AppView then AppViewDerived
      else if role = Pds then Authority_Repository else Authority_Unknown)"

definition classify_sync_event :: "string \<Rightarrow> SyncEvent" where
  "classify_sync_event t =
     (if t = ''#commit'' then Event_Commit else if t = ''#sync'' then Event_Sync
      else if t = ''#identity'' then Event_Identity else if t = ''#account'' then Event_Account
      else Event_Unknown)"

definition verification_from_wolfram :: "bool \<Rightarrow> bool \<Rightarrow> Verification" where
  "verification_from_wolfram transport_ok cryptographically_valid =
     (if \<not> transport_ok then Unverified
      else if cryptographically_valid then Verified else Rejected)"

definition classify_permission :: "string \<Rightarrow> PermissionKind" where
  "classify_permission scope =
     (if scope = ''account:repo?action=manage'' then RepositoryMigration
      else if scope = ''repo:*'' then AllRecords
      else if starts_with scope ''repo:'' \<and> contains_sub scope ''action='' then Permission_Record
      else if scope = ''dpop'' then DpopBound
      else Permission_Record)"

definition classify_xrpc :: "bool \<Rightarrow> bool \<Rightarrow> bool \<Rightarrow> XrpcKind" where
  "classify_xrpc query procedure subscription =
     (let count = of_bool query + of_bool procedure + (of_bool subscription :: nat) in
      if count \<noteq> 1 then Xrpc_Unknown
      else if query then Query
      else if procedure then Procedure
      else Subscription)"

subsection \<open>Accepting facts\<close>

text \<open>\<open>endpoint.find("https://") != 0\<close> is the failed prefix test.\<close>

definition accept_service_fact ::
  "ServiceRole \<Rightarrow> string \<Rightarrow> string \<Rightarrow> Verification \<Rightarrow> ServiceFact option" where
  "accept_service_fact role endpoint subject_did verification =
     (if role = Service_Unknown \<or> \<not> starts_with endpoint ''https://'' \<or> \<not> is_did subject_did then None
      else Some \<lparr>svc_role = role, svc_endpoint = endpoint, svc_subject_did = subject_did,
                 svc_verification = verification\<rparr>)"

definition accept_repository_fact ::
  "string \<Rightarrow> string \<Rightarrow> string \<Rightarrow> string \<Rightarrow> Verification \<Rightarrow> RepositoryFact option" where
  "accept_repository_fact did revision root_cid car verification =
     (if \<not> is_did did \<or> \<not> is_tid revision \<or> \<not> is_cid root_cid \<or> car = [] then None
      else Some \<lparr>repo_did = did, repo_fact_revision = revision, signed_root_cid = root_cid,
                 car_source = car, repo_verification = verification\<rparr>)"

definition accept_oauth_session ::
  "string \<Rightarrow> string \<Rightarrow> string \<Rightarrow> bool \<Rightarrow> Verification \<Rightarrow> OAuthSessionFact option" where
  "accept_oauth_session issuer subject_did scope dpop verification =
     (if issuer = [] \<or> \<not> is_did subject_did \<or> scope = [] \<or> \<not> dpop then None
      else Some \<lparr>oa_issuer = issuer, oa_subject_did = subject_did, oa_scope = scope,
                 dpop_bound = dpop, oa_verification = verification\<rparr>)"

definition loopback_prefix :: string where
  "loopback_prefix = ''http://127.0.0.1:''"

definition make_loopback_oauth_plan :: "string \<Rightarrow> string \<Rightarrow> OAuthAuthorizationPlan option" where
  "make_loopback_oauth_plan redirect_uri scope =
     (if \<not> starts_with redirect_uri loopback_prefix \<or> scope = [] \<or>
         list_ex (\<lambda>c. c = CHR ''?'' \<or> c = CHR ''#'') redirect_uri then None
      else
        let port_start = length loopback_prefix;
            port = (case find_from ''/'' redirect_uri port_start of
                      None \<Rightarrow> drop port_start redirect_uri
                    | Some slash \<Rightarrow> substr redirect_uri port_start (slash - port_start))
        in if port = [] \<or> \<not> list_all is_digit port then None
           else Some \<lparr>plan_redirect_uri = redirect_uri, plan_scope = scope,
                      plan_permission = classify_permission scope, loopback_only = True\<rparr>)"

definition localhost_oauth_client_metadata :: "string \<Rightarrow> string \<Rightarrow> OAuthClientMetadata option" where
  "localhost_oauth_client_metadata redirect_uri scope =
     (case make_loopback_oauth_plan redirect_uri scope of
        None \<Rightarrow> None
      | Some _ \<Rightarrow> Some \<lparr>client_id = ''http://localhost/'', meta_redirect_uri = redirect_uri,
                        meta_scope = scope, meta_dpop_bound = True\<rparr>)"

definition parse_strong_ref :: "string \<Rightarrow> string \<Rightarrow> StrongRef option" where
  "parse_strong_ref uri cid =
     (if \<not> is_cid cid then None
      else map_option (\<lambda>parsed. \<lparr>ref_uri = parsed, ref_cid = cid\<rparr>) (parse_at_uri uri))"

definition parse_blob_ref :: "string \<Rightarrow> string \<Rightarrow> u64 \<Rightarrow> BlobRef option" where
  "parse_blob_ref cid mime n =
     (if \<not> is_cid cid \<or> mime = [] \<or> \<not> contains_sub mime ''/'' then None
      else Some \<lparr>blob_cid = cid, mime_type = mime, blob_size = n\<rparr>)"

definition accept_lexicon_fact ::
  "string \<Rightarrow> XrpcKind \<Rightarrow> string \<Rightarrow> Verification \<Rightarrow> LexiconFact option" where
  "accept_lexicon_fact nsid operation source verification =
     (if \<not> is_nsid nsid \<or> operation = Xrpc_Unknown \<or> source = [] then None
      else Some \<lparr>lex_nsid = nsid, lex_operation = operation, schema_source = source,
                 lex_verification = verification\<rparr>)"

definition reduce_record_observation ::
  "AtUri \<Rightarrow> string \<Rightarrow> bool \<Rightarrow> bool \<Rightarrow> bool \<Rightarrow> RecordFact" where
  "reduce_record_observation uri cid explicit_delete from_app_view observed =
     \<lparr>rf_uri = uri, rf_cid = cid,
      rf_state = (if \<not> observed then Record_Missing
                  else if explicit_delete then Record_Deleted
                  else if \<not> from_app_view \<and> cid \<noteq> [] \<and> is_cid cid then Record_Present
                  else Record_Unverified),
      app_view_derived = from_app_view\<rparr>"

definition accept_identity ::
  "string \<Rightarrow> string \<Rightarrow> string \<Rightarrow> string \<Rightarrow> string \<Rightarrow> Verification \<Rightarrow> string list \<Rightarrow>
   IdentityFact option" where
  "accept_identity did handle source key endpoint verification rotation =
     (if \<not> is_did did \<or> \<not> is_handle handle \<or> source = [] \<or> \<not> is_did_key key \<or> endpoint = [] \<or>
         \<not> starts_with endpoint ''https://'' then None
      else if list_ex (\<lambda>r. \<not> is_did_key r) rotation then None
      else Some \<lparr>id_did = did, id_handle = handle, did_document_source = source,
                 signing_key = key, rotation_keys = rotation, pds_endpoint = endpoint,
                 id_verification = verification\<rparr>)"

subsection \<open>What an accepted fact guarantees\<close>

text \<open>The well-formedness every stored identity has, whatever its verification.\<close>

definition identity_ok :: "IdentityFact \<Rightarrow> bool" where
  "identity_ok f \<longleftrightarrow>
     is_did (id_did f) \<and> is_handle (id_handle f) \<and> did_document_source f \<noteq> [] \<and>
     list_all is_did_key (signing_key f # rotation_keys f) \<and> starts_with (pds_endpoint f) ''https://''"

lemma accept_identity_iff:
  "accept_identity did handle source key endpoint verification rotation = Some f \<longleftrightarrow>
     f = \<lparr>id_did = did, id_handle = handle, did_document_source = source, signing_key = key,
          rotation_keys = rotation, pds_endpoint = endpoint, id_verification = verification\<rparr> \<and>
     identity_ok f"
  by (auto simp: accept_identity_def identity_ok_def list_ex_iff list_all_iff starts_with_def)

lemma record_present_iff:
  "rf_state (reduce_record_observation uri cid explicit_delete from_app_view observed) = Record_Present \<longleftrightarrow>
     observed \<and> \<not> explicit_delete \<and> \<not> from_app_view \<and> is_cid cid"
  by (auto simp: reduce_record_observation_def is_cid_def starts_with_def)

lemma classify_xrpc_iff:
  "classify_xrpc q p s \<noteq> Xrpc_Unknown \<longleftrightarrow> (q \<and> \<not> p \<and> \<not> s) \<or> (\<not> q \<and> p \<and> \<not> s) \<or> (\<not> q \<and> \<not> p \<and> s)"
  by (cases q; cases p; cases s) (simp_all add: classify_xrpc_def)

text \<open>
  The loopback plan: the redirect goes to the numeric loopback address on an explicit port, and
  nothing else is accepted.
\<close>

lemma loopback_iff:
  "make_loopback_oauth_plan u scope \<noteq> None \<longleftrightarrow>
     scope \<noteq> [] \<and>
     (\<exists>port path. u = loopback_prefix @ port @ path \<and> port \<noteq> [] \<and> list_all is_digit port \<and>
        (path = [] \<or> hd path = CHR ''/'') \<and> CHR ''?'' \<notin> set path \<and> CHR ''#'' \<notin> set path)"
  (is "?lhs \<longleftrightarrow> ?rhs")
proof -
  have no_slash: "CHR ''/'' \<notin> set port" "CHR ''?'' \<notin> set port" "CHR ''#'' \<notin> set port"
    if "list_all is_digit port" for port
    using that by (auto simp: list_all_iff is_digit_def code_def)
  have pre: "CHR ''?'' \<notin> set loopback_prefix" "CHR ''#'' \<notin> set loopback_prefix"
    by (simp_all add: loopback_prefix_def)
  show ?thesis
  proof
    assume ?lhs
    then have s: "starts_with u loopback_prefix" "scope \<noteq> []" "CHR ''?'' \<notin> set u" "CHR ''#'' \<notin> set u"
      by (auto simp: make_loopback_oauth_plan_def list_ex_iff split: if_splits)
    then obtain r where u: "u = loopback_prefix @ r" by (auto simp: starts_with_iff)
    show ?rhs
    proof (cases "find_sub ''/'' r")
      case None
      then have "r \<noteq> []" "list_all is_digit r"
        using \<open>?lhs\<close> u by (auto simp: make_loopback_oauth_plan_def find_from_def Let_def split: if_splits)
      then show ?thesis using s u by (intro conjI exI [of _ r] exI [of _ "[]"]) auto
    next
      case (Some k)
      then obtain a b where ab: "r = a @ CHR ''/'' # b" "k = length a" by (auto simp: find_sub_char_Some)
      then have "a \<noteq> []" "list_all is_digit a"
        using \<open>?lhs\<close> u Some
        by (auto simp: make_loopback_oauth_plan_def find_from_def substr_def Let_def split: if_splits)
      then show ?thesis using s u ab by (intro conjI exI [of _ a] exI [of _ "CHR ''/'' # b"]) auto
    qed
  next
    assume ?rhs
    then obtain port path where p: "scope \<noteq> []" "u = loopback_prefix @ port @ path" "port \<noteq> []"
      "list_all is_digit port" "path = [] \<or> hd path = CHR ''/''" "CHR ''?'' \<notin> set path" "CHR ''#'' \<notin> set path"
      by blast
    note ns = no_slash [OF p(4)]
    show ?lhs
    proof (cases path)
      case Nil
      with p ns pre show ?thesis
        by (auto simp: make_loopback_oauth_plan_def find_from_def find_sub_char_None [THEN iffD2] Let_def list_ex_iff)
    next
      case (Cons c b)
      then have "find_sub ''/'' (port @ path) = Some (length port)" using p ns by (auto simp: find_sub_char_Some)
      then show ?thesis using p ns pre Cons
        by (auto simp: make_loopback_oauth_plan_def find_from_def substr_def Let_def list_ex_iff)
    qed
  qed
qed

end
