(* ===== verification/Framing.thy ===== *)
theory Framing
  imports Bytes
begin

text \<open>
  Binary framing: little-endian integers and readers that consume a prefix of their input.  A
  reader that meets the end of the input is \<open>Read_torn\<close> (the source throws \<open>TornRecord\<close>), one
  that meets wrong bytes is \<open>Read_error\<close>.  \<open>reads rd s x\<close>: the reader takes exactly the bytes
  \<open>s\<close> for \<open>x\<close>, and every proper prefix of \<open>s\<close> is torn.  The locale \<open>framed_log\<close> is what an
  append-only file of such records promises to the code that scans it.
\<close>

datatype 'a read = Read_ok 'a string | Read_torn | Read_error string

fun read_bind :: "(string \<Rightarrow> 'a read) \<Rightarrow> ('a \<Rightarrow> string \<Rightarrow> 'b read) \<Rightarrow> string \<Rightarrow> 'b read" where
  "read_bind rd f b = (case rd b of
     Read_ok x rest \<Rightarrow> f x rest | Read_torn \<Rightarrow> Read_torn | Read_error m \<Rightarrow> Read_error m)"

definition read_bytes :: "nat \<Rightarrow> string \<Rightarrow> string read" where
  "read_bytes n b = (if length b < n then Read_torn else Read_ok (take n b) (drop n b))"

fun le_bytes :: "nat \<Rightarrow> nat \<Rightarrow> string" where
  "le_bytes 0 x = []"
| "le_bytes (Suc n) x = char_of (x mod 256) # le_bytes n (x div 256)"

fun le_val :: "string \<Rightarrow> nat" where
  "le_val [] = 0"
| "le_val (c # cs) = code c + 256 * le_val cs"

lemma length_le_bytes [simp]: "length (le_bytes n x) = n"
  by (induction n arbitrary: x) auto

lemma le_val_bytes: "le_val (le_bytes n x) = x mod 256 ^ n"
proof (induction n arbitrary: x)
  case (Suc n)
  then show ?case by (simp add: code_def mod_mult2_eq)
qed simp

lemma le_val_bytes_small [simp]: "x < 256 ^ n \<Longrightarrow> le_val (le_bytes n x) = x"
  by (simp add: le_val_bytes)

lemma le_val_word [simp]: "le_val (le_bytes 8 (unat (w :: u64))) = unat w"
proof -
  have "unat w < 2 ^ LENGTH(64)" by (rule unsigned_less)
  then show ?thesis by (intro le_val_bytes_small) simp
qed

lemma le_val_less: "le_val cs < 256 ^ length cs"
proof (induction cs)
  case (Cons c cs)
  then show ?case using code_less [of c] by (simp del: code_less)
qed simp

subsection \<open>Readers compose\<close>

definition reads :: "(string \<Rightarrow> 'a read) \<Rightarrow> string \<Rightarrow> 'a \<Rightarrow> bool" where
  "reads rd s x \<longleftrightarrow>
     (\<forall>rest. rd (s @ rest) = Read_ok x rest) \<and> (\<forall>n. n < length s \<longrightarrow> rd (take n s) = Read_torn)"

lemma readsD:
  assumes "reads rd s x"
  shows "rd (s @ rest) = Read_ok x rest" and "rd s = Read_ok x []" and "n < length s \<Longrightarrow> rd (take n s) = Read_torn"
  using assms unfolding reads_def by (auto dest: spec [of _ "[]"])

lemma reads_return: "reads (Read_ok x) [] x"
  by (simp add: reads_def)

lemma reads_bind:
  assumes "reads rd s x" and "reads (f x) t y"
  shows "reads (read_bind rd f) (s @ t) y"
  unfolding reads_def
proof (intro conjI allI impI)
  fix rest
  show "read_bind rd f ((s @ t) @ rest) = Read_ok y rest"
    using assms by (simp add: readsD)
next
  fix n assume n: "n < length (s @ t)"
  show "read_bind rd f (take n (s @ t)) = Read_torn"
  proof (cases "n < length s")
    case True
    then show ?thesis using assms by (simp add: readsD(3))
  next
    case False
    then have "take n (s @ t) = s @ take (n - length s) t" by simp
    then show ?thesis using assms False n by (simp add: readsD)
  qed
qed

lemma reads_bytes: "length s = n \<Longrightarrow> reads (read_bytes n) s s"
  by (auto simp: reads_def read_bytes_def)

lemma read_bytes_ok: "read_bytes n b = Read_ok v r \<Longrightarrow> b = v @ r \<and> length v = n"
  by (auto simp: read_bytes_def split: if_splits)

subsection \<open>Append-only files of records\<close>

datatype scan_end = Scan_end | Scan_torn | Scan_error string

text \<open>
  \<open>scan\<close> returns the records in order, the offset past the last complete one, and how the scan
  stopped.
\<close>

locale framed_log =
  fixes enc :: "'a \<Rightarrow> string"
    and rd :: "string \<Rightarrow> 'a read"
    and ok :: "'a \<Rightarrow> bool"
    and scan :: "string \<Rightarrow> 'a list \<times> nat \<times> scan_end"
  assumes enc_nonempty: "enc x \<noteq> []"
    and rd_enc: "ok x \<Longrightarrow> reads rd (enc x) x"
    and scan_eq: "scan b =
      (if b = [] then ([], 0, Scan_end)
       else case rd b of
         Read_torn \<Rightarrow> ([], 0, Scan_torn)
       | Read_error m \<Rightarrow> ([], 0, Scan_error m)
       | Read_ok x rest \<Rightarrow>
           (case scan rest of (xs, n, e) \<Rightarrow> (x # xs, length b - length rest + n, e)))"
begin

definition image :: "'a list \<Rightarrow> string" where
  "image xs = concat (map enc xs)"

lemma image_simps [simp]: "image [] = []" "image (x # xs) = enc x @ image xs" "image (xs @ ys) = image xs @ image ys"
  by (simp_all add: image_def)

lemma scan_Nil [simp]: "scan [] = ([], 0, Scan_end)"
  by (subst scan_eq) simp

lemma scan_image:
  assumes "\<And>x. x \<in> set xs \<Longrightarrow> ok x"
  shows "scan (image xs @ b) = (case scan b of (ys, n, e) \<Rightarrow> (xs @ ys, length (image xs) + n, e))"
  using assms
proof (induction xs)
  case Nil
  then show ?case by (simp split: prod.split)
next
  case (Cons x xs)
  have r: "rd (enc x @ image xs @ b) = Read_ok x (image xs @ b)"
    using Cons.prems rd_enc [of x] by (simp add: readsD(1))
  have ne: "enc x @ image xs @ b \<noteq> []" by (simp add: enc_nonempty)
  obtain ys n e where s: "scan b = (ys, n, e)" by (metis prod_cases3)
  then have "scan (image xs @ b) = (xs @ ys, length (image xs) + n, e)"
    using Cons.IH Cons.prems by simp
  then show ?case using s ne r by (subst scan_eq) simp
qed

text \<open>The torn tail a crash can leave: a proper prefix of one record.\<close>

definition tail_ok :: "string \<Rightarrow> bool" where
  "tail_ok p \<longleftrightarrow> (\<exists>x n. ok x \<and> n < length (enc x) \<and> p = take n (enc x))"

lemma scan_tail:
  assumes "tail_ok p"
  shows "scan p = ([], 0, if p = [] then Scan_end else Scan_torn)"
proof -
  obtain x n where "ok x" "n < length (enc x)" "p = take n (enc x)" using assms by (auto simp: tail_ok_def)
  then have "rd p = Read_torn" using rd_enc readsD(3) by metis
  then show ?thesis by (subst scan_eq) simp
qed

lemma scan_log:
  assumes "\<And>x. x \<in> set xs \<Longrightarrow> ok x" and "tail_ok p"
  shows "scan (image xs @ p) = (xs, length (image xs), if p = [] then Scan_end else Scan_torn)"
  using scan_image [OF assms(1), of xs p] scan_tail [OF assms(2)] by simp

lemma scan_complete:
  assumes "\<And>x. x \<in> set xs \<Longrightarrow> ok x"
  shows "scan (image xs) = (xs, length (image xs), Scan_end)"
  using scan_image [OF assms, of xs "[]"] by simp

lemma tail_cut:
  assumes "ok x"
  shows "\<exists>ys p. image xs @ take n (enc x) = image (xs @ ys) @ p \<and> (p = [] \<or> tail_ok p) \<and>
    ys = (if n < length (enc x) then [] else [x])"
proof (cases "n < length (enc x)")
  case True
  then show ?thesis using assms by (intro exI [of _ "[]"] exI [of _ "take n (enc x)"]) (auto simp: tail_ok_def)
next
  case False
  then show ?thesis by (intro exI [of _ "[x]"] exI [of _ "[]"]) simp
qed

text \<open>The bytes on disk determine the records: no two record lists share a file.\<close>

lemma image_inj:
  assumes "\<And>x. x \<in> set xs \<union> set ys \<Longrightarrow> ok x" and "image xs = image ys"
  shows "xs = ys"
proof -
  have "scan (image xs) = (xs, length (image xs), Scan_end)" by (rule scan_complete) (simp add: assms(1))
  moreover have "scan (image ys) = (ys, length (image ys), Scan_end)" by (rule scan_complete) (simp add: assms(1))
  ultimately show ?thesis unfolding assms(2) by simp
qed

end

end
