(* ===== verification/Evidence.thy ===== *)
theory Evidence
  imports Protocol_Facts Framing
begin

text \<open>
  Protocol evidence (src/protocol/protocol.hpp and protocol.cpp): the record, its 128-bit
  digest, the in-memory \<open>EvidenceStore\<close> and the durable \<open>EvidenceLedger\<close> with its binary
  format, its torn-tail repair and its dedup index.  The ledger refines the store.
\<close>

unbundle bit_operations_syntax

datatype EvidenceKind = Ev_Identity | Ev_Repository | Ev_Record | Ev_Lexicon | Ev_Sync | Ev_Authorization

text \<open>\<open>confidence\<close> is the bit pattern of the source's \<open>double\<close>, as the ledger writes it.\<close>

record ProtocolEvidence =
  ev_kind :: EvidenceKind
  ev_source :: string
  event_type :: string
  ev_subject :: string
  ev_payload :: string
  ev_sequence :: u64
  observed_at :: u64
  ev_verification :: Verification
  confidence :: u64

subsection \<open>The enumerations as bytes\<close>

fun kind_code :: "EvidenceKind \<Rightarrow> nat" where
  "kind_code Ev_Identity = 0"
| "kind_code Ev_Repository = 1"
| "kind_code Ev_Record = 2"
| "kind_code Ev_Lexicon = 3"
| "kind_code Ev_Sync = 4"
| "kind_code Ev_Authorization = 5"

definition kind_of_code :: "nat \<Rightarrow> EvidenceKind" where
  "kind_of_code n = [Ev_Identity, Ev_Repository, Ev_Record, Ev_Lexicon, Ev_Sync, Ev_Authorization] ! n"

fun verification_code :: "Verification \<Rightarrow> nat" where
  "verification_code Verified = 0"
| "verification_code Unverified = 1"
| "verification_code Rejected = 2"

definition verification_of_code :: "nat \<Rightarrow> Verification" where
  "verification_of_code n = [Verified, Unverified, Rejected] ! n"

lemma kind_code_simps [simp]: "kind_code k < 6" "kind_of_code (kind_code k) = k"
  by (cases k; simp add: kind_of_code_def)+

lemma verification_code_simps [simp]: "verification_code v < 3" "verification_of_code (verification_code v) = v"
  by (cases v; simp add: verification_of_code_def)+

subsection \<open>Confidence\<close>

text \<open>
  \<open>std::isfinite(c) && !(c < 0.0) && !(c > 1.0)\<close> on the IEEE 754 bits: the non-negative
  doubles are ordered as their bit patterns, 1.0 is \<open>0x3FF0000000000000\<close>, and minus zero is
  not less than zero.
\<close>

definition confidence_ok :: "u64 \<Rightarrow> bool" where
  "confidence_ok c \<longleftrightarrow> c \<le> 0x3FF0000000000000 \<or> c = 0x8000000000000000"

definition confidence_of :: "Verification \<Rightarrow> u64 \<Rightarrow> u64" where
  "confidence_of v otherwise = (if v = Verified then 0x3FF0000000000000 else otherwise)"

definition half :: u64 where
  "half = 0x3FE0000000000000"

definition acceptable :: "ProtocolEvidence \<Rightarrow> bool" where
  "acceptable e \<longleftrightarrow>
     \<not> (ev_source e = [] \<or> event_type e = [] \<or> ev_subject e = [] \<or> ev_payload e = [] \<or>
        (ev_sequence e = 0 \<and> observed_at e = 0) \<or> \<not> confidence_ok (confidence e))"

subsection \<open>The digest\<close>

type_synonym digest = "u64 \<times> u64"

definition mix_byte :: "char \<Rightarrow> digest \<Rightarrow> digest" where
  "mix_byte c d =
     (let byte = of_nat (code c); prime = 0x100000001b3 in
      ((fst d XOR byte) * prime, (snd d XOR byte) * prime + 0x9e3779b97f4a7c15))"

definition mix :: "string \<Rightarrow> digest \<Rightarrow> digest" where
  "mix bytes d = fold mix_byte (le_bytes 8 (length bytes) @ bytes) d"

definition evidence_digest :: "ProtocolEvidence \<Rightarrow> digest" where
  "evidence_digest e =
     fold mix [[char_of (kind_code (ev_kind e)), char_of (verification_code (ev_verification e))],
               ev_source e, event_type e, ev_subject e, ev_payload e]
       (0xcbf29ce484222325, 0x84222325cbf29ce4)"

subsection \<open>The in-memory store\<close>

record EvidenceStore =
  entries :: "ProtocolEvidence list"
  index :: "digest set"

definition empty_store :: EvidenceStore where
  "empty_store = \<lparr>entries = [], index = {}\<rparr>"

definition store_contains_text :: "EvidenceStore \<Rightarrow> string \<Rightarrow> string \<Rightarrow> Verification \<Rightarrow> bool" where
  "store_contains_text s source payload v =
     list_ex (\<lambda>e. ev_source e = source \<and> ev_payload e = payload \<and> ev_verification e = v) (entries s)"

definition store_contains :: "EvidenceStore \<Rightarrow> ProtocolEvidence \<Rightarrow> bool" where
  "store_contains s e \<longleftrightarrow> evidence_digest e \<in> index s"

definition store_append :: "ProtocolEvidence \<Rightarrow> EvidenceStore \<Rightarrow> bool \<times> EvidenceStore" where
  "store_append e s =
     (if \<not> acceptable e then (False, s)
      else if evidence_digest e \<in> index s then (False, s)
      else (True, \<lparr>entries = entries s @ [e], index = insert (evidence_digest e) (index s)\<rparr>))"

definition store_replay :: "ProtocolEvidence list \<Rightarrow> EvidenceStore" where
  "store_replay es = fold (\<lambda>e s. snd (store_append e s)) es empty_store"

definition entries_ok :: "ProtocolEvidence list \<Rightarrow> bool" where
  "entries_ok es \<longleftrightarrow> list_all acceptable es \<and> distinct (map evidence_digest es)"

definition store_of :: "ProtocolEvidence list \<Rightarrow> EvidenceStore" where
  "store_of es = \<lparr>entries = es, index = evidence_digest ` set es\<rparr>"

lemma entries_ok_snoc:
  "entries_ok (es @ [e]) \<longleftrightarrow> entries_ok es \<and> acceptable e \<and> evidence_digest e \<notin> evidence_digest ` set es"
  by (auto simp: entries_ok_def)

lemma entries_ok_Nil [simp]: "entries_ok []"
  by (simp add: entries_ok_def)

lemma store_append_of:
  "store_append e (store_of es) =
     (let new = acceptable e \<and> evidence_digest e \<notin> evidence_digest ` set es in
      (new, store_of (if new then es @ [e] else es)))"
  by (auto simp: store_append_def store_of_def Let_def)

lemma store_append_keeps: "entries_ok es \<Longrightarrow> entries_ok (entries (snd (store_append e (store_of es))))"
  by (simp add: store_append_of Let_def entries_ok_snoc) (simp add: store_of_def entries_ok_snoc)

text \<open>Replaying a store's entries rebuilds it.\<close>

lemma replay_entries: "entries_ok es \<Longrightarrow> store_replay es = store_of es"
proof (induction es rule: rev_induct)
  case Nil
  then show ?case by (simp add: store_replay_def empty_store_def store_of_def)
next
  case (snoc e es)
  then show ?case by (simp add: store_replay_def entries_ok_snoc store_append_of Let_def)
qed

subsection \<open>The binary record\<close>

definition magic :: nat where
  "magic = 0x41545045"

definition field_limit :: nat where
  "field_limit = 16 * 1024 * 1024"

definition write_field :: "string \<Rightarrow> string" where
  "write_field value = le_bytes 8 (length value) @ value"

definition encode_header :: "ProtocolEvidence \<Rightarrow> string" where
  "encode_header e =
     [char_of (kind_code (ev_kind e)), char_of (verification_code (ev_verification e))] @
     le_bytes 8 (unat (ev_sequence e)) @ le_bytes 8 (unat (observed_at e)) @
     le_bytes 8 (unat (confidence e))"

definition encode_evidence :: "ProtocolEvidence \<Rightarrow> string" where
  "encode_evidence e =
     le_bytes 4 magic @ encode_header e @
     write_field (ev_source e) @ write_field (event_type e) @ write_field (ev_subject e) @
     write_field (ev_payload e)"

definition read_field :: "string \<Rightarrow> string read" where
  "read_field =
     read_bind (read_bytes 8) (\<lambda>l.
       if field_limit < le_val l then (\<lambda>_. Read_error ''invalid protocol evidence field'')
       else read_bytes (le_val l))"

text \<open>The fixed part after the magic number: two bytes and three 64-bit words.\<close>

definition parse_header :: "string \<Rightarrow> (EvidenceKind \<times> Verification \<times> u64 \<times> u64 \<times> u64) option" where
  "parse_header h =
     (let k = code (h ! 0); v = code (h ! 1) in
      if 5 < k \<or> 2 < v then None
      else Some (kind_of_code k, verification_of_code v, of_nat (le_val (take 8 (drop 2 h))),
                 of_nat (le_val (take 8 (drop 10 h))), of_nat (le_val (take 8 (drop 18 h)))))"

definition read_evidence :: "string \<Rightarrow> ProtocolEvidence read" where
  "read_evidence =
     read_bind (read_bytes 4) (\<lambda>m.
       if le_val m \<noteq> magic then (\<lambda>_. Read_error ''invalid protocol evidence ledger'')
       else read_bind (read_bytes 26) (\<lambda>h. case parse_header h of
         None \<Rightarrow> (\<lambda>_. Read_error ''invalid protocol evidence header'')
       | Some (k, v, seq, at, conf) \<Rightarrow>
           read_bind read_field (\<lambda>source. read_bind read_field (\<lambda>type.
           read_bind read_field (\<lambda>subject. read_bind read_field (\<lambda>payload.
             Read_ok \<lparr>ev_kind = k, ev_source = source, event_type = type, ev_subject = subject,
                      ev_payload = payload, ev_sequence = seq, observed_at = at,
                      ev_verification = v, confidence = conf\<rparr>))))))"

definition fits :: "ProtocolEvidence \<Rightarrow> bool" where
  "fits e \<longleftrightarrow> length (ev_source e) \<le> field_limit \<and> length (event_type e) \<le> field_limit \<and>
     length (ev_subject e) \<le> field_limit \<and> length (ev_payload e) \<le> field_limit"

lemma reads_field:
  assumes "length v \<le> field_limit"
  shows "reads read_field (write_field v) v"
proof -
  have "le_val (le_bytes 8 (length v)) = length v" using assms by (simp add: field_limit_def)
  then show ?thesis
    unfolding read_field_def write_field_def using assms by (intro reads_bind [OF reads_bytes]) (auto intro: reads_bytes)
qed

lemma parse_header_bytes:
  "parse_header (encode_header e) =
     Some (ev_kind e, ev_verification e, ev_sequence e, observed_at e, confidence e)"
  using kind_code_simps(1) [of "ev_kind e"] verification_code_simps(1) [of "ev_verification e"]
  by (simp add: parse_header_def encode_header_def code_def Let_def not_less
      del: kind_code_simps(1) verification_code_simps(1))

lemma length_header [simp]: "length (encode_header e) = 26"
  by (simp add: encode_header_def)

lemma reads_evidence:
  assumes "fits e"
  shows "reads read_evidence (encode_evidence e) e"
proof -
  have m: "le_val (le_bytes 4 magic) = magic" by (simp add: magic_def)
  have f: "reads read_field (write_field (ev_source e)) (ev_source e)"
    "reads read_field (write_field (event_type e)) (event_type e)"
    "reads read_field (write_field (ev_subject e)) (ev_subject e)"
    "reads read_field (write_field (ev_payload e)) (ev_payload e)"
    using assms by (simp_all add: fits_def reads_field)
  have body: "reads (read_bind read_field (\<lambda>source. read_bind read_field (\<lambda>type.
           read_bind read_field (\<lambda>subject. read_bind read_field (\<lambda>payload.
             Read_ok \<lparr>ev_kind = ev_kind e, ev_source = source, event_type = type, ev_subject = subject,
                      ev_payload = payload, ev_sequence = ev_sequence e, observed_at = observed_at e,
                      ev_verification = ev_verification e, confidence = confidence e\<rparr>)))))
      (write_field (ev_source e) @ write_field (event_type e) @ write_field (ev_subject e) @
       write_field (ev_payload e) @ []) e"
    by (rule reads_bind [OF f(1)], rule reads_bind [OF f(2)], rule reads_bind [OF f(3)],
        rule reads_bind [OF f(4)]) (cases e, simp add: reads_return)
  show ?thesis
    unfolding read_evidence_def encode_evidence_def
    by (rule reads_bind [OF reads_bytes]; (simp add: m)?) (rule reads_bind [OF reads_bytes], simp, simp add: parse_header_bytes body [simplified])
qed

end
