(* ===== verification/Evidence_Ledger.thy ===== *)
theory Evidence_Ledger
  imports Evidence
begin

text \<open>
  \<open>EvidenceLedger\<close> (src/protocol/protocol.cpp): the append-only evidence file.  A scan reads the
  complete records and reports a torn tail; an append refreshes the dedup index when the file
  has another size than last seen, drops the torn tail, and writes one record.  Which system
  calls fail, and after how many bytes a write stops, are arguments (\<open>ledger_io\<close>).
\<close>

subsection \<open>The scan\<close>

lemma read_bind_ok:
  "read_bind rd f b = Read_ok y r \<Longrightarrow> \<exists>x m. rd b = Read_ok x m \<and> f x m = Read_ok y r"
  by (auto split: read.splits)

lemma read_field_shorter: "read_field b = Read_ok v r \<Longrightarrow> length r \<le> length b"
  unfolding read_field_def
  by (drule read_bind_ok) (auto dest!: read_bytes_ok split: if_splits)

lemma read_evidence_shorter:
  assumes "read_evidence b = Read_ok e rest"
  shows "length rest < length b"
proof -
  obtain m b1 where 1: "read_bytes 4 b = Read_ok m b1"
    and 2: "(if le_val m \<noteq> magic then (\<lambda>_. Read_error ''invalid protocol evidence ledger'')
       else read_bind (read_bytes 26) (\<lambda>h. case parse_header h of
         None \<Rightarrow> (\<lambda>_. Read_error ''invalid protocol evidence header'')
       | Some (k, v, seq, at, conf) \<Rightarrow>
           read_bind read_field (\<lambda>source. read_bind read_field (\<lambda>type.
           read_bind read_field (\<lambda>subject. read_bind read_field (\<lambda>payload.
             Read_ok \<lparr>ev_kind = k, ev_source = source, event_type = type, ev_subject = subject,
                      ev_payload = payload, ev_sequence = seq, observed_at = at,
                      ev_verification = v, confidence = conf\<rparr>)))))) b1 = Read_ok e rest"
    using read_bind_ok [OF assms [unfolded read_evidence_def]] by blast
  have "length rest \<le> length b1"
    using 2
    by (auto split: if_splits read.splits option.splits simp del: read_bytes_def
        dest!: read_field_shorter read_bytes_ok)
  with read_bytes_ok [OF 1] show ?thesis by auto
qed

function scan_evidence :: "string \<Rightarrow> ProtocolEvidence list \<times> nat \<times> scan_end" where
  "scan_evidence b =
     (if b = [] then ([], 0, Scan_end)
      else case read_evidence b of
        Read_torn \<Rightarrow> ([], 0, Scan_torn)
      | Read_error m \<Rightarrow> ([], 0, Scan_error m)
      | Read_ok e rest \<Rightarrow>
          (case scan_evidence rest of (es, n, end) \<Rightarrow> (e # es, length b - length rest + n, end)))"
  by pat_completeness auto
termination by (relation "measure length") (auto dest: read_evidence_shorter)

declare scan_evidence.simps [simp del]

interpretation evidence: framed_log encode_evidence read_evidence fits scan_evidence
proof
  show "encode_evidence e \<noteq> []" for e by (simp add: encode_evidence_def encode_header_def)
  show "reads read_evidence (encode_evidence e) e" if "fits e" for e using that by (rule reads_evidence)
qed (rule scan_evidence.simps)

subsection \<open>The ledger\<close>

record EvidenceLedger =
  led_index :: "digest set"
  indexed_size :: nat
  good_end :: nat
  torn :: bool
  index_valid :: bool

record ledger_io =
  stat_ok :: bool
  readable :: bool
  resize_ok :: bool
  dirs_ok :: bool
  open_ok :: bool
  written :: "nat option"
  sync_ok :: bool
  restat_ok :: bool

definition file_bytes :: "string option \<Rightarrow> string" where
  "file_bytes f = (case f of None \<Rightarrow> [] | Some b \<Rightarrow> b)"

definition fresh_ledger :: EvidenceLedger where
  "fresh_ledger = \<lparr>led_index = {}, indexed_size = 0, good_end = 0, torn = False, index_valid = False\<rparr>"

definition open_ledger :: "string option \<Rightarrow> EvidenceLedger result" where
  "open_ledger file =
     (if file = Some [] then throw Runtime_error ''empty protocol evidence ledger'' else Inr fresh_ledger)"

text \<open>An existing file that cannot be opened for reading scans as an empty one.\<close>

definition refresh_index ::
  "ledger_io \<Rightarrow> EvidenceLedger \<Rightarrow> string option \<Rightarrow> unit result \<times> EvidenceLedger" where
  "refresh_index io L file =
     (if \<not> stat_ok io then (throw Runtime_error ''stat protocol evidence ledger'', L)
      else let n = length (file_bytes file) in
      if index_valid L \<and> n = indexed_size L then (Inr (), L)
      else case scan_evidence (if readable io then file_bytes file else []) of (es, good, end) \<Rightarrow>
        let L1 = L\<lparr>led_index := evidence_digest ` set es, good_end := good, torn := (end = Scan_torn)\<rparr> in
        (case end of
           Scan_error m \<Rightarrow> (throw Runtime_error m, L1)
         | _ \<Rightarrow> (Inr (), L1\<lparr>indexed_size := n, index_valid := True\<rparr>)))"

definition drop_torn_tail :: "EvidenceLedger \<Rightarrow> string option \<Rightarrow> EvidenceLedger \<times> string option" where
  "drop_torn_tail L file =
     (if torn L then (L\<lparr>indexed_size := good_end L, torn := False\<rparr>, Some (take (good_end L) (file_bytes file)))
      else (L, file))"

definition write_record_to ::
  "ledger_io \<Rightarrow> ProtocolEvidence \<Rightarrow> EvidenceLedger \<Rightarrow> string option \<Rightarrow>
   bool result \<times> EvidenceLedger \<times> string option" where
  "write_record_to io e L file =
     (let line = encode_evidence e; bytes = file_bytes file; whole = Some (bytes @ line);
          indexed = L\<lparr>led_index := insert (evidence_digest e) (led_index L)\<rparr>
      in if \<not> dirs_ok io then (throw Runtime_error ''create protocol evidence directory'', L, file)
      else if \<not> open_ok io then (throw Runtime_error ''open protocol evidence ledger'', L, file)
      else case written io of
        Some n \<Rightarrow> (throw Runtime_error ''write protocol evidence ledger'', L, Some (bytes @ take n line))
      | None \<Rightarrow>
          if \<not> sync_ok io then (throw Runtime_error ''sync protocol evidence ledger'', L, whole)
          else if \<not> restat_ok io then (throw Std_exception ''file_size'', indexed, whole)
          else (Inr True, indexed\<lparr>indexed_size := length (file_bytes whole)\<rparr>, whole))"

definition ledger_append ::
  "ledger_io \<Rightarrow> ProtocolEvidence \<Rightarrow> EvidenceLedger \<Rightarrow> string option \<Rightarrow>
   bool result \<times> EvidenceLedger \<times> string option" where
  "ledger_append io e L file =
     (if \<not> acceptable e then (Inr False, L, file)
      else case refresh_index io L file of
        (Inl x, L1) \<Rightarrow> (Inl x, L1, file)
      | (Inr _, L1) \<Rightarrow>
          if evidence_digest e \<in> led_index L1 then (Inr False, L1, file)
          else if torn L1 \<and> \<not> resize_ok io then
            (throw Runtime_error ''repair torn protocol evidence ledger'', L1, file)
          else (case drop_torn_tail L1 file of (L2, file2) \<Rightarrow> write_record_to io e L2 file2))"

definition ledger_entries :: "string option \<Rightarrow> ProtocolEvidence list result" where
  "ledger_entries file =
     (case scan_evidence (file_bytes file) of
        (es, _, Scan_error m) \<Rightarrow> throw Runtime_error m
      | (es, _, _) \<Rightarrow> Inr es)"

subsection \<open>The facts the ledger stores\<close>

definition append_firehose_event ::
  "string \<Rightarrow> string \<Rightarrow> string \<Rightarrow> string \<Rightarrow> u64 \<Rightarrow> u64 \<Rightarrow> Verification \<Rightarrow> ProtocolEvidence" where
  "append_firehose_event source type subject payload seq at v =
     \<lparr>ev_kind = Ev_Sync, ev_source = source, event_type = type, ev_subject = subject,
      ev_payload = payload, ev_sequence = seq, observed_at = at, ev_verification = v,
      confidence = confidence_of v 0\<rparr>"

definition append_identity_fact ::
  "IdentityFact \<Rightarrow> string \<Rightarrow> u64 \<Rightarrow> u64 \<Rightarrow> ProtocolEvidence option" where
  "append_identity_fact f source seq at =
     (if \<not> is_did (id_did f) \<or> \<not> is_handle (id_handle f) \<or> source = [] then None
      else Some
        \<lparr>ev_kind = Ev_Identity, ev_source = source, event_type = ''#identity'', ev_subject = id_did f,
         ev_payload = id_handle f @ ''|'' @ pds_endpoint f @ ''|'' @ signing_key f @
           concat (map (\<lambda>r. ''|rotation='' @ r) (rotation_keys f)),
         ev_sequence = seq, observed_at = at, ev_verification = id_verification f,
         confidence = confidence_of (id_verification f) half\<rparr>)"

definition append_service_fact ::
  "ServiceFact \<Rightarrow> string \<Rightarrow> u64 \<Rightarrow> u64 \<Rightarrow> ProtocolEvidence option" where
  "append_service_fact f source seq at =
     (if svc_role f = Service_Unknown \<or> source = [] \<or> \<not> is_did (svc_subject_did f) \<or>
         \<not> starts_with (svc_endpoint f) ''https://'' then None
      else Some
        \<lparr>ev_kind = Ev_Identity, ev_source = source, event_type = ''#service'',
         ev_subject = svc_subject_did f,
         ev_payload = ''role='' @ service_role_name (svc_role f) @ ''|endpoint='' @ svc_endpoint f,
         ev_sequence = seq, observed_at = at, ev_verification = svc_verification f,
         confidence = confidence_of (svc_verification f) half\<rparr>)"

definition append_repository_fact :: "RepositoryFact \<Rightarrow> u64 \<Rightarrow> u64 \<Rightarrow> ProtocolEvidence" where
  "append_repository_fact f seq at =
     append_firehose_event (car_source f) ''#repository'' (repo_did f)
       (repo_fact_revision f @ ''|'' @ signed_root_cid f) seq at (repo_verification f)"

text \<open>
  Each helper builds one record and appends it; \<open>None\<close> is its early \<open>return false\<close>.  A fact that
  was accepted always passes the append's own checks, given a sequence or an instant.
\<close>

lemma is_did_nonempty: "is_did d \<Longrightarrow> d \<noteq> []"
  by (auto simp: is_did_def starts_with_def)

lemma confidence_ok_of: "confidence_ok (confidence_of v half)"
  by (cases v) (simp_all add: confidence_of_def confidence_ok_def half_def)

lemma accepted_identity_recorded:
  assumes "accept_identity did handle src key endpoint v rot = Some f" and "source \<noteq> []"
    and "seq \<noteq> 0 \<or> at \<noteq> 0"
  shows "\<exists>e. append_identity_fact f source seq at = Some e \<and> acceptable e"
  using assms is_did_nonempty [of did]
  by (auto simp: accept_identity_iff identity_ok_def append_identity_fact_def acceptable_def
      confidence_ok_of)

subsection \<open>The file stays readable\<close>

text \<open>
  \<open>ledger_ok L file es\<close>: the file holds the records \<open>es\<close>, then perhaps the torn prefix of one
  more, and whenever the instance trusts its index (the file has the size it last saw) the index
  is that of \<open>es\<close>.
\<close>

definition ledger_ok :: "EvidenceLedger \<Rightarrow> string option \<Rightarrow> ProtocolEvidence list \<Rightarrow> bool" where
  "ledger_ok L file es \<longleftrightarrow>
     entries_ok es \<and> list_all fits es \<and>
     (\<exists>p. file_bytes file = evidence.image es @ p \<and> (p = [] \<or> evidence.tail_ok p) \<and>
        (index_valid L \<longrightarrow> length (file_bytes file) = indexed_size L \<longrightarrow>
           led_index L = evidence_digest ` set es \<and> torn L = (p \<noteq> []) \<and>
           (torn L \<longrightarrow> good_end L = length (evidence.image es))))"

lemma scan_ledger:
  assumes "list_all fits es" and "p = [] \<or> evidence.tail_ok p"
  shows "scan_evidence (evidence.image es @ p) =
    (es, length (evidence.image es), if p = [] then Scan_end else Scan_torn)"
  using assms evidence.scan_complete [of es] evidence.scan_log [of es p] by (auto simp: list_all_iff)

lemma scan_whole:
  "list_all fits es \<Longrightarrow> scan_evidence (evidence.image es) = (es, length (evidence.image es), Scan_end)"
  using scan_ledger [of es "[]"] by simp

lemma ledger_entries_ok:
  assumes "ledger_ok L file es"
  shows "ledger_entries file = Inr es"
  using assms by (auto simp: ledger_ok_def ledger_entries_def scan_ledger scan_whole)

lemma ledger_ok_fresh: "ledger_ok fresh_ledger None []"
  by (simp add: ledger_ok_def fresh_ledger_def file_bytes_def)

lemma ledger_ok_open: "ledger_ok L file es \<Longrightarrow> open_ledger file = Inr L' \<Longrightarrow> ledger_ok L' file es"
  by (auto simp: ledger_ok_def open_ledger_def fresh_ledger_def split: if_splits)

text \<open>What a refreshed instance knows.\<close>

lemma refresh_ok:
  assumes "ledger_ok L file es" and "readable io" and "refresh_index io L file = (r, L')"
  shows "ledger_ok L' file es \<and> (r = Inr () \<longleftrightarrow> stat_ok io) \<and>
    (r = Inr () \<longrightarrow> index_valid L' \<and> indexed_size L' = length (file_bytes file))"
  using assms
  by (auto simp: ledger_ok_def refresh_index_def Let_def scan_ledger scan_whole split: if_splits)

text \<open>Writing to a file whose tail is clean, with an index that knows it.\<close>

lemma write_record_to_ok:
  assumes es: "entries_ok (es @ [e])" "list_all fits es" "fits e"
    and clean: "file_bytes file = evidence.image es" "\<not> torn L"
    and idx: "index_valid L" "indexed_size L = length (file_bytes file)" "led_index L = evidence_digest ` set es"
    and w: "write_record_to io e L file = (r, L', file')"
  shows "\<exists>es'. ledger_ok L' file' es' \<and> (es' = es \<or> es' = es @ [e]) \<and>
    (\<forall>b. r = Inr b \<longrightarrow> b \<and> es' = es @ [e])"
proof -
  have ne: "0 < length (encode_evidence e)" using evidence.enc_nonempty [of e] by simp
  have e0: "entries_ok es" using es(1) by (simp add: entries_ok_snoc)
  have keep: "ledger_ok L file es"
    using e0 es clean idx by (auto simp: ledger_ok_def)
  have all: "ledger_ok L2 (Some (file_bytes file @ encode_evidence e)) (es @ [e])"
    if "indexed_size L2 = length (file_bytes file)" for L2
    using es clean that ne by (auto simp: ledger_ok_def file_bytes_def)
  have part: "ledger_ok L (Some (file_bytes file @ take n (encode_evidence e)))
      (if n < length (encode_evidence e) then es else es @ [e])" for n
  proof (cases "n < length (encode_evidence e)")
    case True
    then have "evidence.tail_ok (take n (encode_evidence e))" using es(3) by (auto simp: evidence.tail_ok_def)
    then show ?thesis
      using True e0 es clean idx by (cases "n = 0") (auto simp: ledger_ok_def file_bytes_def)
  next
    case False
    then show ?thesis using all [OF idx(2)] by simp
  qed
  show ?thesis
  proof (cases "dirs_ok io \<and> open_ok io")
    case False
    then show ?thesis using w keep by (auto simp: write_record_to_def Let_def throw_def split: if_splits)
  next
    case True
    show ?thesis
    proof (cases "written io")
      case (Some n)
      then have "(r, L', file') = (throw Runtime_error ''write protocol evidence ledger'', L,
          Some (file_bytes file @ take n (encode_evidence e)))"
        using True w by (simp add: write_record_to_def Let_def)
      then show ?thesis using part [of n]
        by (intro exI [of _ "if n < length (encode_evidence e) then es else es @ [e]"]) (auto simp: throw_def)
    next
      case None
      have fin: "ledger_ok (L\<lparr>led_index := insert (evidence_digest e) (led_index L),
            indexed_size := length (file_bytes file) + length (encode_evidence e)\<rparr>)
          (Some (file_bytes file @ encode_evidence e)) (es @ [e])"
        using es clean idx by (auto simp: ledger_ok_def file_bytes_def)
      have mid: "ledger_ok (L\<lparr>led_index := i\<rparr>) (Some (file_bytes file @ encode_evidence e)) (es @ [e])" for i
        using idx by (intro all) simp
      show ?thesis
        using None True w fin mid [of "led_index L"] mid all [OF idx(2)]
        by (intro exI [of _ "es @ [e]"])
          (auto simp: write_record_to_def Let_def throw_def file_bytes_def split: if_splits)
    qed
  qed
qed

text \<open>One append refines one append of the in-memory store.\<close>

lemma ledger_append_ok:
  assumes ok: "ledger_ok L file es" and io: "readable io" and e: "fits e"
    and a: "ledger_append io e L file = (r, L', file')"
  shows "\<exists>es'. ledger_ok L' file' es' \<and> (es' = es \<or> es' = es @ [e]) \<and>
    (\<forall>b. r = Inr b \<longrightarrow> store_append e (store_of es) = (b, store_of es'))"
proof (cases "acceptable e")
  case False
  then show ?thesis using a ok by (auto simp: ledger_append_def store_append_of Let_def)
next
  case acc: True
  obtain r1 L1 where rf: "refresh_index io L file = (r1, L1)" by fastforce
  note R = refresh_ok [OF ok io rf]
  show ?thesis
  proof (cases r1)
    case (Inl x)
    then show ?thesis using a acc rf R by (auto simp: ledger_append_def)
  next
    case (Inr u)
    obtain p where p: "file_bytes file = evidence.image es @ p" "p = [] \<or> evidence.tail_ok p"
      and k: "led_index L1 = evidence_digest ` set es" "torn L1 = (p \<noteq> [])"
        "torn L1 \<Longrightarrow> good_end L1 = length (evidence.image es)"
      and v: "index_valid L1" "indexed_size L1 = length (file_bytes file)"
      and ok1: "ledger_ok L1 file es" "entries_ok es" "list_all fits es"
      using R Inr by (auto simp: ledger_ok_def)
    show ?thesis
    proof (cases "evidence_digest e \<in> led_index L1")
      case True
      then show ?thesis using a acc rf Inr ok1 k by (auto simp: ledger_append_def store_append_of Let_def)
    next
      case new: False
      then have snoc: "entries_ok (es @ [e])" using ok1 acc k by (simp add: entries_ok_snoc)
      show ?thesis
      proof (cases "torn L1 \<and> \<not> resize_ok io")
        case True
        then show ?thesis using a acc rf Inr ok1 new by (auto simp: ledger_append_def throw_def)
      next
        case False
        obtain L2 file2 where d: "drop_torn_tail L1 file = (L2, file2)" by fastforce
        have d2: "file_bytes file2 = evidence.image es" "\<not> torn L2" "index_valid L2"
          "indexed_size L2 = length (file_bytes file2)" "led_index L2 = evidence_digest ` set es"
          using d k p v by (auto simp: drop_torn_tail_def file_bytes_def split: if_splits option.splits)
        have w: "write_record_to io e L2 file2 = (r, L', file')"
          using a acc rf Inr new False d by (auto simp: ledger_append_def)
        from write_record_to_ok [OF snoc ok1(3) e d2(1,2,3,4,5) w] show ?thesis
          using snoc by (auto simp: store_append_of Let_def entries_ok_snoc)
      qed
    qed
  qed
qed

subsection \<open>Every reachable ledger\<close>

text \<open>
  What can happen to the file of one process at a time: an append, with any of its calls
  failing, and a new instance after a crash (a cut write is \<open>written io = Some n\<close>).
\<close>

inductive ledger_reach :: "EvidenceLedger \<Rightarrow> string option \<Rightarrow> bool" where
  reach_fresh: "ledger_reach fresh_ledger None"
| reach_append: "ledger_reach L file \<Longrightarrow> fits e \<Longrightarrow> readable io \<Longrightarrow>
    ledger_append io e L file = (r, L', file') \<Longrightarrow> ledger_reach L' file'"
| reach_open: "ledger_reach L file \<Longrightarrow> open_ledger file = Inr L' \<Longrightarrow> ledger_reach L' file"

lemma ledger_reach_ok: "ledger_reach L file \<Longrightarrow> \<exists>es. ledger_ok L file es"
proof (induction rule: ledger_reach.induct)
  case reach_fresh
  then show ?case using ledger_ok_fresh by blast
next
  case (reach_append L f e io r L' f')
  then show ?case using ledger_append_ok by meson
next
  case (reach_open L f L')
  then show ?case using ledger_ok_open by blast
qed

subsection \<open>Two ways to lose the file\<close>

definition ledger_io_ok :: ledger_io where
  "ledger_io_ok =
     \<lparr>stat_ok = True, readable = True, resize_ok = True, dirs_ok = True, open_ok = True, written = None,
      sync_ok = True, restat_ok = True\<rparr>"

text \<open>
  The append checks no field's length, the scan refuses a field of more than 16 MiB: such a
  record is written and the file cannot be read again.
\<close>

lemma read_oversized:
  assumes "length (ev_source e) \<le> field_limit" "length (event_type e) \<le> field_limit"
    "length (ev_subject e) \<le> field_limit" and big: "field_limit < length (ev_payload e)"
    and "length (ev_payload e) < 2 ^ 64"
  shows "read_evidence (encode_evidence e) = Read_error ''invalid protocol evidence field''"
proof -
  have f: "read_field (write_field (ev_source e) @ r) = Read_ok (ev_source e) r"
    "read_field (write_field (event_type e) @ r) = Read_ok (event_type e) r"
    "read_field (write_field (ev_subject e) @ r) = Read_ok (ev_subject e) r" for r
    using assms by (simp_all add: readsD(1) [OF reads_field])
  have "le_val (le_bytes 8 (length (ev_payload e))) = length (ev_payload e)" using assms(5) by simp
  then have p: "read_field (write_field (ev_payload e)) = Read_error ''invalid protocol evidence field''"
    using big by (simp add: read_field_def write_field_def read_bytes_def)
  have m: "le_val (le_bytes 4 magic) = magic" by (simp add: magic_def)
  have b: "read_bytes 4 (le_bytes 4 magic @ r) = Read_ok (le_bytes 4 magic) r"
    "read_bytes 26 (encode_header e @ r) = Read_ok (encode_header e) r" for r
    by (simp_all add: read_bytes_def)
  show ?thesis
    by (simp add: read_evidence_def encode_evidence_def b m parse_header_bytes f p)
qed

lemma oversized_record_unreadable:
  assumes "length (ev_source e) \<le> field_limit" "length (event_type e) \<le> field_limit"
    "length (ev_subject e) \<le> field_limit" "field_limit < length (ev_payload e)"
    "length (ev_payload e) < 2 ^ 64" and "acceptable e"
  shows "\<exists>L' file'. ledger_append ledger_io_ok e fresh_ledger None = (Inr True, L', file') \<and>
    ledger_entries file' = throw Runtime_error ''invalid protocol evidence field''"
proof -
  have "encode_evidence e \<noteq> []" by (rule evidence.enc_nonempty)
  then have s: "scan_evidence (encode_evidence e) = ([], 0, Scan_error ''invalid protocol evidence field'')"
    using read_oversized [OF assms(1-5)] by (subst scan_evidence.simps) simp
  show ?thesis
    using assms(6) s
    by (simp add: ledger_append_def refresh_index_def ledger_io_ok_def fresh_ledger_def file_bytes_def
        drop_torn_tail_def write_record_to_def Let_def ledger_entries_def)
qed

text \<open>
  A first append that fails before its first byte (a full disk) leaves an empty file, which the
  running instance goes on with and the next start refuses.
\<close>

lemma failed_first_append_blocks_restart:
  assumes "acceptable e"
  shows "\<exists>x L'. ledger_append (ledger_io_ok\<lparr>written := Some 0\<rparr>) e fresh_ledger None = (Inl x, L', Some []) \<and>
    open_ledger (Some []) = throw Runtime_error ''empty protocol evidence ledger''"
  using assms
  by (simp add: ledger_append_def refresh_index_def ledger_io_ok_def fresh_ledger_def file_bytes_def
      drop_torn_tail_def write_record_to_def Let_def open_ledger_def throw_def)

end
