(* ===== verification/Stream_Cursor.thy ===== *)
theory Stream_Cursor
  imports Protocol_Facts
begin

text \<open>
  The firehose cursor (\<open>CursorState\<close>, \<open>observe_sequence\<close>, \<open>observe_stream\<close>, \<open>plan_resync\<close>,
  \<open>complete_resync\<close> of src/protocol/protocol.cpp) as a state machine: a gap stops the stream
  until a verified resynchronisation, and the position never moves back.
\<close>

record RepositoryRevision =
  rr_repo :: string
  rr_revision :: string

record CursorState =
  last_sequence :: u64
  cur_repo :: string
  repo_revision :: string
  repository_revisions :: "RepositoryRevision list"
  resync_required :: bool

definition initial_cursor :: CursorState where
  "initial_cursor = \<lparr>last_sequence = 0, cur_repo = [], repo_revision = [],
                     repository_revisions = [], resync_required = False\<rparr>"

datatype CursorResult = Cur_Initialized | Cur_Advanced | Cur_Duplicate | Cur_Gap | Cur_Rewind | Cur_Rejected

fun set_revision :: "string \<Rightarrow> string \<Rightarrow> RepositoryRevision list \<Rightarrow> RepositoryRevision list" where
  "set_revision repo rv [] = [\<lparr>rr_repo = repo, rr_revision = rv\<rparr>]"
| "set_revision repo rv (r # rs) =
     (if rr_repo r = repo then r\<lparr>rr_revision := rv\<rparr> # rs else r # set_revision repo rv rs)"

definition remember_revision :: "string \<Rightarrow> string \<Rightarrow> CursorState \<Rightarrow> CursorState" where
  "remember_revision repo rv s =
     (if repo = [] \<or> rv = [] then s
      else s\<lparr>repository_revisions := set_revision repo rv (repository_revisions s)\<rparr>)"

definition revision_for :: "CursorState \<Rightarrow> string \<Rightarrow> string option" where
  "revision_for s repo =
     map_option rr_revision (find (\<lambda>r. rr_repo r = repo) (repository_revisions s))"

definition observe_sequence :: "u64 \<Rightarrow> bool \<Rightarrow> CursorState \<Rightarrow> CursorResult \<times> CursorState" where
  "observe_sequence seq contiguous s =
     (if seq = 0 then (Cur_Rejected, s)
      else if last_sequence s = 0 then
        (Cur_Initialized, s\<lparr>last_sequence := seq, resync_required := False\<rparr>)
      else if resync_required s then (Cur_Gap, s)
      else if seq = last_sequence s then (Cur_Duplicate, s)
      else if seq < last_sequence s then (Cur_Rewind, s)
      else if contiguous \<and> seq \<noteq> last_sequence s + 1 then (Cur_Gap, s\<lparr>resync_required := True\<rparr>)
      else (Cur_Advanced, s\<lparr>last_sequence := seq\<rparr>))"

definition observe_stream ::
  "u64 \<Rightarrow> string \<Rightarrow> string \<Rightarrow> bool \<Rightarrow> CursorState \<Rightarrow> CursorResult \<times> CursorState" where
  "observe_stream seq repo rv contiguous s =
     (if \<not> is_did repo \<or> \<not> is_tid rv then (Cur_Rejected, s)
      else case observe_sequence seq contiguous s of
        (result, s1) \<Rightarrow>
          if result \<noteq> Cur_Initialized \<and> result \<noteq> Cur_Advanced then (result, s1)
          else if result = Cur_Initialized then
            (result, remember_revision repo rv (s1\<lparr>cur_repo := repo, repo_revision := rv\<rparr>))
          else
            let s2 = (if repo \<noteq> [] then s1\<lparr>cur_repo := repo\<rparr> else s1);
                s3 = (if rv \<noteq> [] then remember_revision repo rv (s2\<lparr>repo_revision := rv\<rparr>) else s2)
            in (Cur_Advanced, s3))"

record ResyncPlan =
  plan_required :: bool
  plan_repo :: string
  from_sequence :: u64
  max_records :: u32
  plan_reason :: string

definition plan_resync :: "CursorState \<Rightarrow> u32 \<Rightarrow> ResyncPlan" where
  "plan_resync s n =
     (if \<not> resync_required s then
        \<lparr>plan_required = False, plan_repo = [], from_sequence = 0, max_records = 0, plan_reason = []\<rparr>
      else \<lparr>plan_required = True, plan_repo = cur_repo s, from_sequence = last_sequence s,
            max_records = max 1 n,
            plan_reason = ''firehose sequence gap requires bounded repository resync''\<rparr>)"

definition complete_resync ::
  "u64 \<Rightarrow> string \<Rightarrow> string \<Rightarrow> Verification \<Rightarrow> CursorState \<Rightarrow> bool \<times> CursorState" where
  "complete_resync seq repo rv verification s =
     (if \<not> resync_required s \<or> seq < last_sequence s \<or> repo = [] \<or> rv = [] \<or> \<not> is_did repo \<or>
         \<not> is_tid rv \<or> verification \<noteq> Verified then (False, s)
      else
        let s1 = s\<lparr>last_sequence := seq, cur_repo := repo, repo_revision := rv\<rparr>;
            s2 = remember_revision repo rv s1
        in (True, s2\<lparr>resync_required := False\<rparr>))"

subsection \<open>The revisions are a map with unique keys\<close>

lemma set_revision_keys:
  "map rr_repo (set_revision repo rv rs) =
     (if repo \<in> set (map rr_repo rs) then map rr_repo rs else map rr_repo rs @ [repo])"
  by (induction rs) auto

lemma find_set_revision:
  "map_option rr_revision (find (\<lambda>r. rr_repo r = k) (set_revision repo rv rs)) =
     (if k = repo then Some rv else map_option rr_revision (find (\<lambda>r. rr_repo r = k) rs))"
  by (induction rs) auto

lemma revision_for_remember:
  "repo \<noteq> [] \<Longrightarrow> rv \<noteq> [] \<Longrightarrow>
     revision_for (remember_revision repo rv s) k = (if k = repo then Some rv else revision_for s k)"
  by (simp add: revision_for_def remember_revision_def find_set_revision)

lemma remember_rest [simp]:
  "last_sequence (remember_revision repo rv s) = last_sequence s"
  "cur_repo (remember_revision repo rv s) = cur_repo s"
  "repo_revision (remember_revision repo rv s) = repo_revision s"
  "resync_required (remember_revision repo rv s) = resync_required s"
  by (simp_all add: remember_revision_def)

lemma tid_nonempty: "is_tid r \<Longrightarrow> r \<noteq> []"
  by (auto simp: is_tid_def)

lemma did_nonempty: "is_did r \<Longrightarrow> r \<noteq> []"
  by (auto simp: is_did_def starts_with_def)

subsection \<open>The step relation\<close>

text \<open>
  What a stream does to its cursor: an event, with the position it asserts and the repository
  revision it carries, or a finished resynchronisation.
\<close>

datatype cursor_event =
    Observe (ev_seq: u64) (ev_repo: string) (ev_rev: string)
  | Resynced (ev_seq: u64) (ev_repo: string) (ev_rev: string)

inductive cursor_step :: "bool \<Rightarrow> CursorState \<Rightarrow> cursor_event \<Rightarrow> CursorState \<Rightarrow> bool" for contiguous where
  step_first: "observe_stream seq repo rv contiguous s = (Cur_Initialized, s') \<Longrightarrow>
    cursor_step contiguous s (Observe seq repo rv) s'"
| step_next: "observe_stream seq repo rv contiguous s = (Cur_Advanced, s') \<Longrightarrow>
    cursor_step contiguous s (Observe seq repo rv) s'"
| step_resync: "complete_resync seq repo rv Verified s = (True, s') \<Longrightarrow>
    cursor_step contiguous s (Resynced seq repo rv) s'"

text \<open>A run with the events that took effect; every other call leaves only the gap mark.\<close>

inductive cursor_run :: "bool \<Rightarrow> cursor_event list \<Rightarrow> CursorState \<Rightarrow> bool" for contiguous where
  run_start: "cursor_run contiguous [] initial_cursor"
| run_step: "cursor_run contiguous es s \<Longrightarrow> cursor_step contiguous s e s' \<Longrightarrow>
    cursor_run contiguous (es @ [e]) s'"
| run_refused: "cursor_run contiguous es s \<Longrightarrow> observe_stream seq repo rv contiguous s = (r, s') \<Longrightarrow>
    r \<noteq> Cur_Initialized \<Longrightarrow> r \<noteq> Cur_Advanced \<Longrightarrow> cursor_run contiguous es s'"
| run_unsynced: "cursor_run contiguous es s \<Longrightarrow> complete_resync seq repo rv v s = (False, s') \<Longrightarrow>
    cursor_run contiguous es s'"

inductive_cases step_observeE: "cursor_step contiguous s (Observe seq repo rv) s'"
inductive_cases step_resyncedE: "cursor_step contiguous s (Resynced seq repo rv) s'"

lemma observe_refused:
  assumes "observe_stream seq repo rv contiguous s = (r, s')" "r \<noteq> Cur_Initialized" "r \<noteq> Cur_Advanced"
  shows "s' = s \<or> (r = Cur_Gap \<and> last_sequence s \<noteq> 0 \<and> s' = s\<lparr>resync_required := True\<rparr>)"
  using assms by (auto simp: observe_stream_def observe_sequence_def Let_def split: if_splits)

lemma observe_accepted:
  assumes "observe_stream seq repo rv contiguous s = (r, s')" "r = Cur_Initialized \<or> r = Cur_Advanced"
  shows "is_did repo" "is_tid rv" "seq \<noteq> 0" "last_sequence s' = seq" "cur_repo s' = repo"
    "repo_revision s' = rv" "\<not> resync_required s'" "last_sequence s < seq"
    "revision_for s' k = (if k = repo then Some rv else revision_for s k)"
    "last_sequence s = 0 \<or> (\<not> resync_required s \<and> (contiguous \<longrightarrow> seq = last_sequence s + 1))"
proof -
  have d: "is_did repo" "is_tid rv"
    using assms by (auto simp: observe_stream_def split: if_splits)
  note n = did_nonempty [OF d(1)] tid_nonempty [OF d(2)]
  have p: "last_sequence s = 0 \<Longrightarrow> seq \<noteq> 0 \<Longrightarrow> last_sequence s < seq"
    by (simp add: word_gt_0)
  show "is_did repo" "is_tid rv" by fact+
  show "seq \<noteq> 0" "last_sequence s' = seq" "cur_repo s' = repo" "repo_revision s' = rv"
    "\<not> resync_required s'" "last_sequence s < seq"
    "last_sequence s = 0 \<or> (\<not> resync_required s \<and> (contiguous \<longrightarrow> seq = last_sequence s + 1))"
    using assms d n p
    by (auto simp: observe_stream_def observe_sequence_def Let_def not_less order.order_iff_strict split: if_splits)
  have "revision_for (s1\<lparr>cur_repo := a, repo_revision := b, last_sequence := c, resync_required := x\<rparr>) k = revision_for s1 k"
    for s1 a b c x by (simp add: revision_for_def)
  show "revision_for s' k = (if k = repo then Some rv else revision_for s k)"
    using assms d n
    by (auto simp: observe_stream_def observe_sequence_def Let_def revision_for_remember split: if_splits)
      (auto simp: revision_for_def)
qed

lemma resync_accepted:
  assumes "complete_resync seq repo rv v s = (True, s')"
  shows "resync_required s" "v = Verified" "is_did repo" "is_tid rv" "last_sequence s \<le> seq"
    "last_sequence s' = seq" "cur_repo s' = repo" "repo_revision s' = rv" "\<not> resync_required s'"
    "revision_for s' k = (if k = repo then Some rv else revision_for s k)"
proof -
  show "resync_required s" "v = Verified" "is_did repo" "is_tid rv" "last_sequence s \<le> seq"
    "last_sequence s' = seq" "cur_repo s' = repo" "repo_revision s' = rv" "\<not> resync_required s'"
    using assms by (auto simp: complete_resync_def Let_def split: if_splits)
  have "revision_for (t\<lparr>resync_required := False\<rparr>) k = revision_for t k" for t
    by (simp add: revision_for_def)
  then show "revision_for s' k = (if k = repo then Some rv else revision_for s k)"
    using assms
    by (auto simp: complete_resync_def Let_def revision_for_remember split: if_splits)
      (auto simp: revision_for_def)
qed

lemma resync_refused: "complete_resync seq repo rv v s = (False, s') \<Longrightarrow> s' = s"
  by (auto simp: complete_resync_def Let_def split: if_splits)

subsection \<open>Every reachable cursor\<close>

text \<open>How one accepted event follows another.\<close>

fun follows :: "bool \<Rightarrow> cursor_event \<Rightarrow> cursor_event \<Rightarrow> bool" where
  "follows contiguous a (Observe seq repo rv) \<longleftrightarrow>
     ev_seq a < seq \<and> (contiguous \<longrightarrow> seq = ev_seq a + 1)"
| "follows contiguous a (Resynced seq repo rv) \<longleftrightarrow> ev_seq a \<le> seq"

definition revisions_of :: "cursor_event list \<Rightarrow> string \<Rightarrow> string option" where
  "revisions_of es = map_of (rev (map (\<lambda>e. (ev_repo e, ev_rev e)) es))"

lemma revisions_snoc:
  "revisions_of (es @ [e]) k = (if k = ev_repo e then Some (ev_rev e) else revisions_of es k)"
  by (simp add: revisions_of_def)

definition cursor_ok :: "bool \<Rightarrow> cursor_event list \<Rightarrow> CursorState \<Rightarrow> bool" where
  "cursor_ok contiguous es s \<longleftrightarrow>
     (es = [] \<longleftrightarrow> last_sequence s = 0) \<and>
     (es \<noteq> [] \<longrightarrow> last_sequence s = ev_seq (last es)) \<and>
     (resync_required s \<longrightarrow> es \<noteq> []) \<and>
     successively (follows contiguous) es \<and>
     revision_for s = revisions_of es"

lemma cursor_ok_step:
  assumes "cursor_ok contiguous es s" and "cursor_step contiguous s e s'"
  shows "cursor_ok contiguous (es @ [e]) s'"
proof (cases e)
  case (Observe seq repo rv)
  then obtain r where o: "observe_stream seq repo rv contiguous s = (r, s')" "r = Cur_Initialized \<or> r = Cur_Advanced"
    using assms(2) by (auto elim: step_observeE)
  have "revision_for s' = revisions_of (es @ [e])"
    using assms(1) Observe observe_accepted(9) [OF o] by (intro ext) (simp add: cursor_ok_def revisions_snoc)
  then show ?thesis
    using assms(1) Observe observe_accepted(3,4,7,8,10) [OF o]
    by (auto simp: cursor_ok_def successively_append_iff)
next
  case (Resynced seq repo rv)
  then have c: "complete_resync seq repo rv Verified s = (True, s')"
    using assms(2) by (auto elim: step_resyncedE)
  have "revision_for s' = revisions_of (es @ [e])"
    using assms(1) Resynced resync_accepted(10) [OF c] by (intro ext) (simp add: cursor_ok_def revisions_snoc)
  moreover have "seq \<noteq> 0"
    using assms(1) resync_accepted(1,5) [OF c] by (auto simp: cursor_ok_def)
  ultimately show ?thesis
    using assms(1) Resynced resync_accepted(1,5,6,9) [OF c]
    by (auto simp: cursor_ok_def successively_append_iff)
qed

lemma cursor_run_ok: "cursor_run contiguous es s \<Longrightarrow> cursor_ok contiguous es s"
proof (induction rule: cursor_run.induct)
  case run_start
  then show ?case
    by (auto simp: cursor_ok_def initial_cursor_def revision_for_def revisions_of_def)
next
  case (run_step es s e s')
  then show ?case by (blast intro: cursor_ok_step)
next
  case (run_refused es s seq repo rv r s')
  then show ?case
    using observe_refused [of seq repo rv contiguous s r s'] fun_cong [of "revision_for s" "revisions_of es"]
    by (auto simp: cursor_ok_def revision_for_def fun_eq_iff)
next
  case (run_unsynced es s seq repo rv v s')
  then show ?case using resync_refused by metis
qed

text \<open>A stream of consecutive numbers that never needed a resynchronisation skipped nothing.\<close>

lemma unbroken_run:
  assumes "successively (follows True) es" and "\<forall>e \<in> set es. \<exists>seq repo rv. e = Observe seq repo rv"
    and "i < length es"
  shows "ev_seq (es ! i) = ev_seq (es ! 0) + of_nat i"
  using assms(3)
proof (induction i)
  case (Suc i)
  have "follows True (es ! i) (es ! Suc i)" using assms(1) Suc.prems by (simp add: successively_conv_nth)
  moreover obtain seq repo rv where "es ! Suc i = Observe seq repo rv" using assms(2) Suc.prems by (meson nth_mem)
  ultimately show ?case using Suc by simp
qed simp

text \<open>A stopped stream moves for nothing but a verified resynchronisation, and then goes on.\<close>

lemma stopped_observe:
  assumes "resync_required s" and "last_sequence s \<noteq> 0"
  shows "snd (observe_stream seq repo rv contiguous s) = s"
    and "fst (observe_stream seq repo rv contiguous s) \<in> {Cur_Gap, Cur_Rejected}"
  using assms by (auto simp: observe_stream_def observe_sequence_def)

lemma resync_resumes:
  assumes "resync_required s" and "last_sequence s \<le> seq" and "is_did repo" and "is_tid rv"
    and "last_sequence s \<noteq> 0" and "seq + 1 \<noteq> 0"
  shows "\<exists>s1 s2. complete_resync seq repo rv Verified s = (True, s1) \<and>
    observe_stream (seq + 1) repo rv contiguous s1 = (Cur_Advanced, s2) \<and> last_sequence s2 = seq + 1"
proof -
  obtain s1 where c: "complete_resync seq repo rv Verified s = (True, s1)"
    using assms did_nonempty tid_nonempty by (fastforce simp: complete_resync_def Let_def not_less)
  have s: "last_sequence s1 = seq" "\<not> resync_required s1" using resync_accepted [OF c] by auto
  have "seq < seq + 1" using assms(6) unatSuc [of seq] by (simp add: word_less_nat_alt add.commute)
  moreover have "seq \<noteq> 0" using assms(2,5) by auto
  ultimately have "fst (observe_stream (seq + 1) repo rv contiguous s1) = Cur_Advanced"
    using s assms(3,4,6) by (auto simp: observe_stream_def observe_sequence_def Let_def)
  then obtain s2 where o: "observe_stream (seq + 1) repo rv contiguous s1 = (Cur_Advanced, s2)"
    by (metis prod.collapse)
  then show ?thesis using c observe_accepted(4) [OF o] by auto
qed

end
