(* ===== verification/Journal_Parse.thy ===== *)
theory Journal_Parse
  imports Journal_Store
begin

text \<open>
  Reading the journal back (\<open>parse_line\<close> and \<open>load_journal\<close> of
  src/src/app/journal/store.cpp): one parser per entry kind, the version rules, and the loop
  over the lines.
\<close>

subsection \<open>Entries\<close>

definition parse_mac :: "'j cjson \<Rightarrow> 'j \<Rightarrow> JournalMac option result" where
  "parse_mac J doc =
     (case j_item J doc ''mac'' of
        None \<Rightarrow> Inr None
      | Some x \<Rightarrow>
          if j_is_null J x then Inr None
          else if \<not> j_is_object J x then fail ''journal action field mac is present but not an object''
          else
            and_then (jou_optional_string J x ''mode'') (\<lambda>m.
            and_then (jou_optional_string J x ''key_hint'') (\<lambda>h.
            and_then (jou_optional_string J x ''sig'') (\<lambda>s.
            and_then (jou_optional_string J x ''digest'') (\<lambda>d.
              if m = [] \<or> h = [] \<or> s = [] \<or> d = [] then
                fail ''journal action field mac is missing required string fields''
              else Inr (Some \<lparr>mac_mode = m, mac_key_hint = h, mac_sig = s, mac_digest = d\<rparr>))))))"

text \<open>An array of non-empty strings, element by element.\<close>

definition nonempty_strings :: "'j cjson \<Rightarrow> string \<Rightarrow> 'j list \<Rightarrow> string list result" where
  "nonempty_strings J msg items =
     fold_result (\<lambda>x acc. and_then (case nonempty_string J (Some x) of Some s \<Rightarrow> Inr s | None \<Rightarrow> fail msg)
         (\<lambda>s. Inr (acc @ [s]))) items []"

definition parse_expectation :: "'j cjson \<Rightarrow> 'j \<Rightarrow> JournalExpectation option result" where
  "parse_expectation J doc =
     (case j_item J doc ''expectation'' of
        None \<Rightarrow> Inr None
      | Some x \<Rightarrow>
          if j_is_null J x then Inr None
          else if \<not> j_is_object J x then
            fail ''journal action field expectation is present but not an object''
          else and_then (jou_required_string J x ''kind'') (\<lambda>k.
            if k \<noteq> ''action'' \<and> k \<noteq> ''interaction'' \<and> k \<noteq> ''approach'' then
              fail (''journal action expectation has unknown kind '' @ k)
            else case j_item J x ''reply_likelihood'' of
              None \<Rightarrow> fail ''journal action expectation field reply_likelihood must be a number in [0, 1]''
            | Some l \<Rightarrow>
                if \<not> j_is_number J l \<or> dbl_lt (j_num J l) (Finite 0) \<or> dbl_lt (Finite 1) (j_num J l) then
                  fail ''journal action expectation field reply_likelihood must be a number in [0, 1]''
                else and_then (dbl_to_float (j_num J l)) (\<lambda>likelihood.
                  case j_item J x ''tokens'' of
                    None \<Rightarrow> fail ''journal action expectation field tokens is missing or not an array''
                  | Some ts \<Rightarrow>
                      if \<not> j_is_array J ts then
                        fail ''journal action expectation field tokens is missing or not an array''
                      else if kExpectationMaxTokens < length (j_children J ts) then
                        fail ''journal action expectation has too many tokens''
                      else and_then (nonempty_strings J
                          ''journal action expectation tokens entries must be non-empty strings''
                          (j_children J ts)) (\<lambda>tokens.
                        Inr (Some \<lparr>exp_kind = k, exp_reply_likelihood = likelihood, exp_tokens = tokens\<rparr>)))))"

definition parse_journal_action :: "'j cjson \<Rightarrow> 'j \<Rightarrow> journal_entry result" where
  "parse_journal_action J doc =
     and_then (jou_required_string J doc ''id'') (\<lambda>i.
     and_then (jou_required_string J doc ''kind'') (\<lambda>k.
     and_then (jou_required_string J doc ''text'') (\<lambda>t.
     and_then (jou_required_string J doc ''digest'') (\<lambda>d.
     and_then (jou_required_string J doc ''outcome'') (\<lambda>oc.
     and_then (jou_required_string J doc ''reason'') (\<lambda>r.
     and_then (jou_optional_string J doc ''uri'') (\<lambda>u.
     and_then (jou_optional_string J doc ''cid'') (\<lambda>c.
     and_then (jou_required_string J doc ''at'') (\<lambda>stamp.
     and_then (parse_mac J doc) (\<lambda>mac.
     and_then (parse_expectation J doc) (\<lambda>x.
       Inr (Entry_Action
         \<lparr>ja_id = i, ja_kind = k, ja_text = t, ja_digest = d,
          ja_outcome = (case journal_action_outcome_from_name oc of Some v \<Rightarrow> v | None \<Rightarrow> J_Denied),
          ja_reason = r, ja_uri = u, ja_cid = c, ja_at = stamp, ja_mac = mac, ja_expectation = x\<rparr>))))))))))))"

definition parse_journal_event :: "'j cjson \<Rightarrow> 'j \<Rightarrow> journal_entry result" where
  "parse_journal_event J doc =
     and_then (jou_required_string J doc ''action_id'') (\<lambda>i.
     and_then (jou_required_string J doc ''event_uri'') (\<lambda>u.
     and_then (jou_required_string J doc ''author_did'') (\<lambda>d.
     and_then (jou_required_string J doc ''via'') (\<lambda>v.
     and_then (jou_required_string J doc ''at'') (\<lambda>stamp.
       Inr (Entry_Event
         \<lparr>je_action_id = i, event_uri = u, je_author_did = d, via = v, je_at = stamp\<rparr>))))))"

definition parse_journal_valence :: "'j cjson \<Rightarrow> 'j \<Rightarrow> journal_entry result" where
  "parse_journal_valence J doc =
     and_then (jou_required_string J doc ''token'') (\<lambda>t.
     and_then (jou_required_string J doc ''kind'') (\<lambda>k.
     and_then (required_float J doc ''signal'') (\<lambda>s.
     and_then (jou_required_string J doc ''source'') (\<lambda>src.
     and_then (required_u64 J doc ''at_epoch'') (\<lambda>epoch.
     and_then (jou_required_string J doc ''at'') (\<lambda>stamp.
     and_then (jou_optional_string J doc ''provenance'') (\<lambda>p.
       Inr (Entry_Valence
         \<lparr>jv_token = t, jv_kind = k, signal = s, jv_source = src, jv_at_epoch = epoch, jv_at = stamp,
          provenance = p\<rparr>))))))))"

definition parse_journal_resolution :: "'j cjson \<Rightarrow> 'j \<Rightarrow> journal_entry result" where
  "parse_journal_resolution J doc =
     and_then (jou_required_string J doc ''action_id'') (\<lambda>i.
     and_then (jou_required_string J doc ''state'') (\<lambda>st.
     let state = (case journal_expectation_state_from_name st of Some v \<Rightarrow> v | None \<Rightarrow> State_None) in
     if state \<noteq> State_Met \<and> state \<noteq> State_Unmet \<and> state \<noteq> State_Expired then
       fail ''journal resolution has a non-terminal state''
     else
       and_then (required_u64 J doc ''at_epoch'') (\<lambda>epoch.
       and_then (jou_required_string J doc ''at'') (\<lambda>stamp.
         Inr (Entry_Resolution
           \<lparr>jr_action_id = i, jr_state = state, jr_at_epoch = epoch, jr_at = stamp\<rparr>)))))"

definition parse_intent_actions :: "'j cjson \<Rightarrow> 'j \<Rightarrow> string list result" where
  "parse_intent_actions J doc =
     (case j_item J doc ''actions'' of
        None \<Rightarrow> fail ''journal intent field actions must be a non-empty array''
      | Some x \<Rightarrow>
          if \<not> j_is_array J x \<or> length (j_children J x) < 1 then
            fail ''journal intent field actions must be a non-empty array''
          else if 64 < length (j_children J x) then fail ''journal intent has too many actions''
          else nonempty_strings J ''journal intent actions entries must be non-empty strings''
                 (j_children J x))"

definition parse_journal_intent :: "'j cjson \<Rightarrow> 'j \<Rightarrow> journal_entry result" where
  "parse_journal_intent J doc =
     and_then (jou_required_string J doc ''id'') (\<lambda>i.
     if i = [] then fail ''journal intent has an empty id''
     else
     and_then (parse_intent_actions J doc) (\<lambda>actions.
     and_then (jou_required_string J doc ''responder'') (\<lambda>r.
     if r \<noteq> ''anyone'' \<and> take 4 r \<noteq> ''did:'' then
       fail ''journal intent responder must be anyone or a specific author DID''
     else
     and_then (required_u64 J doc ''expires_at_epoch'') (\<lambda>expires.
     if expires = 0 then fail ''journal intent field expires_at_epoch must be a positive number''
     else
     and_then (jou_required_string J doc ''expires_at'') (\<lambda>expires_text.
     and_then (required_u64 J doc ''max_continuations'') (\<lambda>n.
     if n < 1 \<or> 64 < n then fail ''journal intent field max_continuations must be in [1, 64]''
     else
     and_then (jou_required_string J doc ''state'') (\<lambda>st.
     case intent_state_from_name st of
       None \<Rightarrow> fail ''journal intent has an unknown state''
     | Some state \<Rightarrow>
         and_then (required_u64 J doc ''at_epoch'') (\<lambda>epoch.
         and_then (jou_required_string J doc ''at'') (\<lambda>stamp.
         if epoch = 0 then fail ''journal intent field at_epoch must be a positive number''
         else Inr (Entry_Intent
           \<lparr>ji_id = i, ji_actions = actions, responder = r, expires_at_epoch = expires,
            ji_expires_at = expires_text, max_continuations = ucast n, ji_state = state,
            ji_at_epoch = epoch, ji_at = stamp\<rparr>))))))))))"

subsection \<open>Lines\<close>

definition version_accepted :: "double \<Rightarrow> string \<Rightarrow> bool" where
  "version_accepted version type \<longleftrightarrow>
     version = Finite 4 \<or>
     (version = Finite 3 \<and> type \<noteq> ''intent'') \<or>
     (version = Finite 2 \<and> type \<noteq> ''resolution'' \<and> type \<noteq> ''intent'') \<or>
     (version = Finite 1 \<and> type = ''action'')"

definition parse_line :: "'j cjson \<Rightarrow> string \<Rightarrow> journal_entry result" where
  "parse_line J line =
     (case j_parse J line of
        None \<Rightarrow> fail ''journal line is not a JSON object''
      | Some doc \<Rightarrow>
          if \<not> j_is_object J doc then fail ''journal line is not a JSON object''
          else and_then (jou_required_string J doc ''type'') (\<lambda>type.
            case j_item J doc ''version'' of
              None \<Rightarrow> fail ''journal entry has no numeric version field''
            | Some v \<Rightarrow>
                if \<not> j_is_number J v then fail ''journal entry has no numeric version field''
                else if \<not> version_accepted (j_num J v) type then
                  fail ''journal entry has unsupported version''
                else if type = ''action'' then parse_journal_action J doc
                else if type = ''event'' then parse_journal_event J doc
                else if type = ''valence'' then parse_journal_valence J doc
                else if type = ''resolution'' then parse_journal_resolution J doc
                else if type = ''intent'' then parse_journal_intent J doc
                else fail (''journal entry has unknown type '' @ type)))"

text \<open>The loop of \<open>load_journal\<close>; \<open>data\<close> is what is left of the file.\<close>

function load_lines :: "'j cjson \<Rightarrow> string \<Rightarrow> JournalContents \<Rightarrow> JournalContents result" where
  "load_lines J data c =
     (if data = [] then Inr c
      else case find_sub [newline] data of
        None \<Rightarrow> Inr (c\<lparr>repaired_torn_tail := True\<rparr>)
      | Some k \<Rightarrow>
          if take k data = [] then load_lines J (drop (k + 1) data) c
          else and_then (parse_line J (take k data)) (\<lambda>e. load_lines J (drop (k + 1) data) (add_entry e c)))"
  by pat_completeness auto
termination by (relation "measure (\<lambda>(J, d, c). length d)") auto

declare load_lines.simps [simp del]

text \<open>A file that cannot be opened reads as an empty journal, as a missing one does.\<close>

definition load_journal :: "'j cjson \<Rightarrow> file_state \<Rightarrow> JournalContents result" where
  "load_journal J f =
     (case f of
        Present bytes \<Rightarrow> load_lines J bytes empty_journal
      | _ \<Rightarrow> Inr empty_journal)"

definition journal_has_event :: "JournalContents \<Rightarrow> string \<Rightarrow> string \<Rightarrow> bool" where
  "journal_has_event c action_id uri =
     list_ex (\<lambda>e. je_action_id e = action_id \<and> event_uri e = uri) (jc_events c)"

definition journal_find_action_by_uri :: "JournalContents \<Rightarrow> string \<Rightarrow> JournalAction option" where
  "journal_find_action_by_uri c uri =
     find (\<lambda>a. ja_outcome a = J_Executed \<and> ja_uri a = uri) (jc_actions c)"

end
