(* ===== verification/Journal_Roundtrip.thy ===== *)
theory Journal_Roundtrip
  imports Journal_Parse
begin

text \<open>
  What the journal writer prints, the line parser reads back, entry by entry; and a whole file
  of appended lines loads as the entries in order.  The JSON library's part is the hypothesis
  \<open>reads_back\<close>.
\<close>

definition members :: "'j cjson \<Rightarrow> 'j \<Rightarrow> (string \<times> node) list \<Rightarrow> bool" where
  "members J doc ms \<longleftrightarrow>
     (\<forall>k. case map_of ms k of
            None \<Rightarrow> j_item J doc k = None
          | Some n \<Rightarrow> (case j_item J doc k of None \<Rightarrow> False | Some x \<Rightarrow> is_node J x n))"

lemma members_doc:
  "reads_back J text ms \<Longrightarrow> \<exists>doc. j_parse J text = Some doc \<and> j_is_object J doc \<and> members J doc ms"
  by (cases "j_parse J text") (simp_all add: reads_back_def members_def)

lemma member_absent: "members J doc ms \<Longrightarrow> map_of ms k = None \<Longrightarrow> j_item J doc k = None"
  unfolding members_def by (drule spec [of _ k]) simp

lemma member_node:
  "members J doc ms \<Longrightarrow> map_of ms k = Some n \<Longrightarrow> \<exists>x. j_item J doc k = Some x \<and> is_node J x n"
  unfolding members_def by (drule spec [of _ k]) (auto split: option.splits)

lemma member_string:
  assumes "members J doc ms" and "map_of ms k = Some (Node_String s)"
  shows "jou_required_string J doc k = Inr s" and "jou_optional_string J doc k = Inr s"
  using member_node [OF assms]
  by (auto simp: jou_required_string_def jou_optional_string_def string_value_def)

lemma member_no_string:
  "members J doc ms \<Longrightarrow> map_of ms k = None \<Longrightarrow> jou_optional_string J doc k = Inr []"
  by (simp add: jou_optional_string_def member_absent)

lemma u64_number:
  assumes "unat w < 2 ^ 53"
  shows "to_uint64 (Finite (u64_to_double w)) = Inr (uint w)" and "\<not> u64_to_double w < 0"
proof -
  define n where "n = unat w"
  have "u64_to_double w = real n" "n < 2 ^ 53" using assms u64_to_double_exact by (simp_all add: n_def)
  moreover have "to_uint64 (Finite (real n)) = Inr (int n)" if "n < 2 ^ 53"
    using that by (simp add: to_uint64_def dbl_to_int_def trunc_zero_def)
  moreover have "int n = uint w" by (simp add: n_def)
  ultimately show "to_uint64 (Finite (u64_to_double w)) = Inr (uint w)" "\<not> u64_to_double w < 0" by simp_all
qed

lemma member_u64:
  assumes "members J doc ms" and "map_of ms k = Some (Node_Number (u64_to_double w))" and "unat w < 2 ^ 53"
  shows "required_u64 J doc k = Inr w"
  using member_node [OF assms(1,2)] u64_number [OF assms(3)] by (auto simp: required_u64_def)

definition nonempty_list :: "string list \<Rightarrow> bool" where
  "nonempty_list ss \<longleftrightarrow> list_all (\<lambda>s. s \<noteq> []) ss"

lemma strings_read_back:
  assumes "length xs = length ss" and "\<And>i. i < length ss \<Longrightarrow> is_node J (xs ! i) (Node_String (ss ! i))"
    and "nonempty_list ss"
  shows "nonempty_strings J msg xs = Inr ss"
proof -
  have "nonempty_string J (Some (xs ! i)) = Some (ss ! i)" if "i < length ss" for i
    using assms that by (auto simp: nonempty_string_def nonempty_list_def list_all_length)
  then have "list_all2 (\<lambda>x z. (case nonempty_string J (Some x) of Some s \<Rightarrow> Inr s | None \<Rightarrow> fail msg) = Inr z) xs ss"
    using assms(1) by (auto simp: list_all2_conv_all_nth)
  then show ?thesis unfolding nonempty_strings_def fold_collect by auto
qed

lemma member_strings:
  assumes "members J doc ms" and "map_of ms k = Some (Node_Array (map Node_String ss))" and "nonempty_list ss"
  shows "\<exists>x. j_item J doc k = Some x \<and> j_is_array J x \<and> length (j_children J x) = length ss \<and>
    (\<forall>msg. nonempty_strings J msg (j_children J x) = Inr ss)"
  using member_node [OF assms(1,2)] assms(3) by (auto intro!: strings_read_back)

lemma member_object:
  assumes "members J doc ms" and "map_of ms k = Some (Node_Object ns)" and "distinct (map fst ns)"
  shows "\<exists>x. j_item J doc k = Some x \<and> j_is_object J x \<and> \<not> j_is_null J x \<and>
    (\<forall>n. map_of ns n = None \<longrightarrow> j_item J x n = None) \<and>
    (\<forall>n v. map_of ns n = Some v \<longrightarrow> (\<exists>y. j_item J x n = Some y \<and> is_node J y v))"
proof -
  obtain x where x: "j_item J doc k = Some x" "is_node J x (Node_Object ns)"
    using member_node [OF assms(1,2)] by blast
  have "\<exists>y. j_item J x n = Some y \<and> is_node J y v" if "map_of ns n = Some v" for n v
  proof -
    have "(n, v) \<in> set ns" using that by (rule map_of_SomeD)
    then show ?thesis using x(2) by (fastforce split: option.splits)
  qed
  with x show ?thesis by auto
qed

subsection \<open>Well-formed entries\<close>

definition mac_ok :: "JournalMac \<Rightarrow> bool" where
  "mac_ok m \<longleftrightarrow> mac_mode m \<noteq> [] \<and> mac_key_hint m \<noteq> [] \<and> mac_sig m \<noteq> [] \<and> mac_digest m \<noteq> []"

definition is_float :: "double \<Rightarrow> bool" where
  "is_float d = (case d of Finite x \<Rightarrow> float32 x = x \<and> \<bar>x\<bar> < 2 ^ 128 | _ \<Rightarrow> False)"

definition expectation_ok :: "JournalExpectation \<Rightarrow> bool" where
  "expectation_ok e \<longleftrightarrow>
     exp_kind e \<in> {''action'', ''interaction'', ''approach''} \<and>
     is_float (exp_reply_likelihood e) \<and>
     \<not> dbl_lt (exp_reply_likelihood e) (Finite 0) \<and> \<not> dbl_lt (Finite 1) (exp_reply_likelihood e) \<and>
     length (exp_tokens e) \<le> kExpectationMaxTokens \<and> nonempty_list (exp_tokens e)"

fun journal_entry_ok :: "journal_entry \<Rightarrow> bool" where
  "journal_entry_ok (Entry_Action a) \<longleftrightarrow> pred_option mac_ok (ja_mac a) \<and> pred_option expectation_ok (ja_expectation a)"
| "journal_entry_ok (Entry_Event e) \<longleftrightarrow> True"
| "journal_entry_ok (Entry_Valence v) \<longleftrightarrow> is_float (signal v) \<and> unat (jv_at_epoch v) < 2 ^ 53"
| "journal_entry_ok (Entry_Resolution r) \<longleftrightarrow>
     jr_state r \<in> {State_Met, State_Unmet, State_Expired} \<and> unat (jr_at_epoch r) < 2 ^ 53"
| "journal_entry_ok (Entry_Intent i) \<longleftrightarrow>
     ji_id i \<noteq> [] \<and> ji_actions i \<noteq> [] \<and> length (ji_actions i) \<le> 64 \<and> nonempty_list (ji_actions i) \<and>
     (responder i = ''anyone'' \<or> take 4 (responder i) = ''did:'') \<and>
     expires_at_epoch i \<noteq> 0 \<and> unat (expires_at_epoch i) < 2 ^ 53 \<and>
     1 \<le> max_continuations i \<and> max_continuations i \<le> 64 \<and>
     ji_at_epoch i \<noteq> 0 \<and> unat (ji_at_epoch i) < 2 ^ 53"

subsection \<open>Each kind reads back\<close>

lemma float_node:
  assumes "is_float d" and "j_item J x k = Some y" and "is_node J y (number_node d)"
  shows "j_is_number J y" "j_num J y = d" "dbl_to_float d = Inr d"
  using assms by (auto simp: is_float_def number_node_def dbl_to_float_def split: double.splits)

lemma mac_reads_back:
  assumes m: "members J doc ms" and "map_of ms ''mac'' = map_of (mac_fields mac) ''mac''" and ok: "pred_option mac_ok mac"
  shows "parse_mac J doc = Inr mac"
proof (cases mac)
  case None
  then show ?thesis using assms by (simp add: parse_mac_def mac_fields_def member_absent)
next
  case (Some v)
  define ns where "ns = [(''mode'', Node_String (mac_mode v)), (''key_hint'', Node_String (mac_key_hint v)),
              (''sig'', Node_String (mac_sig v)), (''digest'', Node_String (mac_digest v))]"
  have "map_of ms ''mac'' = Some (Node_Object ns)" using assms(2) Some by (simp add: mac_fields_def ns_def)
  then obtain x where x: "j_item J doc ''mac'' = Some x" "j_is_object J x" "\<not> j_is_null J x"
    and y: "\<And>n v. map_of ns n = Some v \<Longrightarrow> \<exists>y. j_item J x n = Some y \<and> is_node J y v"
    using member_object [OF m, of "''mac''" ns] by (auto simp: ns_def)
  have s: "jou_optional_string J x k = Inr s" if "map_of ns k = Some (Node_String s)" for k s
    using y [OF that] by (auto simp: jou_optional_string_def string_value_def)
  have "jou_optional_string J x ''mode'' = Inr (mac_mode v)" "jou_optional_string J x ''key_hint'' = Inr (mac_key_hint v)"
    "jou_optional_string J x ''sig'' = Inr (mac_sig v)" "jou_optional_string J x ''digest'' = Inr (mac_digest v)"
    by (auto intro!: s simp: ns_def)
  then show ?thesis using x ok Some by (simp add: parse_mac_def mac_ok_def)
qed

lemma expectation_reads_back:
  assumes m: "members J doc ms" and "map_of ms ''expectation'' = map_of (expectation_fields ex) ''expectation''"
    and ok: "pred_option expectation_ok ex"
  shows "parse_expectation J doc = Inr ex"
proof (cases ex)
  case None
  then show ?thesis using assms by (simp add: parse_expectation_def expectation_fields_def member_absent)
next
  case (Some v)
  define ns where "ns = [(''kind'', Node_String (exp_kind v)),
              (''reply_likelihood'', number_node (exp_reply_likelihood v)),
              (''tokens'', Node_Array (map Node_String (exp_tokens v)))]"
  have e: "expectation_ok v" using ok Some by simp
  have "map_of ms ''expectation'' = Some (Node_Object ns)" using assms(2) Some by (simp add: expectation_fields_def ns_def)
  then obtain x where x: "j_item J doc ''expectation'' = Some x" "j_is_object J x" "\<not> j_is_null J x"
    and y: "\<And>n v. map_of ns n = Some v \<Longrightarrow> \<exists>y. j_item J x n = Some y \<and> is_node J y v"
    using member_object [OF m, of "''expectation''" ns] by (auto simp: ns_def)
  have kind: "jou_required_string J x ''kind'' = Inr (exp_kind v)"
    using y [of "''kind''"] by (auto simp: ns_def jou_required_string_def string_value_def)
  obtain l where l: "j_item J x ''reply_likelihood'' = Some l" "is_node J l (number_node (exp_reply_likelihood v))"
    using y [of "''reply_likelihood''"] by (auto simp: ns_def)
  note L = float_node [OF _ l]
  obtain ts where ts: "j_item J x ''tokens'' = Some ts" "j_is_array J ts"
    "length (j_children J ts) = length (exp_tokens v)"
    "\<And>i. i < length (exp_tokens v) \<Longrightarrow> is_node J (j_children J ts ! i) (Node_String (exp_tokens v ! i))"
    using y [of "''tokens''"] by (auto simp: ns_def)
  have T: "nonempty_strings J msg (j_children J ts) = Inr (exp_tokens v)" for msg
    using ts e by (intro strings_read_back) (auto simp: expectation_ok_def)
  show ?thesis
    using x kind l L ts(1,2,3) T e Some
    by (simp add: parse_expectation_def expectation_ok_def) blast
qed

lemma unat_ucast_u32 [simp]: "unat (ucast (w :: u32) :: u64) = unat w"
proof -
  have "unat w < 2 ^ LENGTH(32)" by (rule unsigned_less)
  then show ?thesis by (simp add: unsigned_ucast_eq take_bit_nat_eq_self)
qed

lemma ucast_ucast_u32 [simp]: "(ucast (ucast (w :: u32) :: u64) :: u32) = w"
  by (rule bit_word_eqI) (simp add: bit_simps)

lemma version_4: "version_accepted (Finite kJournalFormatVersion) t"
  by (simp add: version_accepted_def kJournalFormatVersion_def)

text \<open>The head of every line: its type and version.\<close>

lemma line_dispatch:
  assumes "members J doc ms" and "j_parse J line = Some doc" and "j_is_object J doc"
    and "map_of ms ''type'' = Some (Node_String t)"
    and "map_of ms ''version'' = Some (Node_Number kJournalFormatVersion)"
  shows "parse_line J line =
     (if t = ''action'' then parse_journal_action J doc
      else if t = ''event'' then parse_journal_event J doc
      else if t = ''valence'' then parse_journal_valence J doc
      else if t = ''resolution'' then parse_journal_resolution J doc
      else if t = ''intent'' then parse_journal_intent J doc
      else fail (''journal entry has unknown type '' @ t))"
proof -
  obtain v where v: "j_item J doc ''version'' = Some v" "is_node J v (Node_Number kJournalFormatVersion)"
    using member_node [OF assms(1,5)] by blast
  then have n: "j_is_number J v" "j_num J v = Finite kJournalFormatVersion" by simp_all
  show ?thesis
    by (simp only: parse_line_def assms(2,3) member_string(1) [OF assms(1,4)] v(1) option.case and_then.simps
        not_True_eq_False if_False n version_4)
qed

lemma action_line:
  assumes m: "members J doc (journal_action_fields a)" and ok: "journal_entry_ok (Entry_Action a)"
  shows "parse_journal_action J doc = Inr (Entry_Action a)"
proof -
  note S = member_string [OF m]
  have "map_of (journal_action_fields a) ''mac'' = map_of (mac_fields (ja_mac a)) ''mac''"
    "map_of (journal_action_fields a) ''expectation'' = map_of (expectation_fields (ja_expectation a)) ''expectation''"
    by (cases "ja_mac a"; cases "ja_expectation a";
        simp add: journal_action_fields_def mac_fields_def expectation_fields_def)+
  then have mac: "parse_mac J doc = Inr (ja_mac a)" and ex: "parse_expectation J doc = Inr (ja_expectation a)"
    using ok mac_reads_back [OF m] expectation_reads_back [OF m] by simp_all
  have "jou_required_string J doc ''id'' = Inr (ja_id a)" "jou_required_string J doc ''kind'' = Inr (ja_kind a)"
    "jou_required_string J doc ''text'' = Inr (ja_text a)" "jou_required_string J doc ''digest'' = Inr (ja_digest a)"
    "jou_required_string J doc ''outcome'' = Inr (journal_action_outcome_name (ja_outcome a))"
    "jou_required_string J doc ''reason'' = Inr (ja_reason a)" "jou_optional_string J doc ''uri'' = Inr (ja_uri a)"
    "jou_optional_string J doc ''cid'' = Inr (ja_cid a)" "jou_required_string J doc ''at'' = Inr (ja_at a)"
    by (rule S; simp add: journal_action_fields_def)+
  then show ?thesis using mac ex by (simp add: parse_journal_action_def)
qed

lemma event_line:
  assumes m: "members J doc (journal_event_fields e)"
  shows "parse_journal_event J doc = Inr (Entry_Event e)"
proof -
  have "jou_required_string J doc ''action_id'' = Inr (je_action_id e)"
    "jou_required_string J doc ''event_uri'' = Inr (event_uri e)"
    "jou_required_string J doc ''author_did'' = Inr (je_author_did e)"
    "jou_required_string J doc ''via'' = Inr (via e)" "jou_required_string J doc ''at'' = Inr (je_at e)"
    by (rule member_string [OF m]; simp add: journal_event_fields_def)+
  then show ?thesis by (simp add: parse_journal_event_def)
qed

lemma valence_line:
  assumes m: "members J doc (journal_valence_fields v)" and ok: "journal_entry_ok (Entry_Valence v)"
  shows "parse_journal_valence J doc = Inr (Entry_Valence v)"
proof -
  have s: "jou_required_string J doc ''token'' = Inr (jv_token v)" "jou_required_string J doc ''kind'' = Inr (jv_kind v)"
    "jou_required_string J doc ''source'' = Inr (jv_source v)" "jou_required_string J doc ''at'' = Inr (jv_at v)"
    by (rule member_string [OF m]; simp add: journal_valence_fields_def)+
  have n: "required_u64 J doc ''at_epoch'' = Inr (jv_at_epoch v)"
    using ok by (intro member_u64 [OF m]) (simp_all add: journal_valence_fields_def)
  have p: "jou_optional_string J doc ''provenance'' = Inr (provenance v)"
    using member_string(2) [OF m, of "''provenance''"] member_no_string [OF m, of "''provenance''"]
    by (cases "provenance v = []") (simp_all add: journal_valence_fields_def)
  obtain y where y: "j_item J doc ''signal'' = Some y" "is_node J y (number_node (signal v))"
    using member_node [OF m, of "''signal''"] by (auto simp: journal_valence_fields_def)
  have "required_float J doc ''signal'' = Inr (signal v)"
    using float_node [OF _ y] ok y(1) by (simp add: required_float_def)
  then show ?thesis using s n p by (simp add: parse_journal_valence_def)
qed

lemma resolution_line:
  assumes m: "members J doc (journal_resolution_fields r)" and ok: "journal_entry_ok (Entry_Resolution r)"
  shows "parse_journal_resolution J doc = Inr (Entry_Resolution r)"
proof -
  have s: "jou_required_string J doc ''action_id'' = Inr (jr_action_id r)"
    "jou_required_string J doc ''state'' = Inr (journal_expectation_state_name (jr_state r))"
    "jou_required_string J doc ''at'' = Inr (jr_at r)"
    by (rule member_string [OF m]; simp add: journal_resolution_fields_def)+
  have n: "required_u64 J doc ''at_epoch'' = Inr (jr_at_epoch r)"
    using ok by (intro member_u64 [OF m]) (simp_all add: journal_resolution_fields_def)
  show ?thesis using s n ok by (auto simp: parse_journal_resolution_def Let_def)
qed

lemma intent_line:
  assumes m: "members J doc (journal_intent_fields i)" and ok: "journal_entry_ok (Entry_Intent i)"
  shows "parse_journal_intent J doc = Inr (Entry_Intent i)"
proof -
  have s: "jou_required_string J doc ''id'' = Inr (ji_id i)" "jou_required_string J doc ''responder'' = Inr (responder i)"
    "jou_required_string J doc ''expires_at'' = Inr (ji_expires_at i)"
    "jou_required_string J doc ''state'' = Inr (intent_state_name (ji_state i))"
    "jou_required_string J doc ''at'' = Inr (ji_at i)"
    by (rule member_string [OF m]; simp add: journal_intent_fields_def)+
  have small: "unat (ucast (max_continuations i) :: u64) < 2 ^ 53"
  proof -
    have "unat (max_continuations i) < 2 ^ LENGTH(32)" by (rule unsigned_less)
    then show ?thesis by simp
  qed
  have n: "required_u64 J doc ''expires_at_epoch'' = Inr (expires_at_epoch i)"
    "required_u64 J doc ''at_epoch'' = Inr (ji_at_epoch i)"
    "required_u64 J doc ''max_continuations'' = Inr (ucast (max_continuations i))"
    using ok small by (auto intro!: member_u64 [OF m] simp: journal_intent_fields_def)
  have a: "parse_intent_actions J doc = Inr (ji_actions i)"
    using member_strings [OF m, of "''actions''" "ji_actions i"] ok
    by (auto simp: parse_intent_actions_def journal_intent_fields_def Suc_le_eq)
  have c: "\<not> (ucast (max_continuations i) :: u64) < 1" "\<not> (64 :: u64) < ucast (max_continuations i)"
    using ok by (auto simp: word_less_nat_alt word_le_nat_alt)
  show ?thesis
    using s n a c ok by (cases i) (auto simp: parse_journal_intent_def)
qed

theorem entry_reads_back:
  assumes "reads_back J (serialise_journal_entry J e) (entry_fields e)" and "journal_entry_ok e"
  shows "parse_line J (serialise_journal_entry J e) = Inr e"
proof -
  obtain doc where doc: "j_parse J (serialise_journal_entry J e) = Some doc" "j_is_object J doc"
    and m: "members J doc (entry_fields e)"
    using members_doc [OF assms(1)] by blast
  note D = line_dispatch [OF m doc]
  show ?thesis
  proof (cases e)
    case (Entry_Action a)
    then show ?thesis using D [of "''action''"] action_line m assms(2) by (simp add: journal_action_fields_def)
  next
    case (Entry_Event a)
    then show ?thesis using D [of "''event''"] event_line m by (simp add: journal_event_fields_def)
  next
    case (Entry_Valence a)
    then show ?thesis using D [of "''valence''"] valence_line m assms(2) by (simp add: journal_valence_fields_def)
  next
    case (Entry_Resolution a)
    then show ?thesis using D [of "''resolution''"] resolution_line m assms(2) by (simp add: journal_resolution_fields_def)
  next
    case (Entry_Intent a)
    then show ?thesis using D [of "''intent''"] intent_line m assms(2) by (simp add: journal_intent_fields_def)
  qed
qed

subsection \<open>A whole file\<close>

text \<open>What the library must do with one entry: print one non-empty line that it can read.\<close>

definition printable :: "'j cjson \<Rightarrow> journal_entry \<Rightarrow> bool" where
  "printable J e \<longleftrightarrow>
     reads_back J (serialise_journal_entry J e) (entry_fields e) \<and> journal_entry_ok e \<and>
     serialise_journal_entry J e \<noteq> [] \<and> newline \<notin> set (serialise_journal_entry J e)"

definition journal_of :: "journal_entry list \<Rightarrow> JournalContents" where
  "journal_of es = fold add_entry es empty_journal"

lemma load_lines_one:
  assumes "line \<noteq> []" and "newline \<notin> set line" and "parse_line J line = Inr e"
  shows "load_lines J (line @ newline # rest) c = load_lines J rest (add_entry e c)"
proof -
  have "find_sub [newline] (line @ newline # rest) = Some (length line)"
    using assms(2) by (auto simp: find_sub_char_Some)
  then show ?thesis using assms by (subst load_lines.simps) simp
qed

lemma load_lines_log:
  assumes "list_all (printable J) es" and "newline \<notin> set p"
  shows "load_lines J (log_of (map (serialise_journal_entry J) es) @ p) c =
    Inr ((fold add_entry es c)\<lparr>repaired_torn_tail := (p \<noteq> [] \<or> repaired_torn_tail c)\<rparr>)"
  using assms(1)
proof (induction es arbitrary: c)
  case Nil
  have "p \<noteq> [] \<Longrightarrow> find_sub [newline] p = None" using assms(2) by (simp add: find_sub_char_None)
  then show ?case by (subst load_lines.simps) (auto simp: log_of_def)
next
  case (Cons e es)
  have t: "repaired_torn_tail (add_entry e c) = repaired_torn_tail c" by (cases e) auto
  have "load_lines J (log_of (map (serialise_journal_entry J) (e # es)) @ p) c =
      load_lines J (log_of (map (serialise_journal_entry J) es) @ p) (add_entry e c)"
    using Cons.prems load_lines_one [OF _ _ entry_reads_back]
    by (auto simp: printable_def log_of_def)
  then show ?case using Cons t by simp
qed

theorem journal_loads:
  assumes "list_all (printable J) es" and "newline \<notin> set p"
  shows "load_journal J (Present (log_of (map (serialise_journal_entry J) es) @ p)) =
    Inr ((journal_of es)\<lparr>repaired_torn_tail := (p \<noteq> [])\<rparr>)"
  using load_lines_log [OF assms, of empty_journal]
  by (simp add: load_journal_def journal_of_def empty_journal_def)

text \<open>
  An append that reports success is there when the journal is next loaded, after every earlier
  entry; one that was cut is there only if its whole line had been written, and then the file
  loads with it or with a torn tail reported.
\<close>

theorem journal_append_loads:
  assumes "list_all (printable J) es" and "printable J e"
    and "append_journal_entry J ao e (log_of (map (serialise_journal_entry J) es)) = (r, bytes)"
  shows "\<exists>es' cut. load_journal J (Present bytes) = Inr ((journal_of es')\<lparr>repaired_torn_tail := cut\<rparr>) \<and>
    (es' = es \<or> es' = es @ [e]) \<and> (r = Inr () \<longrightarrow> es' = es @ [e] \<and> \<not> cut)"
proof -
  let ?s = "serialise_journal_entry J"
  have nl: "newline \<notin> set (?s e)" using assms(2) by (simp add: printable_def)
  obtain n where n: "bytes = log_of (map ?s es) @ take n (?s e @ [newline])"
    and r: "r = Inr () \<longrightarrow> bytes = log_of (map ?s es @ [?s e])"
    using append_line_log [OF assms(3) [unfolded append_journal_entry_def] nl] by blast
  have all: "list_all (printable J) (es @ [e])" using assms(1,2) by simp
  show ?thesis
  proof (cases "n \<le> length (?s e)")
    case True
    then have b: "bytes = log_of (map ?s es) @ take n (?s e)" using n by simp
    have "newline \<notin> set (take n (?s e))" using nl by (meson in_set_takeD)
    note L = journal_loads [OF assms(1) this]
    show ?thesis
    proof (cases "r = Inr ()")
      case True
      then have "bytes = log_of (map ?s (es @ [e])) @ []" using r by simp
      then show ?thesis using journal_loads [OF all, of "[]"] by (intro exI [of _ "es @ [e]"] exI [of _ False]) simp
    next
      case False
      show ?thesis unfolding b L using False by blast
    qed
  next
    case False
    then have "bytes = log_of (map ?s (es @ [e])) @ []" using n by (simp add: log_of_snoc)
    then show ?thesis using journal_loads [OF all, of "[]"] by (intro exI [of _ "es @ [e]"] exI [of _ False]) simp
  qed
qed

text \<open>A file that is there and cannot be opened reads as no journal at all.\<close>

lemma unopenable_journal_is_empty: "load_journal J Unopenable = Inr empty_journal"
  by (simp add: load_journal_def)

end
