(* ===== verification/Intent.thy ===== *)
theory Intent
  imports Journal_Store Outbound_Document Execute
begin

text \<open>
  Pending social intents (src/src/app/intent): the derived state of a conversation, the sweep
  that journals ended ones, the record of an executed post or reply, and the configuration from
  the environment.  The journal is append-only, so the current record of a conversation is the
  last entry with its id.  An append that fails is an argument: \<open>fail_at = Some k\<close> makes the
  k-th append of a call throw.
\<close>

subsection \<open>Derived state\<close>

text \<open>
  \<open>latest.actions.size() - 1u\<close> is computed in \<open>size_t\<close>, so it wraps on an empty list.
\<close>

definition derive_intent_state :: "JournalIntent \<Rightarrow> int \<Rightarrow> IntentState" where
  "derive_intent_state latest now =
     (if ji_state latest \<noteq> Intent_Open then ji_state latest
      else if sint (expires_at_epoch latest) < now then Intent_Expired
      else if (ucast (max_continuations latest) :: u64) \<le> of_nat (length (ji_actions latest)) - 1
      then Intent_Closed
      else Intent_Open)"

definition latest_intent :: "JournalIntent list \<Rightarrow> string \<Rightarrow> JournalIntent option" where
  "latest_intent is i = find (\<lambda>e. ji_id e = i) (rev is)"

text \<open>The slot loop: an entry replaces the slot with its id, or is appended.\<close>

fun set_slot :: "JournalIntent \<Rightarrow> JournalIntent list \<Rightarrow> JournalIntent list" where
  "set_slot e [] = [e]"
| "set_slot e (s # ss) = (if ji_id s = ji_id e then e # ss else s # set_slot e ss)"

definition latest_intents :: "JournalIntent list \<Rightarrow> JournalIntent list" where
  "latest_intents is = fold set_slot is []"

definition active_intents :: "JournalIntent list \<Rightarrow> int \<Rightarrow> JournalIntent list" where
  "active_intents is now = filter (\<lambda>e. derive_intent_state e now = Intent_Open) (latest_intents is)"

definition active_intent_count :: "JournalIntent list \<Rightarrow> int \<Rightarrow> nat" where
  "active_intent_count is now = length (active_intents is now)"

definition continues_intent :: "JournalEvent \<Rightarrow> JournalIntent \<Rightarrow> bool" where
  "continues_intent ev i \<longleftrightarrow>
     je_action_id ev \<in> set (ji_actions i) \<and>
     (responder i = ''anyone'' \<or> responder i = je_author_did ev)"

fun continuation_loop ::
  "string \<Rightarrow> string \<Rightarrow> JournalIntent list \<Rightarrow> JournalEvent list \<Rightarrow> JournalIntent option" where
  "continuation_loop source_id author_did active [] = None"
| "continuation_loop source_id author_did active (ev # evs) =
     (if event_uri ev \<noteq> source_id \<or> (author_did \<noteq> [] \<and> je_author_did ev \<noteq> author_did) then
        continuation_loop source_id author_did active evs
      else case find (continues_intent ev) active of
        Some i \<Rightarrow> Some i
      | None \<Rightarrow> continuation_loop source_id author_did active evs)"

definition continuation_intent ::
  "JournalEvent list \<Rightarrow> JournalIntent list \<Rightarrow> string \<Rightarrow> string \<Rightarrow> int \<Rightarrow> JournalIntent option" where
  "continuation_intent evs is source_id author_did now =
     (if source_id = [] then None
      else continuation_loop source_id author_did (active_intents is now) evs)"

subsection \<open>The sweep\<close>

record IntentSweepReport =
  sw_evaluated :: nat
  sw_open_kept :: nat
  sw_expired_written :: nat
  sw_closed_written :: nat
  sw_already_terminal :: nat

definition empty_sweep :: IntentSweepReport where
  "empty_sweep = \<lparr>sw_evaluated = 0, sw_open_kept = 0, sw_expired_written = 0, sw_closed_written = 0,
                  sw_already_terminal = 0\<rparr>"

definition epoch_of :: "int \<Rightarrow> u64" where
  "epoch_of now = (if 0 < now then word_of_int now else 0)"

fun first_ids :: "JournalIntent list \<Rightarrow> string list \<Rightarrow> string list" where
  "first_ids [] ids = ids"
| "first_ids (e # es) ids = first_ids es (if ji_id e \<in> set ids then ids else ids @ [ji_id e])"

definition terminal_entry :: "JournalIntent \<Rightarrow> IntentState \<Rightarrow> int \<Rightarrow> string \<Rightarrow> JournalIntent" where
  "terminal_entry latest effective now stamp =
     latest\<lparr>ji_state := effective, ji_at_epoch := epoch_of now, ji_at := stamp\<rparr>"

text \<open>
  One loop turn: \<open>journal\<close> is what was loaded before the loop, \<open>written\<close> the entries appended so
  far.
\<close>

fun sweep_loop ::
  "nat option \<Rightarrow> int \<Rightarrow> string \<Rightarrow> JournalIntent list \<Rightarrow> string list \<Rightarrow> IntentSweepReport \<Rightarrow>
   JournalIntent list \<Rightarrow> IntentSweepReport result \<times> JournalIntent list" where
  "sweep_loop fail_at now stamp journal [] rep written = (Inr rep, written)"
| "sweep_loop fail_at now stamp journal (i # ids) rep written =
     (case latest_intent journal i of
        None \<Rightarrow> sweep_loop fail_at now stamp journal ids rep written
      | Some latest \<Rightarrow>
          let rep1 = rep\<lparr>sw_evaluated := Suc (sw_evaluated rep)\<rparr> in
          if ji_state latest \<noteq> Intent_Open then
            sweep_loop fail_at now stamp journal ids
              (rep1\<lparr>sw_already_terminal := Suc (sw_already_terminal rep1)\<rparr>) written
          else
            let effective = derive_intent_state latest now in
            if effective = Intent_Open then
              sweep_loop fail_at now stamp journal ids
                (rep1\<lparr>sw_open_kept := Suc (sw_open_kept rep1)\<rparr>) written
            else if fail_at = Some (length written) then
              (throw Runtime_error ''cannot append action journal'', written)
            else
              sweep_loop fail_at now stamp journal ids
                (if effective = Intent_Expired
                 then rep1\<lparr>sw_expired_written := Suc (sw_expired_written rep1)\<rparr>
                 else rep1\<lparr>sw_closed_written := Suc (sw_closed_written rep1)\<rparr>)
                (written @ [terminal_entry latest effective now stamp]))"

definition sweep_intents ::
  "nat option \<Rightarrow> int \<Rightarrow> string \<Rightarrow> JournalIntent list \<Rightarrow> IntentSweepReport result \<times> JournalIntent list" where
  "sweep_intents fail_at now stamp journal =
     (case sweep_loop fail_at now stamp journal (first_ids journal []) empty_sweep [] of
        (r, written) \<Rightarrow> (r, journal @ written))"

subsection \<open>Configuration\<close>

record IntentConfig =
  int_enabled :: bool
  max_active :: nat
  cfg_max_continuations :: u32
  int_window_seconds :: int

definition kMaxActiveIntents :: nat where "kMaxActiveIntents = 256"
definition kMaxIntentContinuations :: nat where "kMaxIntentContinuations = 16"

text \<open>
  \<open>std::strtoull(value, &end, 10)\<close> with the test that nothing is left over: optional blanks, a
  sign, digits; a minus sign negates modulo 2^64, and an overflow sets \<open>errno\<close>.
\<close>

definition strtoull_all :: "string \<Rightarrow> nat option" where
  "strtoull_all s =
     (let t = dropWhile is_space s;
          neg = (t \<noteq> [] \<and> hd t = CHR ''-'');
          ds = (if t \<noteq> [] \<and> (hd t = CHR ''-'' \<or> hd t = CHR ''+'') then tl t else t)
      in if ds = [] \<or> \<not> list_all is_digit ds \<or> 2 ^ 64 \<le> dec_value ds then None
         else Some (if neg then (2 ^ 64 - dec_value ds) mod 2 ^ 64 else dec_value ds))"

definition parse_positive_u64 :: "string option \<Rightarrow> nat \<Rightarrow> nat \<Rightarrow> nat" where
  "parse_positive_u64 value fallback maximum =
     (case value of
        None \<Rightarrow> fallback
      | Some s \<Rightarrow>
          if s = [] then fallback
          else case strtoull_all s of
            None \<Rightarrow> fallback
          | Some parsed \<Rightarrow> if parsed = 0 then fallback else min parsed maximum)"

definition intent_config_from_environment :: "(string \<Rightarrow> string option) \<Rightarrow> IntentConfig" where
  "intent_config_from_environment getenv =
     \<lparr>int_enabled = (getenv ''ATPERSON_INTENTS'' = Some ''1''),
      max_active = parse_positive_u64 (getenv ''ATPERSON_INTENT_MAX_ACTIVE'') 3 kMaxActiveIntents,
      cfg_max_continuations =
        of_nat (parse_positive_u64 (getenv ''ATPERSON_INTENT_MAX_CONTINUATIONS'') 3 kMaxIntentContinuations),
      int_window_seconds =
        int (parse_positive_u64 (getenv ''ATPERSON_INTENT_WINDOW_DAYS'') 2 366) * 24 * 3600\<rparr>"

subsection \<open>Recording an executed action\<close>

datatype IntentMutation =
    Intent_NotTracked | Intent_Opened | Intent_Continued | Intent_Duplicate | Intent_CapReached

definition conversation_root :: "OutboundAction \<Rightarrow> OutboundExecutionResult \<Rightarrow> string" where
  "conversation_root a r =
     (if act_kind a = Kind_Reply then act_reply_root a
      else if act_kind a = Kind_Post then wr_uri (exe_written r)
      else [])"

definition fresh_intent ::
  "(int \<Rightarrow> string) \<Rightarrow> string \<Rightarrow> OutboundAction \<Rightarrow> IntentConfig \<Rightarrow> int \<Rightarrow> string \<Rightarrow> JournalIntent" where
  "fresh_intent rfc3339 thread a config now stamp =
     (let expires = now + int_window_seconds config in
      \<lparr>ji_id = thread, ji_actions = [act_rkey a], responder = ''anyone'',
       expires_at_epoch = epoch_of expires, ji_expires_at = rfc3339 expires,
       max_continuations = cfg_max_continuations config, ji_state = Intent_Open,
       ji_at_epoch = epoch_of now, ji_at = stamp\<rparr>)"

text \<open>The decision: what is recorded, and the entry to append, if any.\<close>

definition intent_decision ::
  "(int \<Rightarrow> string) \<Rightarrow> OutboundAction \<Rightarrow> OutboundExecutionResult \<Rightarrow> IntentConfig \<Rightarrow> int \<Rightarrow> string \<Rightarrow>
   JournalIntent list \<Rightarrow> IntentMutation \<times> JournalIntent option" where
  "intent_decision rfc3339 a r config now stamp journal =
     (let thread = conversation_root a r in
      if \<not> int_enabled config then (Intent_NotTracked, None)
      else if exe_outcome r \<noteq> Exec_Executed then (Intent_NotTracked, None)
      else if thread = [] then (Intent_NotTracked, None)
      else case (case latest_intent journal thread of
                   Some e \<Rightarrow> if derive_intent_state e now = Intent_Open then Some e else None
                 | None \<Rightarrow> None) of
        Some existing \<Rightarrow>
          if act_rkey a \<in> set (ji_actions existing) then (Intent_Duplicate, None)
          else (Intent_Continued,
                Some (existing\<lparr>ji_actions := ji_actions existing @ [act_rkey a], ji_state := Intent_Open,
                               ji_at_epoch := epoch_of now, ji_at := stamp\<rparr>))
      | None \<Rightarrow>
          if max_active config \<le> active_intent_count journal now then (Intent_CapReached, None)
          else (Intent_Opened, Some (fresh_intent rfc3339 thread a config now stamp)))"

definition record_pending_intent ::
  "(int \<Rightarrow> string) \<Rightarrow> bool \<Rightarrow> OutboundAction \<Rightarrow> OutboundExecutionResult \<Rightarrow> IntentConfig \<Rightarrow> int \<Rightarrow>
   string \<Rightarrow> JournalIntent list \<Rightarrow> IntentMutation result \<times> JournalIntent list" where
  "record_pending_intent rfc3339 append_ok a r config now stamp journal =
     (case intent_decision rfc3339 a r config now stamp journal of
        (m, None) \<Rightarrow> (Inr m, journal)
      | (m, Some e) \<Rightarrow>
          if append_ok then (Inr m, journal @ [e])
          else (throw Runtime_error ''cannot append action journal'', journal))"

end
