(* ===== verification/Intent_Facts.thy ===== *)
theory Intent_Facts
  imports Intent
begin

text \<open>
  What the intent store promises: the slots are the map from conversations to their last
  entries, a sweep leaves no ended conversation open and is idempotent, and in every reachable
  journal the number of open conversations is within the cap and none has more replies than its
  budget.
\<close>

subsection \<open>The slots are a map\<close>

lemma ids_set_slot:
  "map ji_id (set_slot e ss) = (if ji_id e \<in> set (map ji_id ss) then map ji_id ss else map ji_id ss @ [ji_id e])"
  by (induction ss) auto

lemma find_set_slot:
  "find (\<lambda>s. ji_id s = i) (set_slot e ss) = (if i = ji_id e then Some e else find (\<lambda>s. ji_id s = i) ss)"
  by (induction ss) auto

lemma latest_intents_snoc: "latest_intents (xs @ [e]) = set_slot e (latest_intents xs)"
  by (simp add: latest_intents_def)

lemma distinct_latest: "distinct (map ji_id (latest_intents xs))"
proof (induction xs rule: rev_induct)
  case Nil
  then show ?case by (simp add: latest_intents_def)
next
  case (snoc e xs)
  then show ?case by (simp only: latest_intents_snoc ids_set_slot split: if_split) simp
qed

lemma latest_intent_snoc:
  "latest_intent (xs @ [e]) i = (if i = ji_id e then Some e else latest_intent xs i)"
  by (simp add: latest_intent_def)

lemma find_latest: "find (\<lambda>s. ji_id s = i) (latest_intents xs) = latest_intent xs i"
  by (induction xs rule: rev_induct)
    (simp_all add: latest_intents_def latest_intent_snoc find_set_slot latest_intent_def)

lemma find_SomeD: "find P xs = Some x \<Longrightarrow> P x \<and> x \<in> set xs"
  by (induction xs) (auto split: if_splits)

lemma latest_id: "latest_intent xs i = Some e \<Longrightarrow> ji_id e = i \<and> e \<in> set xs"
  unfolding latest_intent_def by (drule find_SomeD) simp

lemma find_distinct:
  "distinct (map f xs) \<Longrightarrow> e \<in> set xs \<Longrightarrow> find (\<lambda>s. f s = f e) xs = Some e"
  by (induction xs) auto

lemma in_latest_iff: "e \<in> set (latest_intents xs) \<longleftrightarrow> latest_intent xs (ji_id e) = Some e"
proof
  assume "e \<in> set (latest_intents xs)"
  then show "latest_intent xs (ji_id e) = Some e"
    using find_distinct [OF distinct_latest, of e xs] by (simp add: find_latest)
next
  assume "latest_intent xs (ji_id e) = Some e"
  then have "find (\<lambda>s. ji_id s = ji_id e) (latest_intents xs) = Some e" by (simp add: find_latest)
  then show "e \<in> set (latest_intents xs)" by (blast dest: find_SomeD)
qed

lemma filter_set_slot_dead: "\<not> P e \<Longrightarrow> (\<And>s. s \<in> set ss \<Longrightarrow> ji_id s = ji_id e \<Longrightarrow> \<not> P s) \<Longrightarrow>
    filter P (set_slot e ss) = filter P ss"
  by (induction ss) auto

lemma count_set_slot: "length (filter P (set_slot e ss)) \<le> Suc (length (filter P ss))"
  by (induction ss) auto

lemma count_set_slot_live:
  "s \<in> set ss \<Longrightarrow> ji_id s = ji_id e \<Longrightarrow> P s \<Longrightarrow> distinct (map ji_id ss) \<Longrightarrow>
     length (filter P (set_slot e ss)) \<le> length (filter P ss)"
  by (induction ss) (auto simp: image_iff)

subsection \<open>The sweep\<close>

definition ended :: "int \<Rightarrow> JournalIntent \<Rightarrow> bool" where
  "ended now e \<longleftrightarrow> ji_state e = Intent_Open \<and> derive_intent_state e now \<noteq> Intent_Open"

definition sweep_entries :: "int \<Rightarrow> string \<Rightarrow> JournalIntent list \<Rightarrow> string list \<Rightarrow> JournalIntent list" where
  "sweep_entries now stamp journal ids =
     map (\<lambda>e. terminal_entry e (derive_intent_state e now) now stamp)
       (filter (ended now) (List.map_filter (latest_intent journal) ids))"

lemma sweep_entries_simps:
  "sweep_entries now stamp journal [] = []"
  "sweep_entries now stamp journal (i # ids) =
     (case latest_intent journal i of
        None \<Rightarrow> sweep_entries now stamp journal ids
      | Some e \<Rightarrow> (if ended now e then [terminal_entry e (derive_intent_state e now) now stamp] else []) @
                   sweep_entries now stamp journal ids)"
  by (simp_all add: sweep_entries_def List.map_filter_simps split: option.split)

lemma sweep_loop_written:
  "sweep_loop fail_at now stamp journal ids rep written = (r, written') \<Longrightarrow>
     (\<exists>k. written' = written @ take k (sweep_entries now stamp journal ids)) \<and>
     (\<forall>rep'. r = Inr rep' \<longrightarrow> written' = written @ sweep_entries now stamp journal ids)"
proof (induction ids arbitrary: rep written)
  case Nil
  then show ?case by (auto simp: sweep_entries_simps)
next
  case (Cons i ids)
  show ?case
  proof (cases "latest_intent journal i")
    case None
    then show ?thesis using Cons by (auto simp: sweep_entries_simps)
  next
    case (Some e)
    show ?thesis
    proof (cases "ended now e")
      case False
      then show ?thesis using Some Cons by (auto simp: sweep_entries_simps ended_def Let_def split: if_splits)
    next
      case True
      show ?thesis
      proof (cases "fail_at = Some (length written)")
        case fail: True
        then have "written' = written" "\<And>rep'. r \<noteq> Inr rep'"
          using Some Cons.prems True by (auto simp: ended_def Let_def throw_def)
        then show ?thesis by (auto intro: exI [of _ 0])
      next
        case False
        let ?t = "terminal_entry e (derive_intent_state e now) now stamp"
        obtain rep1 where "sweep_loop fail_at now stamp journal ids rep1 (written @ [?t]) = (r, written')"
          using Some Cons.prems True False by (auto simp: ended_def Let_def)
        note IH = Cons.IH [OF this]
        then obtain k where "written' = (written @ [?t]) @ take k (sweep_entries now stamp journal ids)" by blast
        then show ?thesis using IH Some True
          by (auto simp: sweep_entries_simps intro!: exI [of _ "Suc k"])
      qed
    qed
  qed
qed

lemma first_ids_facts:
  "distinct ids \<Longrightarrow> distinct (first_ids xs ids) \<and> set (first_ids xs ids) = set ids \<union> ji_id ` set xs"
  by (induction xs arbitrary: ids) auto

text \<open>Appending the final entries of some conversations changes exactly those.\<close>

lemma latest_after_terminal:
  assumes "\<And>e. e \<in> set es \<Longrightarrow> latest_intent journal (ji_id e) = Some e" and "distinct (map ji_id es)"
  shows "latest_intent (journal @ map (\<lambda>e. terminal_entry e (derive_intent_state e now) now stamp) es) i =
    (case latest_intent journal i of
       None \<Rightarrow> None
     | Some e \<Rightarrow> Some (if e \<in> set es then terminal_entry e (derive_intent_state e now) now stamp else e))"
  using assms
proof (induction es rule: rev_induct)
  case Nil
  then show ?case by (simp split: option.split)
next
  case (snoc e es)
  have id: "ji_id (terminal_entry x st now stamp) = ji_id x" for x st by (simp add: terminal_entry_def)
  have "latest_intent journal (ji_id e) = Some e" "\<And>x. x \<in> set es \<Longrightarrow> ji_id x \<noteq> ji_id e"
    using snoc.prems by (auto simp: image_iff)
  then show ?case
    using snoc by (auto simp: latest_intent_snoc id simp flip: append_assoc split: option.split dest: latest_id)
qed

definition swept_list :: "int \<Rightarrow> JournalIntent list \<Rightarrow> JournalIntent list" where
  "swept_list now journal =
     filter (ended now) (List.map_filter (latest_intent journal) (first_ids journal []))"

lemma swept_list_facts:
  "e \<in> set (swept_list now journal) \<longleftrightarrow> latest_intent journal (ji_id e) = Some e \<and> ended now e"
  "distinct (map ji_id (swept_list now journal))"
proof -
  have f: "distinct (first_ids journal [])" "set (first_ids journal []) = ji_id ` set journal"
    using first_ids_facts [of "[]" journal] by simp_all
  have id: "latest_intent journal i = Some x \<Longrightarrow> ji_id x = i" for i x by (simp add: latest_id)
  have mem: "e \<in> set (List.map_filter (latest_intent journal) ids) \<longleftrightarrow>
      ji_id e \<in> set ids \<and> latest_intent journal (ji_id e) = Some e" for e ids
  proof (induction ids)
    case (Cons i ids)
    then show ?case using id [of i] by (cases "latest_intent journal i") (auto simp: List.map_filter_simps)
  qed (simp add: List.map_filter_simps)
  then show "e \<in> set (swept_list now journal) \<longleftrightarrow> latest_intent journal (ji_id e) = Some e \<and> ended now e"
    using f latest_id [of journal "ji_id e" e] by (auto simp: swept_list_def)
  have "distinct (map ji_id (List.map_filter (latest_intent journal) ids))" if "distinct ids" for ids
    using that
  proof (induction ids)
    case (Cons i ids)
    then show ?case using id [of i]
      by (cases "latest_intent journal i") (auto simp: List.map_filter_simps mem)
  qed (simp add: List.map_filter_simps)
  then show "distinct (map ji_id (swept_list now journal))"
    unfolding swept_list_def using f(1) distinct_map_filter by blast
qed

text \<open>A sweep that did not fail leaves nothing ended, and touches nothing else.\<close>

lemma sweep_written:
  assumes "sweep_intents fail_at now stamp journal = (r, journal')"
  shows "\<exists>k. journal' = journal @ map (\<lambda>e. terminal_entry e (derive_intent_state e now) now stamp)
      (take k (swept_list now journal))"
    and "r = Inr rep \<Longrightarrow> journal' = journal @ map (\<lambda>e. terminal_entry e (derive_intent_state e now) now stamp)
      (swept_list now journal)"
proof -
  obtain w where w: "sweep_loop fail_at now stamp journal (first_ids journal []) empty_sweep [] = (r, w)"
    "journal' = journal @ w"
    using assms by (auto simp: sweep_intents_def split: prod.splits)
  note L = sweep_loop_written [OF w(1)]
  have e: "sweep_entries now stamp journal (first_ids journal []) =
      map (\<lambda>e. terminal_entry e (derive_intent_state e now) now stamp) (swept_list now journal)"
    by (simp add: sweep_entries_def swept_list_def)
  show "\<exists>k. journal' = journal @ map (\<lambda>e. terminal_entry e (derive_intent_state e now) now stamp)
      (take k (swept_list now journal))"
    using L w(2) by (auto simp: e take_map)
  show "journal' = journal @ map (\<lambda>e. terminal_entry e (derive_intent_state e now) now stamp)
      (swept_list now journal)" if "r = Inr rep"
    using L w(2) that by (auto simp: e)
qed

lemma derive_terminal [simp]:
  "derive_intent_state e now \<noteq> Intent_Open \<Longrightarrow>
     derive_intent_state (terminal_entry e (derive_intent_state e now) now stamp) t = derive_intent_state e now"
  "ji_state (terminal_entry e st now stamp) = st" "ji_id (terminal_entry e st now stamp) = ji_id e"
  by (auto simp: terminal_entry_def derive_intent_state_def)

lemma latest_after_sweep:
  assumes "sweep_intents fail_at now stamp journal = (r, journal')"
  shows "latest_intent journal' i = latest_intent journal i \<or>
    (\<exists>e. latest_intent journal i = Some e \<and> ended now e \<and>
       latest_intent journal' i = Some (terminal_entry e (derive_intent_state e now) now stamp))"
proof -
  obtain k where k: "journal' = journal @ map (\<lambda>e. terminal_entry e (derive_intent_state e now) now stamp)
      (take k (swept_list now journal))"
    using sweep_written(1) [OF assms] by blast
  have "latest_intent journal (ji_id e) = Some e" if "e \<in> set (take k (swept_list now journal))" for e
    using that swept_list_facts(1) by (meson in_set_takeD)
  moreover have "distinct (map ji_id (take k (swept_list now journal)))"
    by (metis distinct_take take_map swept_list_facts(2))
  ultimately have "latest_intent journal' i = (case latest_intent journal i of None \<Rightarrow> None
     | Some e \<Rightarrow> Some (if e \<in> set (take k (swept_list now journal))
                    then terminal_entry e (derive_intent_state e now) now stamp else e))"
    unfolding k by (rule latest_after_terminal)
  then show ?thesis
    using swept_list_facts(1) [of _ now journal]
    by (auto split: option.splits if_splits dest: in_set_takeD)
qed

theorem sweep_complete:
  assumes "sweep_intents fail_at now stamp journal = (Inr rep, journal')"
  shows "\<not> (\<exists>e. latest_intent journal' i = Some e \<and> ended now e)"
    and "sweep_intents fail_at' now stamp' journal' = (Inr rep', journal'') \<Longrightarrow> journal'' = journal'"
proof -
  have j: "journal' = journal @ map (\<lambda>e. terminal_entry e (derive_intent_state e now) now stamp) (swept_list now journal)"
    using sweep_written(2) [OF assms] by simp
  have l: "latest_intent journal' i = (case latest_intent journal i of None \<Rightarrow> None
     | Some e \<Rightarrow> Some (if e \<in> set (swept_list now journal)
                    then terminal_entry e (derive_intent_state e now) now stamp else e))" for i
    unfolding j using swept_list_facts by (intro latest_after_terminal) auto
  have none: "\<not> (\<exists>e. latest_intent journal' i = Some e \<and> ended now e)" for i
  proof
    assume "\<exists>e. latest_intent journal' i = Some e \<and> ended now e"
    then obtain e where e: "latest_intent journal' i = Some e" "ended now e" by blast
    then obtain x where x: "latest_intent journal i = Some x"
      "e = (if x \<in> set (swept_list now journal) then terminal_entry x (derive_intent_state x now) now stamp else x)"
      using l [of i] by (auto split: option.splits)
    show False
    proof (cases "x \<in> set (swept_list now journal)")
      case True
      then have "derive_intent_state x now \<noteq> Intent_Open"
        using swept_list_facts(1) by (simp add: ended_def)
      then show False using x e True by (simp add: ended_def)
    next
      case False
      have "ji_id x = i" using x(1) latest_id by blast
      then show False using False x e swept_list_facts(1) by auto
    qed
  qed
  show "\<not> (\<exists>e. latest_intent journal' i = Some e \<and> ended now e)" by (rule none)
  have "swept_list now journal' = []"
    using swept_list_facts(1) [of _ now journal'] none by (metis last_in_set)
  then show "sweep_intents fail_at' now stamp' journal' = (Inr rep', journal'') \<Longrightarrow> journal'' = journal'"
    using sweep_written(2) by fastforce
qed

subsection \<open>Every reachable journal\<close>

lemma derive_open_earlier:
  "derive_intent_state e now' = Intent_Open \<Longrightarrow> now \<le> now' \<Longrightarrow> derive_intent_state e now = Intent_Open"
  by (auto simp: derive_intent_state_def split: if_splits)

lemma count_antitone: "now \<le> now' \<Longrightarrow> active_intent_count xs now' \<le> active_intent_count xs now"
proof -
  assume "now \<le> now'"
  then have "length (filter (\<lambda>e. derive_intent_state e now' = Intent_Open) ys)
      \<le> length (filter (\<lambda>e. derive_intent_state e now = Intent_Open) ys)" for ys
    using derive_open_earlier by (induction ys) (auto simp: le_Suc_eq)
  then show ?thesis by (simp add: active_intent_count_def active_intents_def)
qed

text \<open>
  The journal's intents under one configuration, with a clock that does not step back: sweeps
  and records, each with its appends failing or not.
\<close>

inductive intent_reach :: "IntentConfig \<Rightarrow> int \<Rightarrow> JournalIntent list \<Rightarrow> bool" for config where
  reach_empty: "intent_reach config now []"
| reach_later: "intent_reach config now xs \<Longrightarrow> now \<le> now' \<Longrightarrow> intent_reach config now' xs"
| reach_sweep: "intent_reach config now xs \<Longrightarrow> sweep_intents fail_at now stamp xs = (r, xs') \<Longrightarrow>
    intent_reach config now xs'"
| reach_record: "intent_reach config now xs \<Longrightarrow>
    record_pending_intent rfc3339 append_ok a res config now stamp xs = (m, xs') \<Longrightarrow>
    intent_reach config now xs'"

definition within_budget :: "IntentConfig \<Rightarrow> JournalIntent \<Rightarrow> bool" where
  "within_budget config e \<longleftrightarrow>
     ji_actions e \<noteq> [] \<and> distinct (ji_actions e) \<and> max_continuations e = cfg_max_continuations config \<and>
     length (ji_actions e) \<le> Suc (unat (cfg_max_continuations config))"

definition intents_ok :: "IntentConfig \<Rightarrow> int \<Rightarrow> JournalIntent list \<Rightarrow> bool" where
  "intents_ok config now xs \<longleftrightarrow>
     active_intent_count xs now \<le> max_active config \<and> list_all (within_budget config) xs"

lemma within_budget_terminal: "within_budget config e \<Longrightarrow> within_budget config (terminal_entry e st now stamp)"
  by (simp add: within_budget_def terminal_entry_def)

lemma count_terminals:
  assumes "\<And>e. e \<in> set es \<Longrightarrow> latest_intent xs (ji_id e) = Some e \<and> ended now e" and "distinct (map ji_id es)"
  shows "active_intents (xs @ map (\<lambda>e. terminal_entry e (derive_intent_state e now) now stamp) es) now =
    active_intents xs now"
  using assms
proof (induction es rule: rev_induct)
  case Nil
  then show ?case by simp
next
  case (snoc e es)
  let ?t = "\<lambda>e. terminal_entry e (derive_intent_state e now) now stamp"
  let ?P = "\<lambda>e. derive_intent_state e now = Intent_Open"
  have dead: "\<not> ?P e" using snoc.prems(1) [of e] by (simp add: ended_def)
  have IH: "active_intents (xs @ map ?t es) now = active_intents xs now"
    using snoc.prems by (intro snoc.IH) simp_all
  have old: "\<not> ?P s" if "s \<in> set (latest_intents (xs @ map ?t es))" "ji_id s = ji_id e" for s
  proof -
    have "latest_intent (xs @ map ?t es) (ji_id s) = Some s" using that in_latest_iff by blast
    moreover have "latest_intent (xs @ map ?t es) (ji_id e) = Some e"
    proof -
      have "e \<notin> set es" "distinct (map ji_id es)" using snoc.prems(2) by auto
      moreover have "latest_intent xs (ji_id x) = Some x" if "x \<in> set (es @ [e])" for x
        using snoc.prems(1) that by blast
      ultimately show ?thesis
        by (subst latest_after_terminal) simp_all
    qed
    ultimately have "s = e" using that(2) by (metis option.inject)
    then show ?thesis by (rule ssubst) (rule dead)
  qed
  have "\<not> ?P (?t e)" "ji_id (?t e) = ji_id e" using dead derive_terminal by simp_all
  then have "filter ?P (set_slot (?t e) (latest_intents (xs @ map ?t es))) = filter ?P (latest_intents (xs @ map ?t es))"
    using old by (intro filter_set_slot_dead) simp_all
  moreover have "xs @ map ?t (es @ [e]) = (xs @ map ?t es) @ [?t e]" by simp
  ultimately show ?case
    using IH by (simp only: active_intents_def latest_intents_snoc)
qed

lemma sweep_keeps_active:
  assumes "sweep_intents fail_at now stamp xs = (r, xs')"
  shows "active_intents xs' now = active_intents xs now"
proof -
  obtain k where k: "xs' = xs @ map (\<lambda>e. terminal_entry e (derive_intent_state e now) now stamp)
      (take k (swept_list now xs))"
    using sweep_written(1) [OF assms] by blast
  show ?thesis
    unfolding k
  proof (rule count_terminals)
    show "distinct (map ji_id (take k (swept_list now xs)))"
      by (metis distinct_take take_map swept_list_facts(2))
  qed (meson in_set_takeD swept_list_facts(1))
qed

lemma continuation_fits:
  assumes "within_budget config e" and "derive_intent_state e now = Intent_Open"
  shows "length (ji_actions e) \<le> unat (cfg_max_continuations config)"
proof -
  let ?n = "length (ji_actions e)"
  have b: "ji_actions e \<noteq> []" "max_continuations e = cfg_max_continuations config"
    "?n \<le> Suc (unat (cfg_max_continuations config))"
    using assms(1) by (simp_all add: within_budget_def)
  have "unat (cfg_max_continuations config) < 2 ^ LENGTH(32)" by (rule unsigned_less)
  then have n: "?n < 2 ^ 64" "0 < ?n" using b by auto
  have "(of_nat ?n - 1 :: u64) = of_nat (?n - 1)" using n(2) by (cases ?n) simp_all
  then have "unat (of_nat ?n - 1 :: u64) = ?n - 1" using n(1) by (simp add: unat_of_nat take_bit_nat_eq_self)
  moreover have "\<not> (ucast (max_continuations e) :: u64) \<le> of_nat ?n - 1"
    using assms(2) by (auto simp: derive_intent_state_def split: if_splits)
  moreover have "unat (ucast (max_continuations e) :: u64) = unat (max_continuations e)"
    using \<open>unat (cfg_max_continuations config) < 2 ^ LENGTH(32)\<close> b(2)
    by (simp add: unsigned_ucast_eq take_bit_nat_eq_self)
  ultimately show ?thesis using b(2) n(2) by (auto simp: word_le_nat_alt)
qed

lemma record_keeps:
  assumes ok: "intents_ok config now xs"
    and r: "record_pending_intent rfc3339 append_ok a res config now stamp xs = (m, xs')"
  shows "intents_ok config now xs'"
proof -
  obtain mu oe where d: "intent_decision rfc3339 a res config now stamp xs = (mu, oe)" by fastforce
  show ?thesis
  proof (cases "oe = None \<or> \<not> append_ok")
    case True
    then show ?thesis using r d ok by (auto simp: record_pending_intent_def split: option.splits)
  next
    case False
    then obtain e where e: "oe = Some e" "xs' = xs @ [e]"
      using r d by (auto simp: record_pending_intent_def)
    let ?P = "\<lambda>e. derive_intent_state e now = Intent_Open"
    have slot: "active_intent_count xs' now = length (filter ?P (set_slot e (latest_intents xs)))"
      by (simp add: active_intent_count_def active_intents_def e latest_intents_snoc)
    show ?thesis
    proof (cases "mu = Intent_Continued")
      case True
      then obtain x where x: "latest_intent xs (conversation_root a res) = Some x" "?P x"
        "act_rkey a \<notin> set (ji_actions x)"
        "e = x\<lparr>ji_actions := ji_actions x @ [act_rkey a], ji_state := Intent_Open, ji_at_epoch := epoch_of now, ji_at := stamp\<rparr>"
        using d e by (auto simp: intent_decision_def Let_def split: if_splits option.splits)
      have "x \<in> set (latest_intents xs)" using x(1) latest_id in_latest_iff by metis
      then have "active_intent_count xs' now \<le> active_intent_count xs now"
        using x(2,4) distinct_latest count_set_slot_live [of x "latest_intents xs" e ?P]
        by (simp only: slot) (simp add: active_intent_count_def active_intents_def)
      moreover have "within_budget config x" using ok latest_id [OF x(1)] by (auto simp: intents_ok_def list_all_iff)
      then have "within_budget config e"
        using x continuation_fits [of config x now] by (auto simp: within_budget_def)
      ultimately show ?thesis using ok e by (simp add: intents_ok_def)
    next
      case False
      then have o: "\<not> max_active config \<le> active_intent_count xs now"
        "e = fresh_intent rfc3339 (conversation_root a res) a config now stamp"
        using d e by (auto simp: intent_decision_def Let_def split: if_splits option.splits)
      have "active_intent_count xs' now \<le> Suc (active_intent_count xs now)"
        by (simp only: slot) (simp only: active_intent_count_def active_intents_def count_set_slot)
      moreover have "within_budget config e" by (simp add: o(2) fresh_intent_def within_budget_def Let_def)
      ultimately show ?thesis using ok o(1) e by (simp add: intents_ok_def)
    qed
  qed
qed

theorem intent_reach_ok: "intent_reach config now xs \<Longrightarrow> intents_ok config now xs"
proof (induction rule: intent_reach.induct)
  case (reach_empty now)
  then show ?case by (simp add: intents_ok_def active_intent_count_def active_intents_def latest_intents_def)
next
  case (reach_later now xs now')
  then show ?case using count_antitone [OF reach_later.hyps(2), of xs] by (simp add: intents_ok_def)
next
  case (reach_sweep now xs fail_at stamp r xs')
  obtain k where k: "xs' = xs @ map (\<lambda>e. terminal_entry e (derive_intent_state e now) now stamp)
      (take k (swept_list now xs))"
    using sweep_written(1) [OF reach_sweep.hyps(2)] by blast
  have "e \<in> set xs" if "e \<in> set (take k (swept_list now xs))" for e
    using that swept_list_facts(1) latest_id by (metis in_set_takeD)
  then show ?case
    using reach_sweep.IH sweep_keeps_active [OF reach_sweep.hyps(2)]
    by (auto simp: intents_ok_def active_intent_count_def k list_all_iff intro!: within_budget_terminal)
next
  case (reach_record now xs rfc3339 append_ok a res stamp m xs')
  then show ?case using record_keeps by blast
qed

text \<open>
  The budget is the entry's, not the conversation's: a reply executed in a thread whose intent
  has ended opens a new intent for the same thread, with a new budget.
\<close>

lemma ended_thread_reopens:
  assumes "int_enabled config" and "exe_outcome res = Exec_Executed" and "conversation_root a res \<noteq> []"
    and "latest_intent xs (conversation_root a res) = Some e" and "derive_intent_state e now \<noteq> Intent_Open"
    and "active_intent_count xs now < max_active config"
  shows "\<exists>e'. record_pending_intent rfc3339 True a res config now stamp xs = (Inr Intent_Opened, xs @ [e']) \<and>
    ji_id e' = ji_id e \<and> ji_actions e' = [act_rkey a] \<and> ji_state e' = Intent_Open"
  using assms latest_id [OF assms(4)]
  by (simp add: record_pending_intent_def intent_decision_def fresh_intent_def Let_def)

end
