(* ===== verification/Samples_Stores.thy ===== *)
theory Samples_Stores
  imports Samples Evidence_Ledger Stream_Cursor Journal_Roundtrip Intent_Facts
begin

text \<open>
  Concrete inputs for the durable stores: one evidence record and one too large for the ledger,
  a stopped cursor, a journal with one event, and a conversation opened by one post.
\<close>

definition sample_evidence :: ProtocolEvidence where
  "sample_evidence =
     append_firehose_event ''relay'' ''#commit'' ''did:plc:abcd'' ''bytes'' 7 0 Verified"

lemma sample_evidence_facts: "fits sample_evidence" "acceptable sample_evidence"
  by (simp_all add: sample_evidence_def append_firehose_event_def fits_def field_limit_def acceptable_def
      confidence_of_def confidence_ok_def)

lemma sample_ledger_append:
  "\<exists>L f. ledger_append ledger_io_ok sample_evidence fresh_ledger None = (Inr True, L, f)"
proof -
  have "scan_evidence [] = ([], 0, Scan_end)" using scan_whole [of "[]"] by (simp add: evidence.image_def)
  then show ?thesis
    by (simp add: ledger_append_def sample_evidence_facts refresh_index_def ledger_io_ok_def fresh_ledger_def
        file_bytes_def drop_torn_tail_def write_record_to_def Let_def)
qed

definition huge_evidence :: ProtocolEvidence where
  "huge_evidence = sample_evidence\<lparr>ev_payload := replicate (Suc field_limit) CHR ''x''\<rparr>"

lemma huge_evidence_facts:
  "length (ev_source huge_evidence) \<le> field_limit" "length (event_type huge_evidence) \<le> field_limit"
  "length (ev_subject huge_evidence) \<le> field_limit" "field_limit < length (ev_payload huge_evidence)"
  "length (ev_payload huge_evidence) < 2 ^ 64" "acceptable huge_evidence"
  using sample_evidence_facts
  by (simp_all add: huge_evidence_def fits_def acceptable_def field_limit_def)

definition stopped_cursor :: CursorState where
  "stopped_cursor = \<lparr>last_sequence = 5, cur_repo = ''did:plc:abcd'', repo_revision = ''2222222222222'',
     repository_revisions = [], resync_required = True\<rparr>"

lemma sample_did: "is_did ''did:plc:abcd''"
  unfolding is_did_iff
  by (intro exI [of _ "''plc''"] exI [of _ "''abcd''"])
     (simp add: lower_digit_dash_def did_char_def is_alnum_def is_alpha_def is_lower_def code_def)

lemma sample_tid: "is_tid ''2222222222222''"
  by (simp add: is_tid_def)

definition sample_event :: journal_entry where
  "sample_event = Entry_Event \<lparr>je_action_id = ''a'', event_uri = ''u'', je_author_did = ''d'', via = ''reply'', je_at = ''t''\<rparr>"

definition journal_json :: "(string option \<times> node) cjson" where
  "journal_json = table_cjson (\<lambda>t. if t = ''{}'' then Some (Node_Object (entry_fields sample_event)) else None) (\<lambda>_. ''{}'')"

lemma sample_event_printable: "printable journal_json sample_event"
proof -
  have p: "serialise_journal_entry journal_json sample_event = ''{}''"
    by (simp add: serialise_journal_entry_def journal_json_def table_simps)
  have "reads_back journal_json ''{}'' (entry_fields sample_event)"
    unfolding journal_json_def
    by (rule table_reads_back) (simp_all add: sample_event_def journal_event_fields_def)
  then show ?thesis unfolding printable_def p by (simp add: newline_def) (simp add: sample_event_def)
qed

definition sample_intents :: IntentConfig where
  "sample_intents = \<lparr>int_enabled = True, max_active = 1, cfg_max_continuations = 3, int_window_seconds = 100\<rparr>"

definition sample_executed :: OutboundExecutionResult where
  "sample_executed = \<lparr>exe_outcome = Exec_Executed, exe_reason = ''executed'', exe_detail = [],
     exe_written = \<lparr>wr_uri = ''at://x'', wr_cid = ''cid''\<rparr>, exe_attestation = None, exe_budget_recorded = True,
     exe_budget = empty_status, exe_authorization = no_authorization\<rparr>"

definition sample_intent :: JournalIntent where
  "sample_intent = fresh_intent (\<lambda>_. ''t'') ''at://x'' sample_action sample_intents 50 ''now''"

lemma sample_opens:
  "record_pending_intent (\<lambda>_. ''t'') True sample_action sample_executed sample_intents 50 ''now'' [] =
     (Inr Intent_Opened, [sample_intent])"
  by (simp add: record_pending_intent_def intent_decision_def conversation_root_def sample_executed_def
      sample_intents_def sample_action_def latest_intent_def active_intent_count_def active_intents_def
      latest_intents_def sample_intent_def)

lemma sample_swept:
  "\<exists>rep js. sweep_intents None 200 ''later'' [sample_intent] = (Inr rep, js)"
  by (simp add: sweep_intents_def latest_intent_def Let_def)

end
