(* ===== verification/Scheduler_Config.thy ===== *)
theory Scheduler_Config
  imports Intent Breaker Text_Guard Engagement
begin

text \<open>
  The scheduler's configuration and report (src/src/app/scheduler/cycle.hpp) and
  \<open>scheduler_config_from_environment\<close> (cycle.cpp).  The environment is a function; the decision
  thresholds go to the C core and only their parser's failure is visible here.
\<close>

record SchedulerConfig =
  sched_enabled :: bool
  max_contexts :: nat
  max_proposals :: nat
  max_executions :: nat
  max_cycle_ms :: int
  drives_enabled :: bool
  sched_intents :: IntentConfig
  graduated_likes :: bool
  text_guard :: TextGuardConfig
  breaker_config :: BreakerConfig
  max_pending_proposals :: nat
  engagement_mode :: EngagementMode

definition default_scheduler_config :: SchedulerConfig where
  "default_scheduler_config =
     \<lparr>sched_enabled = False, max_contexts = 4, max_proposals = 1, max_executions = 1, max_cycle_ms = 0,
      drives_enabled = False,
      sched_intents = \<lparr>int_enabled = False, max_active = 3, cfg_max_continuations = 3,
                       int_window_seconds = 2 * 24 * 3600\<rparr>,
      graduated_likes = False, text_guard = default_text_guard, breaker_config = default_breaker_config,
      max_pending_proposals = 50, engagement_mode = Invited\<rparr>"

record SchedulerCycleReport =
  rp_contexts_examined :: nat
  rp_decisions :: nat
  rp_abstentions :: nat
  rp_proposals_written :: nat
  rp_proposals_existing :: nat
  rp_executions_attempted :: nat
  rp_executed :: nat
  rp_refused :: nat
  rp_text_refused :: nat
  rp_last_text_refusal :: string
  rp_breaker_gate :: string
  rp_breaker_trips :: nat
  rp_quarantined :: nat
  rp_proposals_capped :: nat
  rp_engagement_refused :: nat
  rp_last_engagement_refusal :: string
  rp_engagement_invalid_lines :: nat
  rp_failed :: nat
  rp_detail :: string
  rp_ordered_by_drives :: bool
  rp_ordered_by_intents :: bool
  rp_graduated_likes_written :: nat
  rp_expectations_evaluated :: nat
  rp_expectations_pending :: nat
  rp_resolutions_written :: nat
  rp_spool_published :: nat
  rp_spool_denied :: nat
  rp_spool_deferred :: nat
  rp_intents_evaluated :: nat
  rp_intents_expired :: nat
  rp_intents_closed :: nat
  rp_intents_opened :: nat
  rp_intents_continued :: nat
  rp_intents_cap_reached :: nat

definition empty_cycle_report :: SchedulerCycleReport where
  "empty_cycle_report =
     \<lparr>rp_contexts_examined = 0, rp_decisions = 0, rp_abstentions = 0, rp_proposals_written = 0,
      rp_proposals_existing = 0, rp_executions_attempted = 0, rp_executed = 0, rp_refused = 0,
      rp_text_refused = 0, rp_last_text_refusal = [], rp_breaker_gate = ''closed'', rp_breaker_trips = 0,
      rp_quarantined = 0, rp_proposals_capped = 0, rp_engagement_refused = 0,
      rp_last_engagement_refusal = [], rp_engagement_invalid_lines = 0, rp_failed = 0, rp_detail = [],
      rp_ordered_by_drives = False, rp_ordered_by_intents = False, rp_graduated_likes_written = 0,
      rp_expectations_evaluated = 0, rp_expectations_pending = 0, rp_resolutions_written = 0,
      rp_spool_published = 0, rp_spool_denied = 0, rp_spool_deferred = 0, rp_intents_evaluated = 0,
      rp_intents_expired = 0, rp_intents_closed = 0, rp_intents_opened = 0, rp_intents_continued = 0,
      rp_intents_cap_reached = 0\<rparr>"

subsection \<open>The environment\<close>

text \<open>
  \<open>std::strtoll(raw, &end, 10)\<close> with the test that something was read and nothing is left over;
  a value out of range is the nearest \<open>long long\<close>, because \<open>errno\<close> is not looked at.
\<close>

definition strtoll_all :: "string \<Rightarrow> int option" where
  "strtoll_all s =
     (let t = dropWhile is_space s;
          neg = (t \<noteq> [] \<and> hd t = CHR ''-'');
          ds = (if t \<noteq> [] \<and> (hd t = CHR ''-'' \<or> hd t = CHR ''+'') then tl t else t);
          v = (if neg then - int (dec_value ds) else int (dec_value ds))
      in if ds = [] \<or> \<not> list_all is_digit ds then None
         else Some (max (- (2 ^ 63)) (min (2 ^ 63 - 1) v)))"

definition positive_env :: "(string \<Rightarrow> string option) \<Rightarrow> string \<Rightarrow> int \<Rightarrow> int \<Rightarrow> int result" where
  "positive_env getenv name target minimum =
     (case getenv name of
        None \<Rightarrow> Inr target
      | Some raw \<Rightarrow>
          if raw = [] then Inr target
          else case strtoll_all raw of
            None \<Rightarrow> throw Runtime_error (name @ '' must be a whole number of at least '' @ int_to_string minimum)
          | Some v \<Rightarrow>
              if v < minimum
              then throw Runtime_error (name @ '' must be a whole number of at least '' @ int_to_string minimum)
              else Inr v)"

definition breaker_from_env :: "(string \<Rightarrow> string option) \<Rightarrow> SchedulerConfig \<Rightarrow> SchedulerConfig result" where
  "breaker_from_env getenv config =
     (let b = breaker_config config in
      and_then (positive_env getenv ''ATPERSON_BREAKER_THRESHOLD'' (uint (failure_threshold b)) 1) (\<lambda>threshold.
      and_then (positive_env getenv ''ATPERSON_BREAKER_COOLDOWN'' (base_cooldown_seconds b) 1) (\<lambda>cooldown.
      and_then (positive_env getenv ''ATPERSON_BREAKER_MAX_COOLDOWN'' (max_cooldown_seconds b) 1) (\<lambda>max_cooldown.
      and_then (positive_env getenv ''ATPERSON_PROPOSAL_FAILURE_LIMIT'' (uint (proposal_failure_limit b)) 1) (\<lambda>limit.
      and_then (positive_env getenv ''ATPERSON_SCHEDULER_MAX_PENDING'' (int (max_pending_proposals config)) 1) (\<lambda>waiting.
      if max_cooldown < cooldown then
        throw Runtime_error ''ATPERSON_BREAKER_MAX_COOLDOWN must not be below ATPERSON_BREAKER_COOLDOWN''
      else Inr (config\<lparr>
        breaker_config := b\<lparr>failure_threshold := of_int (min threshold 1000000),
                            base_cooldown_seconds := cooldown, max_cooldown_seconds := max_cooldown,
                            proposal_failure_limit := of_int (min limit 1000000)\<rparr>,
        max_pending_proposals := nat waiting\<rparr>)))))))"

definition engagement_from_env :: "(string \<Rightarrow> string option) \<Rightarrow> SchedulerConfig \<Rightarrow> SchedulerConfig result" where
  "engagement_from_env getenv config =
     (case getenv ''ATPERSON_ENGAGEMENT'' of
        None \<Rightarrow> Inr config
      | Some mode \<Rightarrow>
          if mode = [] then Inr config
          else if mode = ''invited'' then Inr (config\<lparr>engagement_mode := Invited\<rparr>)
          else if mode = ''open'' then Inr (config\<lparr>engagement_mode := Open\<rparr>)
          else throw Runtime_error ''ATPERSON_ENGAGEMENT must be invited or open'')"

definition repeat_window_from_env :: "(string \<Rightarrow> string option) \<Rightarrow> SchedulerConfig \<Rightarrow> SchedulerConfig result" where
  "repeat_window_from_env getenv config =
     (let msg = ''ATPERSON_OUTPUT_REPEAT_WINDOW must be a non-negative number of seconds'' in
      case getenv ''ATPERSON_OUTPUT_REPEAT_WINDOW'' of
        None \<Rightarrow> Inr config
      | Some window \<Rightarrow>
          if window = [] then Inr config
          else case strtoll_all window of
            None \<Rightarrow> throw Runtime_error msg
          | Some seconds \<Rightarrow>
              if seconds < 0 then throw Runtime_error msg
              else Inr (config\<lparr>text_guard := (text_guard config)\<lparr>repeat_window_seconds := seconds\<rparr>\<rparr>))"

text \<open>\<open>decision_env\<close>: how \<open>apply_decision_env\<close> ended on this environment.\<close>

definition scheduler_config_from_environment ::
  "unit result \<Rightarrow> (string \<Rightarrow> string option) \<Rightarrow> SchedulerConfig result" where
  "scheduler_config_from_environment decision_env getenv =
     (let on = (\<lambda>name. getenv name = Some ''1'');
          config = default_scheduler_config\<lparr>
            sched_enabled := on ''ATPERSON_SCHEDULER'',
            drives_enabled := on ''ATPERSON_SCHEDULER_DRIVES'',
            graduated_likes := on ''ATPERSON_SCHEDULER_GRADUATED_LIKES'',
            sched_intents := intent_config_from_environment getenv\<rparr>
      in and_then decision_env (\<lambda>_.
         and_then (breaker_from_env getenv config) (\<lambda>c1.
         and_then (engagement_from_env getenv c1) (\<lambda>c2.
         repeat_window_from_env getenv c2))))"

subsection \<open>What an environment can configure\<close>

lemma positive_env_min:
  "positive_env getenv name target minimum = Inr v \<Longrightarrow> minimum \<le> target \<Longrightarrow> minimum \<le> v"
  by (auto simp: positive_env_def throw_def split: option.splits if_splits)

lemma parse_positive_bounds:
  "1 \<le> fallback \<Longrightarrow> fallback \<le> maximum \<Longrightarrow>
     1 \<le> parse_positive_u64 v fallback maximum \<and> parse_positive_u64 v fallback maximum \<le> maximum"
  by (auto simp: parse_positive_u64_def split: option.split)

definition scheduler_config_ok :: "SchedulerConfig \<Rightarrow> bool" where
  "scheduler_config_ok c \<longleftrightarrow>
     breaker_config_ok (breaker_config c) \<and> 1 \<le> max_pending_proposals c \<and>
     0 \<le> repeat_window_seconds (text_guard c) \<and>
     max_active (sched_intents c) \<le> kMaxActiveIntents \<and>
     unat (cfg_max_continuations (sched_intents c)) \<le> kMaxIntentContinuations \<and>
     1 \<le> unat (cfg_max_continuations (sched_intents c)) \<and>
     int_window_seconds (sched_intents c) \<in> {24 * 3600..366 * 24 * 3600} \<and>
     max_proposals c = 1 \<and> max_executions c = 1"

lemma default_config_ok: "scheduler_config_ok default_scheduler_config"
  by (simp add: scheduler_config_ok_def default_scheduler_config_def breaker_config_ok_def default_breaker_config_def
      default_text_guard_def kMaxActiveIntents_def kMaxIntentContinuations_def word_less_nat_alt)

lemma intents_from_env_ok:
  assumes "scheduler_config_ok c"
  shows "scheduler_config_ok (c\<lparr>sched_enabled := a, drives_enabled := b, graduated_likes := d,
    sched_intents := intent_config_from_environment getenv\<rparr>)"
proof -
  let ?p = "parse_positive_u64 (getenv ''ATPERSON_INTENT_MAX_CONTINUATIONS'') 3 kMaxIntentContinuations"
  have p: "1 \<le> ?p" "?p \<le> 16"
    using parse_positive_bounds [of 3 16] by (simp_all add: kMaxIntentContinuations_def)
  then have "unat (of_nat ?p :: u32) = ?p" by (simp add: unat_of_nat take_bit_nat_eq_self)
  moreover have "parse_positive_u64 (getenv ''ATPERSON_INTENT_MAX_ACTIVE'') 3 kMaxActiveIntents \<le> kMaxActiveIntents"
    using parse_positive_bounds [of 3 kMaxActiveIntents] by (simp add: kMaxActiveIntents_def)
  moreover have "1 \<le> parse_positive_u64 (getenv ''ATPERSON_INTENT_WINDOW_DAYS'') 2 366"
    "parse_positive_u64 (getenv ''ATPERSON_INTENT_WINDOW_DAYS'') 2 366 \<le> 366"
    using parse_positive_bounds [of 2 366] by simp_all
  ultimately show ?thesis
    using assms p
    by (simp add: scheduler_config_ok_def intent_config_from_environment_def kMaxIntentContinuations_def)
qed

lemma word_of_capped: "1 \<le> v \<Longrightarrow> (0 :: u32) < of_int (min v 1000000)"
proof -
  assume "1 \<le> v"
  then have "uint (of_int (min v 1000000) :: u32) = min v 1000000"
    by (simp only: uint_word_of_int) (simp add: min_def)
  then show ?thesis using \<open>1 \<le> v\<close> by (simp add: word_less_def)
qed

lemma breaker_from_env_ok:
  assumes "breaker_from_env getenv c = Inr c'" and "scheduler_config_ok c"
  shows "scheduler_config_ok c'"
proof -
  let ?b = "breaker_config c"
  obtain th co mx li wa where v:
    "positive_env getenv ''ATPERSON_BREAKER_THRESHOLD'' (uint (failure_threshold ?b)) 1 = Inr th"
    "positive_env getenv ''ATPERSON_BREAKER_COOLDOWN'' (base_cooldown_seconds ?b) 1 = Inr co"
    "positive_env getenv ''ATPERSON_BREAKER_MAX_COOLDOWN'' (max_cooldown_seconds ?b) 1 = Inr mx"
    "positive_env getenv ''ATPERSON_PROPOSAL_FAILURE_LIMIT'' (uint (proposal_failure_limit ?b)) 1 = Inr li"
    "positive_env getenv ''ATPERSON_SCHEDULER_MAX_PENDING'' (int (max_pending_proposals c)) 1 = Inr wa"
    and m: "co \<le> mx"
    and c': "c' = c\<lparr>
        breaker_config := ?b\<lparr>failure_threshold := of_int (min th 1000000),
                            base_cooldown_seconds := co, max_cooldown_seconds := mx,
                            proposal_failure_limit := of_int (min li 1000000)\<rparr>,
        max_pending_proposals := nat wa\<rparr>"
    using assms(1) by (auto simp: breaker_from_env_def Let_def and_then_Inr throw_def split: if_splits)
  have "0 < uint (failure_threshold ?b)" "0 < uint (proposal_failure_limit ?b)" "0 < base_cooldown_seconds ?b"
    "0 < max_cooldown_seconds ?b" "1 \<le> max_pending_proposals c"
    using assms(2) by (auto simp: scheduler_config_ok_def breaker_config_ok_def word_less_def)
  then have "1 \<le> th" "1 \<le> co" "1 \<le> li" "1 \<le> wa"
    using positive_env_min [OF v(1)] positive_env_min [OF v(2)] positive_env_min [OF v(4)] positive_env_min [OF v(5)]
    by linarith+
  then show ?thesis
    using assms(2) m word_of_capped [of th] word_of_capped [of li]
    by (simp add: scheduler_config_ok_def c' breaker_config_ok_def)
qed

text \<open>Whatever the environment says, a configuration that is accepted is within its bounds.\<close>

theorem environment_config_ok:
  assumes "scheduler_config_from_environment dv getenv = Inr c"
  shows "scheduler_config_ok c"
proof -
  let ?on = "\<lambda>name. getenv name = Some ''1''"
  let ?c0 = "default_scheduler_config\<lparr>sched_enabled := ?on ''ATPERSON_SCHEDULER'',
            drives_enabled := ?on ''ATPERSON_SCHEDULER_DRIVES'',
            graduated_likes := ?on ''ATPERSON_SCHEDULER_GRADUATED_LIKES'',
            sched_intents := intent_config_from_environment getenv\<rparr>"
  obtain c1 c2 where c: "breaker_from_env getenv ?c0 = Inr c1" "engagement_from_env getenv c1 = Inr c2"
    "repeat_window_from_env getenv c2 = Inr c"
    using assms by (auto simp: scheduler_config_from_environment_def Let_def and_then_Inr)
  have "scheduler_config_ok ?c0"
    using intents_from_env_ok [OF default_config_ok, where getenv = getenv and a = "?on ''ATPERSON_SCHEDULER''"
      and b = "?on ''ATPERSON_SCHEDULER_DRIVES''" and d = "?on ''ATPERSON_SCHEDULER_GRADUATED_LIKES''"] by simp
  then have "scheduler_config_ok c1" by (rule breaker_from_env_ok [OF c(1)])
  then have "scheduler_config_ok c2"
    using c(2) by (auto simp: engagement_from_env_def scheduler_config_ok_def throw_def split: option.splits if_splits)
  then show ?thesis
    using c(3)
    by (auto simp: repeat_window_from_env_def scheduler_config_ok_def throw_def Let_def split: option.splits if_splits)
qed

end
