(* ===== verification/Core_Format.thy ===== *)
theory Core_Format
  imports Framing
begin

text \<open>
  The record format of the observation ledger (src/src/core/ledger/format.c): little-endian
  fields, length-prefixed strings, a checksum over the body.  A C string in a fixed array is the
  string up to its first NUL (\<open>c_str\<close>).  The payload of an entry is its bytes, or the mark of a
  payload that was released (\<open>payload_len\<close> = \<open>SIZE_MAX\<close> in memory, \<open>UINT32_MAX\<close> in the file).
\<close>

unbundle bit_operations_syntax

datatype LedgerOutcome = Ledger_Pending | Ledger_Learned | Ledger_Skipped | Ledger_Failed |
  Ledger_Withdrawn

fun outcome_code :: "LedgerOutcome \<Rightarrow> nat" where
  "outcome_code Ledger_Pending = 0"
| "outcome_code Ledger_Learned = 1"
| "outcome_code Ledger_Skipped = 2"
| "outcome_code Ledger_Failed = 3"
| "outcome_code Ledger_Withdrawn = 4"

definition outcome_of_code :: "nat \<Rightarrow> LedgerOutcome option" where
  "outcome_of_code n =
     (if n = 0 then Some Ledger_Pending else if n = 1 then Some Ledger_Learned
      else if n = 2 then Some Ledger_Skipped else if n = 3 then Some Ledger_Failed
      else if n = 4 then Some Ledger_Withdrawn else None)"

definition ledger_is_committed :: "LedgerOutcome \<Rightarrow> bool" where
  "ledger_is_committed o1 \<longleftrightarrow> o1 = Ledger_Learned \<or> o1 = Ledger_Skipped \<or> o1 = Ledger_Withdrawn"

record LedgerEntry =
  led_id :: u64
  led_observed_at :: u64
  led_digest :: u64
  led_schema :: u32
  led_outcome :: LedgerOutcome
  led_source_id :: string
  led_author_did :: string

record ConversationContext =
  reply_root_uri :: string
  reply_parent_uri :: string
  quote_uri :: string

definition no_context :: ConversationContext where
  "no_context = \<lparr>reply_root_uri = [], reply_parent_uri = [], quote_uri = []\<rparr>"

datatype payload = Payload string | Released

definition NUL :: char where
  "NUL = CHR 0x00"

definition c_str :: "string \<Rightarrow> string" where
  "c_str s = takeWhile (\<lambda>c. c \<noteq> NUL) s"

definition source_bytes :: nat where
  "source_bytes = 256"

definition author_bytes :: nat where
  "author_bytes = 256"

definition context_bytes :: nat where
  "context_bytes = 256"

definition payload_limit :: nat where
  "payload_limit = 65536"

definition body_max :: nat where
  "body_max = 1024 + 3 * (4 + context_bytes) + payload_limit"

subsection \<open>Checksums\<close>

definition fnv_byte :: "char \<Rightarrow> u64 \<Rightarrow> u64" where
  "fnv_byte c h = (h XOR of_nat (code c)) * 1099511628211"

definition atp_ledger_digest :: "string \<Rightarrow> u64" where
  "atp_ledger_digest bytes = fold fnv_byte bytes 1469598103934665603"

definition atp_ledger_checksum :: "string \<Rightarrow> u32" where
  "atp_ledger_checksum bytes =
     (let h = fold fnv_byte bytes 1469598103934665603 in ucast (h XOR drop_bit 32 h))"

subsection \<open>Writing\<close>

definition store_string :: "string \<Rightarrow> string" where
  "store_string s = le_bytes 4 (length s) @ s"

definition store_payload :: "payload \<Rightarrow> string" where
  "store_payload p =
     (case p of Released \<Rightarrow> le_bytes 4 (2 ^ 32 - 1) | Payload s \<Rightarrow> le_bytes 4 (length s) @ s)"

definition serialize_entry :: "LedgerEntry \<Rightarrow> payload \<Rightarrow> ConversationContext \<Rightarrow> string" where
  "serialize_entry e p c =
     le_bytes 8 (unat (led_id e)) @
     store_string (led_source_id e) @
     store_string (led_author_did e) @
     le_bytes 8 (unat (led_observed_at e)) @
     le_bytes 8 (unat (led_digest e)) @
     le_bytes 4 (unat (led_schema e)) @
     [char_of (outcome_code (led_outcome e))] @
     store_payload p @
     store_string (reply_root_uri c) @ store_string (reply_parent_uri c) @ store_string (quote_uri c)"

definition patch_body :: "u64 \<Rightarrow> LedgerOutcome \<Rightarrow> string" where
  "patch_body i o1 = le_bytes 8 (unat i) @ [char_of (outcome_code o1)]"

definition build_record :: "nat \<Rightarrow> string \<Rightarrow> string" where
  "build_record type body =
     le_bytes 4 (length body) @ le_bytes 4 (unat (atp_ledger_checksum body)) @ char_of type # body"

subsection \<open>Reading\<close>

text \<open>Each reader takes what is left of the body and refuses to run past its end.\<close>

definition load_le :: "nat \<Rightarrow> string \<Rightarrow> (nat \<times> string) option" where
  "load_le n b = (if length b < n then None else Some (le_val (take n b), drop n b))"

definition parse_sized :: "(nat \<Rightarrow> bool) \<Rightarrow> string \<Rightarrow> (string \<times> string) option" where
  "parse_sized ok b =
     Option.bind (load_le 4 b) (\<lambda>(n, r).
       if \<not> ok n \<or> length r < n then None else Some (take n r, drop n r))"

definition parse_string :: "nat \<Rightarrow> string \<Rightarrow> (string \<times> string) option" where
  "parse_string capacity b = map_option (\<lambda>(s, r). (c_str s, r)) (parse_sized (\<lambda>n. n < capacity) b)"

definition parse_payload :: "string \<Rightarrow> (payload \<times> string) option" where
  "parse_payload b =
     Option.bind (load_le 4 b) (\<lambda>(n, r).
       if n = 2 ^ 32 - 1 then Some (Released, r)
       else if payload_limit < n \<or> length r < n then None
       else Some (Payload (take n r), drop n r))"

definition parse_source :: "string \<Rightarrow> (string \<times> string) option" where
  "parse_source b =
     map_option (\<lambda>(s, r). (c_str s, r)) (parse_sized (\<lambda>n. n \<noteq> 0 \<and> n < source_bytes) b)"

definition parse_outcome :: "string \<Rightarrow> (LedgerOutcome \<times> string) option" where
  "parse_outcome b =
     Option.bind (load_le 1 b) (\<lambda>(n, r). map_option (\<lambda>o1. (o1, r)) (outcome_of_code n))"

definition parse_context :: "string \<Rightarrow> ConversationContext option" where
  "parse_context b =
     Option.bind (parse_string context_bytes b) (\<lambda>(root, b1).
     Option.bind (parse_string context_bytes b1) (\<lambda>(parent, b2).
     Option.bind (parse_string context_bytes b2) (\<lambda>(quoted, b3).
       if b3 \<noteq> [] then None
       else Some \<lparr>reply_root_uri = root, reply_parent_uri = parent, quote_uri = quoted\<rparr>)))"

definition parse_entry :: "string \<Rightarrow> (LedgerEntry \<times> payload \<times> ConversationContext) option" where
  "parse_entry body =
     (if length body < 42 then None
      else
        Option.bind (load_le 8 body) (\<lambda>(i, b1).
        Option.bind (parse_source b1) (\<lambda>(source, b2).
        Option.bind (parse_string author_bytes b2) (\<lambda>(author, b3).
        Option.bind (load_le 8 b3) (\<lambda>(observed, b4).
        Option.bind (load_le 8 b4) (\<lambda>(digest, b5).
        Option.bind (load_le 4 b5) (\<lambda>(schema, b6).
        Option.bind (parse_outcome b6) (\<lambda>(o1, b7).
        Option.bind (parse_payload b7) (\<lambda>(p, b8).
        Option.bind (parse_context b8) (\<lambda>c.
          Some (\<lparr>led_id = of_nat i, led_observed_at = of_nat observed, led_digest = of_nat digest,
                 led_schema = of_nat schema, led_outcome = o1, led_source_id = source,
                 led_author_did = author\<rparr>, p, c)))))))))))"

definition parse_patch :: "string \<Rightarrow> (u64 \<times> nat) option" where
  "parse_patch body =
     (if length body \<noteq> 9 then None else Some (of_nat (le_val (take 8 body)), code (body ! 8)))"

subsection \<open>What was written is read back\<close>

definition c_string_ok :: "nat \<Rightarrow> string \<Rightarrow> bool" where
  "c_string_ok capacity s \<longleftrightarrow> length s < capacity \<and> NUL \<notin> set s"

definition payload_ok :: "payload \<Rightarrow> bool" where
  "payload_ok p \<longleftrightarrow> (case p of Released \<Rightarrow> True | Payload s \<Rightarrow> length s \<le> payload_limit)"

definition context_ok :: "ConversationContext \<Rightarrow> bool" where
  "context_ok c \<longleftrightarrow> c_string_ok context_bytes (reply_root_uri c) \<and>
     c_string_ok context_bytes (reply_parent_uri c) \<and> c_string_ok context_bytes (quote_uri c)"

definition ledger_entry_ok :: "LedgerEntry \<Rightarrow> bool" where
  "ledger_entry_ok e \<longleftrightarrow> led_source_id e \<noteq> [] \<and> c_string_ok source_bytes (led_source_id e) \<and>
     c_string_ok author_bytes (led_author_did e)"

lemma c_str_id [simp]: "NUL \<notin> set s \<Longrightarrow> c_str s = s"
  unfolding c_str_def by (subst takeWhile_eq_all_conv) auto

lemma c_str_no_NUL: "NUL \<notin> set (c_str s)"
  unfolding c_str_def by (auto dest: set_takeWhileD)

lemma outcome_code_inverse [simp]: "outcome_of_code (outcome_code o1) = Some o1"
  by (cases o1) (simp_all add: outcome_of_code_def)

lemma outcome_code_less: "outcome_code o1 < 256"
  by (cases o1) simp_all

lemma outcome_of_code_inverse: "outcome_of_code n = Some o1 \<Longrightarrow> outcome_code o1 = n"
  by (auto simp: outcome_of_code_def split: if_splits)

lemma load_le_bytes [simp]: "x < 256 ^ n \<Longrightarrow> load_le n (le_bytes n x @ b) = Some (x, b)"
  by (simp add: load_le_def)

lemma load_le_u64 [simp]: "load_le 8 (le_bytes 8 (unat (w :: u64)) @ b) = Some (unat w, b)"
proof (rule load_le_bytes)
  have "unat w < 2 ^ LENGTH(64)" by (rule unsigned_less)
  then show "unat w < 256 ^ 8" by simp
qed

lemma load_le_u32 [simp]: "load_le 4 (le_bytes 4 (unat (w :: u32)) @ b) = Some (unat w, b)"
proof (rule load_le_bytes)
  have "unat w < 2 ^ LENGTH(32)" by (rule unsigned_less)
  then show "unat w < 256 ^ 4" by simp
qed

lemma parse_sized_store:
  assumes "ok (length s)" and "length s < 2 ^ 32"
  shows "parse_sized ok (store_string s @ b) = Some (s, b)"
  using assms by (simp add: parse_sized_def store_string_def)

lemma parse_string_store:
  "c_string_ok capacity s \<Longrightarrow> capacity < 2 ^ 32 \<Longrightarrow> parse_string capacity (store_string s @ b) = Some (s, b)"
  by (simp add: parse_string_def parse_sized_store c_string_ok_def)

lemma parse_source_store:
  "s \<noteq> [] \<Longrightarrow> c_string_ok source_bytes s \<Longrightarrow> parse_source (store_string s @ b) = Some (s, b)"
  by (simp add: parse_source_def parse_sized_store c_string_ok_def source_bytes_def)

lemma parse_outcome_store: "parse_outcome (char_of (outcome_code o1) # b) = Some (o1, b)"
proof -
  have "code (char_of (outcome_code o1)) = outcome_code o1" by (rule code_char_of [OF outcome_code_less])
  then show ?thesis by (simp add: parse_outcome_def load_le_def)
qed

lemma parse_payload_store: "payload_ok p \<Longrightarrow> parse_payload (store_payload p @ b) = Some (p, b)"
  by (cases p) (simp_all add: payload_ok_def parse_payload_def store_payload_def payload_limit_def)

lemma parse_context_store:
  "context_ok c \<Longrightarrow>
     parse_context (store_string (reply_root_uri c) @ store_string (reply_parent_uri c) @ store_string (quote_uri c)) = Some c"
  using parse_string_store [of context_bytes "quote_uri c" "[]"]
  by (simp add: context_ok_def parse_context_def parse_string_store context_bytes_def)

lemma length_store [simp]: "length (store_string s) = 4 + length s"
  by (simp add: store_string_def)

lemma length_serialize_entry:
  "length (serialize_entry e p c) =
     53 + length (led_source_id e) + length (led_author_did e) +
     (case p of Released \<Rightarrow> 0 | Payload s \<Rightarrow> length s) +
     length (reply_root_uri c) + length (reply_parent_uri c) + length (quote_uri c)"
  by (cases p) (simp_all add: serialize_entry_def store_payload_def)

theorem entry_round_trip:
  assumes "ledger_entry_ok e" and "payload_ok p" and "context_ok c"
  shows "parse_entry (serialize_entry e p c) = Some (e, p, c)"
proof -
  have "\<not> length (serialize_entry e p c) < 42" by (simp add: length_serialize_entry)
  moreover have s: "led_source_id e \<noteq> []" "c_string_ok source_bytes (led_source_id e)"
      "c_string_ok author_bytes (led_author_did e)" "author_bytes < 2 ^ 32"
    using assms(1) by (simp_all add: ledger_entry_ok_def author_bytes_def)
  ultimately show ?thesis
    unfolding parse_entry_def
    by (simp add: serialize_entry_def parse_source_store parse_string_store parse_outcome_store
        parse_payload_store [OF assms(2)] parse_context_store [OF assms(3)])
qed

lemma length_entry_body:
  assumes "ledger_entry_ok e" and "payload_ok p" and "context_ok c"
  shows "0 < length (serialize_entry e p c) \<and> length (serialize_entry e p c) \<le> body_max"
  using assms
  by (cases p) (auto simp: length_serialize_entry ledger_entry_ok_def payload_ok_def context_ok_def c_string_ok_def
      body_max_def source_bytes_def author_bytes_def context_bytes_def payload_limit_def)

lemma patch_round_trip: "parse_patch (patch_body i o1) = Some (i, outcome_code o1)"
  using outcome_code_less [of o1] by (simp add: parse_patch_def patch_body_def nth_append code_char_of)

lemma length_patch_body [simp]: "length (patch_body i o1) = 9"
  by (simp add: patch_body_def)

text \<open>What the parser accepts has strings that fit their arrays.\<close>

lemma parse_string_ok: "parse_string capacity b = Some (s, r) \<Longrightarrow> c_string_ok capacity s"
proof -
  assume "parse_string capacity b = Some (s, r)"
  then obtain t where "s = c_str t" "length t < capacity"
    by (auto simp: parse_string_def parse_sized_def Option.bind_eq_Some_conv split: if_splits)
  moreover have "length (c_str t) \<le> length t" unfolding c_str_def by (rule length_takeWhile_le)
  ultimately show ?thesis using c_str_no_NUL by (auto simp: c_string_ok_def)
qed

end
