(* ===== verification/Decision.thy ===== *)
theory Decision
  imports Control_Remote Outbound_Document Core_Format Protocol_Syntax
begin

text \<open>
  What the scheduler makes of a decision of the C core: the digest an approval binds to
  (src/src/app/action/inspection.cpp, src/src/core/ledger/format.c), the text and the record key
  of the proposal, and the digest of a graduated like (src/src/app/scheduler/cycle.cpp).  The
  digests are hashes of canonical byte strings; the lemmas show that those strings determine what
  they encode and that the two kinds never coincide.
\<close>

unbundle bit_operations_syntax

datatype AbstainReason = Abstain_None | Abstain_EmptyContext | Abstain_NoCandidates |
  Abstain_LowScore | Abstain_LowSupport | Abstain_NegativeValence

fun abstain_code :: "AbstainReason \<Rightarrow> nat" where
  "abstain_code Abstain_None = 0"
| "abstain_code Abstain_EmptyContext = 1"
| "abstain_code Abstain_NoCandidates = 2"
| "abstain_code Abstain_LowScore = 3"
| "abstain_code Abstain_LowSupport = 4"
| "abstain_code Abstain_NegativeValence = 5"

datatype PlanStop = Stop_None | Stop_DeadEnd | Stop_MaxTokens | Stop_LowScore | Stop_LowSupport |
  Stop_ScoreDrop | Stop_Repetition | Stop_Cycle | Stop_NegativeValence

fun stop_code :: "PlanStop \<Rightarrow> nat" where
  "stop_code Stop_None = 0"
| "stop_code Stop_DeadEnd = 1"
| "stop_code Stop_MaxTokens = 2"
| "stop_code Stop_LowScore = 3"
| "stop_code Stop_LowSupport = 4"
| "stop_code Stop_ScoreDrop = 5"
| "stop_code Stop_Repetition = 6"
| "stop_code Stop_Cycle = 7"
| "stop_code Stop_NegativeValence = 8"

text \<open>
  A plan step as the digest and the proposal read it: the token buffer of 96 bytes and two
  floats, as their bits.  The other fields of the C structs are not read here.
\<close>

record DecisionStep =
  step_token :: string
  step_score :: u32
  step_support :: u32

record ActionDecision =
  abstained :: bool
  abstain_reason :: AbstainReason
  plan_steps :: "DecisionStep list"
  plan_score :: u32
  stop_reason :: PlanStop
  raw_plan_count :: u64
  viable_plan_count :: u64

definition token_text :: "DecisionStep \<Rightarrow> string" where
  "token_text s = takeWhile (\<lambda>c. c \<noteq> NUL) (take 96 (step_token s))"

subsection \<open>Floats by their bits\<close>

definition float_value :: "u32 \<Rightarrow> double" where
  "float_value b =
     (let e = unat (take_bit 8 (drop_bit 23 b)); m = unat (take_bit 23 b);
          s = (if bit b 31 then - 1 else 1 :: real)
      in if e = 255 then (if m \<noteq> 0 then NaN else if bit b 31 then NegInfinity else PosInfinity)
         else if e = 0 then Finite (s * real m / 2 ^ 149)
         else Finite (s * real (2 ^ 23 + m) * 2 ^ e / 2 ^ 150))"

subsection \<open>The hash\<close>

text \<open>\<open>snprintf ("%016llx")\<close>.\<close>

definition hex_alphabet :: string where
  "hex_alphabet = ''0123456789abcdef''"

definition hex16 :: "u64 \<Rightarrow> string" where
  "hex16 h = encode hex_alphabet 16 (unat h)"

subsection \<open>What is hashed\<close>

definition step_bytes :: "DecisionStep \<Rightarrow> string" where
  "step_bytes s = token_text s @ NUL # le_bytes 4 (unat (step_score s))"

definition decision_bytes :: "string \<Rightarrow> ActionDecision \<Rightarrow> string" where
  "decision_bytes context d =
     context @ NUL # le_bytes 8 (length (plan_steps d)) @ concat (map step_bytes (plan_steps d)) @
     le_bytes 4 (unat (plan_score d)) @ le_bytes 4 (stop_code (stop_reason d))"

definition decision_digest :: "string \<Rightarrow> ActionDecision \<Rightarrow> string" where
  "decision_digest context d = hex16 (atp_ledger_digest (decision_bytes context d))"

definition like_bytes :: "string \<Rightarrow> ActionDecision \<Rightarrow> string" where
  "like_bytes subject d =
     ''like'' @ subject @ NUL # le_bytes 4 (abstain_code (abstain_reason d)) @
     le_bytes 8 (unat (raw_plan_count d)) @ le_bytes 8 (unat (viable_plan_count d))"

definition graduated_like_digest :: "string \<Rightarrow> ActionDecision \<Rightarrow> string" where
  "graduated_like_digest subject d = hex16 (atp_ledger_digest (like_bytes subject d))"

subsection \<open>Text and record key\<close>

fun plan_loop :: "DecisionStep list \<Rightarrow> string \<Rightarrow> bool \<Rightarrow> string" where
  "plan_loop [] text first = text"
| "plan_loop (s # ss) text first =
     plan_loop ss ((if first then text else text @ '' '') @ token_text s) False"

definition plan_text :: "ActionDecision \<Rightarrow> string" where
  "plan_text d = plan_loop (plan_steps d) [] True"

fun digest_bits :: "string \<Rightarrow> u64 \<Rightarrow> u64" where
  "digest_bits [] bits = bits"
| "digest_bits (c # cs) bits = digest_bits cs (push_bit 4 bits OR (of_nat (code c) AND 0xF))"

definition clockid :: "string \<Rightarrow> u64" where
  "clockid digest = digest_bits digest 0 AND 0x3F"

definition tid_value :: "int \<Rightarrow> string \<Rightarrow> u64" where
  "tid_value now digest =
     push_bit 6 ((word_of_int now * 1000000) AND 0x3FFFFFFFFFFFFF) OR clockid digest"

definition proposal_tid :: "int \<Rightarrow> string \<Rightarrow> string" where
  "proposal_tid now digest = rkey_loop 13 (tid_value now digest) []"

subsection \<open>Digests have the approvals' shape\<close>

lemma length_hex_alphabet: "length hex_alphabet = 16"
  by (simp add: hex_alphabet_def)

lemma hex16_shape: "is_control_digest_shape (hex16 h)"
proof -
  have "list_all is_lower_hex hex_alphabet"
    by (simp add: hex_alphabet_def is_lower_hex_def is_digit_def code_def)
  then have "is_lower_hex (hex_alphabet ! i)" if "i < 16" for i
    using that by (simp add: list_all_length length_hex_alphabet)
  moreover have "i < 16" if "i \<in> set (digits 16 16 (unat h))" for i
    using digits_bound that by (metis zero_less_numeral)
  ultimately show ?thesis
    by (simp add: is_control_digest_shape_def hex16_def encode_def length_hex_alphabet list_all_iff)
qed

lemma hex16_inj: "hex16 a = hex16 b \<longleftrightarrow> a = b"
proof -
  have s: "sorted_wrt (<) hex_alphabet" by (simp add: hex_alphabet_def less_char_def)
  have lt: "hex16 x < hex16 y" if "x < y" for x y
    unfolding hex16_def
  proof (rule encode_less [OF s])
    have "unat y < 2 ^ 64" using unsigned_less [of y] by simp
    then show "unat y < length hex_alphabet ^ 16" by (simp add: length_hex_alphabet)
  qed (use that in \<open>simp add: word_less_nat_alt\<close>)
  show ?thesis using lt [of a b] lt [of b a] by (metis less_irrefl not_less_iff_gr_or_eq)
qed

subsection \<open>The hashed bytes determine what they encode\<close>

lemma split_at_NUL:
  assumes "a @ NUL # x = b @ NUL # y" and "NUL \<notin> set a" and "NUL \<notin> set b"
  shows "a = b \<and> x = y"
  using assms
proof (induction a arbitrary: b)
  case Nil
  then show ?case by (cases b) auto
next
  case (Cons c a)
  then show ?case by (cases b) auto
qed

lemma le_bytes_inj:
  assumes "le_bytes n a = le_bytes n b" and "a < 256 ^ n" and "b < 256 ^ n"
  shows "a = b"
  using assms le_val_bytes_small by metis

lemma no_NUL_token: "NUL \<notin> set (token_text s)"
  by (auto simp: token_text_def dest: set_takeWhileD)

lemma u32_bytes: "unat (w :: u32) < 256 ^ 4" and u64_bytes: "unat (v :: u64) < 256 ^ 8"
  using unsigned_less [of w] unsigned_less [of v] by simp_all

lemma steps_determined:
  assumes "concat (map step_bytes ss) @ r = concat (map step_bytes ts) @ r'" and "length ss = length ts"
  shows "map (\<lambda>s. (token_text s, step_score s)) ss = map (\<lambda>s. (token_text s, step_score s)) ts \<and> r = r'"
  using assms
proof (induction ss arbitrary: ts)
  case Nil
  then show ?case by simp
next
  case (Cons s ss)
  then obtain t ts' where ts: "ts = t # ts'" by (cases ts) auto
  have "token_text s @ NUL # (le_bytes 4 (unat (step_score s)) @ concat (map step_bytes ss) @ r) =
      token_text t @ NUL # (le_bytes 4 (unat (step_score t)) @ concat (map step_bytes ts') @ r')"
    using Cons.prems(1) by (simp add: ts step_bytes_def [of s] step_bytes_def [of t])
  from split_at_NUL [OF this no_NUL_token no_NUL_token]
  have "token_text s = token_text t"
    and *: "le_bytes 4 (unat (step_score s)) = le_bytes 4 (unat (step_score t))"
    "concat (map step_bytes ss) @ r = concat (map step_bytes ts') @ r'"
    by (simp_all add: append_eq_append_conv)
  moreover have "step_score s = step_score t"
    using le_bytes_inj [OF *(1) u32_bytes u32_bytes] by (simp add: unsigned_word_eqI)
  ultimately show ?case using Cons.IH [OF *(2)] Cons.prems(2) by (simp add: ts)
qed

lemma stop_code_inj: "stop_code a = stop_code b \<longleftrightarrow> a = b"
  by (cases a; cases b) simp_all

lemma stop_code_less: "stop_code a < 256 ^ 4"
  by (cases a) simp_all

theorem decision_bytes_determine:
  assumes "decision_bytes c d = decision_bytes c' d'" and "NUL \<notin> set c" and "NUL \<notin> set c'"
    and "length (plan_steps d) < 2 ^ 64" and "length (plan_steps d') < 2 ^ 64"
  shows "c = c' \<and>
    map (\<lambda>s. (token_text s, step_score s)) (plan_steps d) = map (\<lambda>s. (token_text s, step_score s)) (plan_steps d') \<and>
    plan_score d = plan_score d' \<and> stop_reason d = stop_reason d'"
proof -
  let ?r = "\<lambda>d. le_bytes 4 (unat (plan_score d)) @ le_bytes 4 (stop_code (stop_reason d))"
  have s: "c = c'" "le_bytes 8 (length (plan_steps d)) = le_bytes 8 (length (plan_steps d'))"
    "concat (map step_bytes (plan_steps d)) @ ?r d = concat (map step_bytes (plan_steps d')) @ ?r d'"
    using split_at_NUL [OF assms(1) [unfolded decision_bytes_def] assms(2,3)]
    by (simp_all add: append_eq_append_conv)
  have n: "length (plan_steps d) = length (plan_steps d')"
    using le_bytes_inj [OF s(2)] assms(4,5) by simp
  from steps_determined [OF s(3) n] have t: "?r d = ?r d'"
    "map (\<lambda>s. (token_text s, step_score s)) (plan_steps d) = map (\<lambda>s. (token_text s, step_score s)) (plan_steps d')"
    by blast+
  have "unat (plan_score d) = unat (plan_score d')" "stop_code (stop_reason d) = stop_code (stop_reason d')"
    using t(1) le_bytes_inj [OF _ u32_bytes u32_bytes] le_bytes_inj [OF _ stop_code_less stop_code_less]
    by (simp_all add: append_eq_append_conv)
  then show ?thesis using s(1) t(2) by (simp add: stop_code_inj unsigned_word_eqI)
qed

text \<open>
  The bytes of a like never are those of a plan: after the first zero byte a like has 20 bytes,
  and a plan 16 bytes and at least 5 more for each step.
\<close>

theorem like_never_a_plan:
  assumes "NUL \<notin> set c" and "NUL \<notin> set subject"
  shows "like_bytes subject d \<noteq> decision_bytes c d'"
proof
  assume "like_bytes subject d = decision_bytes c d'"
  then have "(''like'' @ subject) @ NUL # le_bytes 4 (abstain_code (abstain_reason d)) @
      le_bytes 8 (unat (raw_plan_count d)) @ le_bytes 8 (unat (viable_plan_count d)) =
    c @ NUL # le_bytes 8 (length (plan_steps d')) @ concat (map step_bytes (plan_steps d')) @
      le_bytes 4 (unat (plan_score d')) @ le_bytes 4 (stop_code (stop_reason d'))"
    by (simp add: like_bytes_def decision_bytes_def)
  from arg_cong [OF conjunct2 [OF split_at_NUL [OF this]], of length] assms
  have l: "length (concat (map step_bytes (plan_steps d'))) = 4" by (simp add: NUL_def)
  show False
  proof (cases "plan_steps d'")
    case Nil
    then show False using l by simp
  next
    case (Cons s ss)
    then show False using l by (simp add: step_bytes_def)
  qed
qed

subsection \<open>Record keys\<close>

lemma rkey_tid: "is_tid (rkey_loop 13 v [])"
proof -
  have "tid_alphabet ! i \<in> set ''234567abcdefghijklmnopqrstuvwxyz''" if "i < 32" for i
    using that nth_mem [of i tid_alphabet] unfolding length_tid_alphabet by (simp only: tid_alphabet_def)
  then show ?thesis
    using digits_bound [of 32 _ 13 "unat v"]
    by (auto simp: is_tid_def rkey_loop_encode encode_def list_all_iff length_tid_alphabet)
qed

lemma proposal_tid_is_tid: "is_tid (proposal_tid now digest)"
  by (simp add: proposal_tid_def rkey_tid)

lemma proposal_tid_eq: "proposal_tid now d = proposal_tid now' d' \<longleftrightarrow> tid_value now d = tid_value now' d'"
  using request_key.key_inj [of "tid_value now d" "tid_value now' d'"]
  by (simp add: proposal_tid_def control_request_rkey_def)

lemma clockid_take: "clockid d = take_bit 6 (digest_bits d 0)"
  by (simp add: clockid_def take_bit_eq_mask mask_numeral)

lemma clockid_less: "unat (clockid d) < 64"
  using take_bit_nat_less_exp [of 6 "unat (digest_bits d 0)"] by (simp add: clockid_take unsigned_take_bit_eq)

lemma shift_and_fill:
  assumes "unat (m :: u64) < 2 ^ 54"
  shows "unat (push_bit 6 (m AND 0x3FFFFFFFFFFFFF) OR clockid d) = unat m * 64 + unat (clockid d)"
proof -
  have "m AND 0x3FFFFFFFFFFFFF = take_bit 54 m" by (simp add: take_bit_eq_mask mask_numeral)
  also have "\<dots> = m"
    using assms by (simp add: word_unat_eq_iff unsigned_take_bit_eq take_bit_nat_eq_self)
  finally have m: "m AND 0x3FFFFFFFFFFFFF = m" .
  have p: "unat (push_bit 6 m) = unat m * 64"
    using assms by (simp only: unsigned_push_bit_eq) (simp add: push_bit_eq_mult take_bit_nat_eq_self)
  have "push_bit 6 m AND clockid d = 0"
    by (rule bit_word_eqI) (auto simp: clockid_take bit_push_bit_iff bit_take_bit_iff bit_and_iff)
  then have "push_bit 6 m OR clockid d = push_bit 6 m + clockid d" by (simp add: disjunctive_add_eq_or)
  moreover have "unat (push_bit 6 m) + unat (clockid d) < 2 ^ 64" using p clockid_less [of d] assms by simp
  ultimately show ?thesis using p by (simp add: m unat_add_lem [THEN iffD1])
qed

lemma tid_value_nat:
  assumes "0 \<le> now" and "now * 1000000 < 2 ^ 54"
  shows "unat (tid_value now d) = nat now * 1000000 * 64 + unat (clockid d)"
proof -
  have w: "uint (word_of_int k :: u64) = k" if "0 \<le> k" "k < 2 ^ 54" for k
    using that by (simp add: uint_word_of_int)
  have "uint (word_of_int now * 1000000 :: u64) = now * 1000000"
    using w [of "now * 1000000"] assms by simp
  then have um: "unat (word_of_int now * 1000000 :: u64) = nat now * 1000000"
    using assms(1) by (simp flip: nat_uint_eq add: nat_mult_distrib)
  moreover have "nat now * 1000000 < 2 ^ 54" using assms by (simp add: nat_less_iff)
  ultimately show ?thesis using shift_and_fill [of "word_of_int now * 1000000" d] by (simp only: tid_value_def)
qed

text \<open>
  Keys made at different seconds sort as the seconds do; two made in the same second are equal
  exactly when the last six bits taken from the digests are.
\<close>

theorem proposal_tid_order:
  assumes "0 \<le> now" and "now \<le> now'" and "now' * 1000000 < 2 ^ 54"
  shows "now < now' \<Longrightarrow> proposal_tid now d < proposal_tid now' d'"
    and "proposal_tid now d = proposal_tid now' d' \<longleftrightarrow> now = now' \<and> clockid d = clockid d'"
proof -
  have v: "unat (tid_value now d) = nat now * 1000000 * 64 + unat (clockid d)"
    "unat (tid_value now' d') = nat now' * 1000000 * 64 + unat (clockid d')"
    by (rule tid_value_nat; use assms in linarith)+
  show "proposal_tid now d < proposal_tid now' d'" if "now < now'"
  proof -
    have "nat now + 1 \<le> nat now'" using that assms(1) by linarith
    then have "tid_value now d < tid_value now' d'"
      using v clockid_less [of d] by (simp add: word_less_nat_alt)
    then show ?thesis
      using rkey_mono by (simp add: proposal_tid_def control_request_rkey_def)
  qed
  show "proposal_tid now d = proposal_tid now' d' \<longleftrightarrow> now = now' \<and> clockid d = clockid d'"
  proof (cases "now = now'")
    case True
    then show ?thesis using v by (auto simp: proposal_tid_eq word_unat_eq_iff)
  next
    case False
    then have "nat now + 1 \<le> nat now'" using assms(1,2) by linarith
    then show ?thesis using False v clockid_less [of d] by (auto simp: proposal_tid_eq word_unat_eq_iff)
  qed
qed

lemma same_second_collision:
  "proposal_tid now (s @ ''1'') = proposal_tid now (s @ ''a'')"
proof -
  have "digest_bits (u @ [c]) b = push_bit 4 (digest_bits u b) OR (of_nat (code c) AND 0xF)" for u c b
    by (induction u arbitrary: b) simp_all
  then show ?thesis by (simp add: proposal_tid_def tid_value_def clockid_def code_def)
qed

end
