(* ===== verification/Drives.thy ===== *)
theory Drives
  imports Intent Float32 Rfc3339 Core_Format "HOL-Library.Product_Lexorder"
begin

text \<open>
  Experience-derived drives (src/src/app/scheduler/drives.cpp): which recent observations the
  scheduler decides on first.  The graph, the ledger and the tokenizer are the C core's: the
  graph answers are arguments (\<open>graph_view\<close>), with familiarities finite floats.  Arithmetic on
  \<open>float\<close> rounds with \<open>float32\<close> after each operation.
\<close>

record ContextCandidate =
  ledger_id :: u64
  cand_payload :: string
  cand_source_id :: string
  cand_author_did :: string
  cand_observed_at :: u64

record Signals =
  curiosity :: real
  reciprocity :: real
  sig_intent :: real
  reciprocity_source :: string

record graph_view =
  episode_authors :: "string list"
  has_token :: "string \<Rightarrow> bool"
  familiarity :: "string \<Rightarrow> real"
  tokenize :: "string \<Rightarrow> string list"

definition kReciprocityWindowSeconds :: int where
  "kReciprocityWindowSeconds = 7 * 24 * 3600"

subsection \<open>Candidates\<close>

text \<open>The reverse loop over the ledger's entries, newest first, until the limit is reached.\<close>

fun candidate_loop :: "(u64 \<Rightarrow> string) \<Rightarrow> LedgerEntry list \<Rightarrow> nat \<Rightarrow> ContextCandidate list" where
  "candidate_loop payload [] n = []"
| "candidate_loop payload (e # es) 0 = []"
| "candidate_loop payload (e # es) (Suc n) =
     (if led_outcome e = Ledger_Pending \<or> led_outcome e = Ledger_Withdrawn then
        candidate_loop payload es (Suc n)
      else if payload (led_id e) = [] then candidate_loop payload es (Suc n)
      else \<lparr>ledger_id = led_id e, cand_payload = payload (led_id e), cand_source_id = led_source_id e,
            cand_author_did = led_author_did e, cand_observed_at = led_observed_at e\<rparr> #
           candidate_loop payload es n)"

definition select_candidates :: "LedgerEntry list \<Rightarrow> (u64 \<Rightarrow> string) \<Rightarrow> nat \<Rightarrow> ContextCandidate list" where
  "select_candidates es payload max_contexts = candidate_loop payload (rev es) max_contexts"

subsection \<open>Curiosity\<close>

definition author_encounters :: "graph_view \<Rightarrow> string \<Rightarrow> nat" where
  "author_encounters g did =
     (if did = [] then 0 else length (filter (\<lambda>a. a = did) (episode_authors g)))"

definition author_curiosity :: "graph_view \<Rightarrow> string \<Rightarrow> real" where
  "author_curiosity g did =
     (let encounters = author_encounters g did in
      if encounters = 0 then 0 else float32 (1 / float32 (real (1 + encounters))))"

record TopicCollector =
  familiarity_sum :: real
  topic_total :: nat
  known :: nat

definition emit_token :: "graph_view \<Rightarrow> string \<Rightarrow> TopicCollector \<Rightarrow> TopicCollector" where
  "emit_token g token c =
     (let c1 = c\<lparr>topic_total := Suc (topic_total c)\<rparr> in
      if has_token g token
      then c1\<lparr>known := Suc (known c1), familiarity_sum := float32 (familiarity_sum c1 + familiarity g token)\<rparr>
      else c1)"

definition topic_curiosity :: "graph_view \<Rightarrow> string \<Rightarrow> real" where
  "topic_curiosity g text =
     (if text = [] then 0
      else let c = fold (emit_token g) (tokenize g text) \<lparr>familiarity_sum = 0, topic_total = 0, known = 0\<rparr> in
        if topic_total c = 0 \<or> known c = 0 then 0
        else let mean = float32 (familiarity_sum c / float32 (real (known c)));
                 novelty = float32 (1 / float32 (1 + mean));
                 adjacency = float32 (float32 (real (known c)) / float32 (real (topic_total c)))
             in max 0 (min 1 (float32 (novelty * adjacency))))"

subsection \<open>Reciprocity\<close>

fun reciprocity_loop ::
  "string \<Rightarrow> string \<Rightarrow> int \<Rightarrow> JournalEvent list \<Rightarrow> real \<times> string \<Rightarrow> real \<times> string" where
  "reciprocity_loop source_id author now [] r = r"
| "reciprocity_loop source_id author now (ev # evs) r =
     (if source_id = event_uri ev then (1, ''event'')
      else if snd r = ''none'' \<and> author \<noteq> [] \<and> je_author_did ev = author then
        let t = (case parse_rfc3339_epoch (je_at ev) of None \<Rightarrow> 0 | Some t \<Rightarrow> int t) in
        reciprocity_loop source_id author now evs
          (if now - kReciprocityWindowSeconds \<le> t \<and> t \<le> now + 60 then (1 / 2, ''author'') else r)
      else reciprocity_loop source_id author now evs r)"

definition drive_signals :: "graph_view \<Rightarrow> JournalContents \<Rightarrow> int \<Rightarrow> ContextCandidate \<Rightarrow> Signals" where
  "drive_signals g journal now c =
     (let r = reciprocity_loop (cand_source_id c) (cand_author_did c) now (jc_events journal) (0, ''none'') in
      \<lparr>curiosity = max 0 (min 1 (max (author_curiosity g (cand_author_did c)) (topic_curiosity g (cand_payload c)))),
       reciprocity = fst r,
       sig_intent =
         (if continuation_intent (jc_events journal) (jc_intents journal) (cand_source_id c)
               (cand_author_did c) now \<noteq> None then 1 else 0),
       reciprocity_source = snd r\<rparr>)"

definition compute_drive_signals ::
  "graph_view \<Rightarrow> ContextCandidate list \<Rightarrow> JournalContents \<Rightarrow> int \<Rightarrow> Signals list" where
  "compute_drive_signals g candidates journal now = map (drive_signals g journal now) candidates"

subsection \<open>The order\<close>

text \<open>The comparison passed to \<open>std::stable_sort\<close>, and the sort by the key it compares.\<close>

definition drives_before :: "Signals \<Rightarrow> Signals \<Rightarrow> bool" where
  "drives_before a b \<longleftrightarrow>
     (if sig_intent a \<noteq> sig_intent b then sig_intent b < sig_intent a
      else if reciprocity a \<noteq> reciprocity b then reciprocity b < reciprocity a
      else if curiosity a \<noteq> curiosity b then curiosity b < curiosity a
      else False)"

definition drive_key :: "Signals \<Rightarrow> real \<times> real \<times> real" where
  "drive_key s = (- sig_intent s, - reciprocity s, - curiosity s)"

definition order_candidates :: "Signals list \<Rightarrow> nat list" where
  "order_candidates signals = sort_key (\<lambda>i. drive_key (signals ! i)) [0..<length signals]"

lemma drives_before_key: "drives_before a b \<longleftrightarrow> drive_key a < drive_key b"
  by (auto simp: drives_before_def drive_key_def)

text \<open>A stable sort of an ascending list is ascending among equals.\<close>

lemma sort_key_stable_order:
  "sorted_wrt (\<lambda>a b. f a < f b \<or> (f a = f b \<and> a < b)) (sort_key f [0..<n])"
proof (unfold sorted_wrt_iff_nth_less, intro allI impI)
  let ?ys = "sort_key f [0..<n]"
  fix i j assume ij: "i < j" "j < length ?ys"
  have d: "distinct ?ys" by simp
  have le: "f (?ys ! i) \<le> f (?ys ! j)"
    using sorted_nth_mono [OF sorted_sort_key [of f "[0..<n]"], of i j] ij by simp
  show "f (?ys ! i) < f (?ys ! j) \<or> (f (?ys ! i) = f (?ys ! j) \<and> ?ys ! i < ?ys ! j)"
  proof (cases "f (?ys ! i) = f (?ys ! j)")
    case False
    then show ?thesis using le by simp
  next
    case True
    let ?P = "\<lambda>y. f y = f (?ys ! j)"
    have s: "sorted_wrt (<) (filter ?P ?ys)"
      by (simp only: sort_key_stable) (simp add: sorted_wrt_filter)
    have "?ys = take i ?ys @ ?ys ! i # drop (Suc i) ?ys" using ij by (simp add: id_take_nth_drop)
    then have "filter ?P ?ys = filter ?P (take i ?ys) @ ?ys ! i # filter ?P (drop (Suc i) ?ys)"
      using True by (metis (mono_tags, lifting) filter.simps(2) filter_append)
    moreover have "?ys ! j \<in> set (filter ?P (drop (Suc i) ?ys))"
      using ij by (auto simp: in_set_conv_nth intro!: exI [of _ "j - Suc i"])
    ultimately have "?ys ! i < ?ys ! j" using s by (simp add: sorted_wrt_append)
    then show ?thesis using True by simp
  qed
qed

theorem order_candidates_sorted:
  "sorted_wrt (\<lambda>a b. drives_before (ss ! a) (ss ! b) \<or> (\<not> drives_before (ss ! b) (ss ! a) \<and> a < b)) (order_candidates ss)"
proof (rule sorted_wrt_mono_rel [OF _ sort_key_stable_order [of "\<lambda>i. drive_key (ss ! i)" "length ss", folded order_candidates_def]])
qed (auto simp: drives_before_key)

lemma order_candidates_perm: "mset (order_candidates ss) = mset [0..<length ss]"
  by (simp add: order_candidates_def)

subsection \<open>Bounds of the signals\<close>

lemma reciprocity_range:
  "fst r \<in> {0, 1 / 2, 1} \<Longrightarrow> fst (reciprocity_loop s a now evs r) \<in> {0, 1 / 2, 1}"
  by (induction s a now evs r rule: reciprocity_loop.induct) (auto simp: Let_def)

lemma signals_bounded:
  "curiosity (drive_signals g journal now c) \<in> {0..1}"
  "reciprocity (drive_signals g journal now c) \<in> {0, 1 / 2, 1}"
  "sig_intent (drive_signals g journal now c) \<in> {0, 1}"
  using reciprocity_range [of "(0, ''none'')" "cand_source_id c" "cand_author_did c" now "jc_events journal"]
  by (auto simp: drive_signals_def Let_def)

text \<open>A fresh entity initiates nothing: no episodes, no known token, an empty journal.\<close>

lemma fresh_collector:
  "\<forall>t. \<not> has_token g t \<Longrightarrow> known (fold (emit_token g) ts c) = known c"
  by (induction ts arbitrary: c) (simp_all add: emit_token_def Let_def)

lemma fresh_entity_is_inert:
  assumes "episode_authors g = []" and "\<forall>t. \<not> has_token g t"
  shows "drive_signals g empty_journal now c =
    \<lparr>curiosity = 0, reciprocity = 0, sig_intent = 0, reciprocity_source = ''none''\<rparr>"
  using assms fresh_collector [OF assms(2)]
  by (simp add: drive_signals_def author_curiosity_def author_encounters_def topic_curiosity_def empty_journal_def
      continuation_intent_def active_intents_def latest_intents_def Let_def)

subsection \<open>Which observations are candidates\<close>

lemma candidate_loop_take:
  "candidate_loop payload es n =
     take n (map (\<lambda>e. \<lparr>ledger_id = led_id e, cand_payload = payload (led_id e), cand_source_id = led_source_id e,
            cand_author_did = led_author_did e, cand_observed_at = led_observed_at e\<rparr>)
       (filter (\<lambda>e. led_outcome e \<noteq> Ledger_Pending \<and> led_outcome e \<noteq> Ledger_Withdrawn \<and> payload (led_id e) \<noteq> []) es))"
proof (induction payload es n rule: candidate_loop.induct)
  case (3 payload e es n)
  then show ?case by (cases "led_outcome e") auto
qed simp_all

end
