(* ===== verification/Resolve.thy ===== *)
theory Resolve
  imports Intent_Facts Rfc3339
begin

text \<open>
  Expectation resolution (src/src/app/journal/resolve.cpp): what became of the prediction an
  executed action was recorded with.  The state is a function of the journal and the clock; the
  pass journals the final states, once each.  \<open>fail_at = Some k\<close> makes the k-th append throw.
\<close>

definition kExpectationWindowSeconds :: nat where
  "kExpectationWindowSeconds = 7 * 24 * 3600"

definition epoch_or_zero :: "string \<Rightarrow> nat" where
  "epoch_or_zero s = (case parse_rfc3339_epoch s of None \<Rightarrow> 0 | Some t \<Rightarrow> t)"

definition on_time :: "nat \<Rightarrow> JournalEvent \<Rightarrow> bool" where
  "on_time t ev \<longleftrightarrow>
     t < epoch_or_zero (je_at ev) \<and> epoch_or_zero (je_at ev) - t \<le> kExpectationWindowSeconds"

text \<open>The event loop: \<open>Some True\<close> when an event was on time, else whether there was one.\<close>

fun contact :: "string \<Rightarrow> nat \<Rightarrow> JournalEvent list \<Rightarrow> bool \<Rightarrow> JournalExpectationState option" where
  "contact i t [] any_contact = (if any_contact then Some State_Unmet else None)"
| "contact i t (ev # evs) any_contact =
     (if je_action_id ev \<noteq> i then contact i t evs any_contact
      else if on_time t ev then Some State_Met
      else contact i t evs True)"

definition derive_expectation_state ::
  "JournalAction \<Rightarrow> JournalEvent list \<Rightarrow> int \<Rightarrow> JournalIntent list \<Rightarrow> JournalExpectationState" where
  "derive_expectation_state a evs now intents =
     (let t = epoch_or_zero (ja_at a) in
      if ja_expectation a = None \<or> ja_outcome a \<noteq> J_Executed then State_None
      else if t = 0 then State_None
      else case contact (ja_id a) t evs False of
        Some st \<Rightarrow> st
      | None \<Rightarrow>
          if list_ex (\<lambda>i. derive_intent_state i now = Intent_Expired \<and> ja_id a \<in> set (ji_actions i)) intents
          then State_Unmet
          else if int t + int kExpectationWindowSeconds < now then State_Expired
          else State_Pending)"

record ResolutionReport =
  res_evaluated :: nat
  res_pending :: nat
  met_written :: nat
  unmet_written :: nat
  expired_written :: nat
  state_changed :: nat
  skipped_already :: nat

definition empty_resolution_report :: ResolutionReport where
  "empty_resolution_report =
     \<lparr>res_evaluated = 0, res_pending = 0, met_written = 0, unmet_written = 0, expired_written = 0,
      state_changed = 0, skipped_already = 0\<rparr>"

definition count_written :: "JournalExpectationState \<Rightarrow> ResolutionReport \<Rightarrow> ResolutionReport" where
  "count_written st r =
     (case st of
        State_Met \<Rightarrow> r\<lparr>met_written := Suc (met_written r)\<rparr>
      | State_Unmet \<Rightarrow> r\<lparr>unmet_written := Suc (unmet_written r)\<rparr>
      | State_Expired \<Rightarrow> r\<lparr>expired_written := Suc (expired_written r)\<rparr>
      | _ \<Rightarrow> r)"

definition resolution_of :: "JournalAction \<Rightarrow> JournalExpectationState \<Rightarrow> int \<Rightarrow> string \<Rightarrow> JournalResolution" where
  "resolution_of a st now stamp =
     \<lparr>jr_action_id = ja_id a, jr_state = st, jr_at_epoch = epoch_of now, jr_at = stamp\<rparr>"

fun resolve_loop ::
  "nat option \<Rightarrow> int \<Rightarrow> string \<Rightarrow> JournalContents \<Rightarrow> JournalAction list \<Rightarrow> ResolutionReport \<Rightarrow>
   JournalResolution list \<Rightarrow> ResolutionReport result \<times> JournalResolution list" where
  "resolve_loop fail_at now stamp journal [] rep written = (Inr rep, written)"
| "resolve_loop fail_at now stamp journal (a # as) rep written =
     (let st = derive_expectation_state a (jc_events journal) now (jc_intents journal);
          rep1 = rep\<lparr>res_evaluated := Suc (res_evaluated rep)\<rparr>;
          prior = filter (\<lambda>r. jr_action_id r = ja_id a) (jc_resolutions journal)
      in if st = State_None then resolve_loop fail_at now stamp journal as rep written
      else if st = State_Pending then
        resolve_loop fail_at now stamp journal as (rep1\<lparr>res_pending := Suc (res_pending rep1)\<rparr>) written
      else if list_ex (\<lambda>r. jr_state r = st) prior then
        resolve_loop fail_at now stamp journal as (rep1\<lparr>skipped_already := Suc (skipped_already rep1)\<rparr>) written
      else if fail_at = Some (length written) then
        (throw Runtime_error ''cannot append action journal'', written)
      else
        let rep2 = count_written st rep1;
            rep3 = (if list_ex (\<lambda>r. jr_state r \<noteq> st) prior
                    then rep2\<lparr>state_changed := Suc (state_changed rep2)\<rparr> else rep2)
        in resolve_loop fail_at now stamp journal as rep3 (written @ [resolution_of a st now stamp]))"

definition resolve_expectations ::
  "nat option \<Rightarrow> int \<Rightarrow> string \<Rightarrow> JournalContents \<Rightarrow> ResolutionReport result \<times> JournalResolution list" where
  "resolve_expectations fail_at now stamp journal =
     (case resolve_loop fail_at now stamp journal (jc_actions journal) empty_resolution_report [] of
        (r, written) \<Rightarrow> (r, jc_resolutions journal @ written))"

subsection \<open>The derived state\<close>

lemma contact_Met: "contact i t evs b = Some State_Met \<longleftrightarrow> list_ex (\<lambda>ev. je_action_id ev = i \<and> on_time t ev) evs"
  by (induction i t evs b rule: contact.induct) simp_all

lemma contact_None: "contact i t evs b = None \<longleftrightarrow> \<not> b \<and> list_all (\<lambda>ev. je_action_id ev \<noteq> i) evs"
  by (induction i t evs b rule: contact.induct) simp_all

lemma contact_range: "contact i t evs b \<in> {None, Some State_Met, Some State_Unmet}"
  by (induction i t evs b rule: contact.induct) simp_all

text \<open>Met is decided by the events alone, whatever the clock says; it is never lost.\<close>

lemma met_iff:
  "derive_expectation_state a evs now intents = State_Met \<longleftrightarrow>
     ja_expectation a \<noteq> None \<and> ja_outcome a = J_Executed \<and> epoch_or_zero (ja_at a) \<noteq> 0 \<and>
     list_ex (\<lambda>ev. je_action_id ev = ja_id a \<and> on_time (epoch_or_zero (ja_at a)) ev) evs"
proof -
  let ?t = "epoch_or_zero (ja_at a)"
  note M = contact_Met [of "ja_id a" ?t evs False]
  consider "contact (ja_id a) ?t evs False = None" | "contact (ja_id a) ?t evs False = Some State_Met"
    | "contact (ja_id a) ?t evs False = Some State_Unmet"
    using contact_range [of "ja_id a" ?t evs False] by (elim insertE) simp_all
  then show ?thesis
    by cases (use M in \<open>simp_all add: derive_expectation_state_def Let_def\<close>)
qed

lemma met_stays:
  assumes "derive_expectation_state a evs now intents = State_Met" and "set evs \<subseteq> set evs'"
  shows "derive_expectation_state a evs' now' intents' = State_Met"
  using assms by (auto simp: met_iff list_ex_iff)

text \<open>With no event that names the action, the outcome is the intents', then the clock's.\<close>

lemma silent_state:
  assumes "ja_expectation a \<noteq> None" "ja_outcome a = J_Executed" "epoch_or_zero (ja_at a) \<noteq> 0"
    and "list_all (\<lambda>ev. je_action_id ev \<noteq> ja_id a) evs"
  shows "derive_expectation_state a evs now intents =
    (if list_ex (\<lambda>i. derive_intent_state i now = Intent_Expired \<and> ja_id a \<in> set (ji_actions i)) intents
     then State_Unmet
     else if int (epoch_or_zero (ja_at a)) + int kExpectationWindowSeconds < now then State_Expired
     else State_Pending)"
  using assms contact_None [of "ja_id a" "epoch_or_zero (ja_at a)" evs False]
  by (cases "ja_expectation a") (simp_all add: derive_expectation_state_def Let_def)

subsection \<open>The pass\<close>

definition final_state :: "JournalExpectationState \<Rightarrow> bool" where
  "final_state st \<longleftrightarrow> st = State_Met \<or> st = State_Unmet \<or> st = State_Expired"

definition unrecorded :: "int \<Rightarrow> JournalContents \<Rightarrow> JournalAction \<Rightarrow> bool" where
  "unrecorded now journal a \<longleftrightarrow>
     (let st = derive_expectation_state a (jc_events journal) now (jc_intents journal) in
      final_state st \<and> \<not> list_ex (\<lambda>r. jr_action_id r = ja_id a \<and> jr_state r = st) (jc_resolutions journal))"

definition resolutions_due :: "int \<Rightarrow> string \<Rightarrow> JournalContents \<Rightarrow> JournalAction list \<Rightarrow> JournalResolution list" where
  "resolutions_due now stamp journal as =
     map (\<lambda>a. resolution_of a (derive_expectation_state a (jc_events journal) now (jc_intents journal)) now stamp)
       (filter (unrecorded now journal) as)"

lemma final_cases: "st \<noteq> State_None \<Longrightarrow> st \<noteq> State_Pending \<Longrightarrow> final_state st"
  by (cases st) (simp_all add: final_state_def)

lemma due_Cons:
  "resolutions_due now stamp journal (a # as) =
     (if unrecorded now journal a
      then resolution_of a (derive_expectation_state a (jc_events journal) now (jc_intents journal)) now stamp #
        resolutions_due now stamp journal as
      else resolutions_due now stamp journal as)"
  by (simp add: resolutions_due_def)

lemma prior_same:
  "list_ex (\<lambda>r. jr_state r = st) (filter (\<lambda>r. jr_action_id r = i) rs) =
   list_ex (\<lambda>r. jr_action_id r = i \<and> jr_state r = st) rs"
  by (induction rs) auto

text \<open>A pass that returns has appended exactly the final states that were not recorded.\<close>

lemma resolve_loop_written:
  "resolve_loop fail_at now stamp journal as rep written = (r, written') \<Longrightarrow>
     (\<exists>k. written' = written @ take k (resolutions_due now stamp journal as)) \<and>
     (\<forall>rep'. r = Inr rep' \<longrightarrow> written' = written @ resolutions_due now stamp journal as)"
proof (induction as arbitrary: rep written)
  case Nil
  then show ?case by (simp add: resolutions_due_def)
next
  case (Cons a as)
  let ?st = "derive_expectation_state a (jc_events journal) now (jc_intents journal)"
  show ?case
  proof (cases "unrecorded now journal a")
    case False
    then obtain rep' where "resolve_loop fail_at now stamp journal as rep' written = (r, written')"
      using Cons.prems final_cases [of ?st]
      by (auto simp: Let_def unrecorded_def prior_same split: if_splits)
    from Cons.IH [OF this] show ?thesis using False by (simp add: due_Cons)
  next
    case True
    show ?thesis
    proof (cases "fail_at = Some (length written)")
      case fail: True
      then have "written' = written" "\<And>rep'. r \<noteq> Inr rep'"
        using Cons.prems True by (auto simp: Let_def unrecorded_def prior_same final_state_def throw_def)
      then show ?thesis by (auto intro: exI [of _ 0])
    next
      case False
      let ?w = "written @ [resolution_of a ?st now stamp]"
      obtain rep' where "resolve_loop fail_at now stamp journal as rep' ?w = (r, written')"
        using Cons.prems True False by (auto simp: Let_def unrecorded_def prior_same final_state_def)
      note IH = Cons.IH [OF this]
      then obtain k where "written' = ?w @ take k (resolutions_due now stamp journal as)" by blast
      then show ?thesis using IH True
        by (auto simp: due_Cons intro!: exI [of _ "Suc k"])
    qed
  qed
qed

theorem resolve_written:
  assumes "resolve_expectations fail_at now stamp journal = (r, rs)"
  shows "\<exists>k. rs = jc_resolutions journal @ take k (resolutions_due now stamp journal (jc_actions journal))"
    and "r = Inr rep \<Longrightarrow> rs = jc_resolutions journal @ resolutions_due now stamp journal (jc_actions journal)"
  using resolve_loop_written
    [of fail_at now stamp journal "jc_actions journal" empty_resolution_report "[]"] assms
  by (fastforce simp: resolve_expectations_def split: prod.splits)+

text \<open>Every action with a final state has it recorded; a second pass appends nothing.\<close>

lemma resolve_complete:
  assumes "resolve_expectations fail_at now stamp journal = (Inr rep, rs)"
  shows "resolutions_due now stamp' (journal\<lparr>jc_resolutions := rs\<rparr>) (jc_actions journal) = []"
proof -
  have rs: "rs = jc_resolutions journal @ resolutions_due now stamp journal (jc_actions journal)"
    using resolve_written(2) [OF assms] by simp
  have "\<not> unrecorded now (journal\<lparr>jc_resolutions := rs\<rparr>) a" if a: "a \<in> set (jc_actions journal)" for a
  proof (cases "unrecorded now journal a")
    case True
    let ?st = "derive_expectation_state a (jc_events journal) now (jc_intents journal)"
    have "resolution_of a ?st now stamp \<in> set rs"
      using True a by (auto simp: rs resolutions_due_def)
    then show ?thesis
      by (simp add: unrecorded_def Let_def list_ex_iff) (force simp: resolution_of_def)
  next
    case False
    then show ?thesis by (auto simp: rs unrecorded_def Let_def)
  qed
  then show ?thesis by (simp add: resolutions_due_def filter_empty_conv)
qed

end
