(* ===== verification/Scheduler_Cycle.thy ===== *)
theory Scheduler_Cycle
  imports Scheduler_Config Decision Drives Resolve Attempt Records
begin

text \<open>
  \<open>run_scheduler_cycle\<close> of src/src/app/scheduler/cycle.cpp: spool drain, intent sweep,
  expectation resolution, proposals, execution, in this order.  The journal enters as its entries
  (its file format is the matter of \<open>Journal_Parse\<close>); the proposals and quarantine directories
  are maps from file names to contents.  What the C core and the operating system answer is in
  \<open>cycle_env\<close>.
\<close>

record 'w cycle_world =
  cw :: "'w attempt_world"
  cw_events :: "JournalEvent list"
  cw_intents :: "JournalIntent list"
  cw_resolutions :: "JournalResolution list"
  proposals :: dir
  quarantined :: dir

record ('j, 'w) cycle_env =
  ce_attempt :: "('j, 'w) attempt_env"
  ce_now :: int
  ce_clock :: "(nat \<Rightarrow> int) option"
  ce_graph :: graph_view
  ce_decide :: "string \<Rightarrow> ActionDecision result"
  ce_ledger :: "LedgerEntry list"
  ce_payload :: "u64 \<Rightarrow> string"
  ce_getenv :: "string \<Rightarrow> string option"
  ce_data_dir :: string
  ce_sweep_fail :: "nat option"
  ce_resolve_fail :: "nat option"
  ce_intent_ok :: bool
  ce_proposal_io :: io
  ce_breaker_io :: io
  ce_lock_ok :: bool
  ce_remove_ok :: bool
  ce_quarantine_ok :: bool

definition cycle_journal :: "'w cycle_world \<Rightarrow> JournalContents" where
  "cycle_journal W =
     empty_journal\<lparr>jc_actions := aw_journal (cw W), jc_events := cw_events W,
                   jc_resolutions := cw_resolutions W, jc_intents := cw_intents W\<rparr>"

text \<open>The scheduler attempts with the default options: no attestation, no integrity code.\<close>

definition cycle_attempt :: "('j, 'w) cycle_env \<Rightarrow> ('j, 'w) attempt_env" where
  "cycle_attempt E = (ce_attempt E)\<lparr>at_attest := None, at_mac := (\<lambda>_. None), at_external_ok := True\<rparr>"

definition cycle_stamp :: "('j, 'w) cycle_env \<Rightarrow> string" where
  "cycle_stamp E = at_rfc3339 (ce_attempt E) (ce_now E)"

subsection \<open>The passes before any decision\<close>

definition drain_step ::
  "('j, 'w) cycle_env \<Rightarrow> SchedulerCycleReport \<Rightarrow> 'w cycle_world \<Rightarrow> SchedulerCycleReport result \<times> 'w cycle_world" where
  "drain_step E rep W =
     (let A = ce_attempt E in
      if \<not> at_has_spool A then (Inr rep, W)
      else case load_control_state (at_json A) (at_control_file A) (aw_files (cw W)) of
        Inl x \<Rightarrow> (Inl x, W)
      | Inr control \<Rightarrow>
          if offline_mode control then (Inr rep, W)
          else (case spool_drain A (ce_now E) (cw W) of
            (Inl x, w) \<Rightarrow> (Inl x, W\<lparr>cw := w\<rparr>)
          | (Inr d, w) \<Rightarrow>
              (Inr (rep\<lparr>rp_spool_published := dr_published d, rp_spool_denied := dr_denied d,
                        rp_spool_deferred := dr_deferred d + dr_failed d\<rparr>), W\<lparr>cw := w\<rparr>)))"

definition sweep_step ::
  "('j, 'w) cycle_env \<Rightarrow> SchedulerConfig \<Rightarrow> SchedulerCycleReport \<Rightarrow> 'w cycle_world \<Rightarrow>
   SchedulerCycleReport result \<times> 'w cycle_world" where
  "sweep_step E cfg rep W =
     (if \<not> int_enabled (sched_intents cfg) then (Inr rep, W)
      else case sweep_intents (ce_sweep_fail E) (ce_now E) (cycle_stamp E) (cw_intents W) of
        (Inl x, is) \<Rightarrow> (Inl x, W\<lparr>cw_intents := is\<rparr>)
      | (Inr s, is) \<Rightarrow>
          (Inr (rep\<lparr>rp_intents_evaluated := sw_evaluated s, rp_intents_expired := sw_expired_written s,
                    rp_intents_closed := sw_closed_written s\<rparr>), W\<lparr>cw_intents := is\<rparr>))"

definition resolve_step ::
  "('j, 'w) cycle_env \<Rightarrow> SchedulerCycleReport \<Rightarrow> 'w cycle_world \<Rightarrow> SchedulerCycleReport result \<times> 'w cycle_world" where
  "resolve_step E rep W =
     (case resolve_expectations (ce_resolve_fail E) (ce_now E) (cycle_stamp E) (cycle_journal W) of
        (Inl x, rs) \<Rightarrow> (Inl x, W\<lparr>cw_resolutions := rs\<rparr>)
      | (Inr r, rs) \<Rightarrow>
          (Inr (rep\<lparr>rp_expectations_evaluated := res_evaluated r, rp_expectations_pending := res_pending r,
                    rp_resolutions_written :=
                      met_written r + unmet_written r + expired_written r + state_changed r\<rparr>),
           W\<lparr>cw_resolutions := rs\<rparr>))"

definition candidate_order ::
  "('j, 'w) cycle_env \<Rightarrow> SchedulerConfig \<Rightarrow> ContextCandidate list \<Rightarrow> JournalContents \<Rightarrow> nat list" where
  "candidate_order E cfg candidates journal =
     (if drives_enabled cfg
      then order_candidates (compute_drive_signals (ce_graph E) candidates journal (ce_now E))
      else [0..<length candidates])"

subsection \<open>What the proposals are checked against\<close>

definition override_path :: "('j, 'w) cycle_env \<Rightarrow> string \<Rightarrow> string \<Rightarrow> string" where
  "override_path E var name =
     (case ce_getenv E var of
        None \<Rightarrow> ce_data_dir E @ ''/'' @ name
      | Some p \<Rightarrow> if p = [] then ce_data_dir E @ ''/'' @ name else p)"

definition cycle_text_guard ::
  "('j, 'w) cycle_env \<Rightarrow> SchedulerConfig \<Rightarrow> 'w cycle_world \<Rightarrow> TextGuardConfig result" where
  "cycle_text_guard E cfg W =
     and_then (load_denylist (override_path E ''ATPERSON_OUTPUT_DENYLIST'' ''output-denylist.txt'') (aw_files (cw W)))
       (\<lambda>terms. Inr ((text_guard cfg)\<lparr>denied_terms := terms\<rparr>))"

definition cycle_do_not_engage :: "('j, 'w) cycle_env \<Rightarrow> 'w cycle_world \<Rightarrow> DoNotEngage result" where
  "cycle_do_not_engage E W =
     load_do_not_engage (override_path E ''ATPERSON_DO_NOT_ENGAGE'' ''do-not-engage.txt'') (aw_files (cw W))"

definition executed_texts :: "JournalAction list \<Rightarrow> RecentText list" where
  "executed_texts as =
     map (\<lambda>a. \<lparr>recent_text = ja_text a, at_epoch = int (epoch_or_zero (ja_at a))\<rparr>)
       (filter (\<lambda>a. ja_outcome a = J_Executed \<and> ja_text a \<noteq> []) as)"

definition is_json_name :: "string \<Rightarrow> bool" where
  "is_json_name name \<longleftrightarrow> json_stem name \<noteq> None"

definition count_proposals :: "dir \<Rightarrow> nat" where
  "count_proposals d = length (filter (\<lambda>f. is_json_name (fst f)) d)"

text \<open>The texts of the queued proposals; one that cannot be read has none.\<close>

definition queued_texts :: "'j cjson \<Rightarrow> int \<Rightarrow> dir \<Rightarrow> RecentText list" where
  "queued_texts J now d =
     List.map_filter
       (\<lambda>f. if is_json_name (fst f) then
              (case parse_outbound_action J (snd f) (fst f) of
                 Inl _ \<Rightarrow> None
               | Inr a \<Rightarrow> if act_text a = [] then None else Some \<lparr>recent_text = act_text a, at_epoch = now\<rparr>)
            else None) d"

definition is_text_kind :: "OutboundActionKind \<Rightarrow> bool" where
  "is_text_kind k \<longleftrightarrow> k = Kind_Post \<or> k = Kind_Reply"

text \<open>
  Temporary file, flush, rename.  The temporary name does not end in \<open>.json\<close>, so an interrupted
  write is never taken for a proposal.
\<close>

definition write_proposal :: "io \<Rightarrow> string \<Rightarrow> string \<Rightarrow> dir \<Rightarrow> unit result \<times> dir" where
  "write_proposal io name contents d =
     (let tmp = name @ ''.tmp''; text = contents @ [newline] in
      if \<not> create_ok io then (throw Runtime_error ''cannot write scheduler proposal'', d)
      else if \<not> write_ok io then (throw Runtime_error ''cannot flush scheduler proposal'', dir_put tmp [] d)
      else if \<not> rename_ok io then (throw Runtime_error ''cannot commit scheduler proposal'', dir_put tmp text d)
      else (Inr (), dir_put name text (dir_remove tmp d)))"

subsection \<open>One candidate\<close>

record propose_context =
  pc_guard :: TextGuardConfig
  pc_opted_out :: DoNotEngage
  pc_invited :: "string set"
  pc_journal :: JournalContents
  pc_quarantine :: dir

record propose_state =
  ps_report :: SchedulerCycleReport
  ps_pending :: nat
  ps_recent :: "RecentText list"
  ps_queue :: dir

definition already_known :: "string \<Rightarrow> dir \<Rightarrow> dir \<Rightarrow> bool" where
  "already_known name queue aside =
     (list_ex (\<lambda>f. fst f = name) queue \<or> list_ex (\<lambda>f. fst f = name) aside)"

definition blank_action :: OutboundAction where
  "blank_action =
     \<lparr>act_kind = Kind_Post, act_text = [], act_rkey = [], act_created_at = [], act_digest = [],
      act_reply_root = [], act_reply_parent = [], act_subject = [], act_plan_score = None,
      act_support_score = None\<rparr>"

definition score_option :: "u32 \<Rightarrow> real option" where
  "score_option b = (case float_value b of Finite r \<Rightarrow> Some r | _ \<Rightarrow> None)"

definition likeable :: "string \<Rightarrow> bool" where
  "likeable source_id \<longleftrightarrow> starts_with source_id ''at://'' \<and> contains_sub source_id ''/app.bsky.feed.post/''"

definition like_action :: "('j, 'w) cycle_env \<Rightarrow> ContextCandidate \<Rightarrow> string \<Rightarrow> OutboundAction" where
  "like_action E c digest =
     blank_action\<lparr>act_kind := Kind_Like, act_subject := cand_source_id c,
                  act_rkey := proposal_tid (ce_now E) digest, act_created_at := cycle_stamp E,
                  act_digest := digest\<rparr>"

definition propose_like ::
  "('j, 'w) cycle_env \<Rightarrow> SchedulerConfig \<Rightarrow> propose_context \<Rightarrow> ContextCandidate \<Rightarrow> ActionDecision \<Rightarrow>
   propose_state \<Rightarrow> unit result \<times> propose_state" where
  "propose_like E cfg pc c d s =
     (let rep = ps_report s; abst = rep\<lparr>rp_abstentions := Suc (rp_abstentions rep)\<rparr> in
      if \<not> graduated_likes cfg \<or> max_proposals cfg \<le> rp_proposals_written rep then
        (Inr (), s\<lparr>ps_report := abst\<rparr>)
      else if abstain_reason d = Abstain_EmptyContext \<or> \<not> likeable (cand_source_id c) then
        (Inr (), s\<lparr>ps_report := abst\<rparr>)
      else
        let refused = check_engagement Kind_Like (cand_author_did c) (engagement_mode cfg) (pc_invited pc)
                        (pc_opted_out pc) in
        if refused \<noteq> Engage_None then
          (Inr (), s\<lparr>ps_report := abst\<lparr>rp_engagement_refused := Suc (rp_engagement_refused rep),
                                     rp_last_engagement_refusal := engagement_refusal_name refused\<rparr>\<rparr>)
        else
          let digest = graduated_like_digest (cand_source_id c) d; name = digest @ ''.json'' in
          if already_known name (ps_queue s) (pc_quarantine pc) then
            (Inr (), s\<lparr>ps_report := abst\<lparr>rp_proposals_existing := Suc (rp_proposals_existing rep)\<rparr>\<rparr>)
          else case write_proposal (ce_proposal_io E) name
                 (serialise_outbound_action (at_json (ce_attempt E)) (like_action E c digest)) (ps_queue s) of
            (Inl x, q) \<Rightarrow> (Inl x, s\<lparr>ps_queue := q\<rparr>)
          | (Inr _, q) \<Rightarrow>
              (Inr (), s\<lparr>ps_report := abst\<lparr>rp_proposals_written := Suc (rp_proposals_written rep),
                                         rp_graduated_likes_written := Suc (rp_graduated_likes_written rep)\<rparr>,
                       ps_pending := Suc (ps_pending s), ps_queue := q\<rparr>))"

text \<open>The kind of the proposal, and its thread when it continues a conversation.\<close>

definition proposal_shape ::
  "('j, 'w) cycle_env \<Rightarrow> SchedulerConfig \<Rightarrow> JournalContents \<Rightarrow> ContextCandidate \<Rightarrow> OutboundAction" where
  "proposal_shape E cfg journal c =
     (if \<not> int_enabled (sched_intents cfg) then blank_action
      else case continuation_intent (jc_events journal) (jc_intents journal) (cand_source_id c)
                 (cand_author_did c) (ce_now E) of
        None \<Rightarrow> blank_action
      | Some i \<Rightarrow> blank_action\<lparr>act_kind := Kind_Reply, act_reply_root := ji_id i,
                               act_reply_parent := cand_source_id c\<rparr>)"

definition post_action ::
  "('j, 'w) cycle_env \<Rightarrow> OutboundAction \<Rightarrow> ActionDecision \<Rightarrow> string \<Rightarrow> OutboundAction" where
  "post_action E shape d digest =
     (let a = shape\<lparr>act_text := plan_text d, act_rkey := proposal_tid (ce_now E) digest,
                    act_created_at := cycle_stamp E, act_digest := digest\<rparr> in
      case plan_steps d of
        [] \<Rightarrow> a
      | st # _ \<Rightarrow> a\<lparr>act_plan_score := score_option (step_score st),
                    act_support_score := score_option (step_support st)\<rparr>)"

definition propose_post ::
  "('j, 'w) cycle_env \<Rightarrow> SchedulerConfig \<Rightarrow> propose_context \<Rightarrow> ContextCandidate \<Rightarrow> ActionDecision \<Rightarrow>
   propose_state \<Rightarrow> unit result \<times> propose_state" where
  "propose_post E cfg pc c d s =
     (let rep = (ps_report s)\<lparr>rp_decisions := Suc (rp_decisions (ps_report s))\<rparr>;
          digest = decision_digest (cand_payload c) d; name = digest @ ''.json'' in
      if already_known name (ps_queue s) (pc_quarantine pc) then
        (Inr (), s\<lparr>ps_report := rep\<lparr>rp_proposals_existing := Suc (rp_proposals_existing rep)\<rparr>\<rparr>)
      else
        let shape = proposal_shape E cfg (pc_journal pc) c;
            refused = check_engagement Kind_Reply (cand_author_did c) (engagement_mode cfg) (pc_invited pc)
                        (pc_opted_out pc) in
        if act_kind shape = Kind_Reply \<and> refused \<noteq> Engage_None then
          (Inr (), s\<lparr>ps_report := rep\<lparr>rp_engagement_refused := Suc (rp_engagement_refused rep),
                                    rp_last_engagement_refusal := engagement_refusal_name refused\<rparr>\<rparr>)
        else
          let a = post_action E shape d digest;
              verdict = check_output_text (act_text a) (pc_guard pc) (ps_recent s) (ce_now E) in
          if \<not> verdict_allowed verdict then
            (Inr (), s\<lparr>ps_report := rep\<lparr>rp_text_refused := Suc (rp_text_refused rep),
                                      rp_last_text_refusal := text_refusal_name (refusal verdict)\<rparr>\<rparr>)
          else
            let s1 = s\<lparr>ps_report := rep, ps_recent := ps_recent s @ [\<lparr>recent_text = act_text a, at_epoch = ce_now E\<rparr>]\<rparr> in
            case write_proposal (ce_proposal_io E) name
                   (serialise_outbound_action (at_json (ce_attempt E)) a) (ps_queue s) of
              (Inl x, q) \<Rightarrow> (Inl x, s1\<lparr>ps_queue := q\<rparr>)
            | (Inr _, q) \<Rightarrow>
                (Inr (), s1\<lparr>ps_report := rep\<lparr>rp_proposals_written := Suc (rp_proposals_written rep),
                                           rp_ordered_by_intents :=
                                             (rp_ordered_by_intents rep \<or> act_kind a = Kind_Reply)\<rparr>,
                          ps_pending := Suc (ps_pending s), ps_queue := q\<rparr>))"

fun propose_loop ::
  "('j, 'w) cycle_env \<Rightarrow> SchedulerConfig \<Rightarrow> propose_context \<Rightarrow> ContextCandidate list \<Rightarrow> nat list \<Rightarrow>
   propose_state \<Rightarrow> unit result \<times> propose_state" where
  "propose_loop E cfg pc candidates [] s = (Inr (), s)"
| "propose_loop E cfg pc candidates (i # is) s =
     (let rep = ps_report s in
      if max_proposals cfg \<le> rp_proposals_written rep then (Inr (), s)
      else if max_pending_proposals cfg \<le> ps_pending s then
        (Inr (), s\<lparr>ps_report := rep\<lparr>rp_proposals_capped := Suc (rp_proposals_capped rep)\<rparr>\<rparr>)
      else case ce_decide E (cand_payload (candidates ! i)) of
        Inl x \<Rightarrow> (Inl x, s)
      | Inr d \<Rightarrow>
          (case (if abstained d then propose_like E cfg pc (candidates ! i) d s
                 else propose_post E cfg pc (candidates ! i) d s) of
             (Inl x, s1) \<Rightarrow> (Inl x, s1)
           | (Inr _, s1) \<Rightarrow> propose_loop E cfg pc candidates is s1))"

subsection \<open>Execution\<close>

record 'w execute_state =
  es_report :: SchedulerCycleReport
  es_breaker :: BreakerState
  es_dirty :: bool
  es_stop :: bool
  es_texts :: "RecentText list option"
  es_world :: "'w cycle_world"

definition breaker_path :: "('j, 'w) cycle_env \<Rightarrow> string" where
  "breaker_path E = ce_data_dir E @ ''/scheduler-breaker.json''"

text \<open>The rename into the quarantine directory and the note beside it.\<close>

definition quarantine_proposal ::
  "('j, 'w) cycle_env \<Rightarrow> string \<Rightarrow> string \<Rightarrow> 'w cycle_world \<Rightarrow> unit result \<times> 'w cycle_world" where
  "quarantine_proposal E name why W =
     (if \<not> ce_quarantine_ok E then (throw Runtime_error (''cannot quarantine '' @ name), W)
      else case map_of (proposals W) name of
        None \<Rightarrow> (throw Runtime_error (''cannot quarantine '' @ name), W)
      | Some text \<Rightarrow>
          (Inr (), W\<lparr>proposals := dir_remove name (proposals W),
                     quarantined := dir_put (name @ ''.reason'') (cycle_stamp E @ '' '' @ why @ [newline])
                                      (dir_put name text (quarantined W))\<rparr>))"

text \<open>
  The pre-check, with the policy and the budget as they are on disk now: an approval of exactly
  this digest, or an envelope that covers the action.
\<close>

definition authorizable ::
  "('j, 'w) cycle_env \<Rightarrow> ControlState \<Rightarrow> OutboundAction \<Rightarrow> 'w cycle_world \<Rightarrow> bool result" where
  "authorizable E control a W =
     (let A = ce_attempt E; files = aw_files (cw W) in
      if is_digest_approved control (act_digest a) then Inr True
      else if at_envelopes A = None then Inr False
      else and_then (load_outbound_policy (at_json A) (at_policy_file A) files) (\<lambda>policy.
           and_then (load_outbound_budget_state (at_json A) (at_budget_file A) files) (\<lambda>loaded.
           and_then (envelope_gate A files policy a (prune_outbound_budget_state loaded policy (ce_now E)) (ce_now E))
             (\<lambda>gate. Inr (case gate of None \<Rightarrow> False | Some c \<Rightarrow> covered c)))))"

definition count_mutation :: "IntentMutation \<Rightarrow> SchedulerCycleReport \<Rightarrow> SchedulerCycleReport" where
  "count_mutation m rep =
     (case m of
        Intent_Opened \<Rightarrow> rep\<lparr>rp_intents_opened := Suc (rp_intents_opened rep)\<rparr>
      | Intent_Continued \<Rightarrow> rep\<lparr>rp_intents_continued := Suc (rp_intents_continued rep)\<rparr>
      | Intent_CapReached \<Rightarrow> rep\<lparr>rp_intents_cap_reached := Suc (rp_intents_cap_reached rep)\<rparr>
      | _ \<Rightarrow> rep)"

text \<open>The branch of an executed action.\<close>

definition after_executed ::
  "('j, 'w) cycle_env \<Rightarrow> SchedulerConfig \<Rightarrow> string \<Rightarrow> OutboundAction \<Rightarrow> OutboundExecutionResult \<Rightarrow>
   'w execute_state \<Rightarrow> unit result \<times> 'w execute_state" where
  "after_executed E cfg name a r s =
     (let rep = (es_report s)\<lparr>rp_executed := Suc (rp_executed (es_report s))\<rparr>;
          texts = (case es_texts s of
                     Some ts \<Rightarrow> if act_text a \<noteq> [] then Some (ts @ [\<lparr>recent_text = act_text a, at_epoch = ce_now E\<rparr>]) else Some ts
                   | None \<Rightarrow> None);
          W = es_world s;
          (m, is) = (if int_enabled (sched_intents cfg)
                     then record_pending_intent (at_rfc3339 (ce_attempt E)) (ce_intent_ok E) a r (sched_intents cfg)
                            (ce_now E) (cycle_stamp E) (cw_intents W)
                     else (Inr Intent_NotTracked, cw_intents W))
      in case m of
           Inl x \<Rightarrow> (Inl x, s\<lparr>es_world := W\<lparr>cw_intents := is\<rparr>\<rparr>)
         | Inr mu \<Rightarrow>
             if \<not> ce_remove_ok E then
               (throw Std_exception ''remove'', s\<lparr>es_world := W\<lparr>cw_intents := is\<rparr>\<rparr>)
             else
               (Inr (), s\<lparr>es_report := count_mutation mu rep, es_texts := texts,
                          es_world := W\<lparr>cw_intents := is, proposals := dir_remove name (proposals W)\<rparr>,
                          es_breaker := record_success (act_digest a) (es_breaker s), es_dirty := True\<rparr>))"

text \<open>The branch of a failed one.\<close>

definition after_failed ::
  "('j, 'w) cycle_env \<Rightarrow> SchedulerConfig \<Rightarrow> string \<Rightarrow> OutboundAction \<Rightarrow> OutboundExecutionResult \<Rightarrow>
   'w execute_state \<Rightarrow> unit result \<times> 'w execute_state" where
  "after_failed E cfg name a r s =
     (let rep = (es_report s)\<lparr>rp_failed := Suc (rp_failed (es_report s))\<rparr>;
          (eff, b) = record_failure (breaker_config cfg) (act_digest a)
                       (exe_reason r @ (if exe_detail r = [] then [] else '': '' @ exe_detail r)) (ce_now E)
                       (es_breaker s);
          s1 = s\<lparr>es_report := rep, es_breaker := b, es_dirty := True\<rparr>;
          (q, W) = (if quarantine eff then quarantine_proposal E name (exe_detail r) (es_world s)
                    else (Inr (), es_world s))
      in case q of
           Inl x \<Rightarrow> (Inl x, s1\<lparr>es_world := W\<rparr>)
         | Inr _ \<Rightarrow>
             let rep1 = (if quarantine eff then rep\<lparr>rp_quarantined := Suc (rp_quarantined rep)\<rparr> else rep);
                 rep2 = (if tripped eff
                         then rep1\<lparr>rp_breaker_trips := Suc (rp_breaker_trips rep1),
                                   rp_detail := ''circuit breaker opened until '' @ at_rfc3339 (ce_attempt E) (open_until b)\<rparr>
                         else rep1)
             in (Inr (), s1\<lparr>es_report := rep2, es_stop := (es_stop s \<or> tripped eff), es_world := W\<rparr>))"

definition attempt_proposal ::
  "('j, 'w) cycle_env \<Rightarrow> SchedulerConfig \<Rightarrow> string \<Rightarrow> OutboundAction \<Rightarrow> 'w execute_state \<Rightarrow>
   unit result \<times> 'w execute_state" where
  "attempt_proposal E cfg name a s =
     (let rep = (es_report s)\<lparr>rp_executions_attempted := Suc (rp_executions_attempted (es_report s))\<rparr>;
          W = es_world s
      in if \<not> ce_lock_ok E then (throw Runtime_error ''lock'', s\<lparr>es_report := rep\<rparr>)
      else case attempt_outbound_action (cycle_attempt E) a (ce_now E) (cw W) of
        (Inl x, w) \<Rightarrow> (Inl x, s\<lparr>es_report := rep, es_world := W\<lparr>cw := w\<rparr>\<rparr>)
      | (Inr r, w) \<Rightarrow>
          let s1 = s\<lparr>es_report := rep, es_world := W\<lparr>cw := w\<rparr>\<rparr> in
          (case exe_outcome r of
             Exec_Executed \<Rightarrow> after_executed E cfg name a r s1
           | Exec_Failed \<Rightarrow> after_failed E cfg name a r s1
           | _ \<Rightarrow> (Inr (), s1\<lparr>es_report := rep\<lparr>rp_refused := Suc (rp_refused rep)\<rparr>\<rparr>)))"

record execute_context =
  ec_guard :: TextGuardConfig
  ec_opted_out :: DoNotEngage
  ec_invited :: "string set"
  ec_control :: ControlState
  ec_gate :: BreakerGate

text \<open>One proposal that the loop has not stopped before: guard, engagement, authorisation, attempt.\<close>

definition consider_proposal ::
  "('j, 'w) cycle_env \<Rightarrow> SchedulerConfig \<Rightarrow> execute_context \<Rightarrow> string \<Rightarrow> 'w execute_state \<Rightarrow>
   unit result \<times> 'w execute_state" where
  "consider_proposal E cfg ec name s =
     (case (case map_of (proposals (es_world s)) name of
              None \<Rightarrow> throw Runtime_error (''cannot read outbound action file '' @ name)
            | Some text \<Rightarrow> parse_outbound_action (at_json (ce_attempt E)) text name) of
        Inl x \<Rightarrow> (Inl x, s)
      | Inr a \<Rightarrow>
          let texts = (case es_texts s of Some ts \<Rightarrow> ts | None \<Rightarrow> executed_texts (aw_journal (cw (es_world s))));
              s1 = (if is_text_kind (act_kind a) then s\<lparr>es_texts := Some texts\<rparr> else s);
              verdict = check_output_text (act_text a) (ec_guard ec) texts (ce_now E);
              refused = check_engagement (act_kind a) (action_target_did a) (engagement_mode cfg) (ec_invited ec)
                          (ec_opted_out ec);
              rep = es_report s1
          in if is_text_kind (act_kind a) \<and> \<not> verdict_allowed verdict then
            (Inr (), s1\<lparr>es_report := rep\<lparr>rp_text_refused := Suc (rp_text_refused rep),
                                        rp_last_text_refusal := text_refusal_name (refusal verdict)\<rparr>\<rparr>)
          else if refused \<noteq> Engage_None then
            (Inr (), s1\<lparr>es_report := rep\<lparr>rp_engagement_refused := Suc (rp_engagement_refused rep),
                                        rp_last_engagement_refusal := engagement_refusal_name refused\<rparr>\<rparr>)
          else case authorizable E (ec_control ec) a (es_world s1) of
            Inl x \<Rightarrow> (Inl x, s1)
          | Inr False \<Rightarrow> (Inr (), s1)
          | Inr True \<Rightarrow> attempt_proposal E cfg name a s1)"

text \<open>\<open>turn\<close> counts the readings of the clock.\<close>

fun execute_loop ::
  "('j, 'w) cycle_env \<Rightarrow> SchedulerConfig \<Rightarrow> execute_context \<Rightarrow> nat \<Rightarrow> string list \<Rightarrow>
   'w execute_state \<Rightarrow> unit result \<times> 'w execute_state" where
  "execute_loop E cfg ec turn [] s = (Inr (), s)"
| "execute_loop E cfg ec turn (name # names) s =
     (if es_stop s \<or> max_executions cfg \<le> rp_executions_attempted (es_report s) then (Inr (), s)
      else if ec_gate ec = Gate_HalfOpen \<and> 1 \<le> rp_executions_attempted (es_report s) then (Inr (), s)
      else if 0 < max_cycle_ms cfg \<and> (case ce_clock E of None \<Rightarrow> False | Some ms \<Rightarrow> max_cycle_ms cfg < ms turn) then
        (Inr (), s\<lparr>es_report := (es_report s)\<lparr>rp_detail := ''scheduler cycle wall-clock bound reached''\<rparr>\<rparr>)
      else case consider_proposal E cfg ec name s of
        (Inl x, s1) \<Rightarrow> (Inl x, s1)
      | (Inr _, s1) \<Rightarrow> execute_loop E cfg ec (Suc turn) names s1)"

definition execute_phase ::
  "('j, 'w) cycle_env \<Rightarrow> SchedulerConfig \<Rightarrow> execute_context \<Rightarrow> 'w execute_state \<Rightarrow>
   unit result \<times> 'w execute_state" where
  "execute_phase E cfg ec s =
     (if max_executions cfg = 0 \<or> ec_gate ec = Gate_Open then (Inr (), s)
      else
        let names = sort (filter is_json_name (map fst (proposals (es_world s))));
            b = retain_proposals (set (List.map_filter json_stem names)) (es_breaker s)
        in execute_loop E cfg ec 0 names (s\<lparr>es_breaker := b\<rparr>))"

subsection \<open>The cycle\<close>

definition gate_detail :: "('j, 'w) cycle_env \<Rightarrow> BreakerState \<Rightarrow> string" where
  "gate_detail E b =
     ''circuit breaker open until '' @ at_rfc3339 (ce_attempt E) (open_until b) @ '' after '' @
     nat_to_string (unat (consecutive_failures b)) @ '' consecutive failure(s): '' @ last_failure_detail b"

text \<open>Execution, the save of the breaker when it changed, and the closing detail.\<close>

definition execution_step ::
  "('j, 'w) cycle_env \<Rightarrow> SchedulerConfig \<Rightarrow> ControlState \<Rightarrow> propose_context \<Rightarrow> SchedulerCycleReport \<Rightarrow>
   'w cycle_world \<Rightarrow> SchedulerCycleReport result \<times> 'w cycle_world" where
  "execution_step E cfg control pc rep W =
     (let J = at_json (ce_attempt E) in
      case load_breaker_state J (breaker_path E) (aw_files (cw W)) of
        Inl x \<Rightarrow> (Inl x, W)
      | Inr b \<Rightarrow>
          let gate = breaker_gate b (ce_now E);
              rep1 = rep\<lparr>rp_breaker_gate := breaker_gate_name gate\<rparr>;
              rep2 = (if gate = Gate_Open then rep1\<lparr>rp_detail := gate_detail E b\<rparr> else rep1);
              ec = \<lparr>ec_guard = pc_guard pc, ec_opted_out = pc_opted_out pc, ec_invited = pc_invited pc,
                    ec_control = control, ec_gate = gate\<rparr>
          in case execute_phase E cfg ec \<lparr>es_report = rep2, es_breaker = b, es_dirty = False, es_stop = False,
                     es_texts = None, es_world = W\<rparr> of
            (Inl x, s) \<Rightarrow> (Inl x, es_world s)
          | (Inr _, s) \<Rightarrow>
              let W1 = es_world s;
                  (sv, files) = (if es_dirty s
                    then save_breaker_state J (ce_breaker_io E) (es_breaker s) (breaker_path E) (aw_files (cw W1))
                    else (Inr (), aw_files (cw W1)));
                  W2 = W1\<lparr>cw := (cw W1)\<lparr>aw_files := files\<rparr>\<rparr>;
                  rep3 = es_report s
              in case sv of
                   Inl x \<Rightarrow> (Inl x, W2)
                 | Inr _ \<Rightarrow>
                     (Inr (if rp_detail rep3 = [] then rep3\<lparr>rp_detail := ''scheduler cycle complete''\<rparr> else rep3), W2))"

definition proposal_step ::
  "('j, 'w) cycle_env \<Rightarrow> SchedulerConfig \<Rightarrow> SchedulerCycleReport \<Rightarrow> 'w cycle_world \<Rightarrow>
   (SchedulerCycleReport \<times> ControlState \<times> propose_context) result \<times> 'w cycle_world" where
  "proposal_step E cfg rep W =
     (let A = ce_attempt E; J = at_json A; journal = cycle_journal W;
          candidates = select_candidates (ce_ledger E) (ce_payload E) (max_contexts cfg);
          rep1 = rep\<lparr>rp_contexts_examined := length candidates, rp_ordered_by_drives := drives_enabled cfg\<rparr>;
          order = candidate_order E cfg candidates journal
      in case and_then (load_control_state J (at_control_file A) (aw_files (cw W))) (\<lambda>control.
              and_then (cycle_text_guard E cfg W) (\<lambda>guard.
              and_then (cycle_do_not_engage E W) (\<lambda>opted_out.
                Inr (control, guard, opted_out)))) of
        Inl x \<Rightarrow> (Inl x, W)
      | Inr (control, guard, opted_out) \<Rightarrow>
          let pc = \<lparr>pc_guard = guard, pc_opted_out = opted_out,
                    pc_invited = invited_authors (map je_author_did (cw_events W)), pc_journal = journal,
                    pc_quarantine = quarantined W\<rparr>;
              rep2 = rep1\<lparr>rp_engagement_invalid_lines := invalid_lines opted_out\<rparr>;
              s = \<lparr>ps_report = rep2, ps_pending = count_proposals (proposals W),
                   ps_recent = executed_texts (aw_journal (cw W)) @ queued_texts J (ce_now E) (proposals W),
                   ps_queue = proposals W\<rparr>
          in case propose_loop E cfg pc candidates order s of
            (Inl x, s1) \<Rightarrow> (Inl x, W\<lparr>proposals := ps_queue s1\<rparr>)
          | (Inr _, s1) \<Rightarrow> (Inr (ps_report s1, control, pc), W\<lparr>proposals := ps_queue s1\<rparr>))"

definition run_scheduler_cycle ::
  "SchedulerConfig \<Rightarrow> ('j, 'w) cycle_env \<Rightarrow> 'w cycle_world \<Rightarrow> SchedulerCycleReport result \<times> 'w cycle_world" where
  "run_scheduler_cycle cfg E W =
     (if \<not> sched_enabled cfg then (Inr (empty_cycle_report\<lparr>rp_detail := ''scheduler disabled''\<rparr>), W)
      else case drain_step E empty_cycle_report W of
        (Inl x, W1) \<Rightarrow> (Inl x, W1)
      | (Inr rep1, W1) \<Rightarrow>
          (case sweep_step E cfg rep1 W1 of
             (Inl x, W2) \<Rightarrow> (Inl x, W2)
           | (Inr rep2, W2) \<Rightarrow>
               (case resolve_step E rep2 W2 of
                  (Inl x, W3) \<Rightarrow> (Inl x, W3)
                | (Inr rep3, W3) \<Rightarrow>
                    (case proposal_step E cfg rep3 W3 of
                       (Inl x, W4) \<Rightarrow> (Inl x, W4)
                     | (Inr (rep4, control, pc), W4) \<Rightarrow> execution_step E cfg control pc rep4 W4))))"

end
