(* ===== verification/Scheduler_Facts.thy ===== *)
theory Scheduler_Facts
  imports Scheduler_Cycle
begin

text \<open>
  What the execution half of a cycle guarantees: its bounds, that it acts only on vetted
  proposals and only behind the breaker; and that the conversation caps hold across whole cycles.
\<close>

subsection \<open>Considering one proposal\<close>

text \<open>Everything the loop checks before an attempt.\<close>

definition vetted ::
  "('j, 'w) cycle_env \<Rightarrow> SchedulerConfig \<Rightarrow> execute_context \<Rightarrow> 'w cycle_world \<Rightarrow> string \<Rightarrow> OutboundAction \<Rightarrow> bool" where
  "vetted E cfg ec W name a \<longleftrightarrow>
     (\<exists>doc texts. map_of (proposals W) name = Some doc \<and>
        parse_outbound_action (at_json (ce_attempt E)) doc name = Inr a \<and>
        (is_text_kind (act_kind a) \<longrightarrow> verdict_allowed (check_output_text (act_text a) (ec_guard ec) texts (ce_now E)))) \<and>
     check_engagement (act_kind a) (action_target_did a) (engagement_mode cfg) (ec_invited ec) (ec_opted_out ec) = Engage_None \<and>
     authorizable E (ec_control ec) a W = Inr True"

text \<open>What a state says about attempts: everything but the refusal counters.\<close>

definition same_but_counters :: "'w execute_state \<Rightarrow> 'w execute_state \<Rightarrow> bool" where
  "same_but_counters s s' \<longleftrightarrow>
     es_world s' = es_world s \<and> es_breaker s' = es_breaker s \<and> es_dirty s' = es_dirty s \<and>
     es_stop s' = es_stop s \<and>
     rp_executions_attempted (es_report s') = rp_executions_attempted (es_report s) \<and>
     rp_executed (es_report s') = rp_executed (es_report s)"

lemma consider_cases:
  assumes "consider_proposal E cfg ec name s = (r, s')"
  obtains (skipped) "same_but_counters s s'"
  | (tried) a s1 where "vetted E cfg ec (es_world s) name a" "same_but_counters s s1"
      "attempt_proposal E cfg name a s1 = (r, s')"
proof (cases "case map_of (proposals (es_world s)) name of
              None \<Rightarrow> throw Runtime_error (''cannot read outbound action file '' @ name)
            | Some text \<Rightarrow> parse_outbound_action (at_json (ce_attempt E)) text name")
  case (Inl x)
  then have "s' = s" using assms by (simp add: consider_proposal_def)
  then show thesis using skipped by (simp add: same_but_counters_def)
next
  case (Inr a)
  let ?texts = "case es_texts s of Some ts \<Rightarrow> ts | None \<Rightarrow> executed_texts (aw_journal (cw (es_world s)))"
  let ?s1 = "if is_text_kind (act_kind a) then s\<lparr>es_texts := Some ?texts\<rparr> else s"
  have s1: "same_but_counters s ?s1" by (simp add: same_but_counters_def)
  obtain doc where t: "map_of (proposals (es_world s)) name = Some doc"
    "parse_outbound_action (at_json (ce_attempt E)) doc name = Inr a"
    using Inr by (auto simp: throw_def split: option.splits)
  show thesis
  proof (cases "is_text_kind (act_kind a) \<and> \<not> verdict_allowed (check_output_text (act_text a) (ec_guard ec) ?texts (ce_now E))")
    case True
    then show thesis using assms Inr skipped by (auto simp: consider_proposal_def Let_def same_but_counters_def)
  next
    case text_ok: False
    show thesis
    proof (cases "check_engagement (act_kind a) (action_target_did a) (engagement_mode cfg) (ec_invited ec) (ec_opted_out ec) = Engage_None")
      case False
      then show thesis using assms Inr skipped text_ok
        by (auto simp: consider_proposal_def Let_def same_but_counters_def split: if_splits)
    next
      case engage_ok: True
      show thesis
      proof (cases "authorizable E (ec_control ec) a (es_world ?s1)")
        case (Inl x)
        then have "s' = ?s1" using assms Inr text_ok engage_ok
          by (auto simp: consider_proposal_def Let_def)
        then show thesis using skipped s1 by simp
      next
        case auth: (Inr b)
        show thesis
        proof (cases b)
          case False
          then have "s' = ?s1" using assms Inr text_ok engage_ok auth
            by (auto simp: consider_proposal_def Let_def)
          then show thesis using skipped s1 by simp
        next
          case True
          then have att: "attempt_proposal E cfg name a ?s1 = (r, s')"
            using assms Inr text_ok engage_ok auth by (auto simp: consider_proposal_def Let_def)
          have w: "es_world ?s1 = es_world s" by simp
          have "vetted E cfg ec (es_world s) name a"
            using t text_ok engage_ok auth True unfolding w by (auto simp: vetted_def)
          then show thesis using tried s1 att by blast
        qed
      qed
    qed
  qed
qed

subsection \<open>One attempt\<close>

text \<open>
  What an attempt does to the cycle's world: the counters, the directories and the
  conversations.
\<close>

definition attempt_effect ::
  "('j, 'w) cycle_env \<Rightarrow> SchedulerConfig \<Rightarrow> 'w execute_state \<Rightarrow> 'w execute_state \<Rightarrow> bool" where
  "attempt_effect E cfg s s' \<longleftrightarrow>
     (let W = es_world s; W' = es_world s' in
      cw_events W' = cw_events W \<and> cw_resolutions W' = cw_resolutions W \<and>
      (\<forall>n t. map_of (proposals W') n = Some t \<longrightarrow> map_of (proposals W) n = Some t) \<and>
      (\<forall>n. map_of (quarantined W) n \<noteq> None \<longrightarrow> map_of (quarantined W') n \<noteq> None) \<and>
      (cw_intents W' = cw_intents W \<or>
       (\<exists>ok a r m. record_pending_intent (at_rfc3339 (ce_attempt E)) ok a r (sched_intents cfg) (ce_now E)
                     (cycle_stamp E) (cw_intents W) = (m, cw_intents W'))))"

lemma attempt_effect_same: "same_but_counters s s' \<Longrightarrow> attempt_effect E cfg s s'"
  by (simp add: attempt_effect_def same_but_counters_def)

lemma after_executed_effect:
  assumes "after_executed E cfg name a r s = (x, s')"
  shows "attempt_effect E cfg s s' \<and>
    rp_executions_attempted (es_report s') = rp_executions_attempted (es_report s) \<and> es_stop s' = es_stop s \<and>
    cw (es_world s') = cw (es_world s)"
proof -
  let ?W = "es_world s"
  obtain m "is" where mi: "(if int_enabled (sched_intents cfg)
       then record_pending_intent (at_rfc3339 (ce_attempt E)) (ce_intent_ok E) a r (sched_intents cfg)
              (ce_now E) (cycle_stamp E) (cw_intents ?W)
       else (Inr Intent_NotTracked, cw_intents ?W)) = (m, is)" by fastforce
  have i: "is = cw_intents ?W \<or>
    (\<exists>ok a r m. record_pending_intent (at_rfc3339 (ce_attempt E)) ok a r (sched_intents cfg) (ce_now E)
       (cycle_stamp E) (cw_intents ?W) = (m, is))"
    using mi by (auto split: if_splits)
  have c: "rp_executions_attempted (count_mutation mu rep) = rp_executions_attempted rep" for mu rep
    by (cases mu) (simp_all add: count_mutation_def)
  show ?thesis
    using assms i unfolding after_executed_def Let_def mi
    by (auto simp: attempt_effect_def Let_def c map_of_dir_remove split: sum.splits if_splits)
qed

lemma after_failed_effect:
  assumes "after_failed E cfg name a r s = (x, s')"
  shows "attempt_effect E cfg s s' \<and>
    rp_executions_attempted (es_report s') = rp_executions_attempted (es_report s) \<and>
    cw (es_world s') = cw (es_world s)"
proof -
  obtain eff b where e: "record_failure (breaker_config cfg) (act_digest a)
      (exe_reason r @ (if exe_detail r = [] then [] else '': '' @ exe_detail r)) (ce_now E) (es_breaker s) = (eff, b)"
    by fastforce
  show ?thesis
    using assms unfolding after_failed_def Let_def e
    by (auto simp: attempt_effect_def Let_def map_of_dir_remove map_of_dir_put quarantine_proposal_def
        split: sum.splits if_splits option.splits)
qed

lemma attempt_proposal_effect:
  assumes "attempt_proposal E cfg name a s = (x, s')"
  shows "attempt_effect E cfg s s' \<and>
    rp_executions_attempted (es_report s') = Suc (rp_executions_attempted (es_report s)) \<and>
    (cw (es_world s') = cw (es_world s) \<or>
     (\<exists>r. attempt_outbound_action (cycle_attempt E) a (ce_now E) (cw (es_world s)) = (r, cw (es_world s'))))"
proof (cases "ce_lock_ok E")
  case False
  then show ?thesis using assms by (auto simp: attempt_proposal_def Let_def attempt_effect_def)
next
  case True
  obtain r w where a: "attempt_outbound_action (cycle_attempt E) a (ce_now E) (cw (es_world s)) = (r, w)" by fastforce
  let ?rep = "(es_report s)\<lparr>rp_executions_attempted := Suc (rp_executions_attempted (es_report s))\<rparr>"
  let ?s1 = "s\<lparr>es_report := ?rep, es_world := (es_world s)\<lparr>cw := w\<rparr>\<rparr>"
  have trans: "attempt_effect E cfg s s'" if "attempt_effect E cfg ?s1 s'" for s'
    using that by (simp add: attempt_effect_def Let_def)
  show ?thesis
  proof (cases r)
    case (Inl e)
    then show ?thesis using assms True a by (auto simp: attempt_proposal_def Let_def attempt_effect_def)
  next
    case (Inr res)
    consider "exe_outcome res = Exec_Executed" | "exe_outcome res = Exec_Failed"
      | "exe_outcome res \<in> {Exec_Denied, Exec_Deferred, Exec_DryRun}" by (cases "exe_outcome res") auto
    then show ?thesis
    proof cases
      case 1
      then have "after_executed E cfg name a res ?s1 = (x, s')"
        using assms True a Inr by (simp add: attempt_proposal_def Let_def)
      from after_executed_effect [OF this] show ?thesis using trans a by auto
    next
      case 2
      then have "after_failed E cfg name a res ?s1 = (x, s')"
        using assms True a Inr by (simp add: attempt_proposal_def Let_def)
      from after_failed_effect [OF this] show ?thesis using trans a by auto
    next
      case 3
      then have "s' = ?s1\<lparr>es_report := ?rep\<lparr>rp_refused := Suc (rp_refused ?rep)\<rparr>\<rparr>"
        using assms True a Inr by (auto simp: attempt_proposal_def Let_def)
      then show ?thesis using a by (auto simp: attempt_effect_def Let_def)
    qed
  qed
qed

subsection \<open>The execution loop\<close>

text \<open>The rule all loop facts are instances of.\<close>

lemma execute_loop_keeps:
  assumes "execute_loop E cfg ec turn names s = (x, s')" and "P s"
    and same: "\<And>s s'. same_but_counters s s' \<Longrightarrow> P s \<Longrightarrow> P s'"
    and tried: "\<And>name a s x s'. vetted E cfg ec (es_world s) name a \<Longrightarrow> P s \<Longrightarrow>
      attempt_proposal E cfg name a s = (x, s') \<Longrightarrow>
      rp_executions_attempted (es_report s) < max_executions cfg \<Longrightarrow>
      \<not> (ec_gate ec = Gate_HalfOpen \<and> 1 \<le> rp_executions_attempted (es_report s)) \<Longrightarrow> P s'"
  shows "P s'"
  using assms(1,2)
proof (induction names arbitrary: turn s)
  case Nil
  then show ?case by simp
next
  case (Cons name names)
  let ?go = "\<not> (es_stop s \<or> max_executions cfg \<le> rp_executions_attempted (es_report s)) \<and>
    \<not> (ec_gate ec = Gate_HalfOpen \<and> 1 \<le> rp_executions_attempted (es_report s)) \<and>
    \<not> (0 < max_cycle_ms cfg \<and> (case ce_clock E of None \<Rightarrow> False | Some ms \<Rightarrow> max_cycle_ms cfg < ms turn))"
  show ?case
  proof (cases ?go)
    case False
    then have "same_but_counters s s'"
      using Cons.prems(1) by (auto simp: same_but_counters_def split: if_splits)
    then show ?thesis using same Cons.prems(2) by blast
  next
    case True
    obtain y s1 where c: "consider_proposal E cfg ec name s = (y, s1)" by fastforce
    have "P s1"
    proof (cases rule: consider_cases [OF c])
      case 1
      then show ?thesis using same Cons.prems(2) by blast
    next
      case (2 a s2)
      have "P s2" using same 2(2) Cons.prems(2) by blast
      moreover have "vetted E cfg ec (es_world s2) name a"
        using 2(1,2) by (simp add: same_but_counters_def)
      ultimately show ?thesis
        using tried [OF _ _ 2(3)] True 2(2) by (simp add: same_but_counters_def not_le)
    qed
    moreover have "y = Inl e \<Longrightarrow> s' = s1" for e using Cons.prems(1) True c by auto
    moreover have "y = Inr () \<Longrightarrow> execute_loop E cfg ec (Suc turn) names s1 = (x, s')"
      using Cons.prems(1) True c by auto
    ultimately show ?thesis using Cons.IH by (cases y) auto
  qed
qed

lemma execute_phase_keeps:
  assumes "execute_phase E cfg ec s = (x, s')" and "P s"
    and same: "\<And>s s'. same_but_counters s s' \<Longrightarrow> P s \<Longrightarrow> P s'"
    and breaker: "\<And>s b. P s \<Longrightarrow> P (s\<lparr>es_breaker := b\<rparr>)"
    and tried: "\<And>name a s x s'. vetted E cfg ec (es_world s) name a \<Longrightarrow> P s \<Longrightarrow>
      attempt_proposal E cfg name a s = (x, s') \<Longrightarrow>
      rp_executions_attempted (es_report s) < max_executions cfg \<Longrightarrow>
      \<not> (ec_gate ec = Gate_HalfOpen \<and> 1 \<le> rp_executions_attempted (es_report s)) \<Longrightarrow>
      ec_gate ec \<noteq> Gate_Open \<Longrightarrow> P s'"
  shows "P s'"
proof (cases "max_executions cfg = 0 \<or> ec_gate ec = Gate_Open")
  case True
  then show ?thesis using assms(1,2) by (auto simp: execute_phase_def)
next
  case False
  let ?names = "sort (filter is_json_name (map fst (proposals (es_world s))))"
  have l: "execute_loop E cfg ec 0 ?names
      (s\<lparr>es_breaker := retain_proposals (set (List.map_filter json_stem ?names)) (es_breaker s)\<rparr>) = (x, s')"
    using assms(1) False by (simp add: execute_phase_def Let_def)
  show ?thesis
  proof (rule execute_loop_keeps [where P = P, OF l])
    show "P (s\<lparr>es_breaker := retain_proposals (set (List.map_filter json_stem ?names)) (es_breaker s)\<rparr>)"
      by (rule breaker [OF assms(2)])
    show "P t'" if "same_but_counters t t'" "P t" for t t' using same that by blast
  qed (use False tried in auto)
qed

subsection \<open>Bounds\<close>

theorem executions_bounded:
  assumes "execute_phase E cfg ec s = (x, s')" and "rp_executions_attempted (es_report s) = 0"
  shows "rp_executions_attempted (es_report s') \<le> max_executions cfg"
    and "ec_gate ec = Gate_HalfOpen \<Longrightarrow> rp_executions_attempted (es_report s') \<le> 1"
    and "ec_gate ec = Gate_Open \<Longrightarrow> s' = s"
proof -
  show "rp_executions_attempted (es_report s') \<le> max_executions cfg"
    by (rule execute_phase_keeps [OF assms(1), where P = "\<lambda>s. rp_executions_attempted (es_report s) \<le> max_executions cfg"])
      (use assms(2) in \<open>auto simp: same_but_counters_def dest!: attempt_proposal_effect\<close>)
  show "rp_executions_attempted (es_report s') \<le> 1" if "ec_gate ec = Gate_HalfOpen"
    by (rule execute_phase_keeps [OF assms(1), where P = "\<lambda>s. rp_executions_attempted (es_report s) \<le> 1"])
      (use assms(2) that in \<open>auto simp: same_but_counters_def dest!: attempt_proposal_effect\<close>)
  show "ec_gate ec = Gate_Open \<Longrightarrow> s' = s" using assms(1) by (simp add: execute_phase_def)
qed

subsection \<open>Only vetted proposals reach the network\<close>

theorem execution_is_vetted:
  assumes "execute_phase E cfg ec s = (x, s')" and "aw_net (cw (es_world s')) \<noteq> aw_net (cw (es_world s))"
  shows "\<exists>W name a. vetted E cfg ec W name a \<and> ec_gate ec \<noteq> Gate_Open \<and>
    map_of (proposals W) name = map_of (proposals (es_world s)) name \<and>
    aw_net (snd (attempt_outbound_action (cycle_attempt E) a (ce_now E) (cw W))) \<noteq> aw_net (cw W)"
    (is "?found")
proof (rule ccontr)
  assume no: "\<not> ?found"
  let ?P = "\<lambda>t. aw_net (cw (es_world t)) = aw_net (cw (es_world s)) \<and>
    (\<forall>n u. map_of (proposals (es_world t)) n = Some u \<longrightarrow> map_of (proposals (es_world s)) n = Some u)"
  have "?P s'"
  proof (rule execute_phase_keeps [OF assms(1), where P = ?P])
    fix name a t y t'
    assume v: "vetted E cfg ec (es_world t) name a" and P: "?P t"
      and at: "attempt_proposal E cfg name a t = (y, t')" and open_gate: "ec_gate ec \<noteq> Gate_Open"
    have "map_of (proposals (es_world t)) name = map_of (proposals (es_world s)) name"
      using v P by (auto simp: vetted_def)
    then have "aw_net (snd (attempt_outbound_action (cycle_attempt E) a (ce_now E) (cw (es_world t)))) = aw_net (cw (es_world t))"
      using no v open_gate by blast
    moreover note attempt_proposal_effect [OF at]
    ultimately show "?P t'" using P by (auto simp: attempt_effect_def Let_def)
  qed (auto simp: same_but_counters_def)
  then show False using assms(2) by simp
qed

subsection \<open>Conversations\<close>

lemma execute_phase_intents:
  assumes "execute_phase E cfg ec s = (x, s')"
    and "intent_reach (sched_intents cfg) (ce_now E) (cw_intents (es_world s))"
  shows "intent_reach (sched_intents cfg) (ce_now E) (cw_intents (es_world s'))"
proof (rule execute_phase_keeps [OF assms(1), where P = "\<lambda>s. intent_reach (sched_intents cfg) (ce_now E) (cw_intents (es_world s))"])
  fix name a t y t'
  assume I: "intent_reach (sched_intents cfg) (ce_now E) (cw_intents (es_world t))"
    and at: "attempt_proposal E cfg name a t = (y, t')"
  show "intent_reach (sched_intents cfg) (ce_now E) (cw_intents (es_world t'))"
    using attempt_proposal_effect [OF at] I reach_record by (auto simp: attempt_effect_def Let_def)
qed (use assms(2) in \<open>auto simp: same_but_counters_def\<close>)

lemma drain_step_rest:
  "drain_step E rep W = (r, W') \<Longrightarrow> cw_intents W' = cw_intents W \<and> proposals W' = proposals W \<and>
     quarantined W' = quarantined W \<and> cw_events W' = cw_events W"
  by (auto simp: drain_step_def Let_def split: if_splits sum.splits prod.splits)

lemma sweep_step_rest:
  "sweep_step E cfg rep W = (r, W') \<Longrightarrow> proposals W' = proposals W \<and> quarantined W' = quarantined W \<and>
     cw W' = cw W \<and>
     (cw_intents W' = cw_intents W \<or>
      (\<exists>res. sweep_intents (ce_sweep_fail E) (ce_now E) (cycle_stamp E) (cw_intents W) = (res, cw_intents W')))"
  by (auto simp: sweep_step_def split: if_splits sum.splits prod.splits)

lemma resolve_step_rest:
  "resolve_step E rep W = (r, W') \<Longrightarrow> cw_intents W' = cw_intents W \<and> proposals W' = proposals W \<and>
     quarantined W' = quarantined W \<and> cw W' = cw W"
  by (auto simp: resolve_step_def split: sum.splits prod.splits)

lemma proposal_step_rest:
  "proposal_step E cfg rep W = (r, W') \<Longrightarrow> cw_intents W' = cw_intents W \<and> quarantined W' = quarantined W \<and>
     cw W' = cw W"
  by (auto simp: proposal_step_def Let_def split: sum.splits prod.splits)

lemma execution_step_intents:
  assumes "execution_step E cfg control pc rep W = (r, W')"
    and "intent_reach (sched_intents cfg) (ce_now E) (cw_intents W)"
  shows "intent_reach (sched_intents cfg) (ce_now E) (cw_intents W')"
proof (cases "load_breaker_state (at_json (ce_attempt E)) (breaker_path E) (aw_files (cw W))")
  case (Inl e)
  then show ?thesis using assms by (simp add: execution_step_def Let_def)
next
  case (Inr b)
  define s0 where "s0 = \<lparr>es_report = (let gate = breaker_gate b (ce_now E);
              rep1 = rep\<lparr>rp_breaker_gate := breaker_gate_name gate\<rparr>
              in (if gate = Gate_Open then rep1\<lparr>rp_detail := gate_detail E b\<rparr> else rep1)),
      es_breaker = b, es_dirty = False, es_stop = False, es_texts = None, es_world = W\<rparr>"
  define ec where "ec = \<lparr>ec_guard = pc_guard pc, ec_opted_out = pc_opted_out pc, ec_invited = pc_invited pc,
                    ec_control = control, ec_gate = breaker_gate b (ce_now E)\<rparr>"
  obtain x s' where p: "execute_phase E cfg ec s0 = (x, s')" by fastforce
  have "intent_reach (sched_intents cfg) (ce_now E) (cw_intents (es_world s'))"
    using execute_phase_intents [OF p] assms(2) by (simp add: s0_def)
  moreover have "cw_intents W' = cw_intents (es_world s')"
    using assms(1) Inr p
    by (simp add: execution_step_def Let_def s0_def ec_def split: sum.splits prod.splits if_splits) auto
  ultimately show ?thesis by simp
qed

subsection \<open>Whole cycles\<close>

lemma written_unchanged:
  "drain_step E rep W = (Inr rep', W') \<Longrightarrow> rp_proposals_written rep' = rp_proposals_written rep"
  "sweep_step E cfg rep W = (Inr rep', W') \<Longrightarrow> rp_proposals_written rep' = rp_proposals_written rep"
  "resolve_step E rep W = (Inr rep', W') \<Longrightarrow> rp_proposals_written rep' = rp_proposals_written rep"
  by (auto simp: drain_step_def sweep_step_def resolve_step_def Let_def split: if_splits sum.splits prod.splits)

text \<open>
  What the stages before execution keep and execution turns into \<open>Q\<close> holds after a cycle, however
  it ends.
\<close>

lemma cycle_keeps:
  assumes run: "run_scheduler_cycle cfg E W = (r, W')" and P: "P W"
    and drain: "\<And>rep W r W'. drain_step E rep W = (r, W') \<Longrightarrow> P W \<Longrightarrow> P W'"
    and sweep: "\<And>rep W r W'. sweep_step E cfg rep W = (r, W') \<Longrightarrow> P W \<Longrightarrow> P W'"
    and resolve: "\<And>rep W r W'. resolve_step E rep W = (r, W') \<Longrightarrow> P W \<Longrightarrow> P W'"
    and propose: "\<And>rep W r W'. proposal_step E cfg rep W = (r, W') \<Longrightarrow> rp_proposals_written rep = 0 \<Longrightarrow> P W \<Longrightarrow> P W'"
    and execute: "\<And>control pc rep W r W'. execution_step E cfg control pc rep W = (r, W') \<Longrightarrow> P W \<Longrightarrow> Q W'"
    and finish: "\<And>W. P W \<Longrightarrow> Q W"
  shows "Q W'"
proof (cases "sched_enabled cfg")
  case False
  then show ?thesis using run finish [OF P] by (simp add: run_scheduler_cycle_def)
next
  case True
  obtain r1 W1 where 1: "drain_step E empty_cycle_report W = (r1, W1)" by fastforce
  note P1 = drain [OF 1 P]
  show ?thesis
  proof (cases r1)
    case (Inl e)
    then show ?thesis using run True 1 finish [OF P1] by (simp add: run_scheduler_cycle_def)
  next
    case r1: (Inr rep1)
    obtain r2 W2 where 2: "sweep_step E cfg rep1 W1 = (r2, W2)" by fastforce
    note P2 = sweep [OF 2 P1]
    show ?thesis
    proof (cases r2)
      case (Inl e)
      then show ?thesis using run True 1 r1 2 finish [OF P2] by (simp add: run_scheduler_cycle_def)
    next
      case r2: (Inr rep2)
      obtain r3 W3 where 3: "resolve_step E rep2 W2 = (r3, W3)" by fastforce
      note P3 = resolve [OF 3 P2]
      show ?thesis
      proof (cases r3)
        case (Inl e)
        then show ?thesis using run True 1 r1 2 r2 3 finish [OF P3] by (simp add: run_scheduler_cycle_def)
      next
        case r3: (Inr rep3)
        have "rp_proposals_written rep3 = 0"
          using written_unchanged 1 2 3 r1 r2 r3 by (metis empty_cycle_report_def SchedulerCycleReport.select_convs(4))
        moreover obtain r4 W4 where 4: "proposal_step E cfg rep3 W3 = (r4, W4)" by fastforce
        ultimately have P4: "P W4" using propose P3 by blast
        have next_stage: "run_scheduler_cycle cfg E W = (case r4 of Inl x \<Rightarrow> (Inl x, W4)
            | Inr (rep4, control, pc) \<Rightarrow> execution_step E cfg control pc rep4 W4)"
          using True 1 r1 2 r2 3 r3 4 by (simp add: run_scheduler_cycle_def split: sum.split)
        show ?thesis
        proof (cases r4)
          case (Inl e)
          then show ?thesis using run next_stage finish [OF P4] by simp
        next
          case (Inr q)
          obtain rep4 control pc where "q = (rep4, control, pc)" by (cases q)
          then have "execution_step E cfg control pc rep4 W4 = (r, W')" using run next_stage Inr by simp
          then show ?thesis using execute P4 by blast
        qed
      qed
    qed
  qed
qed

theorem cycle_keeps_conversations:
  fixes E :: "('a, 'b) cycle_env"
  assumes "run_scheduler_cycle cfg E W = (r, W')"
    and "intent_reach (sched_intents cfg) (ce_now E) (cw_intents W)"
  shows "intent_reach (sched_intents cfg) (ce_now E) (cw_intents W')"
proof (rule cycle_keeps [OF assms(1), where P = "\<lambda>W. intent_reach (sched_intents cfg) (ce_now E) (cw_intents W)"
      and Q = "\<lambda>W. intent_reach (sched_intents cfg) (ce_now E) (cw_intents W)"])
  fix rep r and W W' :: "'b cycle_world"
  assume I: "intent_reach (sched_intents cfg) (ce_now E) (cw_intents W)"
  show "drain_step E rep W = (r, W') \<Longrightarrow> intent_reach (sched_intents cfg) (ce_now E) (cw_intents W')"
    using drain_step_rest I by metis
  show "sweep_step E cfg rep W = (r, W') \<Longrightarrow> intent_reach (sched_intents cfg) (ce_now E) (cw_intents W')"
    using sweep_step_rest I reach_sweep by metis
  show "resolve_step E rep W = (r, W') \<Longrightarrow> intent_reach (sched_intents cfg) (ce_now E) (cw_intents W')"
    using resolve_step_rest I by metis
  show "proposal_step E cfg rep W = (q, W') \<Longrightarrow> intent_reach (sched_intents cfg) (ce_now E) (cw_intents W')" for q
    using proposal_step_rest I by metis
qed (use assms(2) execution_step_intents in blast)+

text \<open>
  The worlds an installation with this configuration can be in: cycles at instants that do not
  step back, and between them anything that leaves the conversations alone.
\<close>

inductive cycle_reach :: "'j cjson \<Rightarrow> SchedulerConfig \<Rightarrow> int \<Rightarrow> 'w cycle_world \<Rightarrow> bool" for J cfg where
  cycle_init: "cw_intents W = [] \<Longrightarrow> cycle_reach J cfg now W"
| cycle_other: "cycle_reach J cfg now W \<Longrightarrow> cw_intents W' = cw_intents W \<Longrightarrow> cycle_reach J cfg now W'"
| cycle_run: "cycle_reach J cfg now W \<Longrightarrow> now \<le> ce_now E \<Longrightarrow> at_json (ce_attempt E) = J \<Longrightarrow>
    run_scheduler_cycle cfg E W = (r, W') \<Longrightarrow>
    cycle_reach J cfg (ce_now E) W'"

lemma cycle_reach_intents: "cycle_reach J cfg now W \<Longrightarrow> intent_reach (sched_intents cfg) now (cw_intents W)"
proof (induction rule: cycle_reach.induct)
  case (cycle_init W now)
  then show ?case by (simp add: reach_empty)
next
  case (cycle_run now W E r W')
  then show ?case using cycle_keeps_conversations reach_later by blast
qed simp

subsection \<open>The network\<close>

lemma attempt_proposal_world:
  assumes "attempt_proposal E cfg name a s = (x, s')" and "ce_lock_ok E"
  shows "cw (es_world s') = snd (attempt_outbound_action (cycle_attempt E) a (ce_now E) (cw (es_world s)))"
proof -
  obtain r w where a: "attempt_outbound_action (cycle_attempt E) a (ce_now E) (cw (es_world s)) = (r, w)" by fastforce
  let ?rep = "(es_report s)\<lparr>rp_executions_attempted := Suc (rp_executions_attempted (es_report s))\<rparr>"
  let ?s1 = "s\<lparr>es_report := ?rep, es_world := (es_world s)\<lparr>cw := w\<rparr>\<rparr>"
  have "cw (es_world s') = w"
  proof (cases r)
    case (Inl e)
    then show ?thesis using assms a by (auto simp: attempt_proposal_def Let_def)
  next
    case (Inr res)
    consider "after_executed E cfg name a res ?s1 = (x, s')" | "after_failed E cfg name a res ?s1 = (x, s')"
      | "s' = ?s1\<lparr>es_report := ?rep\<lparr>rp_refused := Suc (rp_refused ?rep)\<rparr>\<rparr>"
      using assms a Inr by (cases "exe_outcome res") (simp_all add: attempt_proposal_def Let_def)
    then show ?thesis
    proof cases
      case 1
      from after_executed_effect [OF this] show ?thesis by simp
    next
      case 2
      from after_failed_effect [OF this] show ?thesis by simp
    next
      case 3
      then show ?thesis by simp
    qed
  qed
  then show ?thesis using a by simp
qed

end
