(* ===== verification/Scheduler_Queue.thy ===== *)
theory Scheduler_Queue
  imports Scheduler_Facts
begin

text \<open>
  What the proposal half of a cycle guarantees: how many proposals it writes, that a queued
  proposal is never rewritten and that a quarantined one is never proposed again.
\<close>

subsection \<open>One write\<close>

lemma tmp_is_no_proposal: "\<not> is_json_name (name @ ''.tmp'')"
proof -
  have "last (name @ ''.tmp'') = CHR ''p''" by simp
  moreover have "last n = CHR ''n''" if "is_json_name n" for n
  proof -
    have d: "5 < length n" "drop (length n - 5) n = ''.json''"
      using that by (auto simp: is_json_name_def json_stem_def split: if_splits)
    have "n = take (length n - 5) n @ ''.json''" using d(2) by (metis append_take_drop_id)
    then have "last n = last (take (length n - 5) n @ ''.json'')" by simp
    then show ?thesis by simp
  qed
  ultimately show ?thesis by force
qed

lemma write_proposal_map:
  assumes "write_proposal io name contents d = (r, d')" and "is_json_name n"
  shows "map_of d' n = map_of d n \<or> (n = name \<and> r = Inr () \<and> map_of d' n = Some (contents @ [newline]))"
proof -
  have "n \<noteq> name @ ''.tmp''" using assms(2) tmp_is_no_proposal by blast
  then show ?thesis using assms(1)
    by (auto simp: write_proposal_def Let_def map_of_dir_put map_of_dir_remove split: if_splits)
qed

lemma already_known_iff:
  "already_known name queue aside \<longleftrightarrow> map_of queue name \<noteq> None \<or> map_of aside name \<noteq> None"
  by (force simp: already_known_def list_ex_iff map_of_eq_None_iff)

subsection \<open>One candidate\<close>

text \<open>
  What considering one candidate does to the queue: nothing, or a new file under a name that was
  neither queued nor quarantined; and the counters move together.
\<close>

definition queue_grows :: "propose_context \<Rightarrow> propose_state \<Rightarrow> propose_state \<Rightarrow> bool" where
  "queue_grows pc s s' \<longleftrightarrow>
     (\<forall>n. is_json_name n \<longrightarrow> map_of (ps_queue s') n \<noteq> map_of (ps_queue s) n \<longrightarrow>
        map_of (ps_queue s) n = None \<and> map_of (pc_quarantine pc) n = None)"

definition one_more :: "propose_state \<Rightarrow> propose_state \<Rightarrow> bool" where
  "one_more s s' \<longleftrightarrow>
     (\<exists>k \<le> 1. rp_proposals_written (ps_report s') = rp_proposals_written (ps_report s) + k \<and>
              ps_pending s' = ps_pending s + k)"

lemma queue_grows_refl: "queue_grows pc s s"
  by (simp add: queue_grows_def)

lemma queue_grows_trans: "queue_grows pc s t \<Longrightarrow> queue_grows pc t u \<Longrightarrow> queue_grows pc s u"
  unfolding queue_grows_def by metis

lemma queue_grows_write:
  assumes "\<not> already_known name (ps_queue s) (pc_quarantine pc)"
    and "write_proposal io name contents (ps_queue s) = (r, q)" and "ps_queue s' = q"
  shows "queue_grows pc s s'"
  using assms write_proposal_map [OF assms(2)] by (fastforce simp: queue_grows_def already_known_iff)

lemma propose_like_step:
  assumes "propose_like E cfg pc c d s = (r, s')"
  shows "queue_grows pc s s'" and "one_more s s'"
proof -
  let ?name = "graduated_like_digest (cand_source_id c) d @ ''.json''"
  obtain x q where w: "write_proposal (ce_proposal_io E) ?name
      (serialise_outbound_action (at_json (ce_attempt E)) (like_action E c (graduated_like_digest (cand_source_id c) d)))
      (ps_queue s) = (x, q)" by fastforce
  show "queue_grows pc s s'"
    using assms queue_grows_write [OF _ w, of pc s']
    by (auto simp: propose_like_def Let_def w queue_grows_def split: if_splits sum.splits)
  show "one_more s s'"
    using assms by (auto simp: propose_like_def Let_def w one_more_def split: if_splits sum.splits)
qed

lemma propose_post_step:
  assumes "propose_post E cfg pc c d s = (r, s')"
  shows "queue_grows pc s s'" and "one_more s s'"
proof -
  let ?digest = "decision_digest (cand_payload c) d"
  obtain x q where w: "write_proposal (ce_proposal_io E) (?digest @ ''.json'')
      (serialise_outbound_action (at_json (ce_attempt E)) (post_action E (proposal_shape E cfg (pc_journal pc) c) d ?digest))
      (ps_queue s) = (x, q)" by fastforce
  show "queue_grows pc s s'"
    using assms queue_grows_write [OF _ w, of pc s']
    by (auto simp: propose_post_def Let_def w queue_grows_def split: if_splits sum.splits)
  show "one_more s s'"
    using assms by (auto simp: propose_post_def Let_def w one_more_def split: if_splits sum.splits)
qed

subsection \<open>The loop\<close>

lemma propose_loop_keeps:
  assumes "propose_loop E cfg pc candidates is s = (r, s')"
    and "rp_proposals_written (ps_report s) \<le> max_proposals cfg"
  shows "queue_grows pc s s' \<and> rp_proposals_written (ps_report s') \<le> max_proposals cfg \<and>
    ps_pending s' \<le> max (ps_pending s) (max_pending_proposals cfg) \<and>
    ps_pending s' + rp_proposals_written (ps_report s) = ps_pending s + rp_proposals_written (ps_report s')"
  using assms
proof (induction "is" arbitrary: s)
  case Nil
  then show ?case by (simp add: queue_grows_refl)
next
  case (Cons i "is")
  let ?rep = "ps_report s"
  show ?case
  proof (cases "max_proposals cfg \<le> rp_proposals_written ?rep \<or> max_pending_proposals cfg \<le> ps_pending s")
    case True
    then show ?thesis using Cons.prems by (auto simp: Let_def queue_grows_def split: if_splits)
  next
    case go: False
    show ?thesis
    proof (cases "ce_decide E (cand_payload (candidates ! i))")
      case (Inl x)
      then show ?thesis using Cons.prems go by (simp add: Let_def queue_grows_refl)
    next
      case (Inr d)
      obtain y s1 where p: "(if abstained d then propose_like E cfg pc (candidates ! i) d s
          else propose_post E cfg pc (candidates ! i) d s) = (y, s1)" by fastforce
      have grows: "queue_grows pc s s1" and more: "one_more s s1"
        using p propose_like_step propose_post_step by (metis)+
      have w: "rp_proposals_written (ps_report s1) \<le> max_proposals cfg"
        and b: "ps_pending s1 \<le> max (ps_pending s) (max_pending_proposals cfg)"
        and e: "ps_pending s1 + rp_proposals_written ?rep = ps_pending s + rp_proposals_written (ps_report s1)"
        using more go by (auto simp: one_more_def)
      show ?thesis
      proof (cases y)
        case (Inl x)
        then have "s' = s1" using Cons.prems(1) go Inr p by (simp add: Let_def)
        then show ?thesis using grows w b e by simp
      next
        case y: (Inr u)
        have "propose_loop E cfg pc candidates is s1 = (r, s')"
          using Cons.prems(1) go Inr p y by (simp add: Let_def)
        from Cons.IH [OF this w] show ?thesis
          using queue_grows_trans [OF grows, of s'] b e by auto
      qed
    qed
  qed
qed

subsection \<open>Whole cycles\<close>

theorem proposals_bounded:
  assumes "proposal_step E cfg rep W = (Inr (rep', control, pc), W')" and "rp_proposals_written rep = 0"
  shows "rp_proposals_written rep' \<le> max_proposals cfg \<and>
    (rp_proposals_written rep' = 0 \<or>
     count_proposals (proposals W) + rp_proposals_written rep' \<le> max_pending_proposals cfg)"
proof -
  obtain candidates order pc0 s r s1 where l: "propose_loop E cfg pc0 candidates order s = (r, s1)"
    and s: "rp_proposals_written (ps_report s) = 0" "ps_pending s = count_proposals (proposals W)"
    and rep': "rep' = ps_report s1"
    using assms by (auto simp: proposal_step_def Let_def split: sum.splits prod.splits)
  from propose_loop_keeps [OF l] s show ?thesis unfolding rep' by auto
qed

theorem proposals_never_rewritten:
  assumes "proposal_step E cfg rep W = (r, W')" and "rp_proposals_written rep = 0" and "is_json_name n"
  shows "map_of (proposals W) n = Some t \<Longrightarrow> map_of (proposals W') n = Some t"
    and "map_of (quarantined W) n = Some t \<Longrightarrow> map_of (proposals W') n = map_of (proposals W) n"
proof -
  have g: "map_of (proposals W') n = map_of (proposals W) n \<or>
      map_of (proposals W) n = None \<and> map_of (quarantined W) n = None"
  proof (cases "proposals W' = proposals W")
    case True
    then show ?thesis by simp
  next
    case False
    then obtain candidates order pc s x s1 where l: "propose_loop E cfg pc candidates order s = (x, s1)"
      and s: "rp_proposals_written (ps_report s) = 0" "ps_queue s = proposals W"
        "pc_quarantine pc = quarantined W" "proposals W' = ps_queue s1"
      using assms(1,2) by (auto simp: proposal_step_def Let_def split: sum.splits prod.splits)
    then show ?thesis using propose_loop_keeps [OF l] assms(3) by (auto simp: queue_grows_def)
  qed
  show "map_of (proposals W) n = Some t \<Longrightarrow> map_of (proposals W') n = Some t"
    and "map_of (quarantined W) n = Some t \<Longrightarrow> map_of (proposals W') n = map_of (proposals W) n"
    using g by auto
qed

lemma execution_step_dirs:
  assumes "execution_step E cfg control pc rep W = (r, W')"
  shows "(\<forall>n t. map_of (proposals W') n = Some t \<longrightarrow> map_of (proposals W) n = Some t) \<and>
    (\<forall>n. map_of (quarantined W) n \<noteq> None \<longrightarrow> map_of (quarantined W') n \<noteq> None)"
proof (cases "load_breaker_state (at_json (ce_attempt E)) (breaker_path E) (aw_files (cw W))")
  case (Inl e)
  then show ?thesis using assms by (simp add: execution_step_def Let_def)
next
  case (Inr b)
  obtain s0 ec where s0: "es_world s0 = W" and run: "execution_step E cfg control pc rep W =
      (case execute_phase E cfg ec s0 of
            (Inl x, s) \<Rightarrow> (Inl x, es_world s)
          | (Inr _, s) \<Rightarrow>
              let W1 = es_world s;
                  (sv, files) = (if es_dirty s
                    then save_breaker_state (at_json (ce_attempt E)) (ce_breaker_io E) (es_breaker s) (breaker_path E) (aw_files (cw W1))
                    else (Inr (), aw_files (cw W1)));
                  W2 = W1\<lparr>cw := (cw W1)\<lparr>aw_files := files\<rparr>\<rparr>;
                  rep3 = es_report s
              in case sv of
                   Inl x \<Rightarrow> (Inl x, W2)
                 | Inr _ \<Rightarrow>
                     (Inr (if rp_detail rep3 = [] then rep3\<lparr>rp_detail := ''scheduler cycle complete''\<rparr> else rep3), W2))"
    using Inr unfolding execution_step_def Let_def by simp (metis execute_state.select_convs(6))
  obtain x s' where p: "execute_phase E cfg ec s0 = (x, s')" by fastforce
  have dirs: "proposals W' = proposals (es_world s')" "quarantined W' = quarantined (es_world s')"
    using assms(1) p unfolding run by (auto simp: Let_def split: sum.splits prod.splits if_splits)
  let ?P = "\<lambda>s. (\<forall>n t. map_of (proposals (es_world s)) n = Some t \<longrightarrow> map_of (proposals W) n = Some t) \<and>
    (\<forall>n. map_of (quarantined W) n \<noteq> None \<longrightarrow> map_of (quarantined (es_world s)) n \<noteq> None)"
  have "?P s'"
  proof (rule execute_phase_keeps [OF p, where P = ?P])
    fix name a t y t'
    assume "?P t" and at: "attempt_proposal E cfg name a t = (y, t')"
    then show "?P t'" using attempt_proposal_effect [OF at] by (simp add: attempt_effect_def Let_def)
  qed (auto simp: same_but_counters_def s0)
  then show ?thesis unfolding dirs .
qed

text \<open>
  A file of the queue is left as it is or taken out, never rewritten; a quarantined proposal that
  is not queued stays out of the queue.
\<close>

theorem cycle_keeps_proposals:
  fixes E :: "('a, 'b) cycle_env"
  assumes "run_scheduler_cycle cfg E W = (r, W')" and n: "is_json_name n"
  shows "map_of (proposals W) n = Some t \<Longrightarrow> map_of (proposals W') n \<in> {None, Some t}"
    and "map_of (quarantined W) n \<noteq> None \<Longrightarrow> map_of (proposals W) n = None \<Longrightarrow> map_of (proposals W') n = None"
proof -
  let ?P = "\<lambda>V :: 'b cycle_world.
    (map_of (quarantined W) n \<noteq> None \<longrightarrow> map_of (quarantined V) n \<noteq> None) \<and>
    (map_of (quarantined W) n \<noteq> None \<longrightarrow> map_of (proposals W) n = None \<longrightarrow> map_of (proposals V) n = None) \<and>
    (\<forall>t. map_of (proposals W) n = Some t \<longrightarrow> map_of (proposals V) n = Some t)"
  let ?Q = "\<lambda>V :: 'b cycle_world.
    (map_of (quarantined W) n \<noteq> None \<longrightarrow> map_of (proposals W) n = None \<longrightarrow> map_of (proposals V) n = None) \<and>
    (\<forall>t. map_of (proposals W) n = Some t \<longrightarrow> map_of (proposals V) n \<in> {None, Some t})"
  have step: "?P V'" if "?P V" "proposal_step E cfg rep V = (q, V')" "rp_proposals_written rep = 0" for rep V q V'
    using that(1) proposals_never_rewritten [OF that(2,3) n] proposal_step_rest [OF that(2)] by fastforce
  have "?Q W'"
  proof (rule cycle_keeps [OF assms(1), where P = ?P and Q = ?Q])
    fix rep control pc r and V V' :: "'b cycle_world"
    assume P: "?P V"
    show "drain_step E rep V = (r, V') \<Longrightarrow> ?P V'" using drain_step_rest P by metis
    show "sweep_step E cfg rep V = (r, V') \<Longrightarrow> ?P V'" using sweep_step_rest P by metis
    show "resolve_step E rep V = (r, V') \<Longrightarrow> ?P V'" using resolve_step_rest P by metis
    show "?P V'" if "proposal_step E cfg rep V = (q, V')" "rp_proposals_written rep = 0" for q
      using step [OF P that] .
    show "?Q V" using P by simp
    show "?Q V'" if e: "execution_step E cfg control pc rep V = (r, V')"
    proof (cases "map_of (proposals V') n")
      case (Some u)
      then have "map_of (proposals V) n = Some u" using execution_step_dirs [OF e] by blast
      then show ?thesis using P Some by (cases "map_of (proposals W) n") auto
    qed simp
  qed simp_all
  then show "map_of (proposals W) n = Some t \<Longrightarrow> map_of (proposals W') n \<in> {None, Some t}"
    and "map_of (quarantined W) n \<noteq> None \<Longrightarrow> map_of (proposals W) n = None \<Longrightarrow> map_of (proposals W') n = None"
    by blast+
qed

end
