(* ===== verification/Samples_Cycle.thy ===== *)
theory Samples_Cycle
  imports Samples Samples_Stores Scheduler_Queue
begin

text \<open>A cycle of the scheduler over the sample installation: one queued proposal, approved by its digest.\<close>

definition sample_decision :: ActionDecision where
  "sample_decision =
     \<lparr>abstained = True, abstain_reason = Abstain_EmptyContext, plan_steps = [], plan_score = 0,
      stop_reason = Stop_None, raw_plan_count = 0, viable_plan_count = 0\<rparr>"

definition sample_graph :: graph_view where
  "sample_graph =
     \<lparr>episode_authors = [], has_token = (\<lambda>_. False), familiarity = (\<lambda>_. 0), tokenize = (\<lambda>_. [])\<rparr>"

definition sample_cycle_env :: "(string option \<times> node, nat) cycle_env" where
  "sample_cycle_env =
     \<lparr>ce_attempt = sample_env, ce_now = 1000, ce_clock = None, ce_graph = sample_graph,
      ce_decide = (\<lambda>_. Inr sample_decision), ce_ledger = [], ce_payload = (\<lambda>_. []), ce_getenv = (\<lambda>_. None),
      ce_data_dir = ''d'', ce_sweep_fail = None, ce_resolve_fail = None, ce_intent_ok = True,
      ce_proposal_io = io_ok, ce_breaker_io = io_ok, ce_lock_ok = True, ce_remove_ok = True,
      ce_quarantine_ok = True\<rparr>"

definition sample_name :: string where
  "sample_name = ''0123456789abcdef.json''"

definition sample_cycle_world :: "nat cycle_world" where
  "sample_cycle_world =
     \<lparr>cw = sample_world, cw_events = [], cw_intents = [], cw_resolutions = [],
      proposals = [(sample_name, ''{}'')], quarantined = [(''ffffffffffffffff.json'', ''{}'')]\<rparr>"

definition sample_context :: execute_context where
  "sample_context =
     \<lparr>ec_guard = default_text_guard, ec_opted_out = nobody, ec_invited = {},
      ec_control = default_control_state\<lparr>approved_digests := [''0123456789abcdef'']\<rparr>, ec_gate = Gate_Closed\<rparr>"

definition sample_start :: "nat execute_state" where
  "sample_start =
     \<lparr>es_report = empty_cycle_report, es_breaker = closed_breaker, es_dirty = False, es_stop = False,
      es_texts = None, es_world = sample_cycle_world\<rparr>"

definition sample_config :: SchedulerConfig where
  "sample_config = default_scheduler_config\<lparr>sched_enabled := True, sched_intents := sample_intents\<rparr>"

lemma sample_document: "parse_outbound_action sample_json ''{}'' src = Inr sample_action"
proof -
  have p: "serialise_outbound_action sample_json sample_action = ''{}''"
    by (simp add: serialise_outbound_action_def sample_json_def table_simps)
  have "reads_back sample_json ''{}'' (action_fields sample_action)"
    unfolding sample_json_def by (rule table_reads_back [OF _ sample_actions_keyed(1)]) (simp add: sample_parse_def)
  then show ?thesis using action_round_trip [OF _ sample_actions_ok(1), of sample_json src] by (simp add: p)
qed

lemma sample_text_passes: "verdict_allowed (check_output_text ''hello'' default_text_guard [] 1000)"
proof -
  have "utf8_codepoints ''hello'' = Some 5"
    by (simp add: utf8_char_def utf8_lead_def code_def utf8_rejected_def)
  moreover have "\<not> list_all is_space ''hello''" "lower_ascii ''hello'' = ''hello''" by code_simp+
  moreover have "\<not> followed_by_word ''hello'' (CHR ''@'')" "\<not> followed_by_word ''hello'' (CHR ''#'')"
    "\<not> contains_sub ''hello'' ''did:''" by code_simp+
  moreover have "\<not> contains_sub ''hello'' ''://''" "\<not> contains_sub ''hello'' ''www.''"
    "\<not> contains_word ''hello'' ''http''" "\<not> contains_word ''hello'' ''https''"
    "\<not> contains_word ''hello'' ''www''" "\<not> has_domain_shape ''hello''" by code_simp+
  ultimately show ?thesis
    unfolding check_allowed_iff has_url_def by (simp add: default_text_guard_def denied_by_def is_repeat_def)
qed

lemma sample_considered:
  "consider_proposal sample_cycle_env sample_config sample_context sample_name (sample_start\<lparr>es_breaker := b\<rparr>) =
     attempt_proposal sample_cycle_env sample_config sample_name sample_action (sample_start\<lparr>es_breaker := b, es_texts := Some []\<rparr>)"
  using sample_text_passes
  by (simp add: consider_proposal_def sample_start_def sample_cycle_world_def sample_cycle_env_def sample_env_def
      sample_document sample_action_def is_text_kind_def sample_world_def executed_texts_def sample_context_def
      action_target_did_def check_engagement_def authorizable_def is_digest_approved_def Let_def)

lemma sample_json_name: "is_json_name sample_name"
  by (simp add: is_json_name_def json_stem_def sample_name_def)

lemma sample_phase:
  "execute_phase sample_cycle_env sample_config sample_context sample_start = (x, s') \<Longrightarrow>
     aw_net (cw (es_world s')) = 2"
proof -
  assume p: "execute_phase sample_cycle_env sample_config sample_context sample_start = (x, s')"
  have names: "sort (filter is_json_name (map fst (proposals (es_world sample_start)))) = [sample_name]"
    using sample_json_name by (simp add: sample_start_def sample_cycle_world_def)
  define b where "b = retain_proposals (set (List.map_filter json_stem [sample_name])) (es_breaker sample_start)"
  obtain y t where a: "attempt_proposal sample_cycle_env sample_config sample_name sample_action
      (sample_start\<lparr>es_breaker := b, es_texts := Some []\<rparr>) = (y, t)" by fastforce
  have free: "ec_gate sample_context = Gate_Closed" "max_executions sample_config = 1" "max_cycle_ms sample_config = 0"
    "\<not> es_stop (sample_start\<lparr>es_breaker := b\<rparr>)"
    "rp_executions_attempted (es_report (sample_start\<lparr>es_breaker := b\<rparr>)) = 0"
    by (simp_all add: sample_context_def sample_config_def default_scheduler_config_def sample_start_def
        empty_cycle_report_def)
  have "execute_loop sample_cycle_env sample_config sample_context 0 [sample_name] (sample_start\<lparr>es_breaker := b\<rparr>) = (x, s')"
    using p free by (simp only: execute_phase_def Let_def names b_def [symmetric]) simp
  then have "s' = t"
    using free by (simp add: sample_considered a split: sum.splits)
  have "aw_net (cw (es_world t)) = 2"
    using attempt_proposal_world [OF a] sample_executes
    by (simp add: sample_cycle_env_def cycle_attempt_def sample_start_def sample_cycle_world_def sample_env_def)
  then show ?thesis using \<open>s' = t\<close> by simp
qed

end
