(* ===== verification/Core_Index.thy ===== *)
theory Core_Index
  imports Core_Format
begin

text \<open>
  The deduplication index of the observation ledger (src/src/core/ledger/index.c): open
  addressing over a power-of-two table, probed linearly.  A slot holds a key and the position of
  an entry.  The probe loop of the source has no bound of its own, so \<open>probe\<close> is a partial
  function: \<open>None\<close> is a loop that never ends.  The lemmas show that it ends in every table with
  room, and that the table finds exactly what a search of the entries would.
\<close>

unbundle bit_operations_syntax

type_synonym slots = "(u64 \<times> nat) option list"

partial_function (option) probe :: "('a \<Rightarrow> bool) \<Rightarrow> 'a option list \<Rightarrow> nat \<Rightarrow> nat option" where
  "probe hit slots s =
     (case slots ! s of
        None \<Rightarrow> Some s
      | Some x \<Rightarrow> if hit x then Some s else probe hit slots ((s + 1) AND (length slots - 1)))"

definition home :: "u64 \<Rightarrow> nat \<Rightarrow> nat" where
  "home key sz = unat key AND (sz - 1)"

definition ledger_key :: "string \<Rightarrow> u64 \<Rightarrow> u64" where
  "ledger_key source digest = fold fnv_byte (source @ le_bytes 8 (unat digest)) 1469598103934665603"

text \<open>\<open>atp_ledger_index_insert\<close>.\<close>

definition index_insert :: "slots \<Rightarrow> u64 \<Rightarrow> nat \<Rightarrow> slots option" where
  "index_insert slots key i =
     map_option (\<lambda>p. slots[p := Some (key, i)]) (probe (\<lambda>_. False) slots (home key (length slots)))"

text \<open>The doubling of the table size; \<open>None\<close> when it would not fit a \<open>size_t\<close>.\<close>

function grow_target :: "nat \<Rightarrow> nat \<Rightarrow> nat option" where
  "grow_target need target =
     (if need \<le> target \<or> target = 0 then Some target
      else if 2 ^ 64 div 2 \<le> target then None
      else grow_target need (target * 2))"
  by auto
termination
  by (relation "measure (\<lambda>(need, target). need - target)") auto

declare grow_target.simps [simp del]

fun fill_index :: "u64 list \<Rightarrow> nat \<Rightarrow> slots \<Rightarrow> slots option" where
  "fill_index [] i slots = Some slots"
| "fill_index (k # ks) i slots = Option.bind (index_insert slots k i) (fill_index ks (Suc i))"

text \<open>
  \<open>atp_ledger_index_ensure_capacity\<close> for a ledger with these keys: \<open>Some None\<close> when the table
  cannot grow.
\<close>

definition index_ensure :: "u64 list \<Rightarrow> slots \<Rightarrow> slots option option" where
  "index_ensure keys slots =
     (let n = length keys + 1 in
      if slots \<noteq> [] \<and> n \<le> length slots * 7 div 10 then Some (Some slots)
      else case grow_target (n * 10 div 7 + 1) (if slots \<noteq> [] then length slots * 2 else 8) of
        None \<Rightarrow> Some None
      | Some sz \<Rightarrow> map_option Some (fill_index keys 0 (replicate sz None)))"

subsection \<open>Probing ends\<close>

lemma mask_mod: "p AND (2 ^ k - 1) = p mod (2 ^ k :: nat)"
  by (simp add: take_bit_eq_mask mask_eq_exp_minus_1 flip: take_bit_eq_mod)

lemma home_mod: "home key (2 ^ k) = unat key mod 2 ^ k"
  by (simp only: home_def mask_mod)

text \<open>The first slot, counted from \<open>s\<close>, that is empty or hit is where the probe stops.\<close>

lemma probe_stops:
  assumes "length slots = 2 ^ k" and "s < length slots"
    and "\<And>d. d < D \<Longrightarrow> \<exists>x. slots ! ((s + d) mod length slots) = Some x \<and> \<not> hit x"
    and "case slots ! ((s + D) mod length slots) of None \<Rightarrow> True | Some x \<Rightarrow> hit x"
  shows "probe hit slots s = Some ((s + D) mod length slots)"
  using assms(2,3,4)
proof (induction D arbitrary: s)
  case 0
  then show ?case by (subst probe.simps) (auto split: option.splits)
next
  case (Suc D)
  let ?n = "length slots" and ?t = "(s + 1) mod length slots"
  obtain x where x: "slots ! s = Some x" "\<not> hit x" using Suc.prems(2) [of 0] Suc.prems(1) by auto
  have t: "?t < ?n" using Suc.prems(1) by (intro mod_less_divisor) auto
  have shift: "(?t + d) mod ?n = (s + Suc d) mod ?n" for d by (simp add: mod_add_left_eq)
  have "probe hit slots ?t = Some ((?t + D) mod ?n)"
  proof (rule Suc.IH [OF t])
    show "\<exists>x. slots ! ((?t + d) mod ?n) = Some x \<and> \<not> hit x" if "d < D" for d
      using Suc.prems(2) [of "Suc d"] that unfolding shift by simp
    show "case slots ! ((?t + D) mod ?n) of None \<Rightarrow> True | Some x \<Rightarrow> hit x"
      using Suc.prems(3) unfolding shift .
  qed
  moreover have "(s + 1) AND (?n - 1) = ?t" unfolding assms(1) by (rule mask_mod)
  then have "probe hit slots s = probe hit slots ?t" using x by (subst probe.simps) simp
  ultimately show ?case using shift [of D] by simp
qed

text \<open>The distance of an empty slot bounds the probe, so one empty slot is enough.\<close>

lemma probe_ends:
  assumes "length slots = 2 ^ k" and "s < length slots" and "e < length slots" and "slots ! e = None"
  obtains D where "D < length slots" "probe hit slots s = Some ((s + D) mod length slots)"
    "\<And>d. d < D \<Longrightarrow> \<exists>x. slots ! ((s + d) mod length slots) = Some x \<and> \<not> hit x"
    "case slots ! ((s + D) mod length slots) of None \<Rightarrow> True | Some x \<Rightarrow> hit x"
proof -
  let ?n = "length slots"
  let ?stop = "\<lambda>d. case slots ! ((s + d) mod ?n) of None \<Rightarrow> True | Some x \<Rightarrow> hit x"
  define E where "E = (e + ?n - s) mod ?n"
  have "(s + E) mod ?n = (s + (e + ?n - s)) mod ?n" unfolding E_def by (rule mod_add_right_eq)
  also have "s + (e + ?n - s) = e + ?n" using assms(2) by simp
  finally have "(s + E) mod ?n = e" using assms(3) by simp
  then have E: "?stop E" using assms(4) by simp
  define D where "D = (LEAST d. ?stop d)"
  have D: "?stop D" unfolding D_def by (rule LeastI [of ?stop, OF E])
  have "D \<le> E" unfolding D_def by (rule Least_le [of ?stop, OF E])
  moreover have "E < ?n" unfolding E_def using assms(2) by (intro mod_less_divisor) auto
  ultimately have less: "D < ?n" by simp
  have before: "\<exists>x. slots ! ((s + d) mod ?n) = Some x \<and> \<not> hit x" if "d < D" for d
    using not_less_Least [of d ?stop] that unfolding D_def by (auto split: option.splits)
  show thesis by (rule that [OF less probe_stops [OF assms(1,2) before D] before D])
qed

subsection \<open>The table represents the entries\<close>

definition index_ok :: "u64 list \<Rightarrow> slots \<Rightarrow> bool" where
  "index_ok keys slots \<longleftrightarrow>
     (\<exists>k. length slots = 2 ^ k) \<and>
     card {p. p < length slots \<and> slots ! p \<noteq> None} = length keys \<and>
     (\<forall>i < length keys. \<exists>p < length slots. slots ! p = Some (keys ! i, i)) \<and>
     (\<forall>p < length slots. \<forall>key i. slots ! p = Some (key, i) \<longrightarrow>
        i < length keys \<and> key = keys ! i \<and>
        (\<forall>d < (p + length slots - home key (length slots)) mod length slots.
           slots ! ((home key (length slots) + d) mod length slots) \<noteq> None))"

lemma index_ok_find:
  assumes "index_ok keys slots" and "i < length keys"
  obtains p where "p < length slots" "slots ! p = Some (keys ! i, i)"
  using assms unfolding index_ok_def by blast

lemma index_ok_slot:
  assumes "index_ok keys slots" and "p < length slots" and "slots ! p = Some (key, i)"
  shows "i < length keys" and "key = keys ! i"
    and "d < (p + length slots - home key (length slots)) mod length slots \<Longrightarrow>
      slots ! ((home key (length slots) + d) mod length slots) \<noteq> None"
  using assms unfolding index_ok_def by blast+

lemma index_ok_power: "index_ok keys slots \<Longrightarrow> \<exists>k. length slots = 2 ^ k"
  unfolding index_ok_def by blast

lemma index_ok_empty: "index_ok [] (replicate (2 ^ k) None)"
  by (auto simp: index_ok_def)

lemma index_room:
  assumes "index_ok keys slots" and "length keys < length slots"
  obtains e where "e < length slots" "slots ! e = None"
proof -
  have "\<exists>e < length slots. slots ! e = None"
  proof (rule ccontr)
    assume "\<not> ?thesis"
    then have "{p. p < length slots \<and> slots ! p \<noteq> None} = {..< length slots}" by auto
    then show False using assms by (simp add: index_ok_def)
  qed
  then show thesis using that by blast
qed

lemma dist_mod:
  assumes "h < n" and "D < (n :: nat)"
  shows "((h + D) mod n + n - h) mod n = D"
proof (cases "h + D < n")
  case True
  then show ?thesis using assms by simp
next
  case False
  then have "(h + D) mod n = h + D - n" using assms by (simp add: mod_if)
  then show ?thesis using assms False by simp
qed

lemma index_insert_ok:
  assumes ok: "index_ok keys slots" and room: "length keys < length slots"
  shows "\<exists>slots'. index_insert slots key (length keys) = Some slots' \<and> index_ok (keys @ [key]) slots' \<and>
    length slots' = length slots"
proof -
  let ?n = "length slots" and ?h = "home key (length slots)"
  obtain k where k: "?n = 2 ^ k" using index_ok_power [OF ok] by blast
  have h: "?h < ?n" by (simp add: k home_mod)
  obtain e where e: "e < ?n" "slots ! e = None" using index_room [OF ok room] by blast
  obtain D where D: "D < ?n" "probe (\<lambda>_. False) slots ?h = Some ((?h + D) mod ?n)"
    "\<And>d. d < D \<Longrightarrow> \<exists>x. slots ! ((?h + d) mod ?n) = Some x \<and> \<not> False"
    "case slots ! ((?h + D) mod ?n) of None \<Rightarrow> True | Some x \<Rightarrow> False"
    by (rule probe_ends [OF k h e, of "\<lambda>_. False"]) blast
  define p where "p = (?h + D) mod ?n"
  define slots' where "slots' = slots[p := Some (key, length keys)]"
  have p: "p < ?n" "slots ! p = None"
    using D(4) h unfolding p_def by (auto intro: mod_less_divisor split: option.splits)
  have len: "length slots' = ?n" by (simp add: slots'_def)
  have at': "slots' ! q = (if q = p then Some (key, length keys) else slots ! q)" if "q < ?n" for q
    using that by (simp add: slots'_def)
  have grows: "slots ! q \<noteq> None \<Longrightarrow> slots' ! q \<noteq> None" if "q < ?n" for q using at' [OF that] by simp
  have card: "card {q. q < ?n \<and> slots' ! q \<noteq> None} = length (keys @ [key])"
  proof -
    have "{q. q < ?n \<and> slots' ! q \<noteq> None} = insert p {q. q < ?n \<and> slots ! q \<noteq> None}"
      using p(1) at' by (auto split: if_splits)
    then show ?thesis using ok p(2) by (simp add: index_ok_def)
  qed
  have found: "\<exists>q < ?n. slots' ! q = Some ((keys @ [key]) ! i, i)" if i: "i < length (keys @ [key])" for i
  proof (cases "i < length keys")
    case True
    then obtain q where q: "q < ?n" "slots ! q = Some (keys ! i, i)" using index_ok_find [OF ok] by blast
    then have "q \<noteq> p" using p(2) by auto
    then show ?thesis using q at' True by (intro exI [of _ q]) (simp add: nth_append)
  next
    case False
    then have "i = length keys" using i by simp
    then show ?thesis using p(1) at' by (intro exI [of _ p]) simp
  qed
  have chains: "i < length (keys @ [key]) \<and> key' = (keys @ [key]) ! i \<and>
      (\<forall>d < (q + ?n - home key' ?n) mod ?n. slots' ! ((home key' ?n + d) mod ?n) \<noteq> None)"
    if q: "q < ?n" and s: "slots' ! q = Some (key', i)" for q key' i
  proof (cases "q = p")
    case True
    then have i: "key' = key" "i = length keys" using s at' [OF q] by auto
    have "(q + ?n - ?h) mod ?n = D" unfolding True p_def by (rule dist_mod [OF h D(1)])
    moreover have "slots' ! ((?h + d) mod ?n) \<noteq> None" if "d < D" for d
    proof -
      have "(?h + d) mod ?n < ?n" using h by (intro mod_less_divisor) auto
      then show ?thesis using grows D(3) [OF that] by auto
    qed
    ultimately show ?thesis using i by simp
  next
    case False
    then have "slots ! q = Some (key', i)" using s at' [OF q] by simp
    then have old: "i < length keys" "key' = keys ! i"
      "\<forall>d < (q + ?n - home key' ?n) mod ?n. slots ! ((home key' ?n + d) mod ?n) \<noteq> None"
      using index_ok_slot [OF ok q] by blast+
    have "(home key' ?n + d) mod ?n < ?n" for d using h by (intro mod_less_divisor) auto
    then show ?thesis using old grows by (simp add: nth_append)
  qed
  have "index_ok (keys @ [key]) slots'"
    unfolding index_ok_def len using k card found chains by blast
  moreover have "index_insert slots key (length keys) = Some slots'"
    by (simp add: index_insert_def D(2) slots'_def p_def)
  ultimately show ?thesis using len by blast
qed

lemma fill_index_ok:
  assumes "index_ok keys slots" and "length keys + length ks < length slots"
  shows "\<exists>slots'. fill_index ks (length keys) slots = Some slots' \<and> index_ok (keys @ ks) slots' \<and>
    length slots' = length slots"
  using assms
proof (induction ks arbitrary: keys slots)
  case Nil
  then show ?case by simp
next
  case (Cons k ks)
  obtain slots1 where s: "index_insert slots k (length keys) = Some slots1" "index_ok (keys @ [k]) slots1"
    "length slots1 = length slots"
    using index_insert_ok [OF Cons.prems(1), of k] Cons.prems(2) by auto
  have "\<exists>slots'. fill_index ks (length (keys @ [k])) slots1 = Some slots' \<and> index_ok ((keys @ [k]) @ ks) slots' \<and>
      length slots' = length slots1"
    using Cons.prems(2) s(3) by (intro Cons.IH [OF s(2)]) simp
  then show ?case using s by auto
qed

subsection \<open>Growing\<close>

lemma grow_target_power:
  assumes "target = 2 ^ j" and "grow_target need target = Some sz"
  shows "need \<le> sz \<and> (\<exists>k. sz = 2 ^ k)"
  using assms
proof (induction need target arbitrary: j rule: grow_target.induct)
  case (1 need target)
  show ?case
  proof (cases "need \<le> target")
    case True
    then show ?thesis using 1(2,3) by (auto simp: grow_target.simps)
  next
    case False
    moreover have "target \<noteq> 0" using 1(2) by simp
    ultimately have eq: "grow_target need target =
        (if 2 ^ 64 div 2 \<le> target then None else grow_target need (target * 2))"
      by (subst grow_target.simps) simp
    have c: "\<not> (need \<le> target \<or> target = 0)" "\<not> 2 ^ 64 div 2 \<le> target"
      using False \<open>target \<noteq> 0\<close> 1(3) unfolding eq by (simp_all split: if_splits)
    have "grow_target need (target * 2) = Some sz" using 1(3) c unfolding eq by simp
    moreover have "target * 2 = 2 ^ Suc j" using 1(2) by simp
    ultimately show ?thesis using 1(1) [OF c] by blast
  qed
qed

definition index_fits :: "u64 list \<Rightarrow> slots \<Rightarrow> bool" where
  "index_fits keys slots \<longleftrightarrow> (if slots = [] then keys = [] else index_ok keys slots \<and> length keys < length slots)"

lemma index_fitsI: "index_ok keys slots \<Longrightarrow> length keys < length slots \<Longrightarrow> index_fits keys slots"
  by (auto simp: index_fits_def)

lemma index_ensure_ok:
  assumes "index_fits keys slots"
  shows "index_ensure keys slots = Some None \<or>
    (\<exists>slots'. index_ensure keys slots = Some (Some slots') \<and> index_ok keys slots' \<and> length keys + 1 < length slots')"
proof (cases "slots \<noteq> [] \<and> length keys + 1 \<le> length slots * 7 div 10")
  case True
  then have "length keys + 1 < length slots" by (cases slots) auto
  then show ?thesis using True assms by (simp add: index_ensure_def index_fits_def)
next
  case small: False
  define target where "target = (if slots \<noteq> [] then length slots * 2 else 8 :: nat)"
  have pow: "\<exists>j. target = 2 ^ j"
  proof (cases "slots = []")
    case True
    then show ?thesis unfolding target_def by (intro exI [of _ 3]) simp
  next
    case False
    then obtain k where "length slots = 2 ^ k" using assms by (auto simp: index_fits_def index_ok_def)
    then show ?thesis using False unfolding target_def by (intro exI [of _ "Suc k"]) simp
  qed
  show ?thesis
  proof (cases "grow_target ((length keys + 1) * 10 div 7 + 1) target")
    case None
    then show ?thesis using small by (auto simp: index_ensure_def Let_def target_def)
  next
    case (Some sz)
    then obtain k where k: "(length keys + 1) * 10 div 7 + 1 \<le> sz" "sz = 2 ^ k"
      using grow_target_power pow by blast
    have "(length keys + 1) * 7 div 7 \<le> (length keys + 1) * 10 div 7" by (rule div_le_mono) simp
    then have room: "length keys + 1 < sz" using k(1) by simp
    obtain slots' where "fill_index keys 0 (replicate sz None) = Some slots'" "index_ok keys slots'"
      "length slots' = sz"
      using fill_index_ok [OF index_ok_empty [of k], of keys] room by (auto simp: k(2))
    then show ?thesis using small Some room by (auto simp: index_ensure_def Let_def target_def)
  qed
qed

text \<open>Building the table from nothing, as recovery does.\<close>

lemma index_ensure_fresh:
  "index_ensure keys [] = Some None \<or>
    (\<exists>slots'. index_ensure keys [] = Some (Some slots') \<and> index_ok keys slots' \<and> length keys + 1 < length slots')"
proof (cases "grow_target ((length keys + 1) * 10 div 7 + 1) 8")
  case None
  then show ?thesis by (simp add: index_ensure_def)
next
  case (Some sz)
  have "(8 :: nat) = 2 ^ 3" by simp
  then obtain k where k: "(length keys + 1) * 10 div 7 + 1 \<le> sz" "sz = 2 ^ k"
    using grow_target_power Some by blast
  have "(length keys + 1) * 7 div 7 \<le> (length keys + 1) * 10 div 7" by (rule div_le_mono) simp
  then have room: "length keys + 1 < sz" using k(1) by simp
  obtain slots' where "fill_index keys 0 (replicate sz None) = Some slots'" "index_ok keys slots'"
    "length slots' = sz"
    using fill_index_ok [OF index_ok_empty [of k], of keys] room by (auto simp: k(2))
  then show ?thesis using Some room by (auto simp: index_ensure_def Let_def)
qed

subsection \<open>Searching\<close>

definition index_find :: "(nat \<Rightarrow> bool) \<Rightarrow> u64 \<Rightarrow> slots \<Rightarrow> nat option option" where
  "index_find match key slots =
     map_option (\<lambda>p. map_option snd (slots ! p))
       (probe (\<lambda>(k, i). k = key \<and> match i) slots (home key (length slots)))"

theorem index_find_iff:
  assumes ok: "index_ok keys slots" and room: "length keys < length slots"
  obtains r where "index_find match key slots = Some r"
    "r = None \<Longrightarrow> \<forall>i < length keys. \<not> (keys ! i = key \<and> match i)"
    "\<And>i. r = Some i \<Longrightarrow> i < length keys \<and> keys ! i = key \<and> match i"
proof -
  let ?n = "length slots" and ?h = "home key (length slots)"
  let ?hit = "\<lambda>(k, i). k = key \<and> match i"
  obtain k where k: "?n = 2 ^ k" using index_ok_power [OF ok] by blast
  have h: "?h < ?n" by (simp add: k home_mod)
  obtain e where e: "e < ?n" "slots ! e = None" using index_room [OF ok room] by blast
  obtain D where D: "D < ?n" "probe ?hit slots ?h = Some ((?h + D) mod ?n)"
    "\<And>d. d < D \<Longrightarrow> \<exists>x. slots ! ((?h + d) mod ?n) = Some x \<and> \<not> ?hit x"
    "case slots ! ((?h + D) mod ?n) of None \<Rightarrow> True | Some x \<Rightarrow> ?hit x"
    by (rule probe_ends [OF k h e, of ?hit]) blast
  define p where "p = (?h + D) mod ?n"
  have p: "p < ?n" unfolding p_def using h by (intro mod_less_divisor) auto
  have find: "index_find match key slots = Some (map_option snd (slots ! p))"
    by (simp add: index_find_def D(2) p_def)
  show thesis
  proof (rule that [OF find])
    fix i assume "map_option snd (slots ! p) = Some i"
    then obtain key' where s: "slots ! p = Some (key', i)" by auto
    then have "i < length keys" "key' = keys ! i" using index_ok_slot [OF ok p] by blast+
    then show "i < length keys \<and> keys ! i = key \<and> match i" using D(4) s by (simp add: p_def [symmetric])
  next
    assume "map_option snd (slots ! p) = None"
    then have none: "slots ! p = None" by simp
    show "\<forall>i < length keys. \<not> (keys ! i = key \<and> match i)"
    proof (intro allI impI notI)
      fix i assume i: "i < length keys" "keys ! i = key \<and> match i"
      then obtain q where q: "q < ?n" "slots ! q = Some (key, i)" using index_ok_find [OF ok i(1)] by auto
      define E where "E = (q + ?n - ?h) mod ?n"
      have chain: "\<forall>d < E. slots ! ((?h + d) mod ?n) \<noteq> None"
        using index_ok_slot(3) [OF ok q] unfolding E_def by blast
      have "(?h + E) mod ?n = (?h + (q + ?n - ?h)) mod ?n" unfolding E_def by (rule mod_add_right_eq)
      also have "?h + (q + ?n - ?h) = q + ?n" using h by simp
      finally have E: "(?h + E) mod ?n = q" using q(1) by simp
      consider "D < E" | "D = E" | "E < D" by linarith
      then show False
      proof cases
        case 1
        then have "slots ! p \<noteq> None" using chain unfolding p_def by blast
        then show ?thesis using none by blast
      next
        case 2
        then show ?thesis using E none q(2) by (simp add: p_def)
      next
        case 3
        then show ?thesis using D(3) [OF 3] E q(2) i(2) by auto
      qed
    qed
  qed
qed

end
