(* ===== verification/Core_Ledger.thy ===== *)
theory Core_Ledger
  imports Core_Index
begin

text \<open>
  The observation ledger in memory and on disk (src/src/core/ledger: off.c, commit.c, append.c,
  outcome.c, query.c).  The arrays of the ledger are one list of items; the log and its commit
  marker are files.  What the system calls of a commit do is \<open>commit_io\<close>, what the allocator
  does the flags of \<open>append_io\<close>.  A \<open>char *\<close> argument is its string, so it has no NUL inside.
\<close>

datatype Status = ATP_OK | ATP_ERR_INVALID_ARGUMENT | ATP_ERR_OUT_OF_MEMORY | ATP_ERR_IO |
  ATP_ERR_FORMAT | ATP_ERR_NOT_FOUND | ATP_ERR_SCHEMA | ATP_ERR_CAPACITY | ATP_ERR_MIGRATION

datatype LedgerResult = Led_NotFound | Led_New | Led_ExistsPending | Led_ExistsCommitted

type_synonym item = "LedgerEntry \<times> payload \<times> ConversationContext"

record core_ledger =
  cl_items :: "item list"
  cl_committed :: nat
  cl_slots :: slots

record ledger_disk =
  d_log :: "string option"
  d_off :: "string option"

definition item_key :: "item \<Rightarrow> u64" where
  "item_key x = ledger_key (led_source_id (fst x)) (led_digest (fst x))"

subsection \<open>The commit marker\<close>

definition off_magic :: string where
  "off_magic = ''ATPLOF03''"

definition off_bytes :: "nat \<Rightarrow> nat \<Rightarrow> string" where
  "off_bytes count offset = off_magic @ le_bytes 4 3 @ le_bytes 8 count @ le_bytes 8 offset"

definition read_off :: "string option \<Rightarrow> (nat \<times> nat) option" where
  "read_off file =
     (case file of
        None \<Rightarrow> None
      | Some b \<Rightarrow>
          if length b < 28 \<or> take 8 b \<noteq> off_magic \<or> le_val (take 4 (drop 8 b)) \<noteq> 3 then None
          else Some (le_val (take 8 (drop 12 b)), le_val (take 8 (drop 20 b))))"

text \<open>
  How a commit ends: the seek fails; the write stops after \<open>k\<close> bytes; the bytes are written but
  the sync fails; the record is durable but the marker is not replaced; all is well.
\<close>

datatype commit_io = Commit_unseekable | Commit_short nat | Commit_unsynced | Commit_unmarked | Commit_ok

definition log_bytes :: "ledger_disk \<Rightarrow> string" where
  "log_bytes D = (case d_log D of None \<Rightarrow> [] | Some b \<Rightarrow> b)"

definition log_append :: "string \<Rightarrow> ledger_disk \<Rightarrow> ledger_disk" where
  "log_append b D = D\<lparr>d_log := Some (log_bytes D @ b)\<rparr>"

text \<open>\<open>count\<close> is the number of entries at the time of the call.\<close>

definition commit_record ::
  "commit_io \<Rightarrow> string \<Rightarrow> nat \<Rightarrow> core_ledger \<Rightarrow> ledger_disk \<Rightarrow> Status \<times> core_ledger \<times> ledger_disk" where
  "commit_record io record_bytes count L D =
     (let n = length record_bytes; D1 = log_append record_bytes D;
          L1 = L\<lparr>cl_committed := cl_committed L + n\<rparr>
      in case io of
           Commit_unseekable \<Rightarrow> (ATP_ERR_IO, L, D)
         | Commit_short k \<Rightarrow>
             if k < n then (ATP_ERR_IO, L, log_append (take k record_bytes) D)
             else (ATP_OK, L1, D1\<lparr>d_off := Some (off_bytes count (cl_committed L1))\<rparr>)
         | Commit_unsynced \<Rightarrow> (ATP_ERR_IO, L, D1)
         | Commit_unmarked \<Rightarrow> (ATP_ERR_IO, L1, D1)
         | Commit_ok \<Rightarrow> (ATP_OK, L1, D1\<lparr>d_off := Some (off_bytes count (cl_committed L1))\<rparr>))"

subsection \<open>Lookup and append\<close>

definition ledger_find :: "core_ledger \<Rightarrow> string \<Rightarrow> u64 \<Rightarrow> nat option option" where
  "ledger_find L source digest =
     (if cl_items L = [] then Some None
      else index_find (\<lambda>i. led_digest (fst (cl_items L ! i)) = digest \<and> led_source_id (fst (cl_items L ! i)) = source)
             (ledger_key source digest) (cl_slots L))"

definition ledger_lookup :: "core_ledger \<Rightarrow> string \<Rightarrow> u64 \<Rightarrow> (LedgerResult \<times> LedgerEntry option) option" where
  "ledger_lookup L source digest =
     map_option (\<lambda>found. case found of
         None \<Rightarrow> (Led_NotFound, None)
       | Some i \<Rightarrow>
           let e = fst (cl_items L ! i) in
           (if ledger_is_committed (led_outcome e) then Led_ExistsCommitted else Led_ExistsPending, Some e))
       (ledger_find L source digest)"

record append_io =
  ap_reserve_ok :: bool
  ap_buffers_ok :: bool
  ap_commit :: commit_io
  ap_payload_ok :: bool

record observation =
  ob_source :: string
  ob_author :: string
  ob_observed_at :: u64
  ob_digest :: u64
  ob_schema :: u32
  ob_outcome :: LedgerOutcome
  ob_payload :: string
  ob_context :: ConversationContext

definition entry_of :: "observation \<Rightarrow> nat \<Rightarrow> LedgerEntry" where
  "entry_of x count =
     \<lparr>led_id = of_nat (count + 1), led_observed_at = ob_observed_at x, led_digest = ob_digest x,
      led_schema = (if ob_schema x \<noteq> 0 then ob_schema x else 2), led_outcome = ob_outcome x,
      led_source_id = ob_source x, led_author_did = ob_author x\<rparr>"

definition context_valid :: "ConversationContext \<Rightarrow> bool" where
  "context_valid c \<longleftrightarrow> length (reply_root_uri c) < context_bytes \<and>
     length (reply_parent_uri c) < context_bytes \<and> length (quote_uri c) < context_bytes"

type_synonym append_answer = "LedgerResult \<times> u64 \<times> Status \<times> core_ledger \<times> ledger_disk"

text \<open>Everything after the observation was found to be new.\<close>

definition append_new ::
  "append_io \<Rightarrow> observation \<Rightarrow> core_ledger \<Rightarrow> ledger_disk \<Rightarrow> append_answer option" where
  "append_new io x L D =
     (if \<not> ap_reserve_ok io then Some (Led_NotFound, 0, ATP_ERR_OUT_OF_MEMORY, L, D)
      else case index_ensure (map item_key (cl_items L)) (cl_slots L) of
        None \<Rightarrow> None
      | Some None \<Rightarrow> Some (Led_NotFound, 0, ATP_ERR_OUT_OF_MEMORY, L, D)
      | Some (Some slots) \<Rightarrow>
          let L1 = L\<lparr>cl_slots := slots\<rparr>; n = length (cl_items L); e = entry_of x n;
              body = serialize_entry e (Payload (ob_payload x)) (ob_context x)
          in if \<not> ap_buffers_ok io then Some (Led_NotFound, 0, ATP_ERR_OUT_OF_MEMORY, L1, D)
             else case commit_record (ap_commit io) (build_record 1 body) (n + 1) L1 D of
               (st, L2, D2) \<Rightarrow>
                 if st \<noteq> ATP_OK then Some (Led_NotFound, 0, st, L2, D2)
                 else map_option (\<lambda>slots2.
                        (Led_New, led_id e, ATP_OK,
                         L2\<lparr>cl_items := cl_items L @ [(e, if ap_payload_ok io then Payload (ob_payload x) else Payload [], ob_context x)],
                            cl_slots := slots2\<rparr>, D2))
                      (index_insert slots (ledger_key (ob_source x) (ob_digest x)) n))"

definition append_ledger ::
  "append_io \<Rightarrow> observation \<Rightarrow> core_ledger \<Rightarrow> ledger_disk \<Rightarrow> append_answer option" where
  "append_ledger io x L D =
     (if \<not> context_valid (ob_context x) \<or> ob_source x = [] \<or> source_bytes \<le> length (ob_source x) \<or>
         author_bytes \<le> length (ob_author x) \<or> payload_limit < length (ob_payload x)
      then Some (Led_NotFound, 0, ATP_ERR_INVALID_ARGUMENT, L, D)
      else case ledger_lookup L (ob_source x) (ob_digest x) of
        None \<Rightarrow> None
      | Some (found, Some e) \<Rightarrow> Some (found, led_id e, ATP_OK, L, D)
      | Some (found, None) \<Rightarrow> append_new io x L D)"

subsection \<open>Outcomes\<close>

definition set_item_outcome :: "nat \<Rightarrow> LedgerOutcome \<Rightarrow> item list \<Rightarrow> item list" where
  "set_item_outcome i o1 xs = xs[i := ((fst (xs ! i))\<lparr>led_outcome := o1\<rparr>, snd (xs ! i))]"

definition set_outcome ::
  "commit_io \<Rightarrow> u64 \<Rightarrow> LedgerOutcome \<Rightarrow> core_ledger \<Rightarrow> ledger_disk \<Rightarrow> Status \<times> core_ledger \<times> ledger_disk" where
  "set_outcome io i o1 L D =
     (let n = unat i in
      if n = 0 \<or> length (cl_items L) < n then (ATP_ERR_NOT_FOUND, L, D)
      else
        let now = led_outcome (fst (cl_items L ! (n - 1))) in
        if ledger_is_committed now \<and> o1 = Ledger_Pending then (ATP_ERR_INVALID_ARGUMENT, L, D)
        else if now = o1 then (ATP_OK, L, D)
        else case commit_record io (build_record 2 (patch_body i o1)) (length (cl_items L)) L D of
          (st, L1, D1) \<Rightarrow>
            if st \<noteq> ATP_OK then (st, L1, D1)
            else (ATP_OK, L1\<lparr>cl_items := set_item_outcome (n - 1) o1 (cl_items L1)\<rparr>, D1))"

definition withdraw :: "commit_io \<Rightarrow> u64 \<Rightarrow> core_ledger \<Rightarrow> ledger_disk \<Rightarrow> Status \<times> core_ledger \<times> ledger_disk" where
  "withdraw io i L D = set_outcome io i Ledger_Withdrawn L D"

text \<open>The loops over the entries; \<open>ios i\<close> is the commit of entry \<open>i\<close>.\<close>

fun withdraw_loop ::
  "(nat \<Rightarrow> commit_io) \<Rightarrow> (LedgerEntry \<Rightarrow> bool) \<Rightarrow> nat list \<Rightarrow> core_ledger \<Rightarrow> ledger_disk \<Rightarrow>
   nat \<times> core_ledger \<times> ledger_disk" where
  "withdraw_loop ios matches [] L D = (0, L, D)"
| "withdraw_loop ios matches (i # is) L D =
     (let e = fst (cl_items L ! i) in
      if led_outcome e \<noteq> Ledger_Withdrawn \<and> matches e then
        (case set_outcome (ios i) (led_id e) Ledger_Withdrawn L D of
           (st, L1, D1) \<Rightarrow>
             (case withdraw_loop ios matches is L1 D1 of
                (n, L2, D2) \<Rightarrow> (if st = ATP_OK then Suc n else n, L2, D2)))
      else withdraw_loop ios matches is L D)"

definition withdraw_source ::
  "(nat \<Rightarrow> commit_io) \<Rightarrow> string \<Rightarrow> core_ledger \<Rightarrow> ledger_disk \<Rightarrow> nat \<times> core_ledger \<times> ledger_disk" where
  "withdraw_source ios source L D =
     withdraw_loop ios (\<lambda>e. led_source_id e = source) [0..<length (cl_items L)] L D"

definition withdraw_author ::
  "(nat \<Rightarrow> commit_io) \<Rightarrow> string \<Rightarrow> core_ledger \<Rightarrow> ledger_disk \<Rightarrow> nat \<times> core_ledger \<times> ledger_disk" where
  "withdraw_author ios author L D =
     withdraw_loop ios (\<lambda>e. led_author_did e = author) [0..<length (cl_items L)] L D"

subsection \<open>Reading\<close>

definition entry_at :: "core_ledger \<Rightarrow> nat \<Rightarrow> LedgerEntry option" where
  "entry_at L i = (if i < length (cl_items L) then Some (fst (cl_items L ! i)) else None)"

text \<open>
  The retained bytes, checked against the digest; a released payload is a null pointer and reads
  as empty.
\<close>

definition entry_payload :: "core_ledger \<Rightarrow> u64 \<Rightarrow> Status + string" where
  "entry_payload L i =
     (let n = unat i in
      if n = 0 \<or> length (cl_items L) < n then Inl ATP_ERR_NOT_FOUND
      else case fst (snd (cl_items L ! (n - 1))) of
        Released \<Rightarrow> Inr []
      | Payload s \<Rightarrow>
          if s = [] then Inr []
          else if atp_ledger_digest s \<noteq> led_digest (fst (cl_items L ! (n - 1))) then Inl ATP_ERR_FORMAT
          else Inr s)"

definition payload_released :: "core_ledger \<Rightarrow> u64 \<Rightarrow> bool" where
  "payload_released L i \<longleftrightarrow>
     unat i \<noteq> 0 \<and> unat i \<le> length (cl_items L) \<and> fst (snd (cl_items L ! (unat i - 1))) = Released"

definition entry_context :: "core_ledger \<Rightarrow> u64 \<Rightarrow> Status + ConversationContext" where
  "entry_context L i =
     (let n = unat i in
      if n = 0 \<or> length (cl_items L) < n then Inl ATP_ERR_NOT_FOUND
      else Inr (snd (snd (cl_items L ! (n - 1)))))"

end
