(* ===== verification/Core_Recover.thy ===== *)
theory Core_Recover
  imports Core_Ledger
begin

text \<open>
  Opening the observation ledger (src/src/core/ledger: recover.c, migrate.c, lifecycle.c): the
  log is replayed record by record up to the commit marker, a torn tail is cut off, a missing
  marker is rewritten from the longest valid prefix, and a log of an older version is rewritten
  first.  \<open>memory\<close> says which allocations succeed.
\<close>

record memory =
  m_reserve :: "nat \<Rightarrow> bool"
  m_own :: "nat \<Rightarrow> bool"

definition enough_memory :: memory where
  "enough_memory = \<lparr>m_reserve = (\<lambda>_. True), m_own = (\<lambda>_. True)\<rparr>"

definition file_magic :: string where
  "file_magic = ''ATPLDG0''"

definition log_header :: "char \<Rightarrow> nat \<Rightarrow> string" where
  "log_header last_byte version = file_magic @ last_byte # le_bytes 4 version"

definition current_header :: string where
  "current_header = log_header (CHR ''3'') 3"

definition released_header :: string where
  "released_header = log_header (CHR ''4'') 4"

subsection \<open>One record\<close>

text \<open>Type, body and what follows; \<open>None\<close> for a torn or corrupt record.\<close>

definition next_record :: "nat \<Rightarrow> string \<Rightarrow> (nat \<times> string \<times> string) option" where
  "next_record limit b =
     (if length b < 9 then None
      else
        let n = le_val (take 4 b); crc = le_val (take 4 (drop 4 b)); rest = drop 9 b in
        if n = 0 \<or> limit < n \<or> length rest < n then None
        else if unat (atp_ledger_checksum (take n rest)) \<noteq> crc then None
        else Some (code (b ! 8), take n rest, drop n rest))"

datatype 'a replay = Replay_ok 'a | Replay_bad | Replay_memory

definition replay_entry :: "memory \<Rightarrow> item \<Rightarrow> item list \<Rightarrow> item list replay" where
  "replay_entry M x xs =
     (if led_id (fst x) \<noteq> of_nat (length xs + 1) \<or> \<not> m_reserve M (length xs + 1) then Replay_bad
      else if (case fst (snd x) of Released \<Rightarrow> False | Payload s \<Rightarrow> s \<noteq> []) \<and> \<not> m_own M (length xs) then Replay_memory
      else Replay_ok (xs @ [x]))"

definition replay_patch :: "u64 \<Rightarrow> nat \<Rightarrow> item list \<Rightarrow> item list replay" where
  "replay_patch i outcome xs =
     (case outcome_of_code outcome of
        None \<Rightarrow> Replay_bad
      | Some o1 \<Rightarrow>
          if i = 0 \<or> length xs < unat i then Replay_bad
          else if ledger_is_committed (led_outcome (fst (xs ! (unat i - 1)))) \<and> o1 = Ledger_Pending then Replay_bad
          else Replay_ok (set_item_outcome (unat i - 1) o1 xs))"

definition replay_record :: "memory \<Rightarrow> nat \<Rightarrow> string \<Rightarrow> item list \<Rightarrow> item list replay" where
  "replay_record M type body xs =
     (if type = 1 then (case parse_entry body of None \<Rightarrow> Replay_bad | Some x \<Rightarrow> replay_entry M x xs)
      else if type = 2 then
        (case parse_patch body of None \<Rightarrow> Replay_bad | Some (i, o1) \<Rightarrow> replay_patch i o1 xs)
      else Replay_bad)"

lemma next_record_shorter: "next_record limit b = Some (t, body, rest) \<Longrightarrow> length rest < length b"
  by (auto simp: next_record_def Let_def split: if_splits)

text \<open>The entries, what was not read, and whether that is the end, a bad record or no memory.\<close>

function replay_log ::
  "nat \<Rightarrow> (nat \<Rightarrow> string \<Rightarrow> item list \<Rightarrow> item list replay) \<Rightarrow> string \<Rightarrow> item list \<Rightarrow>
   item list \<times> string \<times> unit replay" where
  "replay_log limit step b xs =
     (if b = [] then (xs, [], Replay_ok ())
      else case next_record limit b of
        None \<Rightarrow> (xs, b, Replay_bad)
      | Some (t, body, rest) \<Rightarrow>
          (case step t body xs of
             Replay_ok xs1 \<Rightarrow> replay_log limit step rest xs1
           | Replay_bad \<Rightarrow> (xs, b, Replay_bad)
           | Replay_memory \<Rightarrow> (xs, b, Replay_memory)))"
  by auto
termination
  by (relation "measure (\<lambda>(_, _, b, _). length b)") (auto dest: next_record_shorter)

declare replay_log.simps [simp del]

subsection \<open>Recovery\<close>

record recover_io =
  rc_buffer_ok :: bool
  rc_memory :: memory
  rc_truncate_ok :: bool
  rc_off_ok :: bool
  rc_index_ok :: bool

definition all_well :: recover_io where
  "all_well = \<lparr>rc_buffer_ok = True, rc_memory = enough_memory, rc_truncate_ok = True, rc_off_ok = True, rc_index_ok = True\<rparr>"

lemma all_well_simps [simp]:
  "rc_buffer_ok all_well" "rc_memory all_well = enough_memory" "rc_truncate_ok all_well" "rc_off_ok all_well"
  "rc_index_ok all_well"
  by (simp_all add: all_well_def)

text \<open>
  The end of recovery, with the fence where it ended: cut the tail, heal the marker, build the
  index.
\<close>

definition recover_finish ::
  "recover_io \<Rightarrow> bool \<Rightarrow> item list \<Rightarrow> nat \<Rightarrow> ledger_disk \<Rightarrow> ((Status + core_ledger) \<times> ledger_disk) option" where
  "recover_finish io have_off xs fence D =
     (let log = log_bytes D in
      if fence < length log \<and> \<not> rc_truncate_ok io then Some (Inl ATP_ERR_IO, D)
      else
        let D1 = (if fence < length log then D\<lparr>d_log := Some (take fence log)\<rparr> else D) in
        if \<not> have_off \<and> \<not> rc_off_ok io then Some (Inl ATP_ERR_IO, D1)
        else
          let D2 = (if have_off then D1 else D1\<lparr>d_off := Some (off_bytes (length xs) fence)\<rparr>) in
          if \<not> rc_index_ok io then Some (Inl ATP_ERR_OUT_OF_MEMORY, D2)
          else map_option (\<lambda>slots. case slots of
                   None \<Rightarrow> (Inl ATP_ERR_OUT_OF_MEMORY, D2)
                 | Some s \<Rightarrow> (Inr \<lparr>cl_items = xs, cl_committed = fence, cl_slots = s\<rparr>, D2))
                 (index_ensure (map item_key xs) []))"

definition recover ::
  "recover_io \<Rightarrow> ledger_disk \<Rightarrow> ((Status + core_ledger) \<times> ledger_disk) option" where
  "recover io D =
     (let log = log_bytes D; marker = read_off (d_off D) in
      case (case marker of None \<Rightarrow> Some (length log)
            | Some (count, offset) \<Rightarrow> if offset < 12 \<or> length log < offset then None else Some offset) of
        None \<Rightarrow> Some (Inl ATP_ERR_FORMAT, D)
      | Some fence \<Rightarrow>
          if \<not> rc_buffer_ok io then Some (Inl ATP_ERR_OUT_OF_MEMORY, D)
          else (case replay_log body_max (replay_record (rc_memory io)) (drop 12 (take fence log)) [] of
             (xs, rest, why) \<Rightarrow>
               (case (why, marker) of
                  (Replay_memory, _) \<Rightarrow> Some (Inl ATP_ERR_OUT_OF_MEMORY, D)
                | (Replay_bad, Some _) \<Rightarrow> Some (Inl ATP_ERR_FORMAT, D)
                | (_, None) \<Rightarrow> recover_finish io False xs (fence - length rest) D
                | (Replay_ok _, Some (count, _)) \<Rightarrow>
                    if length xs \<noteq> count then Some (Inl ATP_ERR_FORMAT, D)
                    else recover_finish io True xs fence D)))"

subsection \<open>Logs of older versions\<close>

definition parse_entry_fields :: "string \<Rightarrow> (LedgerEntry \<times> string) option" where
  "parse_entry_fields body =
     (if length body < 38 then None
      else
        Option.bind (load_le 8 body) (\<lambda>(i, b1).
        Option.bind (parse_source b1) (\<lambda>(source, b2).
        Option.bind (parse_string author_bytes b2) (\<lambda>(author, b3).
        Option.bind (load_le 8 b3) (\<lambda>(observed, b4).
        Option.bind (load_le 8 b4) (\<lambda>(digest, b5).
        Option.bind (load_le 4 b5) (\<lambda>(schema, b6).
        Option.bind (parse_outcome b6) (\<lambda>(o1, b7).
          Some (\<lparr>led_id = of_nat i, led_observed_at = of_nat observed, led_digest = of_nat digest,
                 led_schema = of_nat schema, led_outcome = o1, led_source_id = source,
                 led_author_did = author\<rparr>, b7)))))))))"

definition parse_entry_v1 :: "string \<Rightarrow> LedgerEntry option" where
  "parse_entry_v1 body =
     Option.bind (parse_entry_fields body) (\<lambda>(e, rest). if rest = [] then Some e else None)"

definition parse_entry_v2 :: "string \<Rightarrow> (LedgerEntry \<times> string) option" where
  "parse_entry_v2 body =
     Option.bind (parse_entry_fields body) (\<lambda>(e, b).
     Option.bind (load_le 4 b) (\<lambda>(n, r).
       if payload_limit < n \<or> n \<noteq> length r then None else Some (e, r)))"

definition parse_legacy_entry :: "nat \<Rightarrow> string \<Rightarrow> item option" where
  "parse_legacy_entry version body =
     (if version = 1 then map_option (\<lambda>e. (e, Payload [], no_context)) (parse_entry_v1 body)
      else map_option (\<lambda>(e, p). (e, Payload p, no_context)) (parse_entry_v2 body))"

definition migrate_entry :: "memory \<Rightarrow> item \<Rightarrow> item list \<Rightarrow> item list replay" where
  "migrate_entry M x xs =
     (if led_id (fst x) \<noteq> of_nat (length xs + 1) then Replay_bad
      else if \<not> m_reserve M (length xs + 1) then Replay_memory
      else if fst (snd x) \<noteq> Payload [] \<and> \<not> m_own M (length xs) then Replay_memory
      else Replay_ok (xs @ [x]))"

definition migrate_record :: "nat \<Rightarrow> memory \<Rightarrow> nat \<Rightarrow> string \<Rightarrow> item list \<Rightarrow> item list replay" where
  "migrate_record version M type body xs =
     (if type = 1 then
        (case parse_legacy_entry version body of None \<Rightarrow> Replay_bad | Some x \<Rightarrow> migrate_entry M x xs)
      else if type = 2 then
        (case parse_patch body of None \<Rightarrow> Replay_bad | Some (i, o1) \<Rightarrow> replay_patch i o1 xs)
      else Replay_bad)"

text \<open>The marker of version \<open>v\<close>: its magic ends in the version's digit.\<close>

definition read_legacy_off :: "nat \<Rightarrow> string option \<Rightarrow> nat option" where
  "read_legacy_off version file =
     (case file of
        None \<Rightarrow> None
      | Some b \<Rightarrow>
          if length b < 28 \<or> take 8 b \<noteq> ''ATPLOF0'' @ [digit_char version] \<or> le_val (take 4 (drop 8 b)) \<noteq> version
          then None else Some (le_val (take 8 (drop 20 b))))"

definition legacy_limit :: "nat \<Rightarrow> nat" where
  "legacy_limit version = (if version = 1 then 1024 else 1024 + payload_limit)"

definition flat_log :: "string \<Rightarrow> item list \<Rightarrow> string" where
  "flat_log header xs = header @ concat (map (\<lambda>(e, p, c). build_record 1 (serialize_entry e p c)) xs)"

text \<open>The new log is staged in a temporary file that every failure removes.\<close>

record migrate_io =
  mg_stage_ok :: bool
  mg_buffers_ok :: bool
  mg_memory :: memory
  mg_write_ok :: bool
  mg_rename_ok :: bool

definition migrate :: "migrate_io \<Rightarrow> nat \<Rightarrow> ledger_disk \<Rightarrow> Status \<times> ledger_disk" where
  "migrate io version D =
     (let log = log_bytes D; marker = read_legacy_off version (d_off D) in
      case (case marker of None \<Rightarrow> Some (length log)
            | Some offset \<Rightarrow> if offset < 12 \<or> length log < offset then None else Some offset) of
        None \<Rightarrow> (ATP_ERR_FORMAT, D)
      | Some fence \<Rightarrow>
          if \<not> mg_stage_ok io then (ATP_ERR_IO, D)
          else if \<not> mg_buffers_ok io then (ATP_ERR_OUT_OF_MEMORY, D)
          else (case replay_log (legacy_limit version) (migrate_record version (mg_memory io)) (drop 12 (take fence log)) [] of
             (xs, rest, why) \<Rightarrow>
               if why = Replay_memory then (ATP_ERR_OUT_OF_MEMORY, D)
               else if marker \<noteq> None \<and> why = Replay_bad then (ATP_ERR_FORMAT, D)
               else if \<not> mg_write_ok io \<or> \<not> mg_rename_ok io then (ATP_ERR_IO, D)
               else (ATP_OK, D\<lparr>d_log := Some (flat_log current_header xs), d_off := None\<rparr>)))"

subsection \<open>Opening\<close>

record open_io =
  op_create_ok :: bool
  op_migrate :: migrate_io
  op_recover :: recover_io

definition legacy_version :: "string \<Rightarrow> nat option" where
  "legacy_version h =
     (if take 7 h \<noteq> file_magic then None
      else if h ! 7 = CHR ''1'' \<and> le_val (take 4 (drop 8 h)) = 1 then Some 1
      else if h ! 7 = CHR ''2'' \<and> le_val (take 4 (drop 8 h)) = 2 then Some 2
      else None)"

definition header_accepted :: "string \<Rightarrow> bool" where
  "header_accepted h \<longleftrightarrow>
     take 7 h = file_magic \<and>
     (h ! 7 = CHR ''3'' \<and> le_val (take 4 (drop 8 h)) = 3 \<or> h ! 7 = CHR ''4'' \<and> le_val (take 4 (drop 8 h)) = 4)"

definition open_checked ::
  "open_io \<Rightarrow> ledger_disk \<Rightarrow> ((Status + core_ledger) \<times> ledger_disk) option" where
  "open_checked io D =
     (if length (log_bytes D) < 12 \<or> \<not> header_accepted (take 12 (log_bytes D)) then Some (Inl ATP_ERR_FORMAT, D)
      else recover (op_recover io) D)"

definition open_core_ledger ::
  "open_io \<Rightarrow> ledger_disk \<Rightarrow> ((Status + core_ledger) \<times> ledger_disk) option" where
  "open_core_ledger io D =
     (if d_log D = None \<and> \<not> op_create_ok io then Some (Inl ATP_ERR_IO, D)
      else
        let D1 = (if d_log D = None then D\<lparr>d_log := Some current_header\<rparr> else D); log = log_bytes D1 in
        if length log < 12 then Some (Inl ATP_ERR_FORMAT, D1)
        else case legacy_version (take 12 log) of
          None \<Rightarrow> open_checked io D1
        | Some version \<Rightarrow>
            (case migrate (op_migrate io) version D1 of
               (st, D2) \<Rightarrow> if st \<noteq> ATP_OK then Some (Inl st, D2) else open_checked io D2))"

end
