(* ===== verification/Core_Ledger_Facts.thy ===== *)
theory Core_Ledger_Facts
  imports Core_Recover
begin

text \<open>
  What the observation ledger promises: its probes end, an observation is recorded once, and
  from a healthy ledger every call, however it fails, leaves a disk from which a restart
  recovers exactly the entries the process has in memory.  And what it does not promise: a
  process that goes on after a failed commit can make the log unreadable or lose what it
  acknowledged.
\<close>

subsection \<open>Records in a row\<close>

lemma next_record_build:
  assumes "t < 256" and "0 < length body" and "length body \<le> limit" and "limit < 2 ^ 32"
  shows "next_record limit (build_record t body @ rest) = Some (t, body, rest)"
proof -
  have "unat (atp_ledger_checksum body) < 2 ^ LENGTH(32)" by (rule unsigned_less)
  then have c: "unat (atp_ledger_checksum body) < 256 ^ 4" by simp
  have n: "length body < 256 ^ 4" using assms by simp
  let ?r = "build_record t body @ rest"
  have "take 4 ?r = le_bytes 4 (length body)" "take 4 (drop 4 ?r) = le_bytes 4 (unat (atp_ledger_checksum body))"
    "?r ! 8 = char_of t" "drop 9 ?r = body @ rest"
    by (simp_all add: build_record_def nth_append)
  moreover have "\<not> length ?r < 9" by (simp add: build_record_def)
  ultimately show ?thesis
    using assms le_val_bytes_small [OF n] le_val_bytes_small [OF c]
    by (simp add: next_record_def Let_def code_char_of)
qed

lemma next_record_more:
  assumes "next_record limit a = Some (t, body, rest)"
  shows "next_record limit (a @ b) = Some (t, body, rest @ b)"
  using assms by (auto simp: next_record_def Let_def nth_append split: if_splits)

lemma next_record_torn:
  assumes "0 < length body" and "length body < 2 ^ 32" and "k < length (build_record t body)"
  shows "next_record limit (take k (build_record t body)) = None"
proof (cases "k < 9")
  case True
  then have "length (take k (build_record t body)) < 9" by simp
  then show ?thesis by (simp only: next_record_def if_True)
next
  case False
  define r where "r = take k (build_record t body)"
  have n: "le_val (le_bytes 4 (length body)) = length body" using assms by simp
  have "take 4 r = le_bytes 4 (length body)" "length (drop 9 r) < length body"
    using assms(3) False by (simp_all add: r_def build_record_def)
  then have "next_record limit r = None"
    using n by (simp add: next_record_def Let_def)
  then show ?thesis by (simp add: r_def)
qed

lemma replay_log_Nil [simp]: "replay_log limit step [] xs = (xs, [], Replay_ok ())"
  by (subst replay_log.simps) simp

lemma replay_log_append:
  assumes "replay_log limit step a xs = (ys, [], Replay_ok ())"
  shows "replay_log limit step (a @ b) xs = replay_log limit step b ys"
  using assms
proof (induction limit step a xs rule: replay_log.induct)
  case (1 limit step a xs)
  show ?case
  proof (cases "a = []")
    case True
    then show ?thesis using 1(2) by simp
  next
    case False
    obtain t body rest xs1 where r: "next_record limit a = Some (t, body, rest)" "step t body xs = Replay_ok xs1"
      "replay_log limit step rest xs1 = (ys, [], Replay_ok ())"
      using 1(2) False
      by (subst (asm) replay_log.simps) (auto split: option.splits replay.splits)
    have "replay_log limit step (a @ b) xs = replay_log limit step (rest @ b) xs1"
      using False next_record_more [OF r(1)] r(2) by (subst replay_log.simps) simp
    then show ?thesis using 1(1) [OF False r(1) refl refl r(2,3)] by simp
  qed
qed

definition log_reads :: "string \<Rightarrow> item list \<Rightarrow> bool" where
  "log_reads b xs \<longleftrightarrow> replay_log body_max (replay_record enough_memory) b [] = (xs, [], Replay_ok ())"

lemma log_reads_Nil: "log_reads [] []"
  by (simp add: log_reads_def)

lemma log_reads_more:
  assumes "log_reads b xs"
  shows "replay_log body_max (replay_record enough_memory) (b @ c) [] =
    replay_log body_max (replay_record enough_memory) c xs"
  using replay_log_append assms unfolding log_reads_def by blast

lemma body_max_less: "body_max < 2 ^ 32"
  by (simp add: body_max_def context_bytes_def payload_limit_def)

lemma log_reads_record:
  assumes "log_reads b xs" and "t < 256" and "0 < length body" and "length body \<le> body_max"
    and "replay_record enough_memory t body xs = Replay_ok ys"
  shows "log_reads (b @ build_record t body) ys"
proof -
  have "next_record body_max (build_record t body @ []) = Some (t, body, [])"
    by (rule next_record_build [OF assms(2,3,4) body_max_less])
  then have "next_record body_max (build_record t body) = Some (t, body, [])" by simp
  moreover have "build_record t body \<noteq> []" by (simp add: build_record_def)
  ultimately have "replay_log body_max (replay_record enough_memory) (build_record t body) xs = (ys, [], Replay_ok ())"
    using assms(5) by (subst replay_log.simps) simp
  then show ?thesis using log_reads_more [OF assms(1)] by (simp add: log_reads_def)
qed

lemma log_reads_entry:
  assumes "log_reads b xs" and "ledger_entry_ok e" and "payload_ok p" and "context_ok c"
    and "led_id e = of_nat (length xs + 1)"
  shows "log_reads (b @ build_record 1 (serialize_entry e p c)) (xs @ [(e, p, c)])"
proof (rule log_reads_record [OF assms(1)])
  have "fst ((e, p, c) :: item) = e" by simp
  then show "replay_record enough_memory 1 (serialize_entry e p c) xs = Replay_ok (xs @ [(e, p, c)])"
    using assms(5) unfolding replay_record_def
    by (simp add: entry_round_trip [OF assms(2-4)] replay_entry_def enough_memory_def)
qed (use length_entry_body [OF assms(2-4)] in auto)

lemma log_reads_patch:
  assumes "log_reads b xs" and "unat i \<noteq> 0" and "unat i \<le> length xs"
    and "\<not> (ledger_is_committed (led_outcome (fst (xs ! (unat i - 1)))) \<and> o1 = Ledger_Pending)"
  shows "log_reads (b @ build_record 2 (patch_body i o1)) (set_item_outcome (unat i - 1) o1 xs)"
proof (rule log_reads_record [OF assms(1)])
  have "i \<noteq> 0" using assms(2) by auto
  then show "replay_record enough_memory 2 (patch_body i o1) xs = Replay_ok (set_item_outcome (unat i - 1) o1 xs)"
    using assms(3,4) by (auto simp: replay_record_def patch_round_trip replay_patch_def)
qed (simp_all add: body_max_def)

subsection \<open>The marker\<close>

lemma read_off_bytes:
  assumes "count < 2 ^ 64" and "offset < 2 ^ 64"
  shows "read_off (Some (off_bytes count offset)) = Some (count, offset)"
proof -
  have "le_val (le_bytes 8 count) = count" "le_val (le_bytes 8 offset) = offset" "le_val (le_bytes 4 3) = 3"
    using assms by (simp_all add: le_val_bytes_small)
  then show ?thesis by (simp add: read_off_def off_bytes_def off_magic_def)
qed

subsection \<open>Healthy ledgers\<close>

definition item_ok :: "nat \<Rightarrow> item \<Rightarrow> bool" where
  "item_ok i x \<longleftrightarrow> led_id (fst x) = of_nat (i + 1) \<and> ledger_entry_ok (fst x)"

definition healthy :: "core_ledger \<Rightarrow> ledger_disk \<Rightarrow> bool" where
  "healthy L D \<longleftrightarrow>
     (\<exists>h b. d_log D = Some (h @ b) \<and> length h = 12 \<and> log_reads b (cl_items L) \<and> cl_committed L = 12 + length b) \<and>
     d_off D = Some (off_bytes (length (cl_items L)) (cl_committed L)) \<and>
     cl_committed L < 2 ^ 64 \<and> length (cl_items L) \<le> cl_committed L \<and>
     (\<forall>i < length (cl_items L). item_ok i (cl_items L ! i)) \<and>
     distinct (map (\<lambda>x. (led_source_id (fst x), led_digest (fst x))) (cl_items L)) \<and>
     index_fits (map item_key (cl_items L)) (cl_slots L)"

text \<open>
  The disks of a restart: the committed log with anything behind it, and the marker of that log.
\<close>

definition restarts_as :: "ledger_disk \<Rightarrow> item list \<Rightarrow> bool" where
  "restarts_as D xs \<longleftrightarrow>
     (\<exists>h b t. d_log D = Some (h @ b @ t) \<and> length h = 12 \<and> log_reads b xs \<and>
        d_off D = Some (off_bytes (length xs) (12 + length b)) \<and> 12 + length b < 2 ^ 64 \<and>
        length xs \<le> 12 + length b \<and> (\<forall>i < length xs. item_ok i (xs ! i)) \<and>
        distinct (map (\<lambda>x. (led_source_id (fst x), led_digest (fst x))) xs))"

lemma healthy_restarts:
  assumes "healthy L D"
  shows "restarts_as D (cl_items L)"
proof -
  obtain h b where "d_log D = Some (h @ b @ [])" "length h = 12" "log_reads b (cl_items L)" "cl_committed L = 12 + length b"
    using assms by (auto simp: healthy_def)
  then show ?thesis using assms unfolding restarts_as_def healthy_def
    by (intro exI [of _ h] exI [of _ b] exI [of _ "[]"]) simp
qed

theorem restart_recovers:
  assumes "restarts_as D xs"
  shows "\<exists>D'. recover all_well D = Some (Inl ATP_ERR_OUT_OF_MEMORY, D') \<and> index_ensure (map item_key xs) [] = Some None \<or>
    (\<exists>L. recover all_well D = Some (Inr L, D') \<and> cl_items L = xs \<and> healthy L D')"
proof -
  obtain h b t where D: "d_log D = Some (h @ b @ t)" "length h = 12" "log_reads b xs"
    "d_off D = Some (off_bytes (length xs) (12 + length b))" "12 + length b < 2 ^ 64" "length xs \<le> 12 + length b"
    "\<forall>i < length xs. item_ok i (xs ! i)" "distinct (map (\<lambda>x. (led_source_id (fst x), led_digest (fst x))) xs)"
    using assms unfolding restarts_as_def by blast
  define f where "f = 12 + length b"
  have off: "read_off (d_off D) = Some (length xs, f)"
    using D(4-6) read_off_bytes [of "length xs" f] by (simp add: f_def)
  have log: "log_bytes D = h @ b @ t" by (simp add: log_bytes_def D(1))
  have f: "\<not> f < 12" "\<not> length (log_bytes D) < f" "drop 12 (take f (log_bytes D)) = b" "take f (log_bytes D) = h @ b"
    using D(2) by (simp_all add: f_def log)
  have replay: "replay_log body_max (replay_record enough_memory) b [] = (xs, [], Replay_ok ())"
    using D(3) by (simp add: log_reads_def)
  have rec: "recover all_well D = recover_finish all_well True xs f D"
    by (simp add: recover_def Let_def off f(1-3) replay)
  define D1 where "D1 = (if f < length (log_bytes D) then D\<lparr>d_log := Some (h @ b)\<rparr> else D)"
  have "d_log D = Some (h @ b)" if "\<not> f < length (log_bytes D)" using that D(1,2) by (simp add: f_def log)
  then have log1: "d_log D1 = Some (h @ b)" "d_off D1 = d_off D" by (simp_all add: D1_def)
  have fin: "recover_finish all_well True xs f D =
      map_option (\<lambda>slots. case slots of None \<Rightarrow> (Inl ATP_ERR_OUT_OF_MEMORY, D1)
         | Some s \<Rightarrow> (Inr \<lparr>cl_items = xs, cl_committed = f, cl_slots = s\<rparr>, D1))
        (index_ensure (map item_key xs) [])"
    unfolding recover_finish_def Let_def f(4) D1_def by simp
  from index_ensure_fresh [of "map item_key xs"] show ?thesis
  proof
    assume "index_ensure (map item_key xs) [] = Some None"
    then show ?thesis using rec fin by simp
  next
    assume "\<exists>s. index_ensure (map item_key xs) [] = Some (Some s) \<and> index_ok (map item_key xs) s \<and>
      length (map item_key xs) + 1 < length s"
    then obtain s where s: "index_ensure (map item_key xs) [] = Some (Some s)" "index_fits (map item_key xs) s"
      using index_fitsI by force
    let ?L = "\<lparr>cl_items = xs, cl_committed = f, cl_slots = s\<rparr>"
    have "healthy ?L D1"
      unfolding healthy_def using D(2-8) log1 s(2) by (auto simp: f_def)
    then show ?thesis using rec fin s(1) by auto
  qed
qed

subsection \<open>Commits\<close>

lemma commit_fails:
  assumes "healthy L D" and "commit_record io r n L D = (st, L1, D1)" and "st \<noteq> ATP_OK"
  shows "restarts_as D1 (cl_items L)" and "cl_items L1 = cl_items L" and "cl_slots L1 = cl_slots L"
proof -
  obtain h b where hb: "d_log D = Some (h @ b)" "length h = 12" "log_reads b (cl_items L)" "cl_committed L = 12 + length b"
    using assms(1) by (auto simp: healthy_def)
  have "\<exists>t. d_log D1 = Some (h @ b @ t) \<and> d_off D1 = d_off D"
    using assms(2,3) hb(1)
    by (cases io) (auto simp: commit_record_def Let_def log_append_def log_bytes_def split: if_splits)
  then obtain t where "d_log D1 = Some (h @ b @ t)" "d_off D1 = d_off D" by blast
  then show "restarts_as D1 (cl_items L)"
    using assms(1) hb unfolding restarts_as_def healthy_def
    by (intro exI [of _ h] exI [of _ b] exI [of _ t]) simp
  show "cl_items L1 = cl_items L" "cl_slots L1 = cl_slots L"
    using assms(2) by (cases io; auto simp: commit_record_def Let_def split: if_splits)+
qed

lemma commit_succeeds:
  assumes "commit_record io r n L D = (ATP_OK, L1, D1)"
  shows "L1 = L\<lparr>cl_committed := cl_committed L + length r\<rparr>"
    and "d_log D1 = Some (log_bytes D @ r)" and "d_off D1 = Some (off_bytes n (cl_committed L1))"
  using assms by (cases io; auto simp: commit_record_def Let_def log_append_def split: if_splits)+

lemma length_build_record [simp]: "length (build_record t body) = 9 + length body"
  by (simp add: build_record_def)

subsection \<open>Appending\<close>

definition observation_ok :: "observation \<Rightarrow> bool" where
  "observation_ok x \<longleftrightarrow> NUL \<notin> set (ob_source x) \<and> NUL \<notin> set (ob_author x) \<and>
     NUL \<notin> set (reply_root_uri (ob_context x)) \<and> NUL \<notin> set (reply_parent_uri (ob_context x)) \<and>
     NUL \<notin> set (quote_uri (ob_context x))"

theorem lookup_exact:
  assumes "healthy L D"
  obtains found where "ledger_find L source digest = Some found"
    "found = None \<Longrightarrow> (source, digest) \<notin> set (map (\<lambda>x. (led_source_id (fst x), led_digest (fst x))) (cl_items L))"
    "\<And>i. found = Some i \<Longrightarrow> i < length (cl_items L) \<and> led_source_id (fst (cl_items L ! i)) = source \<and>
       led_digest (fst (cl_items L ! i)) = digest"
proof (cases "cl_items L = []")
  case True
  then show thesis by (intro that [of None]) (simp_all add: ledger_find_def)
next
  case False
  let ?keys = "map item_key (cl_items L)"
  have fits: "index_ok ?keys (cl_slots L)" "length ?keys < length (cl_slots L)"
    using assms False by (auto simp: healthy_def index_fits_def split: if_splits)
  let ?m = "\<lambda>i. led_digest (fst (cl_items L ! i)) = digest \<and> led_source_id (fst (cl_items L ! i)) = source"
  obtain r where r: "index_find ?m (ledger_key source digest) (cl_slots L) = Some r"
    "r = None \<Longrightarrow> \<forall>i < length ?keys. \<not> (?keys ! i = ledger_key source digest \<and> ?m i)"
    "\<And>i. r = Some i \<Longrightarrow> i < length ?keys \<and> ?keys ! i = ledger_key source digest \<and> ?m i"
    by (rule index_find_iff [OF fits, of ?m "ledger_key source digest"]) blast
  show thesis
  proof (rule that [of r])
    show "ledger_find L source digest = Some r" using False r(1) by (simp add: ledger_find_def)
    show "(source, digest) \<notin> set (map (\<lambda>x. (led_source_id (fst x), led_digest (fst x))) (cl_items L))" if "r = None"
    proof
      assume "(source, digest) \<in> set (map (\<lambda>x. (led_source_id (fst x), led_digest (fst x))) (cl_items L))"
      then obtain i where "i < length (cl_items L)" "led_source_id (fst (cl_items L ! i)) = source"
        "led_digest (fst (cl_items L ! i)) = digest"
        by (auto simp: in_set_conv_nth)
      then show False using r(2) [OF that] by (auto simp: item_key_def)
    qed
    show "i < length (cl_items L) \<and> led_source_id (fst (cl_items L ! i)) = source \<and>
       led_digest (fst (cl_items L ! i)) = digest" if "r = Some i" for i
      using r(3) [OF that] by simp
  qed
qed

lemma entry_of_ok:
  assumes "observation_ok x" and "context_valid (ob_context x)" and "ob_source x \<noteq> []"
    and "length (ob_source x) < source_bytes" and "length (ob_author x) < author_bytes"
    and "length (ob_payload x) \<le> payload_limit"
  shows "ledger_entry_ok (entry_of x n)" and "payload_ok (Payload (ob_payload x))" and "context_ok (ob_context x)"
    and "led_id (entry_of x n) = of_nat (n + 1)"
  using assms
  by (auto simp: ledger_entry_ok_def entry_of_def c_string_ok_def observation_ok_def payload_ok_def context_ok_def
      context_valid_def)

text \<open>The room one more record needs in a 64-bit offset, and its entry in the index.\<close>

definition room :: "core_ledger \<Rightarrow> bool" where
  "room L \<longleftrightarrow> cl_committed L + 9 + body_max < 2 ^ 64 \<and> length (cl_items L) < 2 ^ 60"

lemma append_new_ok:
  assumes h: "healthy L D" and x: "observation_ok x" "context_valid (ob_context x)" "ob_source x \<noteq> []"
    "length (ob_source x) < source_bytes" "length (ob_author x) < author_bytes" "length (ob_payload x) \<le> payload_limit"
    and new: "(ob_source x, ob_digest x) \<notin> set (map (\<lambda>x. (led_source_id (fst x), led_digest (fst x))) (cl_items L))"
    and mem: "ap_payload_ok io" and room: "room L"
  shows "\<exists>res i st L' D'. append_new io x L D = Some (res, i, st, L', D') \<and> restarts_as D' (cl_items L') \<and>
    (st \<noteq> ATP_OK \<and> cl_items L' = cl_items L \<or>
     st = ATP_OK \<and> res = Led_New \<and> healthy L' D' \<and>
       cl_items L' = cl_items L @ [(entry_of x (length (cl_items L)), Payload (ob_payload x), ob_context x)])"
proof -
  let ?xs = "cl_items L" and ?keys = "map item_key (cl_items L)"
  let ?e = "entry_of x (length ?xs)"
  let ?item = "(?e, Payload (ob_payload x), ob_context x)"
  let ?body = "serialize_entry ?e (Payload (ob_payload x)) (ob_context x)"
  note e = entry_of_ok(1) [OF x, of "length ?xs"] entry_of_ok(2,3) [OF x] entry_of_ok(4) [OF x, of "length ?xs"]
  have key: "item_key ?item = ledger_key (ob_source x) (ob_digest x)" by (simp add: item_key_def entry_of_def)
  have keep: "restarts_as D ?xs" using healthy_restarts [OF h] .
  have fits: "index_fits ?keys (cl_slots L)" using h by (simp add: healthy_def)
  show ?thesis
  proof (cases "ap_reserve_ok io")
    case False
    then show ?thesis using keep by (simp add: append_new_def)
  next
    case reserve: True
    from index_ensure_ok [OF fits] show ?thesis
    proof
      assume "index_ensure ?keys (cl_slots L) = Some None"
      then show ?thesis using keep reserve by (simp add: append_new_def)
    next
      assume "\<exists>s. index_ensure ?keys (cl_slots L) = Some (Some s) \<and> index_ok ?keys s \<and> length ?keys + 1 < length s"
      then obtain s where s: "index_ensure ?keys (cl_slots L) = Some (Some s)" "index_ok ?keys s" "length ?keys + 1 < length s"
        by blast
      let ?L1 = "L\<lparr>cl_slots := s\<rparr>"
      have h1: "healthy ?L1 D" using h s index_fitsI [OF s(2)] by (simp add: healthy_def)
      show ?thesis
      proof (cases "ap_buffers_ok io")
        case False
        then show ?thesis using keep reserve s(1) by (simp add: append_new_def Let_def)
      next
        case buffers: True
        obtain st L2 D2 where c: "commit_record (ap_commit io) (build_record 1 ?body) (length ?xs + 1) ?L1 D = (st, L2, D2)"
          by (metis prod_cases3)
        show ?thesis
        proof (cases "st = ATP_OK")
          case False
          then have "append_new io x L D = Some (Led_NotFound, 0, st, L2, D2)"
            using reserve s(1) buffers c by (simp add: append_new_def Let_def)
          moreover have "restarts_as D2 ?xs" "cl_items L2 = ?xs"
            using commit_fails [OF h1 c False] by simp_all
          ultimately show ?thesis using False by auto
        next
          case True
          note ok = commit_succeeds [OF c [unfolded True]]
          obtain s2 where s2: "index_insert s (ledger_key (ob_source x) (ob_digest x)) (length ?keys) = Some s2"
            "index_ok (?keys @ [ledger_key (ob_source x) (ob_digest x)]) s2" "length s2 = length s"
            using index_insert_ok [OF s(2), of "ledger_key (ob_source x) (ob_digest x)"] s(3) by auto
          define L' where "L' = L2\<lparr>cl_items := ?xs @ [?item], cl_slots := s2\<rparr>"
          have app: "append_new io x L D = Some (Led_New, led_id ?e, ATP_OK, L', D2)"
            using reserve s(1) buffers c True s2(1) mem by (simp add: append_new_def Let_def L'_def)
          obtain h0 b where hb: "d_log D = Some (h0 @ b)" "length h0 = 12" "log_reads b ?xs" "cl_committed L = 12 + length b"
            using h by (auto simp: healthy_def)
          have body: "0 < length ?body" "length ?body \<le> body_max" using length_entry_body [OF e(1-3)] by simp_all
          have log: "d_log D2 = Some (h0 @ (b @ build_record 1 ?body))" using ok(2) hb(1) by (simp add: log_bytes_def)
          have reads: "log_reads (b @ build_record 1 ?body) (?xs @ [?item])"
            by (rule log_reads_entry [OF hb(3) e])
          have com: "cl_committed L' = 12 + length (b @ build_record 1 ?body)" using ok(1) hb(4) by (simp add: L'_def)
          have bound: "cl_committed L' < 2 ^ 64" using com room hb(4) body by (simp add: room_def)
          have items: "item_ok i ((?xs @ [?item]) ! i)" if "i < length (?xs @ [?item])" for i
            using that h e(1,4) by (cases "i < length ?xs") (auto simp: healthy_def nth_append item_ok_def less_Suc_eq)
          have "healthy L' D2"
            unfolding healthy_def
          proof (intro conjI)
            show "\<exists>h b. d_log D2 = Some (h @ b) \<and> length h = 12 \<and> log_reads b (cl_items L') \<and> cl_committed L' = 12 + length b"
              using log hb(2) reads com
              by (intro exI [of _ h0] exI [of _ "b @ build_record 1 ?body"]) (simp add: L'_def)
            show "d_off D2 = Some (off_bytes (length (cl_items L')) (cl_committed L'))"
              using ok(3) by (simp add: L'_def)
            show "cl_committed L' < 2 ^ 64" by (rule bound)
            show "length (cl_items L') \<le> cl_committed L'" using h com hb(4) by (simp add: L'_def healthy_def)
            show "\<forall>i < length (cl_items L'). item_ok i (cl_items L' ! i)" using items by (simp add: L'_def)
            show "distinct (map (\<lambda>x. (led_source_id (fst x), led_digest (fst x))) (cl_items L'))"
              using h new by (simp add: L'_def healthy_def entry_of_def)
            show "index_fits (map item_key (cl_items L')) (cl_slots L')"
              using s2(2,3) s(3) key by (intro index_fitsI) (simp_all add: L'_def)
          qed
          then show ?thesis using app healthy_restarts [of L' D2] by (auto simp: L'_def)
        qed
      qed
    qed
  qed
qed

theorem append_restarts:
  assumes h: "healthy L D" and x: "observation_ok x" and mem: "ap_payload_ok io" and room: "room L"
  shows "\<exists>res i st L' D'. append_ledger io x L D = Some (res, i, st, L', D') \<and> restarts_as D' (cl_items L') \<and>
    (st = ATP_OK \<longrightarrow> healthy L' D') \<and>
    (cl_items L' = cl_items L \<or>
     res = Led_New \<and> st = ATP_OK \<and>
       cl_items L' = cl_items L @ [(entry_of x (length (cl_items L)), Payload (ob_payload x), ob_context x)])"
proof (cases "\<not> context_valid (ob_context x) \<or> ob_source x = [] \<or> source_bytes \<le> length (ob_source x) \<or>
         author_bytes \<le> length (ob_author x) \<or> payload_limit < length (ob_payload x)")
  case True
  then show ?thesis using h healthy_restarts by (auto simp: append_ledger_def)
next
  case valid: False
  obtain found where f: "ledger_find L (ob_source x) (ob_digest x) = Some found"
    "found = None \<Longrightarrow> (ob_source x, ob_digest x) \<notin> set (map (\<lambda>x. (led_source_id (fst x), led_digest (fst x))) (cl_items L))"
    by (rule lookup_exact [OF h, of "ob_source x" "ob_digest x"]) blast
  show ?thesis
  proof (cases found)
    case None
    then have "append_ledger io x L D = append_new io x L D"
      using valid f(1) by (auto simp: append_ledger_def ledger_lookup_def)
    then show ?thesis using append_new_ok [OF h x _ _ _ _ _ f(2) [OF None] mem room] valid by fastforce
  next
    case (Some i)
    then have "\<exists>res. append_ledger io x L D = Some (res, led_id (fst (cl_items L ! i)), ATP_OK, L, D)"
      using valid f(1) by (simp add: append_ledger_def ledger_lookup_def Let_def)
    then show ?thesis using h healthy_restarts by auto
  qed
qed

subsection \<open>Outcomes\<close>

lemma set_item_outcome_map:
  assumes "i < length xs" and "f ((fst (xs ! i))\<lparr>led_outcome := o1\<rparr>, snd (xs ! i)) = f (xs ! i)"
  shows "map f (set_item_outcome i o1 xs) = map f xs"
  unfolding set_item_outcome_def map_update assms(2) by (metis assms(1) list_update_id map_update nth_map)

lemma set_item_outcome_facts:
  assumes "i < length xs"
  shows "length (set_item_outcome i o1 xs) = length xs"
    and "map (\<lambda>x. (led_source_id (fst x), led_digest (fst x))) (set_item_outcome i o1 xs) =
      map (\<lambda>x. (led_source_id (fst x), led_digest (fst x))) xs"
    and "map item_key (set_item_outcome i o1 xs) = map item_key xs"
    and "j < length xs \<Longrightarrow> item_ok j (xs ! j) \<Longrightarrow> item_ok j (set_item_outcome i o1 xs ! j)"
proof -
  show "length (set_item_outcome i o1 xs) = length xs" by (simp add: set_item_outcome_def)
  show "map (\<lambda>x. (led_source_id (fst x), led_digest (fst x))) (set_item_outcome i o1 xs) =
      map (\<lambda>x. (led_source_id (fst x), led_digest (fst x))) xs"
    by (rule set_item_outcome_map [OF assms]) simp
  show "map item_key (set_item_outcome i o1 xs) = map item_key xs"
    by (rule set_item_outcome_map [OF assms]) (simp add: item_key_def)
  show "j < length xs \<Longrightarrow> item_ok j (xs ! j) \<Longrightarrow> item_ok j (set_item_outcome i o1 xs ! j)"
    using assms by (cases "i = j") (auto simp: set_item_outcome_def item_ok_def ledger_entry_ok_def)
qed

theorem set_outcome_restarts:
  assumes h: "healthy L D" and room: "room L" and s: "set_outcome io i o1 L D = (st, L', D')"
  shows "restarts_as D' (cl_items L') \<and> (st = ATP_OK \<longrightarrow> healthy L' D') \<and>
    (cl_items L' = cl_items L \<or>
     unat i \<noteq> 0 \<and> unat i \<le> length (cl_items L) \<and> st = ATP_OK \<and>
       \<not> (ledger_is_committed (led_outcome (fst (cl_items L ! (unat i - 1)))) \<and> o1 = Ledger_Pending) \<and>
       cl_items L' = set_item_outcome (unat i - 1) o1 (cl_items L))"
proof -
  let ?xs = "cl_items L" and ?n = "unat i"
  let ?now = "led_outcome (fst (?xs ! (?n - 1)))"
  consider "(L', D') = (L, D)"
    | (go) "?n \<noteq> 0" "?n \<le> length ?xs" "\<not> (ledger_is_committed ?now \<and> o1 = Ledger_Pending)" "?now \<noteq> o1"
    using s by (fastforce simp: set_outcome_def Let_def split: if_splits prod.splits)
  then show ?thesis
  proof cases
    case 1
    then show ?thesis using h healthy_restarts by auto
  next
    case go
    let ?r = "build_record 2 (patch_body i o1)"
    obtain st1 L1 D1 where c: "commit_record io ?r (length ?xs) L D = (st1, L1, D1)" by (metis prod_cases3)
    have eq: "set_outcome io i o1 L D =
        (if st1 \<noteq> ATP_OK then (st1, L1, D1)
         else (ATP_OK, L1\<lparr>cl_items := set_item_outcome (?n - 1) o1 (cl_items L1)\<rparr>, D1))"
      using go c by (auto simp: set_outcome_def Let_def)
    show ?thesis
    proof (cases "st1 = ATP_OK")
      case False
      then have "st = st1" "L' = L1" "D' = D1" using s eq by auto
      then show ?thesis using commit_fails [OF h c False] False by simp
    next
      case True
      note ok = commit_succeeds [OF c [unfolded True]]
      have L': "L' = L1\<lparr>cl_items := set_item_outcome (?n - 1) o1 ?xs\<rparr>" "D' = D1" "st = ATP_OK"
        using s eq True ok(1) by auto
      have i: "?n - 1 < length ?xs" using go by simp
      obtain h0 b where hb: "d_log D = Some (h0 @ b)" "length h0 = 12" "log_reads b ?xs" "cl_committed L = 12 + length b"
        using h by (auto simp: healthy_def)
      have reads: "log_reads (b @ ?r) (cl_items L')"
        using log_reads_patch [OF hb(3) go(1-3)] by (simp add: L')
      have log: "d_log D1 = Some (h0 @ (b @ ?r))" using ok(2) hb(1) by (simp add: log_bytes_def)
      have com: "cl_committed L' = 12 + length (b @ ?r)" using ok(1) hb(4) by (simp add: L')
      note facts = set_item_outcome_facts [OF i]
      have "healthy L' D'"
        unfolding healthy_def
      proof (intro conjI)
        show "\<exists>h b. d_log D' = Some (h @ b) \<and> length h = 12 \<and> log_reads b (cl_items L') \<and> cl_committed L' = 12 + length b"
          using log hb(2) reads com by (intro exI [of _ h0] exI [of _ "b @ ?r"]) (simp add: L'(2))
        show "d_off D' = Some (off_bytes (length (cl_items L')) (cl_committed L'))"
          using ok(3) facts(1) by (simp add: L')
        show "cl_committed L' < 2 ^ 64"
          using com room hb(4) by (simp add: room_def body_max_def)
        show "length (cl_items L') \<le> cl_committed L'" using h com hb(4) facts(1) by (simp add: L' healthy_def)
        show "\<forall>i < length (cl_items L'). item_ok i (cl_items L' ! i)"
          using h facts(1,4) by (simp add: L' healthy_def)
        show "distinct (map (\<lambda>x. (led_source_id (fst x), led_digest (fst x))) (cl_items L'))"
          using h facts(2) by (simp add: L' healthy_def)
        show "index_fits (map item_key (cl_items L')) (cl_slots L')"
          using h facts(3) ok(1) by (simp add: L' healthy_def)
      qed
      moreover have "restarts_as D' (cl_items L')" by (rule healthy_restarts [OF \<open>healthy L' D'\<close>])
      ultimately show ?thesis using L' go by auto
    qed
  qed
qed

subsection \<open>The life of a ledger\<close>

text \<open>
  A process opens the ledger, makes calls, and stops at the first one that fails; or it stops or
  crashes at any point.  Then the next one opens what is on the disk.
\<close>

inductive ledger_life :: "core_ledger \<Rightarrow> ledger_disk \<Rightarrow> bool" where
  life_open: "d_log D = None \<Longrightarrow> d_off D = None \<Longrightarrow> open_core_ledger io D = Some (Inr L, D') \<Longrightarrow>
    op_recover io = all_well \<Longrightarrow> ledger_life L D'"
| life_append: "ledger_life L D \<Longrightarrow> observation_ok x \<Longrightarrow> ap_payload_ok io \<Longrightarrow> room L \<Longrightarrow>
    append_ledger io x L D = Some (res, i, ATP_OK, L', D') \<Longrightarrow> ledger_life L' D'"
| life_outcome: "ledger_life L D \<Longrightarrow> room L \<Longrightarrow> set_outcome io i o1 L D = (ATP_OK, L', D') \<Longrightarrow> ledger_life L' D'"
| life_append_restart: "ledger_life L D \<Longrightarrow> observation_ok x \<Longrightarrow> ap_payload_ok io \<Longrightarrow> room L \<Longrightarrow>
    append_ledger io x L D = Some (res, i, st, L', D') \<Longrightarrow> recover all_well D' = Some (Inr L'', D'') \<Longrightarrow>
    ledger_life L'' D''"
| life_outcome_restart: "ledger_life L D \<Longrightarrow> room L \<Longrightarrow> set_outcome io i o1 L D = (st, L', D') \<Longrightarrow>
    recover all_well D' = Some (Inr L'', D'') \<Longrightarrow> ledger_life L'' D''"

lemma restart_inr:
  assumes "restarts_as D xs" and "recover all_well D = Some (Inr L, D')"
  shows "healthy L D' \<and> cl_items L = xs"
  using restart_recovers [OF assms(1)] assms(2) by auto

lemma open_fresh:
  assumes "d_log D = None" and "d_off D = None" and "open_core_ledger io D = Some (Inr L, D')" and "op_recover io = all_well"
  shows "healthy L D' \<and> cl_items L = []"
proof -
  define D1 where "D1 = D\<lparr>d_log := Some current_header\<rparr>"
  have head: "length current_header = 12" "legacy_version current_header = None" "header_accepted current_header"
    by (simp_all add: current_header_def log_header_def file_magic_def legacy_version_def header_accepted_def le_val_bytes_small)
  have log: "log_bytes D1 = current_header" "read_off (d_off D1) = None" "drop 12 current_header = []"
    using head assms(2) by (simp_all add: D1_def log_bytes_def read_off_def)
  have "open_core_ledger io D = recover all_well D1"
    using assms head log unfolding open_core_ledger_def open_checked_def D1_def [symmetric] Let_def
    by (auto split: if_splits)
  moreover have "recover all_well D1 = recover_finish all_well False [] 12 D1"
    using head log by (simp add: recover_def Let_def)
  ultimately have f: "recover_finish all_well False [] 12 D1 = Some (Inr L, D')" using assms(3) by simp
  obtain s where s: "index_ensure [] [] = Some (Some s)" "L = \<lparr>cl_items = [], cl_committed = 12, cl_slots = s\<rparr>"
    "D' = D1\<lparr>d_off := Some (off_bytes 0 12)\<rparr>"
    using f head log by (auto simp: recover_finish_def Let_def split: option.splits)
  have "index_ok [] s \<and> Suc 0 < length s" using index_ensure_fresh [of "[]"] s(1) by simp
  then have fits: "index_fits [] s" by (intro index_fitsI) auto
  have "healthy L D'"
    unfolding healthy_def
  proof (intro conjI)
    show "\<exists>h b. d_log D' = Some (h @ b) \<and> length h = 12 \<and> log_reads b (cl_items L) \<and> cl_committed L = 12 + length b"
      using head(1) by (intro exI [of _ current_header] exI [of _ "[]"]) (simp add: s(2,3) D1_def log_reads_Nil)
    show "d_off D' = Some (off_bytes (length (cl_items L)) (cl_committed L))" by (simp add: s(2,3))
    show "index_fits (map item_key (cl_items L)) (cl_slots L)" using fits by (simp add: s(2))
    show "cl_committed L < 2 ^ 64" by (simp add: s(2))
    show "length (cl_items L) \<le> cl_committed L" by (simp add: s(2))
    show "\<forall>i < length (cl_items L). item_ok i (cl_items L ! i)" by (simp add: s(2))
    show "distinct (map (\<lambda>x. (led_source_id (fst x), led_digest (fst x))) (cl_items L))" by (simp add: s(2))
  qed
  then show ?thesis by (simp add: s(2))
qed

lemma set_outcome_keeps:
  assumes "healthy L D" and "room L" and "set_outcome io i o1 L D = (st, L', D')"
  shows "restarts_as D' (cl_items L')" and "st = ATP_OK \<Longrightarrow> healthy L' D'"
  by (rule conjunct1 [OF set_outcome_restarts [OF assms]],
      erule mp [OF conjunct1 [OF conjunct2 [OF set_outcome_restarts [OF assms]]]])

lemma append_keeps:
  assumes "healthy L D" and "observation_ok x" and "ap_payload_ok io" and "room L"
    and "append_ledger io x L D = Some (res, i, st, L', D')"
  shows "restarts_as D' (cl_items L')" and "st = ATP_OK \<Longrightarrow> healthy L' D'"
proof -
  obtain res' i' st' M E where a: "append_ledger io x L D = Some (res', i', st', M, E)"
    "restarts_as E (cl_items M)" "st' = ATP_OK \<longrightarrow> healthy M E"
    using append_restarts [OF assms(1-4)] by blast
  have "L' = M" "D' = E" "st = st'" using a(1) assms(5) by simp_all
  then show "restarts_as D' (cl_items L')" and "st = ATP_OK \<Longrightarrow> healthy L' D'" using a(2,3) by simp_all
qed

theorem life_healthy: "ledger_life L D \<Longrightarrow> healthy L D"
proof (induction rule: ledger_life.induct)
  case (life_open D io L D')
  then show ?case using open_fresh by blast
next
  case (life_append L D x io res i L' D')
  show ?case by (rule append_keeps(2) [OF life_append.IH life_append.hyps(2,3,4,5) refl])
next
  case (life_outcome L D io i o1 L' D')
  show ?case by (rule set_outcome_keeps(2) [OF life_outcome.IH life_outcome.hyps(2,3) refl])
next
  case (life_append_restart L D x io res i st L' D' L'' D'')
  show ?case
    by (rule conjunct1 [OF restart_inr [OF append_keeps(1) [OF life_append_restart.IH life_append_restart.hyps(2,3,4,5)]
          life_append_restart.hyps(6)]])
next
  case (life_outcome_restart L D io i o1 st L' D' L'' D'')
  show ?case
    by (rule conjunct1 [OF restart_inr [OF set_outcome_keeps(1) [OF life_outcome_restart.IH life_outcome_restart.hyps(2,3)]
          life_outcome_restart.hyps(4)]])
qed

subsection \<open>Every call returns, and finds what a search would\<close>

lemma append_returns:
  assumes h: "healthy L D"
  shows "append_ledger io x L D \<noteq> None"
proof -
  have fits: "index_fits (map item_key (cl_items L)) (cl_slots L)" using h by (simp add: healthy_def)
  have "append_new io x L D \<noteq> None"
    using index_ensure_ok [OF fits]
  proof
    assume "\<exists>s. index_ensure (map item_key (cl_items L)) (cl_slots L) = Some (Some s) \<and>
      index_ok (map item_key (cl_items L)) s \<and> length (map item_key (cl_items L)) + 1 < length s"
    then obtain s where s: "index_ensure (map item_key (cl_items L)) (cl_slots L) = Some (Some s)"
      "index_ok (map item_key (cl_items L)) s" "length (map item_key (cl_items L)) + 1 < length s" by blast
    obtain s2 where "index_insert s (ledger_key (ob_source x) (ob_digest x)) (length (cl_items L)) = Some s2"
      using index_insert_ok [OF s(2), of "ledger_key (ob_source x) (ob_digest x)"] s(3) by auto
    then show ?thesis using s(1) by (simp add: append_new_def Let_def split: prod.splits)
  qed (simp add: append_new_def)
  moreover obtain found where "ledger_find L (ob_source x) (ob_digest x) = Some found"
    by (rule lookup_exact [OF h])
  ultimately show ?thesis
    by (auto simp: append_ledger_def ledger_lookup_def Let_def split: option.splits)
qed

lemma lookup_is_search:
  assumes h: "healthy L D"
  shows "ledger_find L source digest =
    Some (find (\<lambda>i. led_source_id (fst (cl_items L ! i)) = source \<and> led_digest (fst (cl_items L ! i)) = digest)
      [0..<length (cl_items L)])"
proof -
  let ?xs = "cl_items L" and ?k = "\<lambda>x :: item. (led_source_id (fst x), led_digest (fst x))"
  let ?P = "\<lambda>i. led_source_id (fst (?xs ! i)) = source \<and> led_digest (fst (?xs ! i)) = digest"
  obtain found where f: "ledger_find L source digest = Some found"
    "found = None \<Longrightarrow> (source, digest) \<notin> set (map ?k ?xs)"
    "\<And>i. found = Some i \<Longrightarrow> i < length ?xs \<and> ?P i"
    by (rule lookup_exact [OF h, of source digest]) blast
  have "found = find ?P [0..<length ?xs]"
  proof (cases found)
    case None
    have "\<not> ?P i" if "i < length ?xs" for i
      using f(2) [OF None] nth_mem [OF that] by (metis (no_types, lifting) image_eqI list.set_map)
    then have "find ?P [0..<length ?xs] = None" by (simp add: find_None_iff)
    then show ?thesis using None by simp
  next
    case (Some i)
    have i: "i < length ?xs" "?P i" using f(3) [OF Some] by blast+
    have d: "distinct (map ?k ?xs)" using h by (simp add: healthy_def)
    have one: "\<not> ?P j" if "j < i" for j
    proof
      assume "?P j"
      then have "map ?k ?xs ! j = map ?k ?xs ! i" using i that by simp
      then show False using nth_eq_iff_index_eq [OF d, of j i] i(1) that by simp
    qed
    have "find ?P [0..<length ?xs] = Some i"
      unfolding find_Some_iff using i one by (intro exI [of _ i]) simp
    then show ?thesis using Some by simp
  qed
  then show ?thesis using f(1) by simp
qed

subsection \<open>A restart succeeds\<close>

lemma grow_target_some: "need \<le> 2 ^ 63 \<Longrightarrow> grow_target need target \<noteq> None"
proof (induction need target rule: grow_target.induct)
  case (1 need target)
  have "\<not> 2 ^ 64 div 2 \<le> target" if "\<not> need \<le> target" using that 1(2) by simp
  then show ?case using 1 by (subst grow_target.simps) auto
qed

lemma restart_succeeds:
  assumes "restarts_as D xs" and "length xs \<le> 2 ^ 60"
  shows "\<exists>L D'. recover all_well D = Some (Inr L, D') \<and> cl_items L = xs \<and> healthy L D'"
proof -
  have "index_ensure (map item_key xs) [] \<noteq> Some None"
    using grow_target_some [of "(length xs + 1) * 10 div 7 + 1" 8] assms(2)
    by (auto simp: index_ensure_def Let_def split: option.splits)
  then show ?thesis using restart_recovers [OF assms(1)] by blast
qed

end
