(* ===== verification/Core_Ledger_Failures.thy ===== *)
theory Core_Ledger_Failures
  imports Core_Ledger_Facts
begin

text \<open>
  What happens to the observation ledger when the process goes on after a failed commit.  The
  next commit appends behind the record the failed one left, while the marker counts only one of
  the two, so the log and the marker disagree.
\<close>

subsection \<open>A lost marker\<close>

lemma commit_unmarked:
  "commit_record Commit_unmarked r n L D = (ATP_ERR_IO, L\<lparr>cl_committed := cl_committed L + length r\<rparr>, log_append r D)"
  by (simp add: commit_record_def Let_def)

lemma append_unmarked:
  assumes "append_ledger io x L D = Some (res, i, ATP_ERR_IO, L1, D1)" and "ap_commit io = Commit_unmarked"
  defines "r \<equiv> build_record 1 (serialize_entry (entry_of x (length (cl_items L))) (Payload (ob_payload x)) (ob_context x))"
  shows "cl_items L1 = cl_items L" and "cl_committed L1 = cl_committed L + length r" and "d_log D1 = Some (log_bytes D @ r)"
    and "context_valid (ob_context x) \<and> ob_source x \<noteq> [] \<and> length (ob_source x) < source_bytes \<and>
      length (ob_author x) < author_bytes \<and> length (ob_payload x) \<le> payload_limit"
  using assms(1,2)
  by (auto simp: append_ledger_def append_new_def Let_def commit_unmarked log_append_def r_def
      split: if_splits option.splits prod.splits)

lemma append_new_written:
  assumes "append_ledger io x L D = Some (Led_New, i, ATP_OK, L1, D1)"
  defines "r \<equiv> build_record 1 (serialize_entry (entry_of x (length (cl_items L))) (Payload (ob_payload x)) (ob_context x))"
  shows "length (cl_items L1) = length (cl_items L) + 1" and "d_log D1 = Some (log_bytes D @ r)"
    and "d_off D1 = Some (off_bytes (length (cl_items L) + 1) (cl_committed L + length r))"
    and "context_valid (ob_context x) \<and> ob_source x \<noteq> [] \<and> length (ob_source x) < source_bytes \<and>
      length (ob_author x) < author_bytes \<and> length (ob_payload x) \<le> payload_limit"
proof -
  have new: "append_new io x L D = Some (Led_New, i, ATP_OK, L1, D1)"
    and valid: "context_valid (ob_context x) \<and> ob_source x \<noteq> [] \<and> length (ob_source x) < source_bytes \<and>
      length (ob_author x) < author_bytes \<and> length (ob_payload x) \<le> payload_limit"
    using assms(1)
    by (auto simp: append_ledger_def ledger_lookup_def Let_def split: if_splits option.splits)
  obtain slots L2 where c: "commit_record (ap_commit io) r (length (cl_items L) + 1) (L\<lparr>cl_slots := slots\<rparr>) D = (ATP_OK, L2, D1)"
    "cl_items L1 = cl_items L @ [(entry_of x (length (cl_items L)), if ap_payload_ok io then Payload (ob_payload x) else Payload [], ob_context x)]"
    using new by (auto simp: append_new_def Let_def r_def split: if_splits option.splits prod.splits)
  note ok = commit_succeeds [OF c(1)]
  show "length (cl_items L1) = length (cl_items L) + 1" using c(2) by simp
  show "d_log D1 = Some (log_bytes D @ r)" by (rule ok(2))
  show "d_off D1 = Some (off_bytes (length (cl_items L) + 1) (cl_committed L + length r))" using ok(1,3) by simp
  show "context_valid (ob_context x) \<and> ob_source x \<noteq> [] \<and> length (ob_source x) < source_bytes \<and>
      length (ob_author x) < author_bytes \<and> length (ob_payload x) \<le> payload_limit" by (rule valid)
qed

lemma repeated_id_is_bad:
  assumes "ledger_entry_ok e" and "payload_ok p" and "context_ok c" and "led_id e = of_nat n" and "n < length xs + 1"
    and "length xs + 1 < 2 ^ 64"
  shows "replay_record enough_memory 1 (serialize_entry e p c) xs = Replay_bad"
proof -
  have word: "unat (of_nat k :: u64) = k" if "k < 2 ^ 64" for k
    using that by (simp add: unsigned_of_nat take_bit_nat_eq_self)
  have "unat (of_nat n :: u64) \<noteq> unat (of_nat (length xs + 1) :: u64)"
    using assms(5,6) word [of n] word [of "length xs + 1"] by linarith
  then have "(of_nat n :: u64) \<noteq> of_nat (length xs + 1)" by metis
  then show ?thesis using assms(4)
    unfolding replay_record_def by (simp add: entry_round_trip [OF assms(1-3)] replay_entry_def)
qed


lemma failed_append_then_append:
  assumes h: "healthy L D" and x: "observation_ok x" and y: "observation_ok y"
    and fail: "append_ledger io x L D = Some (r1, i1, ATP_ERR_IO, L1, D1)" "ap_commit io = Commit_unmarked"
    and good: "append_ledger io2 y L1 D1 = Some (Led_New, i2, ATP_OK, L2, D2)"
    and room: "cl_committed L + 2 * (9 + body_max) < 2 ^ 64"
  shows "recover all_well D2 = Some (Inl ATP_ERR_FORMAT, D2)"
proof -
  let ?xs = "cl_items L"
  let ?e = "entry_of x (length ?xs)" and ?f = "entry_of y (length ?xs)"
  define b1 where "b1 = serialize_entry ?e (Payload (ob_payload x)) (ob_context x)"
  define b2 where "b2 = serialize_entry ?f (Payload (ob_payload y)) (ob_context y)"
  note one = append_unmarked [OF fail, folded b1_def]
  note two = append_new_written [OF good, unfolded one(1), folded b2_def]
  have ex: "ledger_entry_ok ?e" "payload_ok (Payload (ob_payload x))" "context_ok (ob_context x)" "led_id ?e = of_nat (length ?xs + 1)"
    using entry_of_ok [OF x] one(4) by blast+
  have ey: "ledger_entry_ok ?f" "payload_ok (Payload (ob_payload y))" "context_ok (ob_context y)" "led_id ?f = of_nat (length ?xs + 1)"
    using entry_of_ok [OF y] two(4) by blast+
  obtain hd b where hb: "d_log D = Some (hd @ b)" "length hd = 12" "log_reads b ?xs" "cl_committed L = 12 + length b"
    "length ?xs \<le> cl_committed L"
    using h by (auto simp: healthy_def)
  define item where "item = (?e, Payload (ob_payload x), ob_context x)"
  define c where "c = build_record 1 b2"
  have len: "0 < length b2" "length b2 \<le> body_max" "length b1 \<le> body_max"
    using length_entry_body [OF ey(1-3)] length_entry_body [OF ex(1-3)] by (simp_all add: b1_def b2_def)
  have reads: "log_reads (b @ build_record 1 b1) (?xs @ [item])"
    unfolding b1_def item_def by (rule log_reads_entry [OF hb(3) ex])
  have "next_record body_max (c @ []) = Some (1, b2, [])"
    unfolding c_def by (rule next_record_build [OF _ len(1,2) body_max_less]) simp
  moreover have "replay_record enough_memory 1 b2 (?xs @ [item]) = Replay_bad"
    unfolding b2_def by (rule repeated_id_is_bad [OF ey(1-4)]) (use hb(4,5) room in simp_all)
  moreover have "c \<noteq> []" by (simp add: c_def build_record_def)
  ultimately have bad: "replay_log body_max (replay_record enough_memory) c (?xs @ [item]) = (?xs @ [item], c, Replay_bad)"
    by (subst replay_log.simps) simp
  have log: "log_bytes D2 = hd @ (b @ build_record 1 b1) @ c"
    using two(2) one(3) hb(1) by (simp add: log_bytes_def c_def)
  define f where "f = length (log_bytes D2)"
  have f: "f = cl_committed L1 + length c"
    using one(2) hb(2,4) by (simp add: f_def log c_def)
  have "read_off (d_off D2) = Some (length ?xs + 1, f)"
    unfolding two(3) f c_def by (rule read_off_bytes) (use one(2) hb(4,5) len room in simp_all)
  moreover have "\<not> f < 12" "drop 12 (take f (log_bytes D2)) = (b @ build_record 1 b1) @ c"
    using hb(2) by (simp_all add: f_def log)
  moreover have "replay_log body_max (replay_record enough_memory) ((b @ build_record 1 b1) @ c) [] = (?xs @ [item], c, Replay_bad)"
    using log_reads_more [OF reads, of c] bad by simp
  ultimately show ?thesis by (simp add: recover_def Let_def f_def)
qed

subsection \<open>A failed outcome\<close>

text \<open>
  The bytes of a patch reach the log, the sync fails; a second patch is acknowledged.  The marker
  fences the first one in and the second one out.
\<close>

lemma failed_outcome_wins:
  assumes h: "healthy L D" and room: "room L"
    and fail: "set_outcome Commit_unsynced i o1 L D = (ATP_ERR_IO, L1, D1)"
    and good: "set_outcome Commit_ok j o2 L1 D1 = (ATP_OK, L2, D2)" and change: "cl_items L2 \<noteq> cl_items L"
  shows "L1 = L" and "cl_items L2 = set_item_outcome (unat j - 1) o2 (cl_items L)"
    and "restarts_as D2 (set_item_outcome (unat i - 1) o1 (cl_items L))"
proof -
  let ?xs = "cl_items L" and ?r = "build_record 2 (patch_body i o1)" and ?q = "build_record 2 (patch_body j o2)"
  have one: "L1 = L \<and> D1 = log_append ?r D \<and> unat i \<noteq> 0 \<and> unat i \<le> length ?xs \<and>
      \<not> (ledger_is_committed (led_outcome (fst (?xs ! (unat i - 1)))) \<and> o1 = Ledger_Pending)"
    using fail by (auto simp: set_outcome_def commit_record_def Let_def split: if_splits)
  then show L1: "L1 = L" by simp
  have two: "cl_items L2 = set_item_outcome (unat j - 1) o2 ?xs \<and>
      D2 = (log_append ?q D1)\<lparr>d_off := Some (off_bytes (length ?xs) (cl_committed L + length ?q))\<rparr>"
    using good change unfolding L1 by (auto simp: set_outcome_def commit_record_def Let_def split: if_splits)
  then show "cl_items L2 = set_item_outcome (unat j - 1) o2 ?xs" by simp
  obtain hd b where hb: "d_log D = Some (hd @ b)" "length hd = 12" "log_reads b ?xs" "cl_committed L = 12 + length b"
    using h by (auto simp: healthy_def)
  have "log_reads (b @ ?r) (set_item_outcome (unat i - 1) o1 ?xs)"
    by (rule log_reads_patch [OF hb(3)]) (use one in blast)+
  moreover have "d_log D2 = Some (hd @ (b @ ?r) @ ?q)"
    using one two hb(1) by (simp add: log_append_def log_bytes_def)
  moreover have i: "unat i - 1 < length ?xs" using one by linarith
  note facts = set_item_outcome_facts [OF i, where ?o1.0 = o1]
  moreover have "d_off D2 = Some (off_bytes (length (set_item_outcome (unat i - 1) o1 ?xs)) (12 + length (b @ ?r)))"
    using two hb(4) facts(1) by simp
  moreover have "12 + length (b @ ?r) < 2 ^ 64" using room hb(4) by (simp add: room_def body_max_def)
  moreover have "length (set_item_outcome (unat i - 1) o1 ?xs) \<le> 12 + length (b @ ?r)"
    using h hb(4) facts(1) by (simp add: healthy_def)
  moreover have "\<forall>k < length (set_item_outcome (unat i - 1) o1 ?xs). item_ok k (set_item_outcome (unat i - 1) o1 ?xs ! k)"
    using h facts(1,4) by (simp add: healthy_def)
  moreover have "distinct (map (\<lambda>x. (led_source_id (fst x), led_digest (fst x))) (set_item_outcome (unat i - 1) o1 ?xs))"
    using h facts(2) by (simp add: healthy_def)
  ultimately show "restarts_as D2 (set_item_outcome (unat i - 1) o1 ?xs)"
    unfolding restarts_as_def using hb(2) by (intro exI [of _ hd] exI [of _ "b @ ?r"] exI [of _ ?q]) blast
qed

end
