(* ===== verification/Samples_Ledger.thy ===== *)
theory Samples_Ledger
  imports Core_Ledger_Failures
begin

text \<open>
  A concrete observation ledger: a new one, one observation, and the ledger that holds it.
\<close>

definition append_well :: append_io where
  "append_well = \<lparr>ap_reserve_ok = True, ap_buffers_ok = True, ap_commit = Commit_ok, ap_payload_ok = True\<rparr>"

definition open_well :: open_io where
  "open_well = \<lparr>op_create_ok = True,
     op_migrate = \<lparr>mg_stage_ok = True, mg_buffers_ok = True, mg_memory = enough_memory, mg_write_ok = True, mg_rename_ok = True\<rparr>,
     op_recover = all_well\<rparr>"

definition no_ledger :: ledger_disk where
  "no_ledger = \<lparr>d_log = None, d_off = None\<rparr>"

definition new_ledger :: core_ledger where
  "new_ledger = \<lparr>cl_items = [], cl_committed = 12, cl_slots = replicate 8 None\<rparr>"

definition new_ledger_disk :: ledger_disk where
  "new_ledger_disk = \<lparr>d_log = Some current_header, d_off = Some (off_bytes 0 12)\<rparr>"

lemma open_new: "open_core_ledger open_well no_ledger = Some (Inr new_ledger, new_ledger_disk)"
proof -
  have head: "length current_header = 12" "legacy_version current_header = None" "header_accepted current_header"
    by (simp_all add: current_header_def log_header_def file_magic_def legacy_version_def header_accepted_def le_val_bytes_small)
  have "grow_target (Suc (Suc 0)) 8 = Some 8" by (simp add: grow_target.simps)
  then have "index_ensure [] [] = Some (Some (replicate 8 None))" by (simp add: index_ensure_def Let_def)
  then show ?thesis
    using head
    by (simp add: open_core_ledger_def open_checked_def open_well_def no_ledger_def log_bytes_def read_off_def
        recover_def recover_finish_def Let_def new_ledger_def new_ledger_disk_def)
qed

lemma new_ledger_life: "ledger_life new_ledger new_ledger_disk"
  by (rule life_open [OF _ _ open_new]) (simp_all add: no_ledger_def open_well_def)

definition sample_observation :: observation where
  "sample_observation = \<lparr>ob_source = ''at://x/y/z'', ob_author = ''did:plc:abcd'', ob_observed_at = 7, ob_digest = 9,
     ob_schema = 0, ob_outcome = Ledger_Pending, ob_payload = ''hello'', ob_context = no_context\<rparr>"

definition sample_item :: item where
  "sample_item = (entry_of sample_observation 0, Payload ''hello'', no_context)"

definition sample_record :: string where
  "sample_record = build_record 1 (serialize_entry (entry_of sample_observation 0) (Payload ''hello'') no_context)"

lemma sample_observation_facts:
  "observation_ok sample_observation" "context_valid (ob_context sample_observation)" "ob_source sample_observation \<noteq> []"
  "length (ob_source sample_observation) < source_bytes" "length (ob_author sample_observation) < author_bytes"
  "length (ob_payload sample_observation) \<le> payload_limit"
  by (simp_all add: sample_observation_def observation_ok_def context_valid_def no_context_def NUL_def source_bytes_def
      author_bytes_def payload_limit_def context_bytes_def)

lemma insert_empty:
  "\<exists>s. index_insert (replicate 8 None) key i = Some s"
proof -
  have "home key 8 < 8" using home_mod [of key 3] by simp
  then have "probe (\<lambda>_. False) (replicate 8 None :: slots) (home key 8) = Some (home key 8)"
    by (subst probe.simps) simp
  then show ?thesis by (simp add: index_insert_def)
qed

lemma sample_append_new:
  assumes "ap_reserve_ok io" and "ap_buffers_ok io" and "cl_items L = []" and "cl_slots L = replicate 8 None"
  shows "append_ledger io sample_observation L D = append_new io sample_observation L D"
    and "\<exists>s. append_new io sample_observation L D =
       (case commit_record (ap_commit io) sample_record 1 L D of (st, L2, D2) \<Rightarrow>
          if st \<noteq> ATP_OK then Some (Led_NotFound, 0, st, L2, D2)
          else Some (Led_New, 1, ATP_OK,
             L2\<lparr>cl_items := [(fst sample_item, if ap_payload_ok io then Payload ''hello'' else Payload [], no_context)],
                cl_slots := s\<rparr>, D2))"
proof -
  show "append_ledger io sample_observation L D = append_new io sample_observation L D"
    using sample_observation_facts assms(3) by (auto simp: append_ledger_def ledger_lookup_def ledger_find_def)
  have ens: "index_ensure [] (replicate 8 None) = Some (Some (replicate 8 None))" by (simp add: index_ensure_def Let_def)
  obtain s where s: "index_insert (replicate 8 None) (ledger_key (ob_source sample_observation) (ob_digest sample_observation)) 0 = Some s"
    using insert_empty by blast
  have L: "L\<lparr>cl_slots := replicate 8 None\<rparr> = L" using assms(4) by (cases L) simp
  have obs: "ob_payload sample_observation = ''hello''" "ob_context sample_observation = no_context"
    "led_id (entry_of sample_observation 0) = 1"
    by (simp_all add: sample_observation_def entry_of_def)
  have rec: "build_record (Suc 0) (serialize_entry (entry_of sample_observation 0) (Payload ''hello'') no_context) = sample_record"
    by (simp add: sample_record_def)
  show "\<exists>s. append_new io sample_observation L D =
       (case commit_record (ap_commit io) sample_record 1 L D of (st, L2, D2) \<Rightarrow>
          if st \<noteq> ATP_OK then Some (Led_NotFound, 0, st, L2, D2)
          else Some (Led_New, 1, ATP_OK,
             L2\<lparr>cl_items := [(fst sample_item, if ap_payload_ok io then Payload ''hello'' else Payload [], no_context)],
                cl_slots := s\<rparr>, D2))"
    by (intro exI [of _ s], cases "commit_record (ap_commit io) sample_record 1 L D")
      (simp add: append_new_def Let_def assms ens s L obs rec sample_item_def)
qed

definition sample_disk :: ledger_disk where
  "sample_disk = \<lparr>d_log = Some (current_header @ sample_record), d_off = Some (off_bytes 1 (12 + length sample_record))\<rparr>"

lemma sample_ledger_first_append:
  "\<exists>s. append_ledger append_well sample_observation new_ledger new_ledger_disk =
     Some (Led_New, 1, ATP_OK, \<lparr>cl_items = [sample_item], cl_committed = 12 + length sample_record, cl_slots = s\<rparr>, sample_disk)"
proof -
  have i: "(fst sample_item, Payload ''hello'', no_context) = sample_item" by (simp add: sample_item_def)
  obtain s where "append_new append_well sample_observation new_ledger new_ledger_disk =
       (case commit_record (ap_commit append_well) sample_record 1 new_ledger new_ledger_disk of (st, L2, D2) \<Rightarrow>
          if st \<noteq> ATP_OK then Some (Led_NotFound, 0, st, L2, D2)
          else Some (Led_New, 1, ATP_OK,
             L2\<lparr>cl_items := [(fst sample_item, if ap_payload_ok append_well then Payload ''hello'' else Payload [], no_context)],
                cl_slots := s\<rparr>, D2))"
    using sample_append_new(2) [of append_well new_ledger new_ledger_disk] by (auto simp: append_well_def new_ledger_def)
  moreover have "append_ledger append_well sample_observation new_ledger new_ledger_disk =
      append_new append_well sample_observation new_ledger new_ledger_disk"
    by (rule sample_append_new(1)) (simp_all add: append_well_def new_ledger_def)
  ultimately show ?thesis
    by (intro exI [of _ s])
      (simp add: append_well_def commit_record_def Let_def new_ledger_def new_ledger_disk_def log_append_def log_bytes_def
        sample_disk_def i)
qed

definition sample_ledger :: "slots \<Rightarrow> core_ledger" where
  "sample_ledger s = \<lparr>cl_items = [sample_item], cl_committed = 12 + length sample_record, cl_slots = s\<rparr>"

lemma new_ledger_room: "room new_ledger" "ap_payload_ok append_well"
  by (simp_all add: append_well_def room_def new_ledger_def body_max_def context_bytes_def payload_limit_def)

lemma sample_ledger_life:
  obtains s where "ledger_life (sample_ledger s) sample_disk"
proof -
  obtain s where a: "append_ledger append_well sample_observation new_ledger new_ledger_disk =
      Some (Led_New, 1, ATP_OK, sample_ledger s, sample_disk)"
    using sample_ledger_first_append by (auto simp: sample_ledger_def)
  have "ledger_life (sample_ledger s) sample_disk"
    by (rule life_append [OF new_ledger_life sample_observation_facts(1) new_ledger_room(2,1) a])
  then show thesis by (rule that)
qed

lemma sample_ledger_room: "room (sample_ledger s)"
proof -
  have "length (serialize_entry (entry_of sample_observation 0) (Payload ''hello'') no_context) \<le> body_max"
    using length_entry_body [OF entry_of_ok(1,2,3) [OF sample_observation_facts]] by (simp add: sample_observation_def)
  then show ?thesis
    by (simp add: room_def sample_ledger_def sample_record_def body_max_def context_bytes_def payload_limit_def)
qed

lemma sample_unsynced:
  "set_outcome Commit_unsynced 1 Ledger_Withdrawn (sample_ledger s) sample_disk =
    (ATP_ERR_IO, sample_ledger s, log_append (build_record 2 (patch_body 1 Ledger_Withdrawn)) sample_disk)"
  by (simp add: set_outcome_def Let_def commit_record_def sample_ledger_def sample_item_def sample_observation_def entry_of_def)

lemma sample_acknowledged:
  "\<exists>L2 D2. set_outcome Commit_ok 1 Ledger_Learned (sample_ledger s) D = (ATP_OK, L2, D2) \<and>
     cl_items L2 \<noteq> cl_items (sample_ledger s)"
  by (simp add: set_outcome_def Let_def commit_record_def sample_ledger_def sample_item_def sample_observation_def
      entry_of_def set_item_outcome_def)

text \<open>The new ledger after an append whose marker was lost.\<close>

definition unmarked_ledger :: core_ledger where
  "unmarked_ledger = new_ledger\<lparr>cl_committed := 12 + length sample_record\<rparr>"

definition unmarked_disk :: ledger_disk where
  "unmarked_disk = \<lparr>d_log = Some (current_header @ sample_record), d_off = Some (off_bytes 0 12)\<rparr>"

lemma sample_unmarked_append:
  "append_ledger (append_well\<lparr>ap_commit := Commit_unmarked\<rparr>) sample_observation new_ledger new_ledger_disk =
    Some (Led_NotFound, 0, ATP_ERR_IO, unmarked_ledger, unmarked_disk)"
proof -
  let ?io = "append_well\<lparr>ap_commit := Commit_unmarked\<rparr>"
  have io: "ap_reserve_ok ?io" "ap_buffers_ok ?io" "cl_items new_ledger = []" "cl_slots new_ledger = replicate 8 None"
    by (simp_all add: append_well_def new_ledger_def)
  show ?thesis
    using sample_append_new [OF io, of new_ledger_disk]
    by (auto simp: commit_unmarked new_ledger_def unmarked_ledger_def unmarked_disk_def new_ledger_disk_def log_append_def
        log_bytes_def)
qed

lemma sample_second_append:
  "\<exists>L D. append_ledger append_well sample_observation unmarked_ledger unmarked_disk = Some (Led_New, 1, ATP_OK, L, D)"
proof -
  have io: "ap_reserve_ok append_well" "ap_buffers_ok append_well" "cl_items unmarked_ledger = []"
    "cl_slots unmarked_ledger = replicate 8 None"
    by (simp_all add: append_well_def new_ledger_def unmarked_ledger_def)
  show ?thesis
    using sample_append_new [OF io, of unmarked_disk]
    by (auto simp: append_well_def commit_record_def Let_def)
qed

end
