(* ===== verification/Ingestion_Policy.thy ===== *)
theory Ingestion_Policy
  imports Prelude
begin

text \<open>
  Which posts may be learned from (src/src/app/ingestion/policy.cpp).  A decision is a reason and
  whether it is eligible; \<open>policy_reason_is_eligible\<close> is the test every ingestion engine uses.
\<close>

datatype PolicyReason =
    Policy_Eligible | Policy_Repost | Policy_Reply | Policy_Quote | Policy_SelfAuthored
  | Policy_ViewerBlocked | Policy_ViewerBlockedBy | Policy_ViewerMuted | Policy_EmptyText
  | Policy_UnsupportedRecord | Policy_NonTextOnly | Policy_ModerationFiltered

fun policy_reason_name :: "PolicyReason \<Rightarrow> string" where
  "policy_reason_name Policy_Eligible = ''eligible''"
| "policy_reason_name Policy_Repost = ''repost''"
| "policy_reason_name Policy_Reply = ''reply''"
| "policy_reason_name Policy_Quote = ''quote''"
| "policy_reason_name Policy_SelfAuthored = ''self-authored''"
| "policy_reason_name Policy_ViewerBlocked = ''viewer-blocked''"
| "policy_reason_name Policy_ViewerBlockedBy = ''viewer-blocked-by''"
| "policy_reason_name Policy_ViewerMuted = ''viewer-muted''"
| "policy_reason_name Policy_EmptyText = ''empty-text''"
| "policy_reason_name Policy_UnsupportedRecord = ''unsupported-record''"
| "policy_reason_name Policy_NonTextOnly = ''non-text-only''"
| "policy_reason_name Policy_ModerationFiltered = ''moderation-filtered''"

fun policy_reason_is_eligible :: "PolicyReason \<Rightarrow> bool" where
  "policy_reason_is_eligible Policy_Eligible = True"
| "policy_reason_is_eligible Policy_Repost = True"
| "policy_reason_is_eligible Policy_Reply = True"
| "policy_reason_is_eligible Policy_Quote = True"
| "policy_reason_is_eligible _ = False"

record PolicyPost =
  pp_author_did :: string
  pp_record_type :: string
  pp_text :: string
  embed_type :: string
  embed_has_text_fallback :: bool
  viewer_blocked :: bool
  viewer_blocked_by :: bool
  viewer_muted :: bool
  moderation_filtered :: bool
  is_repost :: bool
  is_reply :: bool
  is_quote :: bool

definition evaluate_post :: "string \<Rightarrow> PolicyPost \<Rightarrow> bool \<times> PolicyReason" where
  "evaluate_post account_did post =
     (if pp_record_type post \<noteq> ''app.bsky.feed.post'' then (False, Policy_UnsupportedRecord)
      else if account_did \<noteq> [] \<and> pp_author_did post = account_did then (False, Policy_SelfAuthored)
      else if viewer_blocked post then (False, Policy_ViewerBlocked)
      else if viewer_blocked_by post then (False, Policy_ViewerBlockedBy)
      else if viewer_muted post then (False, Policy_ViewerMuted)
      else if moderation_filtered post then (False, Policy_ModerationFiltered)
      else if pp_text post = [] then
        (if embed_type post \<noteq> [] \<and> \<not> embed_has_text_fallback post then
           (False, if is_quote post then Policy_EmptyText else Policy_NonTextOnly)
         else (False, Policy_EmptyText))
      else if is_repost post then (True, Policy_Repost)
      else if is_reply post then (True, Policy_Reply)
      else if is_quote post then (True, Policy_Quote)
      else (True, Policy_Eligible))"

text \<open>The flag and the reason never disagree.\<close>

lemma evaluate_post_eligible: "fst (evaluate_post did post) \<longleftrightarrow> policy_reason_is_eligible (snd (evaluate_post did post))"
  by (simp add: evaluate_post_def)

lemma evaluate_post_iff:
  "fst (evaluate_post did post) \<longleftrightarrow>
     pp_record_type post = ''app.bsky.feed.post'' \<and> (did = [] \<or> pp_author_did post \<noteq> did) \<and>
     \<not> viewer_blocked post \<and> \<not> viewer_blocked_by post \<and> \<not> viewer_muted post \<and> \<not> moderation_filtered post \<and>
     pp_text post \<noteq> []"
  by (auto simp: evaluate_post_def)

lemma policy_reason_name_inj: "policy_reason_name r = policy_reason_name r' \<Longrightarrow> r = r'"
  by (cases r; cases r') simp_all

end
