(* ===== verification/Sync_Engine.thy ===== *)
theory Sync_Engine
  imports Core_Ledger_Facts Journal_Parse Resolve Ingestion_Policy
begin

text \<open>
  The timeline sync (src/src/app/sync/engine.cpp, linkage.cpp, and the wrapper
  src/src/app/ledger.cpp): each observation of each page is appended to the observation ledger,
  trained on, committed, mirrored and linked to the action it answers, before the page's cursor
  is kept.  The ledger is the one of \<open>Core_Ledger\<close>, a call of which is \<open>None\<close> when it does not
  return; the graph's two calls and the page fetcher are parameters.
\<close>

record SyncObservation =
  so_text :: string
  so_source_uri :: string
  so_author_did :: string
  so_created_at :: string
  so_policy_reason :: PolicyReason
  so_context :: ConversationContext

record SyncPage =
  sp_items :: "SyncObservation list"
  next_cursor :: "string option"

record SyncLimits =
  page_size :: int
  max_pages :: int
  max_observations :: u64

record SyncResult =
  sr_pages :: nat
  sr_seen :: nat
  sr_learned :: nat
  sr_remembered :: nat
  sr_skipped :: nat
  sr_duplicates :: nat
  sr_exhausted :: bool

definition empty_sync_result :: SyncResult where
  "empty_sync_result =
     \<lparr>sr_pages = 0, sr_seen = 0, sr_learned = 0, sr_remembered = 0, sr_skipped = 0, sr_duplicates = 0, sr_exhausted = False\<rparr>"

record IngestionSource =
  src_kind :: string
  src_service :: string
  src_account_did :: string
  src_endpoint :: string
  src_algorithm :: "string option"

record CatchupCursor =
  cat_active :: bool
  cat_cursor :: "string option"
  protocol_repo :: "string option"
  protocol_revision :: "string option"

record IngestionCheckpoint =
  cp_generation :: u64
  cp_saved_at :: "string option"
  cp_pages :: u64
  cp_seen :: u64

record IngestionState =
  ing_version :: u32
  ing_source :: IngestionSource
  ing_catchup :: CatchupCursor
  ing_checkpoint :: IngestionCheckpoint

subsection \<open>The ledger behind its C++ wrapper\<close>

fun atp_status_string :: "Status \<Rightarrow> string" where
  "atp_status_string ATP_OK = ''ok''"
| "atp_status_string ATP_ERR_INVALID_ARGUMENT = ''invalid argument''"
| "atp_status_string ATP_ERR_OUT_OF_MEMORY = ''out of memory''"
| "atp_status_string ATP_ERR_IO = ''I/O error''"
| "atp_status_string ATP_ERR_FORMAT = ''invalid snapshot format''"
| "atp_status_string ATP_ERR_NOT_FOUND = ''not found''"
| "atp_status_string ATP_ERR_SCHEMA = ''learning schema not replayable by this build''"
| "atp_status_string ATP_ERR_CAPACITY = ''configured resource ceiling reached''"
| "atp_status_string ATP_ERR_MIGRATION = ''neural migration not permitted''"

definition require_ok :: "Status \<Rightarrow> string \<Rightarrow> unit result" where
  "require_ok st operation = require (st = ATP_OK) Runtime_error (operation @ '': '' @ atp_status_string st)"

definition to_c_context :: "ConversationContext \<Rightarrow> ConversationContext result" where
  "to_c_context c =
     (if context_bytes \<le> length (reply_root_uri c) \<or> context_bytes \<le> length (reply_parent_uri c) \<or>
         context_bytes \<le> length (quote_uri c)
      then throw Runtime_error ''conversation context URI too long''
      else Inr \<lparr>reply_root_uri = c_str (reply_root_uri c), reply_parent_uri = c_str (reply_parent_uri c),
                quote_uri = c_str (quote_uri c)\<rparr>)"

text \<open>\<open>to_result\<close> refuses the answer that the append never gives with a good status.\<close>

definition to_result :: "LedgerResult \<Rightarrow> LedgerResult result" where
  "to_result r =
     (if r = Led_NotFound then throw Runtime_error ''ledger lookup returned an impossible result'' else Inr r)"

definition ledger_put ::
  "append_io \<Rightarrow> observation \<Rightarrow> core_ledger \<Rightarrow> ledger_disk \<Rightarrow>
   ((LedgerResult \<times> u64) result \<times> core_ledger \<times> ledger_disk) option" where
  "ledger_put io x L D =
     (case to_c_context (ob_context x) of
        Inl e \<Rightarrow> Some (Inl e, L, D)
      | Inr c \<Rightarrow>
          map_option (\<lambda>(res, i, st, L1, D1).
              (and_then (require_ok st ''append ledger entry'') (\<lambda>_. and_then (to_result res) (\<lambda>r. Inr (r, i))), L1, D1))
            (append_ledger io (x\<lparr>ob_source := c_str (ob_source x), ob_author := c_str (ob_author x), ob_context := c\<rparr>) L D))"

definition ledger_put_outcome ::
  "commit_io \<Rightarrow> u64 \<Rightarrow> LedgerOutcome \<Rightarrow> core_ledger \<Rightarrow> ledger_disk \<Rightarrow> unit result \<times> core_ledger \<times> ledger_disk" where
  "ledger_put_outcome io i o1 L D =
     (case set_outcome io i o1 L D of (st, L1, D1) \<Rightarrow> (require_ok st ''set ledger outcome'', L1, D1))"

subsection \<open>Linking an observation to the action it answers\<close>

datatype LinkOutcome = Link_NoMatch | Link_Linked | Link_Duplicate

definition try_link ::
  "'j cjson \<Rightarrow> append_outcome \<Rightarrow> string \<Rightarrow> string \<Rightarrow> string \<Rightarrow> string \<Rightarrow> string \<Rightarrow> JournalContents \<times> string \<Rightarrow>
   LinkOutcome result \<times> JournalContents \<times> string" where
  "try_link J ao uri author cited via_name at_text s =
     (if cited = [] then (Inr Link_NoMatch, s)
      else case journal_find_action_by_uri (fst s) cited of
        None \<Rightarrow> (Inr Link_NoMatch, s)
      | Some a \<Rightarrow>
          if journal_has_event (fst s) (ja_id a) uri then (Inr Link_Duplicate, s)
          else
            let ev = \<lparr>je_action_id = ja_id a, event_uri = uri, je_author_did = author, via = via_name, je_at = at_text\<rparr>
            in case append_journal_entry J ao (Entry_Event ev) (snd s) of
                 (Inl e, bytes) \<Rightarrow> (Inl e, fst s, bytes)
               | (Inr _, bytes) \<Rightarrow> (Inr Link_Linked, add_entry (Entry_Event ev) (fst s), bytes))"

record LinkageResult =
  lr_linked :: nat
  lr_duplicates :: nat

definition link_answer :: "LinkOutcome \<Rightarrow> LinkageResult" where
  "link_answer x = \<lparr>lr_linked = (if x = Link_Linked then 1 else 0), lr_duplicates = (if x = Link_Duplicate then 1 else 0)\<rparr>"

text \<open>A duplicate found through the quote is not counted.\<close>

definition link_observation ::
  "'j cjson \<Rightarrow> append_outcome \<Rightarrow> SyncObservation \<Rightarrow> JournalContents \<times> string \<Rightarrow>
   LinkageResult result \<times> JournalContents \<times> string" where
  "link_observation J ao x s =
     (let c = so_context x;
          attempt = (\<lambda>cited name. try_link J ao (so_source_uri x) (so_author_did x) cited name (so_created_at x))
      in case attempt (reply_parent_uri c) ''parent'' s of
           (Inl e, s1) \<Rightarrow> (Inl e, s1)
         | (Inr parent, s1) \<Rightarrow>
             if parent \<noteq> Link_NoMatch then (Inr (link_answer parent), s1)
             else (case attempt (reply_root_uri c) ''root'' s1 of
                (Inl e, s2) \<Rightarrow> (Inl e, s2)
              | (Inr thread, s2) \<Rightarrow>
                  if thread \<noteq> Link_NoMatch then (Inr (link_answer thread), s2)
                  else (case attempt (quote_uri c) ''quote'' s2 of
                     (Inl e, s3) \<Rightarrow> (Inl e, s3)
                   | (Inr q, s3) \<Rightarrow>
                       (Inr (if q = Link_Linked then link_answer q else link_answer Link_NoMatch), s3))))"

text \<open>No linker when there is no journal file; else the journal as it was at the start of the run.\<close>

definition make_journal_linker :: "'j cjson \<Rightarrow> file_state \<Rightarrow> JournalContents option result" where
  "make_journal_linker J f =
     (if f = Missing then Inr None else and_then (load_journal J f) (\<lambda>c. Inr (Some c)))"

subsection \<open>One observation\<close>

record ('g, 'j) sync_env =
  se_remember :: "SyncObservation \<Rightarrow> u64 \<Rightarrow> u64 \<Rightarrow> u64 \<Rightarrow> 'g \<Rightarrow> unit result \<times> 'g"
  se_mirror :: "LedgerEntry \<Rightarrow> ConversationContext \<Rightarrow> 'g \<Rightarrow> unit result \<times> 'g"
  se_fetch :: "nat \<Rightarrow> string option \<Rightarrow> SyncPage result"
  se_json :: "'j cjson"
  se_append :: "nat \<Rightarrow> append_io"
  se_commit :: "nat \<Rightarrow> commit_io"
  se_journal :: "nat \<Rightarrow> append_outcome"

text \<open>
  \<open>sw_turn\<close> counts the observations handed to the engine and \<open>sw_fetches\<close> the fetches, so that
  each system call has its own outcome.  \<open>sw_linker\<close> is the linker's journal, \<open>None\<close> for no linker.
\<close>

record 'g sync_world =
  sw_graph :: 'g
  sw_ledger :: core_ledger
  sw_disk :: ledger_disk
  sw_linker :: "JournalContents option"
  sw_journal :: string
  sw_turn :: nat
  sw_fetches :: nat

definition observation_of :: "SyncObservation \<Rightarrow> observation" where
  "observation_of x =
     \<lparr>ob_source = so_source_uri x, ob_author = so_author_did x,
      ob_observed_at = of_nat (epoch_or_zero (so_created_at x)), ob_digest = atp_ledger_digest (so_text x),
      ob_schema = 2, ob_outcome = Ledger_Pending, ob_payload = so_text x, ob_context = so_context x\<rparr>"

definition trainable :: "SyncObservation \<Rightarrow> bool" where
  "trainable x \<longleftrightarrow> so_text x \<noteq> [] \<and> policy_reason_is_eligible (so_policy_reason x)"

definition outcome_of :: "SyncObservation \<Rightarrow> LedgerOutcome" where
  "outcome_of x = (if trainable x then Ledger_Learned else Ledger_Skipped)"

text \<open>
  The entry for the snapshot.  Its source is copied with \<open>memcpy\<close> by the length of the string,
  which the append has checked only up to the first NUL: a longer one overruns the buffer.
\<close>

definition mirrored_entry :: "SyncObservation \<Rightarrow> u64 \<Rightarrow> LedgerEntry result" where
  "mirrored_entry x i =
     (if source_bytes \<le> length (so_source_uri x) then throw Undefined_behaviour ''source_id overrun''
      else Inr \<lparr>led_id = i, led_observed_at = of_nat (epoch_or_zero (so_created_at x)),
             led_digest = atp_ledger_digest (so_text x), led_schema = 2, led_outcome = outcome_of x,
             led_source_id = c_str (so_source_uri x), led_author_did = c_str (take (author_bytes - 1) (so_author_did x))\<rparr>)"

definition learn_step :: "('g, 'j) sync_env \<Rightarrow> SyncObservation \<Rightarrow> u64 \<Rightarrow> 'g sync_world \<Rightarrow> unit result \<times> 'g sync_world" where
  "learn_step E x i w =
     (if \<not> trainable x then (Inr (), w)
      else case se_remember E x (of_nat (epoch_or_zero (so_created_at x))) (atp_ledger_digest (so_text x)) i (sw_graph w) of
        (r, g) \<Rightarrow> (r, w\<lparr>sw_graph := g\<rparr>))"

definition commit_step ::
  "('g, 'j) sync_env \<Rightarrow> nat \<Rightarrow> SyncObservation \<Rightarrow> u64 \<Rightarrow> 'g sync_world \<Rightarrow> bool result \<times> 'g sync_world" where
  "commit_step E n x i w =
     (case ledger_put_outcome (se_commit E n) i (outcome_of x) (sw_ledger w) (sw_disk w) of
        (r, L, D) \<Rightarrow>
          let w1 = w\<lparr>sw_ledger := L, sw_disk := D\<rparr> in
          case and_then r (\<lambda>_. mirrored_entry x i) of
            Inl e \<Rightarrow> (Inl e, w1)
          | Inr entry \<Rightarrow>
              (case se_mirror E entry (so_context x) (sw_graph w1) of
                 (r2, g) \<Rightarrow> (and_then r2 (\<lambda>_. Inr True), w1\<lparr>sw_graph := g\<rparr>)))"

definition process_observation ::
  "('g, 'j) sync_env \<Rightarrow> SyncObservation \<Rightarrow> 'g sync_world \<Rightarrow> (bool result \<times> 'g sync_world) option" where
  "process_observation E x w =
     (let n = sw_turn w in
      case ledger_put (se_append E n) (observation_of x) (sw_ledger w) (sw_disk w) of
        None \<Rightarrow> None
      | Some (r, L, D) \<Rightarrow>
          let w1 = w\<lparr>sw_ledger := L, sw_disk := D, sw_turn := Suc n\<rparr> in
          (case r of
             Inl e \<Rightarrow> Some (Inl e, w1)
           | Inr (found, i) \<Rightarrow>
               if found = Led_ExistsCommitted then Some (Inr False, w1)
               else (case learn_step E x i w1 of
                  (Inl e, w2) \<Rightarrow> Some (Inl e, w2)
                | (Inr _, w2) \<Rightarrow> Some (commit_step E n x i w2))))"

subsection \<open>A page, and the traversal\<close>

definition link_step :: "('g, 'j) sync_env \<Rightarrow> nat \<Rightarrow> SyncObservation \<Rightarrow> 'g sync_world \<Rightarrow> unit result \<times> 'g sync_world" where
  "link_step E n x w =
     (case sw_linker w of
        None \<Rightarrow> (Inr (), w)
      | Some c \<Rightarrow>
          (case link_observation (se_json E) (se_journal E n) x (c, sw_journal w) of
             (r, c1, bytes) \<Rightarrow> (and_then r (\<lambda>_. Inr ()), w\<lparr>sw_linker := Some c1, sw_journal := bytes\<rparr>)))"

definition count_new :: "bool \<Rightarrow> SyncResult \<Rightarrow> SyncResult" where
  "count_new learned r =
     (if learned then r\<lparr>sr_learned := Suc (sr_learned r)\<rparr> else r\<lparr>sr_skipped := Suc (sr_skipped r)\<rparr>)"

text \<open>\<open>counts\<close> is the runner's own test of what was learned.\<close>

fun sync_items ::
  "(SyncObservation \<Rightarrow> bool) \<Rightarrow> ('g, 'j) sync_env \<Rightarrow> SyncObservation list \<Rightarrow> SyncResult \<Rightarrow> 'g sync_world \<Rightarrow>
   (SyncResult result \<times> 'g sync_world) option" where
  "sync_items counts E [] r w = Some (Inr r, w)"
| "sync_items counts E (x # xs) r w =
     (let r1 = r\<lparr>sr_seen := Suc (sr_seen r)\<rparr> in
      case process_observation E x w of
        None \<Rightarrow> None
      | Some (Inl e, w1) \<Rightarrow> Some (Inl e, w1)
      | Some (Inr False, w1) \<Rightarrow> sync_items counts E xs (r1\<lparr>sr_duplicates := Suc (sr_duplicates r1)\<rparr>) w1
      | Some (Inr True, w1) \<Rightarrow>
          (case link_step E (sw_turn w) x w1 of
             (Inl e, w2) \<Rightarrow> Some (Inl e, w2)
           | (Inr _, w2) \<Rightarrow> sync_items counts E xs (count_new (counts x) r1) w2))"

definition budget_spent :: "SyncLimits \<Rightarrow> SyncResult \<Rightarrow> bool" where
  "budget_spent limits r \<longleftrightarrow> unat (max_observations limits) \<le> sr_seen r \<and> 0 < max_observations limits"

fun sync_loop ::
  "(SyncObservation \<Rightarrow> bool) \<Rightarrow> ('g, 'j) sync_env \<Rightarrow> SyncLimits \<Rightarrow> nat \<Rightarrow> string option \<Rightarrow> SyncResult \<Rightarrow> 'g sync_world \<Rightarrow>
   ((SyncResult \<times> string option) result \<times> 'g sync_world) option" where
  "sync_loop counts E limits 0 cursor r w = Some (Inr (r, cursor), w)"
| "sync_loop counts E limits (Suc n) cursor r w =
     (let w1 = w\<lparr>sw_fetches := Suc (sw_fetches w)\<rparr> in
      case se_fetch E (sw_fetches w) cursor of
        Inl e \<Rightarrow> Some (Inl e, w1)
      | Inr page \<Rightarrow>
          (case sync_items counts E (sp_items page) r w1 of
             None \<Rightarrow> None
           | Some (Inl e, w2) \<Rightarrow> Some (Inl e, w2)
           | Some (Inr r1, w2) \<Rightarrow>
               let r2 = r1\<lparr>sr_pages := Suc (sr_pages r1)\<rparr> in
               if next_cursor page = None then Some (Inr (r2\<lparr>sr_exhausted := True\<rparr>, cursor), w2)
               else if budget_spent limits r2 then Some (Inr (r2, next_cursor page), w2)
               else sync_loop counts E limits n (next_cursor page) r2 w2))"

definition start_traversal :: "IngestionState \<Rightarrow> IngestionState" where
  "start_traversal s =
     (if cat_active (ing_catchup s) then s
      else s\<lparr>ing_checkpoint := (ing_checkpoint s)\<lparr>cp_pages := 0, cp_seen := 0\<rparr>\<rparr>)"

definition start_cursor :: "IngestionState \<Rightarrow> string option" where
  "start_cursor s = (if cat_active (ing_catchup s) then cat_cursor (ing_catchup s) else None)"

definition keep_cursor :: "SyncResult \<Rightarrow> string option \<Rightarrow> IngestionState \<Rightarrow> IngestionState" where
  "keep_cursor r cursor s =
     s\<lparr>ing_catchup := (if sr_exhausted r then (ing_catchup s)\<lparr>cat_active := False, cat_cursor := None\<rparr>
                       else (ing_catchup s)\<lparr>cat_active := True, cat_cursor := cursor\<rparr>),
       ing_checkpoint := (ing_checkpoint s)\<lparr>cp_pages := cp_pages (ing_checkpoint s) + of_nat (sr_pages r),
                                            cp_seen := cp_seen (ing_checkpoint s) + of_nat (sr_seen r)\<rparr>\<rparr>"

definition run_sync_with ::
  "(SyncObservation \<Rightarrow> bool) \<Rightarrow> ('g, 'j) sync_env \<Rightarrow> SyncLimits \<Rightarrow> IngestionState \<Rightarrow> 'g sync_world \<Rightarrow>
   (SyncResult result \<times> IngestionState \<times> 'g sync_world) option" where
  "run_sync_with counts E limits s w =
     (if page_size limits \<le> 0 \<or> max_pages limits \<le> 0 then
        Some (throw Runtime_error ''sync limits must be positive'', s, w)
      else
        let s1 = start_traversal s in
        map_option (\<lambda>(x, w1). case x of
            Inl e \<Rightarrow> (Inl e, s1, w1)
          | Inr (r, cursor) \<Rightarrow> (Inr r, keep_cursor r cursor s1, w1))
          (sync_loop counts E limits (nat (max_pages limits)) (start_cursor s) empty_sync_result w))"

definition run_sync ::
  "('g, 'j) sync_env \<Rightarrow> SyncLimits \<Rightarrow> IngestionState \<Rightarrow> 'g sync_world \<Rightarrow>
   (SyncResult result \<times> IngestionState \<times> 'g sync_world) option" where
  "run_sync E limits s w = run_sync_with trainable E limits s w"

end
