(* ===== verification/Sync_Facts.thy ===== *)
theory Sync_Facts
  imports Sync_Engine
begin

text \<open>
  What a sync run does to the observation ledger: the cursor moves only past pages whose every
  observation is committed, what is committed stays committed, and an observation that is
  committed is never handed to the graph again.
\<close>

subsection \<open>What is committed\<close>

definition item_id :: "item \<Rightarrow> string \<times> u64" where
  "item_id x = (led_source_id (fst x), led_digest (fst x))"

definition committed_ids :: "core_ledger \<Rightarrow> (string \<times> u64) set" where
  "committed_ids L = item_id ` {x \<in> set (cl_items L). ledger_is_committed (led_outcome (fst x))}"

definition observation_id :: "SyncObservation \<Rightarrow> string \<times> u64" where
  "observation_id x = (c_str (so_source_uri x), atp_ledger_digest (so_text x))"

text \<open>The room for \<open>n\<close> more observations, of two records each.\<close>

definition room_for :: "nat \<Rightarrow> core_ledger \<Rightarrow> bool" where
  "room_for n L \<longleftrightarrow> cl_committed L + n * (2 * (9 + body_max)) < 2 ^ 64 \<and> length (cl_items L) + n < 2 ^ 60"

lemma room_for_Suc: "room_for (Suc n) L \<Longrightarrow> room L"
  by (auto simp: room_for_def room_def)

lemma outcome_of_committed: "ledger_is_committed (outcome_of x)"
  by (simp add: outcome_of_def ledger_is_committed_def)

lemma committed_idsI:
  "p < length (cl_items L) \<Longrightarrow> ledger_is_committed (led_outcome (fst (cl_items L ! p))) \<Longrightarrow>
     item_id (cl_items L ! p) \<in> committed_ids L"
  by (auto simp: committed_ids_def)

lemma committed_idsE:
  assumes "k \<in> committed_ids L"
  obtains p where "p < length (cl_items L)" "ledger_is_committed (led_outcome (fst (cl_items L ! p)))"
    "k = item_id (cl_items L ! p)"
  using assms by (auto simp: committed_ids_def in_set_conv_nth)

subsection \<open>The two ledger calls\<close>

lemma append_grows:
  assumes "append_ledger io x L D = Some (res, i, st, L', D')" and "observation_ok x"
  shows "cl_committed L' \<le> cl_committed L + (9 + body_max)"
proof (cases "context_valid (ob_context x) \<and> ob_source x \<noteq> [] \<and> length (ob_source x) < source_bytes \<and>
    length (ob_author x) < author_bytes \<and> length (ob_payload x) \<le> payload_limit")
  case False
  then show ?thesis using assms(1) by (auto simp: append_ledger_def)
next
  case True
  let ?r = "build_record 1 (serialize_entry (entry_of x (length (cl_items L))) (Payload (ob_payload x)) (ob_context x))"
  have r: "length ?r \<le> 9 + body_max"
    using length_entry_body [OF entry_of_ok(1-3)] True assms(2) by simp
  consider "L' = L" | "append_new io x L D = Some (res, i, st, L', D')"
    using assms(1) True by (auto simp: append_ledger_def split: option.splits prod.splits)
  then show ?thesis
  proof cases
    case 2
    have commit: "cl_committed L2 \<le> cl_committed L + length ?r"
      if "commit_record (ap_commit io) ?r n (L\<lparr>cl_slots := s\<rparr>) D = (st2, L2, D2)" for s n st2 L2 D2
      using that by (cases "ap_commit io") (auto simp: commit_record_def Let_def split: if_splits)
    have "cl_committed L' \<le> cl_committed L + length ?r"
      using 2 commit by (fastforce simp: append_new_def Let_def split: if_splits option.splits prod.splits)
    then show ?thesis using r by simp
  qed simp
qed

lemma append_answer:
  assumes h: "healthy L D" and x: "observation_ok x" and mem: "ap_payload_ok io" and room: "room L"
    and a: "append_ledger io x L D = Some (res, i, ATP_OK, L', D')" and pending: "ob_outcome x = Ledger_Pending"
  obtains p where "p < length (cl_items L')" "item_id (cl_items L' ! p) = (ob_source x, ob_digest x)"
    "i = of_nat (p + 1)" "take (length (cl_items L)) (cl_items L') = cl_items L"
    "res = Led_ExistsCommitted \<longleftrightarrow> ledger_is_committed (led_outcome (fst (cl_items L' ! p)))"
    "res = Led_ExistsCommitted \<Longrightarrow> L' = L \<and> D' = D"
    "length (cl_items L') \<le> Suc (length (cl_items L))"
proof -
  let ?xs = "cl_items L"
  obtain found where f: "ledger_find L (ob_source x) (ob_digest x) = Some found"
    "\<And>i. found = Some i \<Longrightarrow> i < length ?xs \<and> led_source_id (fst (?xs ! i)) = ob_source x \<and>
       led_digest (fst (?xs ! i)) = ob_digest x"
    by (rule lookup_exact [OF h, of "ob_source x" "ob_digest x"]) blast
  show thesis
  proof (cases found)
    case (Some p)
    have p: "p < length ?xs" "item_id (?xs ! p) = (ob_source x, ob_digest x)"
      using f(2) [OF Some] by (simp_all add: item_id_def)
    have id: "led_id (fst (?xs ! p)) = of_nat (p + 1)" using h p(1) by (simp add: healthy_def item_ok_def)
    have "L' = L \<and> D' = D \<and> i = led_id (fst (?xs ! p)) \<and>
        (res = (if ledger_is_committed (led_outcome (fst (?xs ! p))) then Led_ExistsCommitted else Led_ExistsPending))"
      using a f(1) Some by (auto simp: append_ledger_def ledger_lookup_def Let_def split: if_splits)
    then show thesis by (intro that [of p]) (use p id in \<open>auto split: if_splits\<close>)
  next
    case None
    have "append_new io x L D = Some (res, i, ATP_OK, L', D')"
      using a f(1) None by (auto simp: append_ledger_def ledger_lookup_def split: if_splits)
    then have i: "i = led_id (entry_of x (length ?xs)) \<and> length (cl_items L') = Suc (length ?xs)"
      by (auto simp: append_new_def Let_def split: if_splits option.splits prod.splits)
    have new: "res = Led_New \<and> cl_items L' = ?xs @ [(entry_of x (length ?xs), Payload (ob_payload x), ob_context x)]"
      using append_restarts [OF h x mem room] a i by auto
    have "ledger_is_committed Ledger_Pending = False" by (simp add: ledger_is_committed_def)
    then show thesis
      by (intro that [of "length ?xs"]) (use i new pending in \<open>simp_all add: entry_of_def item_id_def\<close>)
  qed
qed

lemma set_outcome_grows:
  assumes "set_outcome io i o1 L D = (st, L', D')"
  shows "cl_committed L' \<le> cl_committed L + (9 + body_max)"
proof -
  have "length (build_record 2 (patch_body i o1)) \<le> 9 + body_max" by (simp add: body_max_def)
  moreover have "cl_committed L2 \<le> cl_committed L + length r" if "commit_record io r n L D = (st2, L2, D2)" for r n st2 L2 D2
    using that by (cases io) (auto simp: commit_record_def Let_def split: if_splits)
  ultimately show ?thesis
    using assms by (fastforce simp: set_outcome_def Let_def split: if_splits prod.splits)
qed

lemma set_outcome_committed:
  assumes h: "healthy L D" and room: "room L" and s: "set_outcome io (of_nat (p + 1)) o1 L D = (ATP_OK, L', D')"
    and p: "p < length (cl_items L)" and o1: "ledger_is_committed o1"
  shows "healthy L' D'" and "length (cl_items L') = length (cl_items L)"
    and "item_id (cl_items L ! p) \<in> committed_ids L'" and "committed_ids L \<subseteq> committed_ids L'"
proof -
  note facts = set_outcome_restarts [OF h room s]
  show h': "healthy L' D'" using facts by blast
  have small: "p + 1 < 2 ^ 64" using p room by (simp add: room_def)
  then have n: "unat (of_nat (p + 1) :: u64) = p + 1" by (simp add: unsigned_of_nat take_bit_nat_eq_self del: of_nat_Suc of_nat_add)
  have items: "cl_items L' = set_item_outcome p o1 (cl_items L)"
    using s p n unfolding set_outcome_def Let_def n
    by (auto simp: set_item_outcome_def list_update_same_conv split: if_splits prod.splits
        dest!: commit_succeeds(1) intro!: prod_eqI)
  then show "length (cl_items L') = length (cl_items L)" by (simp add: set_item_outcome_def)
  show "item_id (cl_items L ! p) \<in> committed_ids L'"
    using committed_idsI [of p L'] p o1 items by (simp add: set_item_outcome_def item_id_def)
  show "committed_ids L \<subseteq> committed_ids L'"
  proof
    fix k
    assume "k \<in> committed_ids L"
    then obtain q where q: "q < length (cl_items L)" "ledger_is_committed (led_outcome (fst (cl_items L ! q)))"
      "k = item_id (cl_items L ! q)" by (rule committed_idsE)
    then show "k \<in> committed_ids L'"
      using committed_idsI [of q L'] o1 items by (cases "q = p") (auto simp: set_item_outcome_def item_id_def)
  qed
qed

subsection \<open>One observation\<close>

lemma to_c_context_ok:
  assumes "to_c_context c = Inr d"
  shows "NUL \<notin> set (reply_root_uri d)" "NUL \<notin> set (reply_parent_uri d)" "NUL \<notin> set (quote_uri d)"
  using assms by (auto simp: to_c_context_def c_str_no_NUL split: if_splits)

lemma ledger_put_answer:
  assumes h: "healthy L D" and mem: "ap_payload_ok io" and room: "room L"
    and put: "ledger_put io (observation_of x) L D = Some (Inr (res, i), L', D')"
  obtains p where "healthy L' D'" "p < length (cl_items L')" "item_id (cl_items L' ! p) = observation_id x" "i = of_nat (p + 1)"
    "take (length (cl_items L)) (cl_items L') = cl_items L"
    "res = Led_ExistsCommitted \<longleftrightarrow> ledger_is_committed (led_outcome (fst (cl_items L' ! p)))"
    "res = Led_ExistsCommitted \<Longrightarrow> L' = L \<and> D' = D"
    "length (cl_items L') \<le> Suc (length (cl_items L))" "cl_committed L' \<le> cl_committed L + (9 + body_max)"
proof -
  obtain c st where c: "to_c_context (so_context x) = Inr c" and st: "st = ATP_OK" and
    a: "append_ledger io ((observation_of x)\<lparr>ob_source := c_str (ob_source (observation_of x)),
       ob_author := c_str (ob_author (observation_of x)), ob_context := c\<rparr>) L D = Some (res, i, st, L', D')"
    using put
    by (auto simp: ledger_put_def require_ok_def to_result_def observation_of_def result_simps
        split: sum.splits if_splits)
  let ?x = "(observation_of x)\<lparr>ob_source := c_str (ob_source (observation_of x)),
       ob_author := c_str (ob_author (observation_of x)), ob_context := c\<rparr>"
  have ok: "observation_ok ?x"
    using to_c_context_ok [OF c] by (simp add: observation_ok_def c_str_no_NUL)
  have pending: "ob_outcome ?x = Ledger_Pending" by (simp add: observation_of_def)
  have id: "(ob_source ?x, ob_digest ?x) = observation_id x" by (simp add: observation_of_def observation_id_def)
  obtain p where p: "p < length (cl_items L')" "item_id (cl_items L' ! p) = observation_id x" "i = of_nat (p + 1)"
    "take (length (cl_items L)) (cl_items L') = cl_items L"
    "res = Led_ExistsCommitted \<longleftrightarrow> ledger_is_committed (led_outcome (fst (cl_items L' ! p)))"
    "res = Led_ExistsCommitted \<Longrightarrow> L' = L \<and> D' = D" "length (cl_items L') \<le> Suc (length (cl_items L))"
    by (rule append_answer [OF h ok mem room a [unfolded st] pending, unfolded id]) blast
  show thesis
    by (rule that [OF append_keeps(2) [OF h ok mem room a [unfolded st] refl] p append_grows [OF a ok]])
qed

definition well :: "('g, 'j) sync_env \<Rightarrow> bool" where
  "well E \<longleftrightarrow> (\<forall>n. ap_payload_ok (se_append E n))"

definition sound :: "nat \<Rightarrow> 'g sync_world \<Rightarrow> bool" where
  "sound n w \<longleftrightarrow> healthy (sw_ledger w) (sw_disk w) \<and> room_for n (sw_ledger w)"

lemma learn_step_ledger:
  assumes "learn_step E x i w = (r, w')"
  shows "sw_ledger w' = sw_ledger w" "sw_disk w' = sw_disk w" "sw_turn w' = sw_turn w" "sw_fetches w' = sw_fetches w"
    "sw_linker w' = sw_linker w" "sw_journal w' = sw_journal w"
  using assms by (auto simp: learn_step_def split: if_splits prod.splits)

lemma commit_step_ledger:
  assumes "commit_step E n x i w = (Inr b, w')"
  obtains L D where "b" "set_outcome (se_commit E n) i (outcome_of x) (sw_ledger w) (sw_disk w) = (ATP_OK, L, D)"
    "sw_ledger w' = L" "sw_disk w' = D"
proof -
  obtain st L D where s: "set_outcome (se_commit E n) i (outcome_of x) (sw_ledger w) (sw_disk w) = (st, L, D)"
    by (metis prod_cases3)
  have "st = ATP_OK \<and> b \<and> sw_ledger w' = L \<and> sw_disk w' = D"
    using assms s
    by (cases "st = ATP_OK"; cases "mirrored_entry x i")
      (auto simp: commit_step_def ledger_put_outcome_def require_ok_def Let_def throw_def result_simps split: prod.splits)
  then show thesis using s by (intro that) auto
qed

theorem process_commits:
  assumes E: "well E" and w: "sound (Suc n) w" and p: "process_observation E x w = Some (Inr b, w')"
  shows "sound n w'" and "observation_id x \<in> committed_ids (sw_ledger w')"
    and "committed_ids (sw_ledger w) \<subseteq> committed_ids (sw_ledger w')"
    and "b \<longleftrightarrow> observation_id x \<notin> committed_ids (sw_ledger w)"
proof -
  let ?L = "sw_ledger w"
  have h: "healthy ?L (sw_disk w)" and room: "room ?L" "room_for (Suc n) ?L"
    using w room_for_Suc by (auto simp: sound_def)
  have mem: "ap_payload_ok (se_append E (sw_turn w))" using E by (simp add: well_def)
  obtain res i L1 D1 where put: "ledger_put (se_append E (sw_turn w)) (observation_of x) ?L (sw_disk w) = Some (Inr (res, i), L1, D1)"
    using p by (auto simp: process_observation_def Let_def split: option.splits prod.splits sum.splits)
  obtain q where q: "healthy L1 D1" "q < length (cl_items L1)" "item_id (cl_items L1 ! q) = observation_id x" "i = of_nat (q + 1)"
    "take (length (cl_items ?L)) (cl_items L1) = cl_items ?L"
    "res = Led_ExistsCommitted \<longleftrightarrow> ledger_is_committed (led_outcome (fst (cl_items L1 ! q)))"
    "res = Led_ExistsCommitted \<Longrightarrow> L1 = ?L \<and> D1 = sw_disk w"
    "length (cl_items L1) \<le> Suc (length (cl_items ?L))" "cl_committed L1 \<le> cl_committed ?L + (9 + body_max)"
    by (rule ledger_put_answer [OF h mem room(1) put]) blast
  have prefix: "committed_ids ?L \<subseteq> committed_ids L1"
    using set_take_subset [of "length (cl_items ?L)" "cl_items L1"] q(5) by (auto simp: committed_ids_def)
  have room1: "room L1" using q(8,9) room(2) by (auto simp: room_for_def room_def)
  have "sound n w' \<and> observation_id x \<in> committed_ids (sw_ledger w') \<and>
      committed_ids ?L \<subseteq> committed_ids (sw_ledger w') \<and> (b \<longleftrightarrow> observation_id x \<notin> committed_ids ?L)"
  proof (cases "res = Led_ExistsCommitted")
    case True
    then have eq: "b = False" "sw_ledger w' = ?L" "sw_disk w' = sw_disk w"
      using p put q(7) by (auto simp: process_observation_def Let_def)
    have "observation_id x \<in> committed_ids ?L"
      using committed_idsI [of q L1] q(2,3,6,7) True by auto
    then show ?thesis using eq w by (auto simp: sound_def room_for_def)
  next
    case False
    obtain w2 where learn: "learn_step E x i (w\<lparr>sw_ledger := L1, sw_disk := D1, sw_turn := Suc (sw_turn w)\<rparr>) = (Inr (), w2)"
      and com: "commit_step E (sw_turn w) x i w2 = (Inr b, w')"
      using p put False by (auto simp: process_observation_def Let_def split: prod.splits sum.splits)
    have w2: "sw_ledger w2 = L1" "sw_disk w2 = D1" using learn_step_ledger [OF learn] by simp_all
    obtain L D where s: "b" "set_outcome (se_commit E (sw_turn w)) i (outcome_of x) L1 D1 = (ATP_OK, L, D)"
      "sw_ledger w' = L" "sw_disk w' = D"
      using commit_step_ledger [OF com] w2 by metis
    note c = set_outcome_committed [OF q(1) room1 s(2) [unfolded q(4)] q(2) outcome_of_committed]
    have "sound n w'"
      using c(1,2) s(3,4) room(2) q(8,9) set_outcome_grows [OF s(2)] by (auto simp: sound_def room_for_def)
    moreover have "observation_id x \<notin> committed_ids ?L"
    proof
      assume "observation_id x \<in> committed_ids ?L"
      then obtain r where r: "r < length (cl_items ?L)" "ledger_is_committed (led_outcome (fst (cl_items ?L ! r)))"
        "observation_id x = item_id (cl_items ?L ! r)" by (rule committed_idsE)
      have at: "r < length (cl_items L1)" "cl_items L1 ! r = cl_items ?L ! r"
        using r(1) q(5) nth_take [of r "length (cl_items ?L)" "cl_items L1"] by (auto simp: min_def dest: arg_cong [of _ _ length] split: if_splits)
      have "distinct (map (\<lambda>x. (led_source_id (fst x), led_digest (fst x))) (cl_items L1))"
        using q(1) by (simp add: healthy_def)
      then have "r = q"
        using at q(2,3) r(3) nth_eq_iff_index_eq [of "map (\<lambda>x. (led_source_id (fst x), led_digest (fst x))) (cl_items L1)" r q]
        by (simp add: item_id_def)
      then show False using False q(6) r(2) at(2) by simp
    qed
    ultimately show ?thesis using c(3,4) s(1,3) prefix q(3) by auto
  qed
  then show "sound n w'" and "observation_id x \<in> committed_ids (sw_ledger w')"
    and "committed_ids (sw_ledger w) \<subseteq> committed_ids (sw_ledger w')"
    and "b \<longleftrightarrow> observation_id x \<notin> committed_ids (sw_ledger w)" by blast+
qed

subsection \<open>Failures\<close>

lemma set_outcome_fails_committed:
  assumes "healthy L D" and "room L" and "set_outcome io i o1 L D = (st, L', D')" and "ledger_is_committed o1"
  shows "restarts_as D' (cl_items L') \<and> committed_ids L \<subseteq> committed_ids L'"
proof -
  note s = set_outcome_restarts [OF assms(1-3)]
  have "committed_ids L \<subseteq> committed_ids L'"
  proof
    fix k
    assume "k \<in> committed_ids L"
    then obtain q where q: "q < length (cl_items L)" "ledger_is_committed (led_outcome (fst (cl_items L ! q)))"
      "k = item_id (cl_items L ! q)" by (rule committed_idsE)
    consider "cl_items L' = cl_items L" | "unat i \<noteq> 0" "unat i \<le> length (cl_items L)"
        "cl_items L' = set_item_outcome (unat i - 1) o1 (cl_items L)"
      using s by blast
    then show "k \<in> committed_ids L'"
    proof cases
      case 1
      then show ?thesis using committed_idsI [of q L'] q by simp
    next
      case 2
      then show ?thesis
        using committed_idsI [of q L'] q assms(4) by (cases "q = unat i - 1") (auto simp: set_item_outcome_def item_id_def)
    qed
  qed
  then show ?thesis using s by blast
qed

lemma ledger_put_fails:
  assumes h: "healthy L D" and mem: "ap_payload_ok io" and room: "room L"
    and put: "ledger_put io (observation_of x) L D = Some (r, L', D')"
  shows "restarts_as D' (cl_items L') \<and> committed_ids L \<subseteq> committed_ids L'"
proof (cases "to_c_context (so_context x)")
  case (Inl e)
  then show ?thesis using put healthy_restarts [OF h] by (auto simp: ledger_put_def observation_of_def)
next
  case (Inr c)
  let ?x = "(observation_of x)\<lparr>ob_source := c_str (ob_source (observation_of x)),
       ob_author := c_str (ob_author (observation_of x)), ob_context := c\<rparr>"
  have ok: "observation_ok ?x"
    using to_c_context_ok [OF Inr] by (simp add: observation_ok_def c_str_no_NUL)
  obtain res i st where a: "append_ledger io ?x L D = Some (res, i, st, L', D')"
    using put Inr by (auto simp: ledger_put_def observation_of_def)
  have "cl_items L' = cl_items L \<or> (\<exists>y. cl_items L' = cl_items L @ [y])"
    using append_restarts [OF h ok mem room] a by auto
  then have "committed_ids L \<subseteq> committed_ids L'" by (auto simp: committed_ids_def)
  then show ?thesis using append_keeps(1) [OF h ok mem room a] by blast
qed

definition survives :: "'g sync_world \<Rightarrow> 'g sync_world \<Rightarrow> bool" where
  "survives w w' \<longleftrightarrow> restarts_as (sw_disk w') (cl_items (sw_ledger w')) \<and>
     committed_ids (sw_ledger w) \<subseteq> committed_ids (sw_ledger w')"

lemma survives_trans: "committed_ids (sw_ledger u) \<subseteq> committed_ids (sw_ledger v) \<Longrightarrow> survives v w \<Longrightarrow> survives u w"
  by (auto simp: survives_def)

lemma learn_step_frame:
  "learn_step E x i w = (r, w') \<Longrightarrow> sw_ledger w' = sw_ledger w \<and> sw_disk w' = sw_disk w \<and> sw_turn w' = sw_turn w \<and>
     sw_fetches w' = sw_fetches w \<and> sw_linker w' = sw_linker w \<and> sw_journal w' = sw_journal w"
  using learn_step_ledger [of E x i w r w'] by simp

lemma process_cases:
  assumes "process_observation E x w = Some (r, w')"
  obtains (refused) e L D where "ledger_put (se_append E (sw_turn w)) (observation_of x) (sw_ledger w) (sw_disk w) = Some (Inl e, L, D)"
      "r = Inl e" "w' = w\<lparr>sw_ledger := L, sw_disk := D, sw_turn := Suc (sw_turn w)\<rparr>"
  | (known) i L D where "ledger_put (se_append E (sw_turn w)) (observation_of x) (sw_ledger w) (sw_disk w) = Some (Inr (Led_ExistsCommitted, i), L, D)"
      "r = Inr False" "w' = w\<lparr>sw_ledger := L, sw_disk := D, sw_turn := Suc (sw_turn w)\<rparr>"
  | (learn) e res i L D where "ledger_put (se_append E (sw_turn w)) (observation_of x) (sw_ledger w) (sw_disk w) = Some (Inr (res, i), L, D)"
      "res \<noteq> Led_ExistsCommitted" "r = Inl e"
      "learn_step E x i (w\<lparr>sw_ledger := L, sw_disk := D, sw_turn := Suc (sw_turn w)\<rparr>) = (Inl e, w')"
  | (commit) res i L D w2 where "ledger_put (se_append E (sw_turn w)) (observation_of x) (sw_ledger w) (sw_disk w) = Some (Inr (res, i), L, D)"
      "res \<noteq> Led_ExistsCommitted"
      "learn_step E x i (w\<lparr>sw_ledger := L, sw_disk := D, sw_turn := Suc (sw_turn w)\<rparr>) = (Inr (), w2)"
      "commit_step E (sw_turn w) x i w2 = (r, w')"
  using assms
  by (auto simp: process_observation_def Let_def split: option.splits prod.splits sum.splits if_splits)

lemma process_turn:
  assumes "process_observation E x w = Some (r, w')"
  shows "sw_turn w' = Suc (sw_turn w) \<and> sw_fetches w' = sw_fetches w \<and> sw_linker w' = sw_linker w \<and> sw_journal w' = sw_journal w"
proof -
  have commit: "sw_turn w3 = sw_turn w2 \<and> sw_fetches w3 = sw_fetches w2 \<and> sw_linker w3 = sw_linker w2 \<and> sw_journal w3 = sw_journal w2"
    if "commit_step E n x i w2 = (b, w3)" for n i w2 b w3
    using that by (auto simp: commit_step_def Let_def split: prod.splits sum.splits)
  show ?thesis
    using assms by (cases rule: process_cases) (auto dest!: commit learn_step_frame)
qed

lemma process_survives:
  assumes E: "well E" and w: "sound (Suc n) w" and p: "process_observation E x w = Some (r, w')"
  shows "survives w w'"
proof -
  have h: "healthy (sw_ledger w) (sw_disk w)" and room: "room (sw_ledger w)" "room_for (Suc n) (sw_ledger w)"
    using w room_for_Suc by (auto simp: sound_def)
  have mem: "ap_payload_ok (se_append E (sw_turn w))" using E by (simp add: well_def)
  note put_ok = ledger_put_fails [OF h mem room(1)]
  show ?thesis
    using p
  proof (cases rule: process_cases)
    case refused
    then show ?thesis using put_ok [OF refused(1)] by (simp add: survives_def)
  next
    case known
    then show ?thesis using put_ok [OF known(1)] by (simp add: survives_def)
  next
    case learn
    then show ?thesis using put_ok [OF learn(1)] learn_step_frame [OF learn(4)] by (simp add: survives_def)
  next
    case (commit res i L1 D1 w2)
    obtain q where q: "healthy L1 D1" "length (cl_items L1) \<le> Suc (length (cl_items (sw_ledger w)))"
      "cl_committed L1 \<le> cl_committed (sw_ledger w) + (9 + body_max)"
      by (rule ledger_put_answer [OF h mem room(1) commit(1)]) blast
    have room1: "room L1" using q(2,3) room(2) by (auto simp: room_for_def room_def)
    obtain st L D where s: "set_outcome (se_commit E (sw_turn w)) i (outcome_of x) L1 D1 = (st, L, D)" by (metis prod_cases3)
    have "sw_ledger w2 = L1" "sw_disk w2 = D1" using learn_step_frame [OF commit(3)] by simp_all
    then have "sw_ledger w' = L" "sw_disk w' = D"
      using commit(4) s by (auto simp: commit_step_def ledger_put_outcome_def Let_def split: prod.splits sum.splits)
    then show ?thesis
      using set_outcome_fails_committed [OF q(1) room1 s outcome_of_committed] put_ok [OF commit(1)]
      by (auto simp: survives_def)
  qed
qed

subsection \<open>A run\<close>

lemma link_step_frame:
  "link_step E n x w = (r, w') \<Longrightarrow> sw_ledger w' = sw_ledger w \<and> sw_disk w' = sw_disk w \<and> sw_turn w' = sw_turn w \<and>
     sw_fetches w' = sw_fetches w \<and> sw_graph w' = sw_graph w"
  by (auto simp: link_step_def split: option.splits prod.splits)

lemma sound_mono: "sound m w \<Longrightarrow> n \<le> m \<Longrightarrow> sound n w"
  by (auto simp: sound_def room_for_def elim!: order.strict_trans1 [rotated])

lemma sound_survives: "sound n w \<Longrightarrow> survives w w"
  by (simp add: sound_def survives_def healthy_restarts)

abbreviation seen_one :: "SyncResult \<Rightarrow> SyncResult" where
  "seen_one r \<equiv> r\<lparr>sr_seen := Suc (sr_seen r)\<rparr>"

lemma sync_items_cases:
  assumes "sync_items counts E (x # xs) r w = Some (a, w')"
  obtains (failed) e where "process_observation E x w = Some (Inl e, w')" "a = Inl e"
  | (duplicate) w1 where "process_observation E x w = Some (Inr False, w1)"
      "sync_items counts E xs ((seen_one r)\<lparr>sr_duplicates := Suc (sr_duplicates r)\<rparr>) w1 = Some (a, w')"
  | (unlinked) e w1 where "process_observation E x w = Some (Inr True, w1)" "link_step E (sw_turn w) x w1 = (Inl e, w')" "a = Inl e"
  | (linked) w1 w2 where "process_observation E x w = Some (Inr True, w1)" "link_step E (sw_turn w) x w1 = (Inr (), w2)"
      "sync_items counts E xs (count_new (counts x) (seen_one r)) w2 = Some (a, w')"
proof (cases "process_observation E x w")
  case None
  then show thesis using assms by simp
next
  case (Some bw)
  obtain b w1 where p: "process_observation E x w = Some (b, w1)" using Some by (cases bw) auto
  obtain l w2 where l: "link_step E (sw_turn w) x w1 = (l, w2)" by fastforce
  show thesis
  proof (cases b)
    case (Inl e)
    then show thesis using assms p failed by simp
  next
    case (Inr new)
    show thesis
    proof (cases new)
      case False
      then show thesis using assms p Inr duplicate by simp
    next
      case True
      then show thesis using assms p Inr l unlinked linked by (cases l) auto
    qed
  qed
qed

lemma sync_items_turn:
  "sync_items counts E xs r w = Some (a, w') \<Longrightarrow> sw_turn w \<le> sw_turn w' \<and> sw_fetches w' = sw_fetches w"
proof (induction xs arbitrary: r w)
  case Nil
  then show ?case by simp
next
  case (Cons x xs)
  from Cons.prems show ?case
    by (cases rule: sync_items_cases) (auto dest!: process_turn link_step_frame Cons.IH)
qed

lemma sync_items_seen: "sync_items counts E xs r w = Some (Inr r', w') \<Longrightarrow> sr_seen r' = sr_seen r + length xs"
proof (induction xs arbitrary: r w)
  case Nil
  then show ?case by simp
next
  case (Cons x xs)
  from Cons.prems show ?case
    by (cases rule: sync_items_cases) (auto dest!: Cons.IH simp: count_new_def)
qed

lemma sync_items_commit:
  assumes E: "well E"
  shows "sync_items counts E xs r w = Some (a, w') \<Longrightarrow> sound (sw_turn w' - sw_turn w + n) w \<Longrightarrow>
    survives w w' \<and>
    (\<forall>r'. a = Inr r' \<longrightarrow> sound n w' \<and> sr_seen r' = sr_seen r + length xs \<and> sr_pages r' = sr_pages r \<and>
       sr_exhausted r' = sr_exhausted r \<and> observation_id ` set xs \<subseteq> committed_ids (sw_ledger w'))"
proof (induction xs arbitrary: r w)
  case Nil
  then show ?case using sound_survives by auto
next
  case (Cons x xs)
  from Cons.prems(1) show ?case
  proof (cases rule: sync_items_cases)
    case (failed e)
    have "sound (Suc n) w" using Cons.prems(2) process_turn [OF failed(1)] by (simp add: add.commute)
    then show ?thesis using process_survives [OF E _ failed(1)] failed(2) by simp
  next
    case (duplicate w1)
    have t: "sw_turn w1 = Suc (sw_turn w)" "sw_turn w1 \<le> sw_turn w'"
      using process_turn [OF duplicate(1)] sync_items_turn [OF duplicate(2)] by simp_all
    have "sw_turn w' - sw_turn w + n = Suc (sw_turn w' - sw_turn w1 + n)" using t by simp
    then have "sound (Suc (sw_turn w' - sw_turn w1 + n)) w" using Cons.prems(2) by simp
    note one = process_commits [OF E this duplicate(1)]
    note IH = Cons.IH [OF duplicate(2) one(1)]
    have sv: "survives w w'" by (rule survives_trans [OF one(3) conjunct1 [OF IH]])
    have "committed_ids (sw_ledger w1) \<subseteq> committed_ids (sw_ledger w')" using IH by (simp add: survives_def)
    then have x: "observation_id x \<in> committed_ids (sw_ledger w')" using one(2) by blast
    show ?thesis
    proof (intro conjI [OF sv] allI impI)
      fix r'
      assume "a = Inr r'"
      from mp [OF spec [OF conjunct2 [OF IH]] this] x
      show "sound n w' \<and> sr_seen r' = sr_seen r + length (x # xs) \<and> sr_pages r' = sr_pages r \<and>
          sr_exhausted r' = sr_exhausted r \<and> observation_id ` set (x # xs) \<subseteq> committed_ids (sw_ledger w')" by simp
    qed
  next
    case (unlinked e w1)
    note f = link_step_frame [OF unlinked(2)]
    have "sound (Suc n) w" using Cons.prems(2) process_turn [OF unlinked(1)] f by (simp add: add.commute)
    then show ?thesis using process_survives [OF E _ unlinked(1)] f unlinked(3) by (simp add: survives_def)
  next
    case (linked w1 w2)
    note f = link_step_frame [OF linked(2)]
    have t: "sw_turn w2 = Suc (sw_turn w)" "sw_turn w2 \<le> sw_turn w'"
      using process_turn [OF linked(1)] sync_items_turn [OF linked(3)] f by simp_all
    have "sw_turn w' - sw_turn w + n = Suc (sw_turn w' - sw_turn w2 + n)" using t by simp
    then have "sound (Suc (sw_turn w' - sw_turn w2 + n)) w" using Cons.prems(2) by simp
    note one = process_commits [OF E this linked(1)]
    have "sound (sw_turn w' - sw_turn w2 + n) w2" using one(1) f by (simp add: sound_def)
    note IH = Cons.IH [OF linked(3) this]
    have same: "sw_ledger w2 = sw_ledger w1" using f by simp
    have sv: "survives w w'" using survives_trans [OF _ conjunct1 [OF IH]] one(3) same by simp
    have "committed_ids (sw_ledger w1) \<subseteq> committed_ids (sw_ledger w')" using IH same by (simp add: survives_def)
    then have x: "observation_id x \<in> committed_ids (sw_ledger w')" using one(2) by blast
    have cnt: "sr_seen (count_new b r) = sr_seen r" "sr_pages (count_new b r) = sr_pages r"
      "sr_exhausted (count_new b r) = sr_exhausted r" for b r by (simp_all add: count_new_def)
    show ?thesis
    proof (intro conjI [OF sv] allI impI)
      fix r'
      assume "a = Inr r'"
      from mp [OF spec [OF conjunct2 [OF IH]] this] x
      show "sound n w' \<and> sr_seen r' = sr_seen r + length (x # xs) \<and> sr_pages r' = sr_pages r \<and>
          sr_exhausted r' = sr_exhausted r \<and> observation_id ` set (x # xs) \<subseteq> committed_ids (sw_ledger w')"
        by (simp add: cnt)
    qed
  qed
qed

text \<open>The pages a traversal reads, from the fetcher alone.\<close>

fun pages_read ::
  "(nat \<Rightarrow> string option \<Rightarrow> SyncPage result) \<Rightarrow> SyncLimits \<Rightarrow> nat \<Rightarrow> string option \<Rightarrow> nat \<Rightarrow> nat \<Rightarrow> SyncPage list" where
  "pages_read fetch limits 0 cursor k seen = []"
| "pages_read fetch limits (Suc n) cursor k seen =
     (case fetch k cursor of
        Inl e \<Rightarrow> []
      | Inr page \<Rightarrow>
          page # (if next_cursor page = None \<or>
                    unat (max_observations limits) \<le> seen + length (sp_items page) \<and> 0 < max_observations limits
                  then [] else pages_read fetch limits n (next_cursor page) (Suc k) (seen + length (sp_items page))))"

lemma sync_loop_turn: "sync_loop counts E limits n cursor r w = Some (a, w') \<Longrightarrow> sw_turn w \<le> sw_turn w'"
proof (induction n arbitrary: cursor r w)
  case (Suc n)
  then show ?case
    by (auto simp: Let_def split: sum.splits option.splits if_splits prod.splits dest!: sync_items_turn Suc.IH)
qed simp

lemma sync_loop_commit:
  assumes E: "well E"
  shows "sync_loop counts E limits n cursor r w = Some (a, w') \<Longrightarrow> sound (sw_turn w' - sw_turn w + m) w \<Longrightarrow>
    \<not> sr_exhausted r \<Longrightarrow>
    sw_turn w \<le> sw_turn w' \<and> survives w w' \<and>
    (\<forall>r' c. a = Inr (r', c) \<longrightarrow> sound m w' \<and>
       (let ps = pages_read (se_fetch E) limits n cursor (sw_fetches w) (sr_seen r) in
        sr_pages r' = sr_pages r + length ps \<and> sr_seen r' = sr_seen r + sum_list (map (length \<circ> sp_items) ps) \<and>
        (\<forall>p \<in> set ps. observation_id ` set (sp_items p) \<subseteq> committed_ids (sw_ledger w')) \<and>
        (if sr_exhausted r' then ps \<noteq> [] \<and> next_cursor (last ps) = None
         else c = (if ps = [] then cursor else next_cursor (last ps)))))"
proof (induction n arbitrary: cursor r w)
  case 0
  then show ?case using sound_survives by (auto simp: Let_def)
next
  case (Suc n)
  let ?w1 = "w\<lparr>sw_fetches := Suc (sw_fetches w)\<rparr>"
  show ?case
  proof (cases "se_fetch E (sw_fetches w) cursor")
    case (Inl e)
    then have "a = Inl e" "w' = ?w1" using Suc.prems(1) by auto
    then show ?thesis using Suc.prems(2) sound_survives by (auto simp: sound_def survives_def healthy_restarts)
  next
    case (Inr page)
    obtain b w2 where items: "sync_items counts E (sp_items page) r ?w1 = Some (b, w2)"
      using Suc.prems(1) Inr by (cases "sync_items counts E (sp_items page) r ?w1") auto
    note t = sync_items_turn [OF items]
    show ?thesis
    proof (cases b)
      case (Inl e)
      then have r: "a = Inl e" "w' = w2" using Suc.prems(1) Inr items by auto
      have "sound (sw_turn w2 - sw_turn ?w1 + m) ?w1" using Suc.prems(2) r by (simp add: sound_def)
      then show ?thesis using sync_items_commit [OF E items] t r by (auto simp: survives_def)
    next
      case fine: (Inr r1)
      define r2 where "r2 = r1\<lparr>sr_pages := Suc (sr_pages r1)\<rparr>"
      show ?thesis
      proof (cases "next_cursor page = None \<or> budget_spent limits r2")
        case True
        then have last: "w' = w2" "a = (if next_cursor page = None then Inr (r2\<lparr>sr_exhausted := True\<rparr>, cursor) else Inr (r2, next_cursor page))"
          using Suc.prems(1) Inr items fine by (auto simp: r2_def Let_def split: if_splits)
        have "sound (sw_turn w2 - sw_turn ?w1 + m) ?w1" using Suc.prems(2) last by (simp add: sound_def)
        note one = sync_items_commit [OF E items this, unfolded fine]
        have done1: "survives ?w1 w2" "sound m w2" "sr_seen r1 = sr_seen r + length (sp_items page)" "sr_pages r1 = sr_pages r"
          "\<not> sr_exhausted r1" "observation_id ` set (sp_items page) \<subseteq> committed_ids (sw_ledger w2)"
          using one Suc.prems(3) by simp_all
        have ps: "pages_read (se_fetch E) limits (Suc n) cursor (sw_fetches w) (sr_seen r) = [page]"
          using True Inr done1(3) by (simp add: budget_spent_def r2_def)
        show ?thesis
          unfolding ps
        proof (intro conjI allI impI)
          show "sw_turn w \<le> sw_turn w'" using t last(1) by simp
          show "survives w w'" using done1(1) last(1) by (simp add: survives_def)
        next
          fix r' c
          assume r': "a = Inr (r', c)"
          show "sound m w'" using done1(2) last(1) by simp
          show "let ps = [page] in sr_pages r' = sr_pages r + length ps \<and>
              sr_seen r' = sr_seen r + sum_list (map (length \<circ> sp_items) ps) \<and>
              (\<forall>p \<in> set ps. observation_id ` set (sp_items p) \<subseteq> committed_ids (sw_ledger w')) \<and>
              (if sr_exhausted r' then ps \<noteq> [] \<and> next_cursor (last ps) = None
               else c = (if ps = [] then cursor else next_cursor (last ps)))"
            using r' last done1(3-6) by (cases "next_cursor page") (auto simp: Let_def r2_def)
        qed
      next
        case False
        then have rest: "sync_loop counts E limits n (next_cursor page) r2 w2 = Some (a, w')"
          using Suc.prems(1) Inr items fine by (auto simp: r2_def Let_def)
        note t2 = sync_loop_turn [OF rest]
        have "sound (sw_turn w2 - sw_turn ?w1 + (sw_turn w' - sw_turn w2 + m)) ?w1"
          using Suc.prems(2) t t2 by (simp add: sound_def)
        note one = sync_items_commit [OF E items this, unfolded fine]
        note items1 = mp [OF spec [OF conjunct2 [OF one]] refl]
        have done1: "sound (sw_turn w' - sw_turn w2 + m) w2" "sr_seen r1 = sr_seen r + length (sp_items page)"
          "sr_pages r1 = sr_pages r" "sr_exhausted r1 = sr_exhausted r"
          "observation_id ` set (sp_items page) \<subseteq> committed_ids (sw_ledger w2)"
          using items1 by blast+
        have r2: "\<not> sr_exhausted r2" "sound (sw_turn w' - sw_turn w2 + m) w2" "survives ?w1 w2"
          using done1(1,4) Suc.prems(3) conjunct1 [OF one] by (simp_all add: r2_def)
        note IH = Suc.IH [OF rest r2(2,1)]
        define ps where "ps = pages_read (se_fetch E) limits n (next_cursor page) (sw_fetches w2) (sr_seen r2)"
        have pages: "pages_read (se_fetch E) limits (Suc n) cursor (sw_fetches w) (sr_seen r) = page # ps"
          using False Inr done1(2) t by (auto simp: budget_spent_def r2_def ps_def)
        have sv2: "survives w2 w'" using IH by blast
        then have sv: "survives w w'" using r2(3) by (auto simp: survives_def)
        have keep: "committed_ids (sw_ledger w2) \<subseteq> committed_ids (sw_ledger w')" using sv2 by (simp add: survives_def)
        show ?thesis
          unfolding pages
        proof (intro conjI allI impI)
          show "sw_turn w \<le> sw_turn w'" using t t2 by simp
          show "survives w w'" by (rule sv)
        next
          fix r' c
          assume "a = Inr (r', c)"
          then have fin: "sound m w'" "sr_pages r' = sr_pages r2 + length ps"
            "sr_seen r' = sr_seen r2 + sum_list (map (length \<circ> sp_items) ps)"
            "\<forall>p \<in> set ps. observation_id ` set (sp_items p) \<subseteq> committed_ids (sw_ledger w')"
            "if sr_exhausted r' then ps \<noteq> [] \<and> next_cursor (last ps) = None
             else c = (if ps = [] then next_cursor page else next_cursor (last ps))"
            using IH unfolding ps_def Let_def by blast+
          show "sound m w'" by (rule fin(1))
          show "let ps = page # ps in sr_pages r' = sr_pages r + length ps \<and>
              sr_seen r' = sr_seen r + sum_list (map (length \<circ> sp_items) ps) \<and>
              (\<forall>p \<in> set ps. observation_id ` set (sp_items p) \<subseteq> committed_ids (sw_ledger w')) \<and>
              (if sr_exhausted r' then ps \<noteq> [] \<and> next_cursor (last ps) = None
               else c = (if ps = [] then cursor else next_cursor (last ps)))"
            using fin(2-5) done1(2,3,5) keep by (auto simp: Let_def r2_def split: if_splits)
        qed
      qed
    qed
  qed
qed

text \<open>The pages of a run, and what the run did with them.\<close>

definition run_pages :: "('g, 'j) sync_env \<Rightarrow> SyncLimits \<Rightarrow> IngestionState \<Rightarrow> 'g sync_world \<Rightarrow> SyncPage list" where
  "run_pages E limits s w = pages_read (se_fetch E) limits (nat (max_pages limits)) (start_cursor s) (sw_fetches w) 0"

lemma run_sync_cases:
  assumes "run_sync_with counts E limits s w = Some (a, s', w')"
  obtains "page_size limits \<le> 0 \<or> max_pages limits \<le> 0" "a = throw Runtime_error ''sync limits must be positive''" "s' = s" "w' = w"
    | x where "0 < max_pages limits" "0 < page_size limits"
        "sync_loop counts E limits (nat (max_pages limits)) (start_cursor s) empty_sync_result w = Some (x, w')"
        "a = (case x of Inl e \<Rightarrow> Inl e | Inr (r, cursor) \<Rightarrow> Inr r)"
        "s' = (case x of Inl e \<Rightarrow> start_traversal s | Inr (r, cursor) \<Rightarrow> keep_cursor r cursor (start_traversal s))"
proof (cases "page_size limits \<le> 0 \<or> max_pages limits \<le> 0")
  case True
  then show thesis using assms by (intro that(1)) (auto simp: run_sync_with_def)
next
  case False
  obtain x w1 where x: "sync_loop counts E limits (nat (max_pages limits)) (start_cursor s) empty_sync_result w = Some (x, w1)"
    using assms False by (auto simp: run_sync_with_def Let_def)
  have y: "(a, s', w') = (case x of Inl e \<Rightarrow> (Inl e, start_traversal s, w1) | Inr (r, cursor) \<Rightarrow> (Inr r, keep_cursor r cursor (start_traversal s), w1))"
    using assms False x by (simp add: run_sync_with_def Let_def)
  then have "w1 = w'" by (auto split: sum.splits prod.splits)
  then show thesis
    by (intro that(2) [OF _ _ x [unfolded \<open>w1 = w'\<close>]]) (use False y in \<open>auto split: sum.splits prod.splits\<close>)
qed

lemma run_commits:
  assumes E: "well E" and run: "run_sync_with counts E limits s w = Some (a, s', w')" and w: "sound (sw_turn w' - sw_turn w + m) w"
  shows "survives w w'"
    and "a = Inl e \<Longrightarrow> ing_catchup s' = ing_catchup s"
    and "a = Inr r \<Longrightarrow> sound m w' \<and> run_pages E limits s w \<noteq> [] \<and>
      sr_pages r = length (run_pages E limits s w) \<and>
      sr_seen r = sum_list (map (length \<circ> sp_items) (run_pages E limits s w)) \<and>
      (\<forall>p \<in> set (run_pages E limits s w). observation_id ` set (sp_items p) \<subseteq> committed_ids (sw_ledger w')) \<and>
      (cat_active (ing_catchup s') \<longleftrightarrow> \<not> sr_exhausted r) \<and>
      cat_cursor (ing_catchup s') = next_cursor (last (run_pages E limits s w))"
proof -
  from run have "survives w w' \<and> (\<forall>e. a = Inl e \<longrightarrow> ing_catchup s' = ing_catchup s) \<and>
     (\<forall>r. a = Inr r \<longrightarrow> sound m w' \<and> run_pages E limits s w \<noteq> [] \<and>
      sr_pages r = length (run_pages E limits s w) \<and>
      sr_seen r = sum_list (map (length \<circ> sp_items) (run_pages E limits s w)) \<and>
      (\<forall>p \<in> set (run_pages E limits s w). observation_id ` set (sp_items p) \<subseteq> committed_ids (sw_ledger w')) \<and>
      (cat_active (ing_catchup s') \<longleftrightarrow> \<not> sr_exhausted r) \<and>
      cat_cursor (ing_catchup s') = next_cursor (last (run_pages E limits s w)))"
  proof (cases rule: run_sync_cases)
    case 1
    then show ?thesis using sound_survives [OF w] by (simp add: throw_def)
  next
    case (2 x)
    have "\<not> sr_exhausted empty_sync_result" by (simp add: empty_sync_result_def)
    note loop = sync_loop_commit [OF E 2(3) w this]
    have sv: "survives w w'" using loop by blast
    show ?thesis
    proof (cases x)
      case (Inl e)
      then show ?thesis using sv 2(4,5) by (simp add: start_traversal_def)
    next
      case (Inr rc)
      obtain r c where x: "x = Inr (r, c)" using Inr by (cases rc) simp
      define ps where "ps = run_pages E limits s w"
      have zero: "sr_seen empty_sync_result = 0" "sr_pages empty_sync_result = 0" by (simp_all add: empty_sync_result_def)
      have "sound m w'" "sr_pages r = length ps" "sr_seen r = sum_list (map (length \<circ> sp_items) ps)"
        "\<forall>p \<in> set ps. observation_id ` set (sp_items p) \<subseteq> committed_ids (sw_ledger w')"
        "if sr_exhausted r then ps \<noteq> [] \<and> next_cursor (last ps) = None
         else c = (if ps = [] then start_cursor s else next_cursor (last ps))"
        using loop unfolding x Let_def zero ps_def run_pages_def by simp_all
      moreover have "ps \<noteq> []"
      proof -
        obtain k where k: "nat (max_pages limits) = Suc k" using 2(1) by (cases "nat (max_pages limits)") auto
        have "\<exists>page. se_fetch E (sw_fetches w) (start_cursor s) = Inr page"
          using 2(3) unfolding k x by (cases "se_fetch E (sw_fetches w) (start_cursor s)") auto
        then show ?thesis by (auto simp: ps_def run_pages_def k)
      qed
      ultimately show ?thesis
        using sv 2(4,5) unfolding x ps_def [symmetric]
        by (cases "sr_exhausted r") (simp_all add: keep_cursor_def)
    qed
  qed
  then show "survives w w'"
    and "a = Inl e \<Longrightarrow> ing_catchup s' = ing_catchup s"
    and "a = Inr r \<Longrightarrow> sound m w' \<and> run_pages E limits s w \<noteq> [] \<and>
      sr_pages r = length (run_pages E limits s w) \<and>
      sr_seen r = sum_list (map (length \<circ> sp_items) (run_pages E limits s w)) \<and>
      (\<forall>p \<in> set (run_pages E limits s w). observation_id ` set (sp_items p) \<subseteq> committed_ids (sw_ledger w')) \<and>
      (cat_active (ing_catchup s') \<longleftrightarrow> \<not> sr_exhausted r) \<and>
      cat_cursor (ing_catchup s') = next_cursor (last (run_pages E limits s w))"
    by blast+
qed

subsection \<open>An observation seen again\<close>

text \<open>What is committed is not trained on, written or linked again.\<close>

lemma process_known:
  assumes E: "well E" and w: "sound (Suc n) w" and p: "process_observation E x w = Some (r, w')"
    and known: "observation_id x \<in> committed_ids (sw_ledger w)" and r: "r = Inr b"
  shows "b = False \<and> w' = w\<lparr>sw_turn := Suc (sw_turn w)\<rparr>"
proof -
  have b: "b = False" using process_commits(4) [OF E w p [unfolded r]] known by simp
  show ?thesis
    using p
  proof (cases rule: process_cases)
    case (known i L D)
    have h: "healthy (sw_ledger w) (sw_disk w)" and room: "room (sw_ledger w)"
      using w room_for_Suc by (auto simp: sound_def)
    have mem: "ap_payload_ok (se_append E (sw_turn w))" using E by (simp add: well_def)
    have "L = sw_ledger w \<and> D = sw_disk w"
      by (rule ledger_put_answer [OF h mem room known(1)]) blast
    then show ?thesis using known b r by simp
  next
    case (commit res i L D w2)
    then show ?thesis using b r by (auto elim!: commit_step_ledger)
  qed (use r in auto)
qed

lemma items_known:
  assumes E: "well E"
  shows "sync_items counts E xs r w = Some (Inr r', w') \<Longrightarrow> sound (length xs) w \<Longrightarrow>
    observation_id ` set xs \<subseteq> committed_ids (sw_ledger w) \<Longrightarrow>
    w' = w\<lparr>sw_turn := sw_turn w + length xs\<rparr> \<and> sr_learned r' = sr_learned r \<and> sr_duplicates r' = sr_duplicates r + length xs"
proof (induction xs arbitrary: r w)
  case Nil
  then show ?case by simp
next
  case (Cons x xs)
  have known: "observation_id x \<in> committed_ids (sw_ledger w)" using Cons.prems(3) by simp
  have sound: "sound (Suc (length xs)) w" using Cons.prems(2) by simp
  from Cons.prems(1) show ?case
  proof (cases rule: sync_items_cases)
    case (duplicate w1)
    have w1: "w1 = w\<lparr>sw_turn := Suc (sw_turn w)\<rparr>" using process_known [OF E sound duplicate(1) known refl] by simp
    have "sound (length xs) w1" using sound_mono [OF sound, of "length xs"] by (simp add: w1 sound_def)
    then show ?thesis using Cons.IH [OF duplicate(2)] Cons.prems(3) by (simp add: w1)
  qed (use process_known [OF E sound _ known refl] in auto)
qed

text \<open>
  A link that failed is lost: the observation was committed before, so when the page is read
  again it is a duplicate and nobody tries to link it.
\<close>

lemma failed_link_lost:
  assumes E: "well E" and w: "sound (Suc n) w" and first: "process_observation E x w = Some (Inr True, w1)"
    and fail: "link_step E (sw_turn w) x w1 = (Inl e, w2)"
    and F: "well F" and v: "sound (Suc k) v" and later: "committed_ids (sw_ledger w2) \<subseteq> committed_ids (sw_ledger v)"
    and again: "process_observation F x v = Some (Inr b, v')"
  shows "b = False \<and> v' = v\<lparr>sw_turn := Suc (sw_turn v)\<rparr>"
proof -
  have "observation_id x \<in> committed_ids (sw_ledger v)"
    using process_commits(2) [OF E w first] link_step_frame [OF fail] later by auto
  then show ?thesis using process_known [OF F v again _ refl] by simp
qed


subsection \<open>Every run returns\<close>

definition pages_within :: "nat \<Rightarrow> ('g, 'j) sync_env \<Rightarrow> bool" where
  "pages_within B E \<longleftrightarrow> (\<forall>k c. case se_fetch E k c of Inl e \<Rightarrow> True | Inr page \<Rightarrow> length (sp_items page) \<le> B)"

lemma pages_withinD: "pages_within B E \<Longrightarrow> se_fetch E k c = Inr page \<Longrightarrow> length (sp_items page) \<le> B"
  by (metis pages_within_def sum.case(2))

lemma process_returns:
  assumes "sound n w"
  shows "\<exists>r w'. process_observation E x w = Some (r, w')"
proof -
  have h: "healthy (sw_ledger w) (sw_disk w)" using assms by (simp add: sound_def)
  have "ledger_put (se_append E (sw_turn w)) (observation_of x) (sw_ledger w) (sw_disk w) \<noteq> None"
    using append_returns [OF h] by (cases "to_c_context (ob_context (observation_of x))") (simp_all add: ledger_put_def del: not_None_eq)
  then show ?thesis
    by (auto simp: process_observation_def Let_def split: option.splits prod.splits sum.splits)
qed

lemma sync_items_returns:
  assumes E: "well E"
  shows "sound (length xs + n) w \<Longrightarrow>
    \<exists>a w'. sync_items counts E xs r w = Some (a, w') \<and> sw_turn w' \<le> sw_turn w + length xs"
proof (induction xs arbitrary: r w)
  case Nil
  then show ?case by simp
next
  case (Cons x xs)
  have s: "sound (Suc (length xs + n)) w" using Cons.prems by simp
  obtain b w1 where p: "process_observation E x w = Some (b, w1)" using process_returns [OF s] by blast
  note t = process_turn [OF p]
  obtain l w2 where l: "link_step E (sw_turn w) x w1 = (l, w2)" by fastforce
  note f = link_step_frame [OF l]
  show ?case
  proof (cases b)
    case (Inl e)
    then show ?thesis using p t by simp
  next
    case (Inr new)
    have s1: "sound (length xs + n) w1" using process_commits(1) [OF E s p [unfolded Inr]] .
    then have s2: "sound (length xs + n) w2" using f by (simp add: sound_def)
    show ?thesis
    proof (cases new)
      case False
      then show ?thesis
        using p Inr t Cons.IH [OF s1, of "(seen_one r)\<lparr>sr_duplicates := Suc (sr_duplicates (seen_one r))\<rparr>"]
        by (auto simp: Let_def)
    next
      case True
      then show ?thesis
        using p Inr t l f Cons.IH [OF s2, of "count_new (counts x) (seen_one r)"] by (cases l) (auto simp: Let_def)
    qed
  qed
qed

lemma sync_loop_returns:
  assumes E: "well E" and B: "pages_within B E"
  shows "sound (n * B) w \<Longrightarrow>
    \<exists>a w'. sync_loop counts E limits n cursor r w = Some (a, w') \<and> sw_turn w' \<le> sw_turn w + n * B"
proof (induction n arbitrary: cursor r w)
  case 0
  then show ?case by simp
next
  case (Suc n)
  let ?w1 = "w\<lparr>sw_fetches := Suc (sw_fetches w)\<rparr>"
  show ?case
  proof (cases "se_fetch E (sw_fetches w) cursor")
    case (Inl e)
    then show ?thesis by simp
  next
    case (Inr page)
    have len: "length (sp_items page) \<le> B" by (rule pages_withinD [OF B Inr])
    have s: "sound (length (sp_items page) + n * B) ?w1"
      using sound_mono [OF Suc.prems, of "length (sp_items page) + n * B"] len by (simp add: sound_def)
    obtain b w2 where items: "sync_items counts E (sp_items page) r ?w1 = Some (b, w2)"
      and t: "sw_turn w2 \<le> sw_turn w + length (sp_items page)"
      using sync_items_returns [OF E s] by fastforce
    show ?thesis
    proof (cases b)
      case (Inl e)
      then show ?thesis using Inr items t len by simp
    next
      case one: (Inr r1)
      have "sound (sw_turn w2 - sw_turn ?w1 + n * B) ?w1" by (rule sound_mono [OF s]) (use t in simp)
      from sync_items_commit [OF E items this] one have "sound (n * B) w2" by blast
      from Suc.IH [OF this, of "next_cursor page" "r1\<lparr>sr_pages := Suc (sr_pages r1)\<rparr>"]
      show ?thesis using Inr items one t len by (auto simp: Let_def)
    qed
  qed
qed

lemma run_returns:
  assumes E: "well E" and B: "pages_within B E"
    and w: "sound (nat (max_pages limits) * B) w"
  shows "\<exists>a s' w'. run_sync_with counts E limits s w = Some (a, s', w') \<and>
    sound (sw_turn w' - sw_turn w) w"
proof (cases "page_size limits \<le> 0 \<or> max_pages limits \<le> 0")
  case True
  then show ?thesis using sound_mono [OF w, of 0] by (simp add: run_sync_with_def throw_def)
next
  case False
  obtain x w1 where x: "sync_loop counts E limits (nat (max_pages limits)) (start_cursor s) empty_sync_result w = Some (x, w1)"
    "sw_turn w1 \<le> sw_turn w + nat (max_pages limits) * B"
    using sync_loop_returns [OF E B w, where cursor = "start_cursor s" and r = empty_sync_result] by blast
  have s: "sound (sw_turn w1 - sw_turn w) w" by (rule sound_mono [OF w]) (use x(2) in simp)
  show ?thesis using False x(1) s
    by (cases x) (auto simp: run_sync_with_def Let_def split: prod.splits)
qed

end
