(* ===== verification/Sync_Parallel.thy ===== *)
theory Sync_Parallel
  imports Sync_Facts
begin

text \<open>
  The sync with a worker pool (src/src/app/sync/parallel.cpp).  The owner submits one fetch, then
  waits for it, so a run is that of \<open>Sync_Engine\<close> with another fetcher and another test of what
  was learned.  The hand-over of a page from the worker to the owner is a step relation of its
  own: \<open>hand_step\<close>.
\<close>

subsection \<open>The run\<close>

definition parallel_counts :: "SyncObservation \<Rightarrow> bool" where
  "parallel_counts x \<longleftrightarrow>
     so_text x \<noteq> [] \<and>
     \<not> (so_policy_reason x \<noteq> Policy_Eligible \<and> so_policy_reason x \<noteq> Policy_Repost \<and> so_policy_reason x \<noteq> Policy_Reply)"

text \<open>\<open>accepts k\<close> says whether the pool takes the \<open>k\<close>-th fetch; a failed fetch is thrown as another error.\<close>

definition pooled_fetch ::
  "(nat \<Rightarrow> bool) \<Rightarrow> (nat \<Rightarrow> string option \<Rightarrow> SyncPage result) \<Rightarrow> nat \<Rightarrow> string option \<Rightarrow> SyncPage result" where
  "pooled_fetch accepts fetch k cursor =
     (if \<not> accepts k then throw Runtime_error ''sync exhausted: no more pages''
      else case fetch k cursor of
        Inl e \<Rightarrow> throw Runtime_error ''sync aborted: a page fetch failed; cursor and ledger untouched''
      | Inr page \<Rightarrow> Inr page)"

definition run_sync_parallel ::
  "(nat \<Rightarrow> bool) \<Rightarrow> ('g, 'j) sync_env \<Rightarrow> SyncLimits \<Rightarrow> IngestionState \<Rightarrow> 'g sync_world \<Rightarrow>
   (SyncResult result \<times> IngestionState \<times> 'g sync_world) option" where
  "run_sync_parallel accepts E limits s w =
     run_sync_with parallel_counts (E\<lparr>se_fetch := pooled_fetch accepts (se_fetch E)\<rparr>) limits s w"

subsection \<open>The same run, but for the quotes\<close>

lemma learn_fetch: "learn_step (E\<lparr>se_fetch := f\<rparr>) = learn_step E"
  by (intro ext) (simp add: learn_step_def)

lemma commit_fetch: "commit_step (E\<lparr>se_fetch := f\<rparr>) = commit_step E"
  by (intro ext) (simp add: commit_step_def Let_def split: prod.splits sum.splits)

lemma process_fetch [simp]: "process_observation (E\<lparr>se_fetch := f\<rparr>) = process_observation E"
  by (intro ext) (simp add: process_observation_def Let_def learn_fetch commit_fetch split: option.splits prod.splits sum.splits)

lemma link_fetch [simp]: "link_step (E\<lparr>se_fetch := f\<rparr>) = link_step E"
  by (intro ext) (simp add: link_step_def split: option.splits)

lemma sync_items_fetch [simp]: "sync_items counts (E\<lparr>se_fetch := f\<rparr>) xs r w = sync_items counts E xs r w"
  by (induction xs arbitrary: r w)
    (simp_all add: Let_def split: option.splits prod.splits sum.splits bool.splits)

definition moved :: "nat \<Rightarrow> SyncResult \<Rightarrow> SyncResult" where
  "moved q r = r\<lparr>sr_learned := sr_learned r - q, sr_skipped := sr_skipped r + q\<rparr>"

lemma moved_simps [simp]:
  "sr_seen (moved q r) = sr_seen r" "sr_pages (moved q r) = sr_pages r" "sr_exhausted (moved q r) = sr_exhausted r"
  "moved 0 r = r"
  by (simp_all add: moved_def)

lemma parallel_counts_iff: "parallel_counts x \<longleftrightarrow> trainable x \<and> so_policy_reason x \<noteq> Policy_Quote"
  by (cases "so_policy_reason x") (auto simp: parallel_counts_def trainable_def)

definition no_quotes :: "SyncObservation list \<Rightarrow> bool" where
  "no_quotes xs \<longleftrightarrow> list_all (\<lambda>x. so_policy_reason x \<noteq> Policy_Quote) xs"

lemma items_parallel:
  "q \<le> sr_learned r \<Longrightarrow> sync_items trainable E xs r w = Some (a, w') \<Longrightarrow>
    (\<forall>e. a = Inl e \<longrightarrow> sync_items parallel_counts E xs (moved q r) w = Some (Inl e, w')) \<and>
    (\<forall>r'. a = Inr r' \<longrightarrow> (\<exists>p. q \<le> p \<and> p \<le> sr_learned r' \<and> (no_quotes xs \<longrightarrow> p = q) \<and>
      sync_items parallel_counts E xs (moved q r) w = Some (Inr (moved p r'), w')))"
proof (induction xs arbitrary: q r w)
  case Nil
  then show ?case by (auto simp: moved_def)
next
  case (Cons x xs)
  from Cons.prems(2) show ?case
  proof (cases rule: sync_items_cases)
    case (failed e)
    then show ?thesis by simp
  next
    case (duplicate w1)
    let ?r = "(seen_one r)\<lparr>sr_duplicates := Suc (sr_duplicates r)\<rparr>"
    have "(seen_one (moved q r))\<lparr>sr_duplicates := Suc (sr_duplicates (moved q r))\<rparr> = moved q ?r"
      by (cases r) (simp add: moved_def)
    then have eq: "sync_items parallel_counts E (x # xs) (moved q r) w = sync_items parallel_counts E xs (moved q ?r) w1"
      using duplicate(1) by (simp add: Let_def)
    have le: "q \<le> sr_learned ?r" using Cons.prems(1) by simp
    show ?thesis unfolding eq using Cons.IH [OF le duplicate(2)] by (fastforce simp: no_quotes_def)
  next
    case (unlinked e w1)
    then show ?thesis by simp
  next
    case (linked w1 w2)
    define q' where "q' = (if trainable x \<and> so_policy_reason x = Policy_Quote then Suc q else q)"
    let ?r = "count_new (trainable x) (seen_one r)"
    have "count_new (parallel_counts x) (seen_one (moved q r)) = moved q' ?r"
      using Cons.prems(1) by (cases r) (auto simp: moved_def q'_def count_new_def parallel_counts_iff Suc_diff_le)
    then have eq: "sync_items parallel_counts E (x # xs) (moved q r) w = sync_items parallel_counts E xs (moved q' ?r) w2"
      using linked(1,2) by (simp add: Let_def)
    have le: "q' \<le> sr_learned ?r" using Cons.prems(1) by (auto simp: q'_def count_new_def)
    have q: "q \<le> q'" "no_quotes (x # xs) \<Longrightarrow> q' = q" by (auto simp: q'_def no_quotes_def)
    note IH = Cons.IH [OF le linked(3)]
    show ?thesis
      unfolding eq
    proof (intro conjI allI impI)
      fix e
      assume "a = Inl e"
      then show "sync_items parallel_counts E xs (moved q' ?r) w2 = Some (Inl e, w')" using IH by blast
    next
      fix r'
      assume "a = Inr r'"
      then obtain p where "q' \<le> p" "p \<le> sr_learned r'" "no_quotes xs \<longrightarrow> p = q'"
        "sync_items parallel_counts E xs (moved q' ?r) w2 = Some (Inr (moved p r'), w')" using IH by blast
      then show "\<exists>p. q \<le> p \<and> p \<le> sr_learned r' \<and> (no_quotes (x # xs) \<longrightarrow> p = q) \<and>
          sync_items parallel_counts E xs (moved q' ?r) w2 = Some (Inr (moved p r'), w')"
        using q by (intro exI [of _ p]) (auto simp: no_quotes_def)
    qed
  qed
qed

lemma loop_parallel:
  assumes acc: "\<And>k. accepts k"
  shows "q \<le> sr_learned r \<Longrightarrow> sync_loop trainable E limits n cursor r w = Some (a, w') \<Longrightarrow>
    (\<forall>e. a = Inl e \<longrightarrow> (\<exists>e'. sync_loop parallel_counts (E\<lparr>se_fetch := pooled_fetch accepts (se_fetch E)\<rparr>) limits n cursor (moved q r) w =
        Some (Inl e', w'))) \<and>
    (\<forall>r' c. a = Inr (r', c) \<longrightarrow> (\<exists>p. q \<le> p \<and> p \<le> sr_learned r' \<and>
      (list_all (\<lambda>pg. no_quotes (sp_items pg)) (pages_read (se_fetch E) limits n cursor (sw_fetches w) (sr_seen r)) \<longrightarrow> p = q) \<and>
      sync_loop parallel_counts (E\<lparr>se_fetch := pooled_fetch accepts (se_fetch E)\<rparr>) limits n cursor (moved q r) w =
        Some (Inr (moved p r', c), w')))"
proof (induction n arbitrary: q cursor r w)
  case 0
  then show ?case by auto
next
  case (Suc n)
  let ?w1 = "w\<lparr>sw_fetches := Suc (sw_fetches w)\<rparr>"
  show ?case
  proof (cases "se_fetch E (sw_fetches w) cursor")
    case (Inl e)
    then show ?thesis using Suc.prems(2) acc by (auto simp: pooled_fetch_def throw_def)
  next
    case (Inr page)
    have fetch: "pooled_fetch accepts (se_fetch E) (sw_fetches w) cursor = Inr page"
      using Inr acc by (simp add: pooled_fetch_def)
    obtain b w2 where items: "sync_items trainable E (sp_items page) r ?w1 = Some (b, w2)"
      using Suc.prems(2) Inr by (cases "sync_items trainable E (sp_items page) r ?w1") auto
    note par = items_parallel [OF Suc.prems(1) items]
    note t = sync_items_turn [OF items]
    show ?thesis
    proof (cases b)
      case (Inl e)
      then have "a = Inl e" "w' = w2" using Suc.prems(2) Inr items by auto
      then show ?thesis using par Inl fetch by auto
    next
      case one: (Inr r1)
      obtain p where p: "q \<le> p" "p \<le> sr_learned r1" "no_quotes (sp_items page) \<longrightarrow> p = q"
        "sync_items parallel_counts E (sp_items page) (moved q r) ?w1 = Some (Inr (moved p r1), w2)"
        using par one by blast
      define r2 where "r2 = r1\<lparr>sr_pages := Suc (sr_pages r1)\<rparr>"
      have m: "(moved p r1)\<lparr>sr_pages := Suc (sr_pages r1)\<rparr> = moved p r2"
        "(moved p r2)\<lparr>sr_exhausted := True\<rparr> = moved p (r2\<lparr>sr_exhausted := True\<rparr>)"
        "budget_spent limits (moved p r2) = budget_spent limits r2"
        by (cases r1, simp add: moved_def r2_def budget_spent_def)+
      have le: "p \<le> sr_learned r2" using p(2) by (simp add: r2_def)
      have seen: "sr_seen r1 = sr_seen r + length (sp_items page)"
        using items one by (auto dest: sync_items_seen)
      show ?thesis
      proof (cases "next_cursor page = None \<or> budget_spent limits r2")
        case True
        then have last: "w' = w2" "a = (if next_cursor page = None then Inr (r2\<lparr>sr_exhausted := True\<rparr>, cursor) else Inr (r2, next_cursor page))"
          using Suc.prems(2) Inr items one by (auto simp: r2_def Let_def split: if_splits)
        obtain r' c where r': "a = Inr (r', c)" "sr_learned r' = sr_learned r2"
          "(r', c) = (if next_cursor page = None then (r2\<lparr>sr_exhausted := True\<rparr>, cursor) else (r2, next_cursor page))"
          using last(2) by (cases "next_cursor page") auto
        have "sync_loop parallel_counts (E\<lparr>se_fetch := pooled_fetch accepts (se_fetch E)\<rparr>) limits (Suc n) cursor (moved q r) w =
            Some (Inr (moved p r', c), w')"
          using fetch p(4) True m last(1) r'(3) by (cases "next_cursor page") (simp_all add: Let_def)
        moreover have "no_quotes (sp_items page)"
          if "list_all (\<lambda>pg. no_quotes (sp_items pg)) (pages_read (se_fetch E) limits (Suc n) cursor (sw_fetches w) (sr_seen r))"
          using that Inr by simp
        ultimately show ?thesis using r' le p(1,3) by auto
      next
        case False
        then have rest: "sync_loop trainable E limits n (next_cursor page) r2 w2 = Some (a, w')"
          using Suc.prems(2) Inr items one by (auto simp: r2_def Let_def)
        have eq: "sync_loop parallel_counts (E\<lparr>se_fetch := pooled_fetch accepts (se_fetch E)\<rparr>) limits (Suc n) cursor (moved q r) w =
            sync_loop parallel_counts (E\<lparr>se_fetch := pooled_fetch accepts (se_fetch E)\<rparr>) limits n (next_cursor page) (moved p r2) w2"
          using fetch p(4) False by (auto simp: Let_def m)
        have pages: "pages_read (se_fetch E) limits (Suc n) cursor (sw_fetches w) (sr_seen r) =
            page # pages_read (se_fetch E) limits n (next_cursor page) (sw_fetches w2) (sr_seen r2)"
          using False Inr seen t by (auto simp: budget_spent_def r2_def)
        note IH = Suc.IH [OF le rest]
        show ?thesis
          unfolding eq pages list.pred_inject(2)
        proof (intro conjI allI impI)
          fix e
          assume "a = Inl e"
          then show "\<exists>e'. sync_loop parallel_counts (E\<lparr>se_fetch := pooled_fetch accepts (se_fetch E)\<rparr>) limits n (next_cursor page) (moved p r2) w2 =
              Some (Inl e', w')" using IH by blast
        next
          fix r' c
          assume "a = Inr (r', c)"
          then obtain p' where "p \<le> p'" "p' \<le> sr_learned r'"
            "list_all (\<lambda>pg. no_quotes (sp_items pg)) (pages_read (se_fetch E) limits n (next_cursor page) (sw_fetches w2) (sr_seen r2)) \<longrightarrow> p' = p"
            "sync_loop parallel_counts (E\<lparr>se_fetch := pooled_fetch accepts (se_fetch E)\<rparr>) limits n (next_cursor page) (moved p r2) w2 =
               Some (Inr (moved p' r', c), w')" using IH by blast
          then show "\<exists>p'. q \<le> p' \<and> p' \<le> sr_learned r' \<and>
              (no_quotes (sp_items page) \<and>
               list_all (\<lambda>pg. no_quotes (sp_items pg)) (pages_read (se_fetch E) limits n (next_cursor page) (sw_fetches w2) (sr_seen r2)) \<longrightarrow> p' = q) \<and>
              sync_loop parallel_counts (E\<lparr>se_fetch := pooled_fetch accepts (se_fetch E)\<rparr>) limits n (next_cursor page) (moved p r2) w2 =
               Some (Inr (moved p' r', c), w')"
            using p(1,3) by (intro exI [of _ p']) auto
        qed
      qed
    qed
  qed
qed

lemma run_parallel:
  assumes "\<And>k. accepts k" and "run_sync E limits s w = Some (a, s', w')"
  shows "(\<forall>e. a = Inl e \<longrightarrow> (\<exists>e'. run_sync_parallel accepts E limits s w = Some (Inl e', s', w'))) \<and>
    (\<forall>r. a = Inr r \<longrightarrow> (\<exists>q \<le> sr_learned r.
       (list_all (\<lambda>pg. no_quotes (sp_items pg)) (run_pages E limits s w) \<longrightarrow> q = 0) \<and>
       run_sync_parallel accepts E limits s w =
         Some (Inr (r\<lparr>sr_learned := sr_learned r - q, sr_skipped := sr_skipped r + q\<rparr>), s', w')))"
proof -
  have "run_sync_with trainable E limits s w = Some (a, s', w')" using assms(2) by (simp add: run_sync_def)
  then show ?thesis
proof (cases rule: run_sync_cases)
  case 1
  then show ?thesis by (simp add: run_sync_parallel_def run_sync_with_def throw_def)
next
  case x: (2 x)
  have "0 \<le> sr_learned empty_sync_result" by simp
  note par = loop_parallel [of accepts, OF assms(1) this x(3)]
  have seen: "sr_seen empty_sync_result = 0" by (simp add: empty_sync_result_def)
  have keep: "keep_cursor (moved p r) c t = keep_cursor r c t" for p r c t by (simp add: keep_cursor_def)
  show ?thesis
  proof (cases x)
    case (Inl e)
    then show ?thesis
      using par x by (auto simp: run_sync_parallel_def run_sync_with_def Let_def)
  next
    case (Inr rc)
    obtain r c where rc: "x = Inr (r, c)" using Inr by (cases rc) simp
    obtain p where p: "p \<le> sr_learned r" "list_all (\<lambda>pg. no_quotes (sp_items pg)) (run_pages E limits s w) \<longrightarrow> p = 0"
      "sync_loop parallel_counts (E\<lparr>se_fetch := pooled_fetch accepts (se_fetch E)\<rparr>) limits (nat (max_pages limits)) (start_cursor s)
         empty_sync_result w = Some (Inr (moved p r, c), w')"
      using par rc seen by (auto simp: run_pages_def)
    have "run_sync_parallel accepts E limits s w = Some (Inr (moved p r), s', w')"
      using p(3) x rc by (simp add: run_sync_parallel_def run_sync_with_def keep)
    then show ?thesis using p(1,2) x(4) rc by (auto simp: moved_def)
  qed
qed
qed

end
