(* ===== verification/Sync_Handover.thy ===== *)
theory Sync_Handover
  imports Main
begin

text \<open>
  How a page goes from the worker to the owner in src/src/app/sync/parallel.cpp: \<open>drain_next\<close> on
  one side, the job of \<open>submit_fetch\<close> on the other, with the mutex and the condition variable
  between them.  A page is pushed under the mutex; a failure is flagged without it.
\<close>

datatype owner_pc =
    Owner_locking      \<comment> \<open>about to take the mutex\<close>
  | Owner_holding      \<comment> \<open>has it, about to look at the flag and the queue\<close>
  | Owner_unlucky      \<comment> \<open>has it, has seen neither, about to wait\<close>
  | Owner_waiting      \<comment> \<open>blocked on the condition variable\<close>
  | Owner_got | Owner_threw

datatype worker_pc = Worker_fetching | Worker_pushing | Worker_flagging | Worker_notifying | Worker_done

record hand =
  hd_owner :: owner_pc
  hd_worker :: worker_pc
  hd_ready :: bool
  hd_error :: bool

definition hand_start :: hand where
  "hand_start = \<lparr>hd_owner = Owner_locking, hd_worker = Worker_fetching, hd_ready = False, hd_error = False\<rparr>"

definition mutex_held :: "hand \<Rightarrow> bool" where
  "mutex_held s \<longleftrightarrow> hd_owner s = Owner_holding \<or> hd_owner s = Owner_unlucky"

text \<open>\<open>fails\<close> says whether this fetch throws.  A wait that wakes up by itself is not a step here.\<close>

inductive hand_step :: "bool \<Rightarrow> hand \<Rightarrow> hand \<Rightarrow> bool" for fails where
  owner_lock: "hd_owner s = Owner_locking \<Longrightarrow> hand_step fails s (s\<lparr>hd_owner := Owner_holding\<rparr>)"
| owner_throw: "hd_owner s = Owner_holding \<Longrightarrow> hd_error s \<Longrightarrow> hand_step fails s (s\<lparr>hd_owner := Owner_threw\<rparr>)"
| owner_take: "hd_owner s = Owner_holding \<Longrightarrow> \<not> hd_error s \<Longrightarrow> hd_ready s \<Longrightarrow>
    hand_step fails s (s\<lparr>hd_owner := Owner_got, hd_ready := False\<rparr>)"
| owner_look: "hd_owner s = Owner_holding \<Longrightarrow> \<not> hd_error s \<Longrightarrow> \<not> hd_ready s \<Longrightarrow>
    hand_step fails s (s\<lparr>hd_owner := Owner_unlucky\<rparr>)"
| owner_wait: "hd_owner s = Owner_unlucky \<Longrightarrow> hand_step fails s (s\<lparr>hd_owner := Owner_waiting\<rparr>)"
| worker_fetch: "hd_worker s = Worker_fetching \<Longrightarrow>
    hand_step fails s (s\<lparr>hd_worker := if fails then Worker_flagging else Worker_pushing\<rparr>)"
| worker_push: "hd_worker s = Worker_pushing \<Longrightarrow> \<not> mutex_held s \<Longrightarrow>
    hand_step fails s (s\<lparr>hd_worker := Worker_notifying, hd_ready := True\<rparr>)"
| worker_flag: "hd_worker s = Worker_flagging \<Longrightarrow>
    hand_step fails s (s\<lparr>hd_worker := Worker_notifying, hd_error := True\<rparr>)"
| worker_notify: "hd_worker s = Worker_notifying \<Longrightarrow>
    hand_step fails s (s\<lparr>hd_worker := Worker_done,
      hd_owner := if hd_owner s = Owner_waiting then Owner_locking else hd_owner s\<rparr>)"

inductive_cases hand_stepE: "hand_step fails s t"

inductive handed :: "bool \<Rightarrow> hand \<Rightarrow> bool" for fails where
  handed_start: "handed fails hand_start"
| handed_step: "handed fails s \<Longrightarrow> hand_step fails s t \<Longrightarrow> handed fails t"

subsection \<open>A page that was fetched arrives\<close>

text \<open>Before the push the queue is empty; after it the owner waits only for a notification that is to come.\<close>

definition hand_inv :: "hand \<Rightarrow> bool" where
  "hand_inv s \<longleftrightarrow> \<not> hd_error s \<and> hd_owner s \<noteq> Owner_threw \<and> hd_worker s \<noteq> Worker_flagging \<and>
     (hd_worker s = Worker_fetching \<or> hd_worker s = Worker_pushing \<longrightarrow> \<not> hd_ready s \<and> hd_owner s \<noteq> Owner_got) \<and>
     (hd_worker s = Worker_notifying \<or> hd_worker s = Worker_done \<longrightarrow>
        (hd_owner s = Owner_got \<longleftrightarrow> \<not> hd_ready s) \<and> hd_owner s \<noteq> Owner_unlucky) \<and>
     (hd_worker s = Worker_done \<longrightarrow> hd_owner s \<noteq> Owner_waiting)"

lemma hand_inv_holds: "handed False s \<Longrightarrow> hand_inv s"
proof (induction rule: handed.induct)
  case handed_start
  then show ?case by (simp add: hand_inv_def hand_start_def)
next
  case (handed_step s t)
  from handed_step(2,3) show ?case
    by (cases rule: hand_step.cases) (simp_all add: hand_inv_def mutex_held_def split: if_splits)
qed

lemma owner_moves:
  assumes "hd_owner s = Owner_locking \<or> hd_owner s = Owner_holding \<or> hd_owner s = Owner_unlucky"
  shows "\<exists>t. hand_step fails s t"
  using assms owner_lock [of s fails] owner_throw [of s fails] owner_take [of s fails] owner_look [of s fails]
    owner_wait [of s fails]
  by (cases "hd_error s"; cases "hd_ready s") (elim disjE; blast)+

lemma worker_moves:
  assumes "\<not> mutex_held s" and "hd_worker s \<noteq> Worker_done"
  shows "\<exists>t. hand_step fails s t"
  using assms worker_fetch [of s fails] worker_push [of s fails] worker_flag [of s fails]
    worker_notify [of s fails]
  by (cases "hd_worker s") blast+

lemma no_deadlock:
  assumes "handed False s" and "hd_owner s \<noteq> Owner_got"
  shows "\<exists>t. hand_step False s t"
proof (cases "hd_owner s = Owner_waiting")
  case True
  then have "\<not> mutex_held s" and "hd_worker s \<noteq> Worker_done"
    using hand_inv_holds [OF assms(1)] by (simp_all add: mutex_held_def hand_inv_def)
  then show ?thesis by (rule worker_moves)
next
  case False
  then show ?thesis
    using assms(2) hand_inv_holds [OF assms(1)]
    by (intro owner_moves) (cases "hd_owner s"; simp add: hand_inv_def)
qed

text \<open>And it takes finitely many steps: every step brings the worker or the owner nearer.\<close>

fun worker_left :: "worker_pc \<Rightarrow> nat" where
  "worker_left Worker_fetching = 3" | "worker_left Worker_pushing = 2" | "worker_left Worker_flagging = 2"
| "worker_left Worker_notifying = 1" | "worker_left Worker_done = 0"

fun owner_left :: "owner_pc \<Rightarrow> nat" where
  "owner_left Owner_locking = 4" | "owner_left Owner_holding = 3" | "owner_left Owner_unlucky = 2"
| "owner_left Owner_waiting = 1" | "owner_left Owner_got = 0" | "owner_left Owner_threw = 0"

definition hand_left :: "hand \<Rightarrow> nat" where
  "hand_left s = 5 * worker_left (hd_worker s) + owner_left (hd_owner s)"

lemma hand_left_decreases: "hand_step fails s t \<Longrightarrow> hand_left t < hand_left s"
  by (induction rule: hand_step.induct) (auto simp: hand_left_def)

subsection \<open>A failure can be missed\<close>

lemma lost_wakeup:
  "\<exists>s. handed True s \<and> hd_owner s = Owner_waiting \<and> hd_worker s = Worker_done \<and> hd_error s \<and> \<not> (\<exists>t. hand_step True s t)"
proof -
  define s where "s owner worker err = \<lparr>hd_owner = owner, hd_worker = worker, hd_ready = False, hd_error = err\<rparr>"
    for owner worker err
  note step = handed_step
  have "handed True (s Owner_locking Worker_fetching False)"
    using handed_start [of True] by (simp add: hand_start_def s_def)
  from step [OF this owner_lock] have "handed True (s Owner_holding Worker_fetching False)" by (simp add: s_def)
  from step [OF this owner_look] have "handed True (s Owner_unlucky Worker_fetching False)" by (simp add: s_def)
  from step [OF this worker_fetch] have "handed True (s Owner_unlucky Worker_flagging False)" by (simp add: s_def)
  from step [OF this worker_flag] have "handed True (s Owner_unlucky Worker_notifying True)" by (simp add: s_def)
  from step [OF this worker_notify] have "handed True (s Owner_unlucky Worker_done True)" by (simp add: s_def)
  from step [OF this owner_wait] have "handed True (s Owner_waiting Worker_done True)" by (simp add: s_def)
  moreover have "\<not> hand_step True (s Owner_waiting Worker_done True) t" for t
    by (auto simp: s_def elim!: hand_stepE)
  ultimately show ?thesis by (intro exI [of _ "s Owner_waiting Worker_done True"]) (simp add: s_def)
qed

end
