(* ===== verification/Samples_Sync.thy ===== *)
theory Samples_Sync
  imports Sync_Parallel Sync_Handover Samples_Ledger Samples
begin

text \<open>
  A concrete sync run: one page with one post on a new ledger, with and without a linker.  The
  graph counts what it was taught.
\<close>

definition sample_post :: "PolicyReason \<Rightarrow> ConversationContext \<Rightarrow> SyncObservation" where
  "sample_post pr c =
     \<lparr>so_text = ''hello'', so_source_uri = ''at://x/y/z'', so_author_did = ''did:plc:abcd'', so_created_at = [],
      so_policy_reason = pr, so_context = c\<rparr>"

definition sync_sample_env :: "SyncObservation \<Rightarrow> (nat, string option \<times> node) sync_env" where
  "sync_sample_env x =
     \<lparr>se_remember = (\<lambda>x t d i g. (Inr (), Suc g)), se_mirror = (\<lambda>e c g. (Inr (), g)),
      se_fetch = (\<lambda>k cursor. Inr \<lparr>sp_items = [x], next_cursor = None\<rparr>), se_json = sample_json,
      se_append = (\<lambda>n. append_well), se_commit = (\<lambda>n. Commit_ok), se_journal = (\<lambda>n. Append_not_opened)\<rparr>"

definition sync_sample_world :: "JournalContents option \<Rightarrow> nat sync_world" where
  "sync_sample_world linker =
     \<lparr>sw_graph = 0, sw_ledger = new_ledger, sw_disk = new_ledger_disk, sw_linker = linker, sw_journal = [],
      sw_turn = 0, sw_fetches = 0\<rparr>"

definition one_page :: SyncLimits where
  "one_page = \<lparr>page_size = 10, max_pages = 1, max_observations = 0\<rparr>"

definition fresh_state :: IngestionState where
  "fresh_state = \<lparr>ing_version = 1, ing_source = \<lparr>src_kind = [], src_service = [], src_account_did = [], src_endpoint = [], src_algorithm = None\<rparr>,
     ing_catchup = \<lparr>cat_active = False, cat_cursor = None, protocol_repo = None, protocol_revision = None\<rparr>,
     ing_checkpoint = \<lparr>cp_generation = 0, cp_saved_at = None, cp_pages = 0, cp_seen = 0\<rparr>\<rparr>"

lemma sync_sample_sound: "n \<le> 1000 \<Longrightarrow> sound n (sync_sample_world linker)"
  using life_healthy [OF new_ledger_life]
  by (simp add: sound_def sync_sample_world_def room_for_def new_ledger_def body_max_def context_bytes_def payload_limit_def)

lemma sync_sample_well: "well (sync_sample_env x)" "pages_within 1 (sync_sample_env x)"
  by (simp_all add: well_def pages_within_def sync_sample_env_def append_well_def)

text \<open>An append to a ledger that is new.\<close>

lemma fresh_append:
  assumes "context_valid (ob_context x)" and "ob_source x \<noteq> []" and "length (ob_source x) < source_bytes"
    and "length (ob_author x) < author_bytes" and "length (ob_payload x) \<le> payload_limit"
  shows "\<exists>L D. append_ledger append_well x new_ledger new_ledger_disk = Some (Led_New, 1, ATP_OK, L, D) \<and>
    cl_items L = [(entry_of x 0, Payload (ob_payload x), ob_context x)]"
proof -
  have ens: "index_ensure [] (replicate 8 None) = Some (Some (replicate 8 None))" by (simp add: index_ensure_def Let_def)
  obtain s where s: "index_insert (replicate 8 None) (ledger_key (ob_source x) (ob_digest x)) 0 = Some s"
    using insert_empty by blast
  have new: "append_ledger append_well x new_ledger new_ledger_disk = append_new append_well x new_ledger new_ledger_disk"
    using assms by (auto simp: append_ledger_def ledger_lookup_def ledger_find_def new_ledger_def)
  show ?thesis
    unfolding new
    by (simp add: append_new_def Let_def append_well_def new_ledger_def ens s commit_record_def entry_of_def)
qed


definition plain_context :: "ConversationContext \<Rightarrow> bool" where
  "plain_context c \<longleftrightarrow> to_c_context c = Inr c \<and> context_valid c"

lemma plain_contexts:
  "plain_context no_context" "plain_context (no_context\<lparr>reply_parent_uri := ''at://p''\<rparr>)"
  by (simp_all add: plain_context_def to_c_context_def context_valid_def no_context_def context_bytes_def NUL_def)

lemma sample_post_facts:
  "c_str ''at://x/y/z'' = ''at://x/y/z''" "c_str ''did:plc:abcd'' = ''did:plc:abcd''" "epoch_or_zero [] = 0"
  "length ''at://x/y/z'' < source_bytes" "length ''did:plc:abcd'' < author_bytes" "length ''hello'' \<le> payload_limit"
  by (simp_all add: NUL_def source_bytes_def author_bytes_def payload_limit_def epoch_or_zero_def parse_rfc3339_epoch_def)

lemma fresh_put:
  assumes "plain_context c"
  shows "\<exists>L D. ledger_put append_well (observation_of (sample_post pr c)) new_ledger new_ledger_disk = Some (Inr (Led_New, 1), L, D) \<and>
    cl_items L = [(entry_of (observation_of (sample_post pr c)) 0, Payload ''hello'', c)]"
proof -
  let ?x = "observation_of (sample_post pr c)"
  have same: "?x\<lparr>ob_source := c_str (ob_source ?x), ob_author := c_str (ob_author ?x), ob_context := c\<rparr> = ?x"
    using sample_post_facts(1,2) by (simp add: observation_of_def sample_post_def)
  have f: "context_valid (ob_context ?x)" "ob_source ?x \<noteq> []" "length (ob_source ?x) < source_bytes"
    "length (ob_author ?x) < author_bytes" "length (ob_payload ?x) \<le> payload_limit" "to_c_context (ob_context ?x) = Inr c"
    "ob_payload ?x = ''hello''" "ob_context ?x = c"
    using assms sample_post_facts(4-6) by (simp_all add: observation_of_def sample_post_def plain_context_def)
  obtain L D where a: "append_ledger append_well ?x new_ledger new_ledger_disk = Some (Led_New, 1, ATP_OK, L, D)"
    "cl_items L = [(entry_of ?x 0, Payload (ob_payload ?x), ob_context ?x)]"
    using fresh_append [OF f(1-5)] by blast
  have "ledger_put append_well ?x new_ledger new_ledger_disk = Some (Inr (Led_New, 1), L, D)"
    unfolding ledger_put_def f(6) by (simp add: same a(1) require_ok_def to_result_def result_simps)
  then show ?thesis using a(2) f(7,8) by auto
qed

lemma fresh_process:
  assumes "plain_context c"
  shows "\<exists>L D g. process_observation (sync_sample_env y) (sample_post pr c) (sync_sample_world linker) =
      Some (Inr True, (sync_sample_world linker)\<lparr>sw_ledger := L, sw_disk := D, sw_turn := 1, sw_graph := g\<rparr>)"
proof -
  let ?x = "sample_post pr c"
  obtain L D where put: "ledger_put append_well (observation_of ?x) new_ledger new_ledger_disk = Some (Inr (Led_New, 1), L, D)"
    "cl_items L = [(entry_of (observation_of ?x) 0, Payload ''hello'', c)]"
    using fresh_put [OF assms] by blast
  have "outcome_of ?x \<noteq> Ledger_Pending" by (simp add: outcome_of_def)
  then obtain L2 D2 where "set_outcome Commit_ok 1 (outcome_of ?x) L D = (ATP_OK, L2, D2)"
    by (auto simp: set_outcome_def Let_def put(2) entry_of_def observation_of_def commit_record_def
        ledger_is_committed_def)
  then have out: "ledger_put_outcome Commit_ok 1 (outcome_of ?x) L D = (Inr (), L2, D2)"
    by (simp add: ledger_put_outcome_def require_ok_def result_simps)
  have m: "\<exists>e. mirrored_entry ?x 1 = Inr e"
    using sample_post_facts(4) by (simp add: mirrored_entry_def sample_post_def)
  show ?thesis
    using put(1) out m
    by (auto simp: process_observation_def sync_sample_world_def sync_sample_env_def learn_step_def commit_step_def Let_def
        result_simps)
qed


definition one_result :: "bool \<Rightarrow> SyncResult" where
  "one_result learned =
     \<lparr>sr_pages = 1, sr_seen = 1, sr_learned = (if learned then 1 else 0), sr_remembered = 0,
      sr_skipped = (if learned then 0 else 1), sr_duplicates = 0, sr_exhausted = True\<rparr>"

lemma sample_run:
  "\<exists>w. run_sync_with counts (sync_sample_env (sample_post pr no_context)) one_page fresh_state (sync_sample_world None) =
     Some (Inr (one_result (counts (sample_post pr no_context))),
       keep_cursor (one_result (counts (sample_post pr no_context))) None fresh_state, w) \<and> sw_turn w = 1"
proof -
  let ?x = "sample_post pr no_context" and ?w = "(sync_sample_world None :: nat sync_world)\<lparr>sw_fetches := 1\<rparr>"
  have "process_observation E x (w\<lparr>sw_fetches := k\<rparr>) = map_option (\<lambda>(r, v). (r, v\<lparr>sw_fetches := k\<rparr>)) (process_observation E x w)"
    for E :: "(nat, string option \<times> node) sync_env" and x k w
    by (auto simp: process_observation_def learn_step_def commit_step_def Let_def split: option.splits prod.splits sum.splits)
  moreover obtain L D g where "process_observation (sync_sample_env ?x) ?x (sync_sample_world None) =
      Some (Inr True, (sync_sample_world None)\<lparr>sw_ledger := L, sw_disk := D, sw_turn := 1, sw_graph := g\<rparr>)"
    using fresh_process [OF plain_contexts(1)] by blast
  ultimately have p: "process_observation (sync_sample_env ?x) ?x ?w =
      Some (Inr True, (sync_sample_world None)\<lparr>sw_ledger := L, sw_disk := D, sw_turn := 1, sw_graph := g, sw_fetches := 1\<rparr>)"
    by simp
  have "sync_loop counts (sync_sample_env ?x) one_page 1 None empty_sync_result (sync_sample_world None) =
      Some (Inr (one_result (counts ?x), None),
        (sync_sample_world None)\<lparr>sw_ledger := L, sw_disk := D, sw_turn := 1, sw_graph := g, sw_fetches := 1\<rparr>)"
    using p
    by (simp add: sync_sample_env_def sync_sample_world_def link_step_def Let_def count_new_def one_result_def empty_sync_result_def)
  then show ?thesis
    by (simp add: run_sync_with_def one_page_def start_cursor_def fresh_state_def start_traversal_def)
qed


lemma sample_pages:
  "run_pages (sync_sample_env x) one_page fresh_state (sync_sample_world linker) = [\<lparr>sp_items = [x], next_cursor = None\<rparr>]"
  by (simp add: run_pages_def one_page_def sync_sample_env_def)

text \<open>A reply to an executed action, with a linker whose journal cannot be opened for writing.\<close>

definition answer_post :: SyncObservation where
  "answer_post = sample_post Policy_Reply (no_context\<lparr>reply_parent_uri := ''at://p''\<rparr>)"

definition answered :: JournalContents where
  "answered = empty_journal\<lparr>jc_actions :=
     [\<lparr>ja_id = ''a1'', ja_kind = ''post'', ja_text = ''hi'', ja_digest = ''d'', ja_outcome = J_Executed, ja_reason = [],
       ja_uri = ''at://p'', ja_cid = ''c'', ja_at = ''t'', ja_mac = None, ja_expectation = None\<rparr>]\<rparr>"

lemma answer_link:
  "\<exists>e w2. link_step (sync_sample_env y) n answer_post w = (Inl e, w2) \<and> sw_journal w2 = []"
  if "sw_linker w = Some answered" and "sw_journal w = []"
proof -
  have "journal_find_action_by_uri answered ''at://p'' = Some (hd (jc_actions answered))"
    "journal_has_event answered i u = False" for i u
    by (simp_all add: answered_def empty_journal_def journal_find_action_by_uri_def journal_has_event_def)
  then show ?thesis
    using that
    by (simp add: link_step_def link_observation_def try_link_def answer_post_def sample_post_def sync_sample_env_def
        append_journal_entry_def append_line_def Let_def result_simps throw_def repair_torn_tail_def)
qed

lemma answer_committed:
  obtains w1 where "process_observation (sync_sample_env answer_post) answer_post (sync_sample_world (Some answered)) = Some (Inr True, w1)"
    "sw_linker w1 = Some answered" "sw_journal w1 = []" "sound 6 w1" "observation_id answer_post \<in> committed_ids (sw_ledger w1)"
proof -
  let ?E = "sync_sample_env answer_post" and ?w = "sync_sample_world (Some answered) :: nat sync_world"
  obtain L D g where p: "process_observation ?E answer_post ?w =
      Some (Inr True, ?w\<lparr>sw_ledger := L, sw_disk := D, sw_turn := 1, sw_graph := g\<rparr>)"
    using fresh_process [OF plain_contexts(2), of answer_post Policy_Reply "Some answered"] unfolding answer_post_def [symmetric] by blast
  have s: "sound (Suc 6) ?w" by (rule sync_sample_sound) simp
  note c = process_commits [OF sync_sample_well(1) s p]
  show thesis by (rule that [OF p _ _ c(1,2)]) (simp_all add: sync_sample_world_def)
qed

lemma answer_known:
  assumes "sound (Suc n) w" and "observation_id answer_post \<in> committed_ids (sw_ledger w)"
  shows "\<exists>v. process_observation (sync_sample_env y) answer_post w = Some (Inr False, v)"
proof -
  let ?x = "observation_of answer_post"
  have h: "healthy (sw_ledger w) (sw_disk w)" using assms(1) by (simp add: sound_def)
  have id: "observation_id answer_post = (ob_source ?x, ob_digest ?x)"
    using sample_post_facts(1) by (simp add: observation_id_def observation_of_def answer_post_def sample_post_def)
  obtain p where p: "p < length (cl_items (sw_ledger w))" "ledger_is_committed (led_outcome (fst (cl_items (sw_ledger w) ! p)))"
    "(ob_source ?x, ob_digest ?x) = item_id (cl_items (sw_ledger w) ! p)"
    using assms(2) unfolding id by (rule committed_idsE)
  let ?xs = "cl_items (sw_ledger w)" and ?P = "\<lambda>i. item_id (cl_items (sw_ledger w) ! i) = observation_id answer_post"
  have "ledger_find (sw_ledger w) (ob_source ?x) (ob_digest ?x) = Some (find ?P [0..<length ?xs])"
    using lookup_is_search [OF h, of "ob_source ?x" "ob_digest ?x"] by (simp add: id item_id_def)
  moreover have "find ?P [0..<length ?xs] = Some p"
  proof -
    have "distinct (map (\<lambda>x. (led_source_id (fst x), led_digest (fst x))) ?xs)" using h by (simp add: healthy_def)
    then have "\<not> ?P j" if "j < p" for j
      using that p nth_eq_iff_index_eq [of "map (\<lambda>x. (led_source_id (fst x), led_digest (fst x))) ?xs" j p]
      by (simp add: id item_id_def)
    then show ?thesis using p unfolding find_Some_iff id by (intro exI [of _ p]) auto
  qed
  ultimately have look: "ledger_lookup (sw_ledger w) (ob_source ?x) (ob_digest ?x) = Some (Led_ExistsCommitted, Some (fst (?xs ! p)))"
    using p(2) by (simp add: ledger_lookup_def)
  have ctx: "to_c_context (so_context answer_post) = Inr (so_context answer_post)" "context_valid (so_context answer_post)"
    using plain_contexts(2) by (simp_all add: plain_context_def answer_post_def sample_post_def)
  have ob: "ob_source ?x = ''at://x/y/z''" "ob_author ?x = ''did:plc:abcd''" "ob_payload ?x = ''hello''"
    "ob_context ?x = so_context answer_post"
    by (simp_all add: observation_of_def answer_post_def sample_post_def)
  have same: "?x\<lparr>ob_source := c_str ''at://x/y/z'', ob_author := c_str ''did:plc:abcd'', ob_context := so_context answer_post\<rparr> = ?x"
    using sample_post_facts(1,2) ob by (cases "?x") simp
  have "append_ledger append_well ?x (sw_ledger w) (sw_disk w) =
      Some (Led_ExistsCommitted, led_id (fst (?xs ! p)), ATP_OK, sw_ledger w, sw_disk w)"
    using ctx(2) sample_post_facts(4-6) look by (simp add: append_ledger_def ob)
  then have "ledger_put append_well ?x (sw_ledger w) (sw_disk w) =
      Some (Inr (Led_ExistsCommitted, led_id (fst (?xs ! p))), sw_ledger w, sw_disk w)"
    by (simp add: ledger_put_def ob ctx(1) same require_ok_def to_result_def result_simps)
  then show ?thesis by (simp add: process_observation_def sync_sample_env_def Let_def)
qed

lemma answer_run:
  "\<exists>w1 e w2 b v. process_observation (sync_sample_env answer_post) answer_post (sync_sample_world (Some answered)) = Some (Inr True, w1) \<and>
     link_step (sync_sample_env answer_post) 0 answer_post w1 = (Inl e, w2) \<and> sound 5 w2 \<and>
     process_observation (sync_sample_env answer_post) answer_post w2 = Some (Inr b, v) \<and> sw_journal w2 = []"
proof -
  obtain w1 where w1: "process_observation (sync_sample_env answer_post) answer_post (sync_sample_world (Some answered)) = Some (Inr True, w1)"
    "sw_linker w1 = Some answered" "sw_journal w1 = []" "sound 6 w1" "observation_id answer_post \<in> committed_ids (sw_ledger w1)"
    by (rule answer_committed)
  obtain e w2 where l: "link_step (sync_sample_env answer_post) 0 answer_post w1 = (Inl e, w2)" "sw_journal w2 = []"
    using answer_link [OF w1(2,3), of answer_post 0] by auto
  note f = link_step_frame [OF l(1)]
  have s: "sound 6 w2" using w1(4) f by (simp add: sound_def)
  have "\<exists>v. process_observation (sync_sample_env answer_post) answer_post w2 = Some (Inr False, v)"
    using w1(5) f s by (intro answer_known [of 5]) simp_all
  moreover have "sound 5 w2" by (rule sound_mono [OF s]) simp
  ultimately show ?thesis using w1(1) l by blast
qed

lemma answer_again:
  "\<exists>w r v. sound 1 w \<and> observation_id answer_post \<in> committed_ids (sw_ledger w) \<and>
     sync_items trainable (sync_sample_env answer_post) [answer_post] empty_sync_result w = Some (Inr r, v)"
proof -
  obtain w :: "nat sync_world" where w: "sound 6 w" "observation_id answer_post \<in> committed_ids (sw_ledger w)"
    by (rule answer_committed) blast
  have s: "sound (Suc 5) w" using w(1) by simp
  obtain v where "process_observation (sync_sample_env answer_post) answer_post w = Some (Inr False, v)"
    using answer_known [OF s w(2)] by blast
  moreover have "sound 1 w" by (rule sound_mono [OF w(1)]) simp
  ultimately show ?thesis using w(2) by (auto simp: Let_def)
qed

end
