(* ===== verification/Arming.thy ===== *)
theory Arming
  imports Envelope Engagement Breaker Text_Guard
begin

text \<open>
  Arming (src/src/app/autonomy/arming.hpp and arming.cpp): the plan that lets the entity act
  without a human per action, the order in which it is written, its undoing, and the preflight
  report.  How a stream prints a \<open>double\<close> and an instant are parameters.
\<close>

record ArmKindSpec =
  ak_kind :: OutboundActionKind
  ak_max :: nat
  ak_window :: int

record ArmRequest =
  ar_kinds :: "ArmKindSpec list"
  ar_scope_terms :: "string list"
  ar_min_plan :: double
  ar_min_support :: double
  ar_expires_at :: "string option"
  ar_envelope_id :: string

record ArmPaths =
  policy_file :: string
  control_file :: string
  envelopes_dir :: string
  denylist_file :: string
  breaker_file :: string
  do_not_engage_file :: string

record ArmPlan =
  pl_policy :: OutboundPolicy
  pl_control :: ControlState
  pl_base_id :: string
  pl_envelopes :: "AuthorizationEnvelope list"
  pl_changes :: "string list"

record 'j arm_env =
  arm_json :: "'j cjson"
  arm_show :: "double \<Rightarrow> string"
  arm_instant :: "int \<Rightarrow> string"

fun is_executable_kind :: "OutboundActionKind \<Rightarrow> bool" where
  "is_executable_kind Kind_Post = True"
| "is_executable_kind Kind_Reply = True"
| "is_executable_kind Kind_Like = True"
| "is_executable_kind Kind_Repost = True"
| "is_executable_kind Kind_Follow = True"
| "is_executable_kind Kind_Unfollow = False"
| "is_executable_kind Kind_Moderation = False"

definition is_textless :: "OutboundActionKind \<Rightarrow> bool" where
  "is_textless k \<longleftrightarrow> k = Kind_Like \<or> k = Kind_Repost \<or> k = Kind_Follow"

definition window_text :: "int \<Rightarrow> string" where
  "window_text s =
     (if s mod 86400 = 0 then int_to_string (s div 86400) @ ''d''
      else if s mod 3600 = 0 then int_to_string (s div 3600) @ ''h''
      else if s mod 60 = 0 then int_to_string (s div 60) @ ''m''
      else int_to_string s @ ''s'')"

definition limit_text :: "nat \<Rightarrow> int \<Rightarrow> string" where
  "limit_text n window = nat_to_string n @ '' per '' @ window_text window"

definition rule_for :: "AuthorizationEnvelope \<Rightarrow> OutboundActionKind \<Rightarrow> EnvelopeKindRule option" where
  "rule_for e k = find (\<lambda>r. rule_kind r = k) (rules e)"

subsection \<open>The plan\<close>

definition arm_refuse :: "string \<Rightarrow> 'a result" where
  "arm_refuse msg = throw ArmError msg"

definition floor_ok :: "double \<Rightarrow> bool" where
  "floor_ok d \<longleftrightarrow> dbl_isfinite d \<and> \<not> dbl_lt d (Finite 0) \<and> \<not> dbl_lt (Finite 1) d"

definition armed_budget :: "ArmKindSpec \<Rightarrow> ActionBudget" where
  "armed_budget spec =
     \<lparr>budget_enabled = True, max_in_window = ak_max spec, window_seconds = ak_window spec,
      min_interval_seconds = ak_window spec div int (ak_max spec) div 2,
      duplicate_cooldown_seconds = ak_window spec\<rparr>"

definition budget_change :: "OutboundPolicy \<Rightarrow> ArmKindSpec \<Rightarrow> string" where
  "budget_change policy spec =
     ''policy: '' @ (if budget_enabled (budget_for policy (ak_kind spec)) then ''update '' else ''enable '') @
     outbound_kind_name (ak_kind spec) @ '' at '' @ limit_text (ak_max spec) (ak_window spec) @
     '', min interval '' @ window_text (max (min_interval_seconds (armed_budget spec)) 1)"

text \<open>One turn of the loop over the requested kinds: the policy, the kinds seen, the changes.\<close>

definition arm_kind ::
  "ArmKindSpec \<Rightarrow> OutboundPolicy \<times> OutboundActionKind set \<times> string list \<Rightarrow>
   (OutboundPolicy \<times> OutboundActionKind set \<times> string list) result" where
  "arm_kind spec st =
     (case st of (policy, seen, changes) \<Rightarrow>
        let k = ak_kind spec; name = outbound_kind_name k in
        if \<not> is_executable_kind k then
          arm_refuse (''kind '' @ name @ '' is not executable (post, reply, like, repost and follow are)'')
        else if k \<in> seen then arm_refuse (''kind '' @ name @ '' is listed twice'')
        else if ak_max spec < 1 then arm_refuse (''kind '' @ name @ '': the ceiling must be at least 1'')
        else if ak_window spec < 1 \<or> kMaxOutboundWindowSeconds < ak_window spec then
          arm_refuse (''kind '' @ name @ '': the window must be between 1 second and 366 days'')
        else Inr (policy\<lparr>budgets := (budgets policy)(k := armed_budget spec)\<rparr>, insert k seen,
                  changes @ [budget_change policy spec]))"

definition armed_rule :: "ArmRequest \<Rightarrow> bool \<Rightarrow> ArmKindSpec \<Rightarrow> EnvelopeKindRule" where
  "armed_rule r textless spec =
     \<lparr>rule_kind = ak_kind spec, rule_max_in_window = ak_max spec, rule_window_seconds = ak_window spec,
      min_plan_score = (if textless then Finite 0 else ar_min_plan r),
      min_support_score = (if textless then Finite 0 else ar_min_support r)\<rparr>"

definition armed_envelope :: "ArmRequest \<Rightarrow> string \<Rightarrow> string \<Rightarrow> bool \<Rightarrow> AuthorizationEnvelope" where
  "armed_envelope r textless_id now textless =
     \<lparr>ae_version = 1, ae_id = (if textless then textless_id else ar_envelope_id r), expires_at = ar_expires_at r,
      scope_terms = (if textless then [] else ar_scope_terms r),
      rules = map (armed_rule r textless) (filter (\<lambda>spec. is_textless (ak_kind spec) = textless) (ar_kinds r)),
      note_text = (if textless then ''autonomy arm (kinds without text)'' else ''autonomy arm''),
      created_at = now\<rparr>"

definition positive :: "double \<Rightarrow> bool" where
  "positive d \<longleftrightarrow> dbl_lt (Finite 0) d"

definition envelope_change :: "(double \<Rightarrow> string) \<Rightarrow> ArmRequest \<Rightarrow> bool \<Rightarrow> AuthorizationEnvelope \<Rightarrow> string" where
  "envelope_change show_double r textless e =
     ''envelope '' @ ae_id e @ '': '' @ nat_to_string (length (rules e)) @ '' kind(s), '' @
     (case ar_expires_at r of Some x \<Rightarrow> ''expires '' @ x | None \<Rightarrow> ''never expires'') @
     (if scope_terms e = [] then [] else '', scope: '' @ join '','' (scope_terms e)) @
     (if \<not> textless \<and> (positive (ar_min_plan r) \<or> positive (ar_min_support r))
      then '', floors: plan>='' @ show_double (ar_min_plan r) @ '' support>='' @ show_double (ar_min_support r)
      else []) @
     (if textless then '', ceilings only (no text or decision score to scope)'' else [])"

text \<open>The envelope is the one the real parser makes of what would be written.\<close>

definition arm_envelope ::
  "'j arm_env \<Rightarrow> ArmRequest \<Rightarrow> string \<Rightarrow> string \<Rightarrow> OutboundPolicy \<Rightarrow> bool \<Rightarrow> AuthorizationEnvelope result" where
  "arm_envelope E r textless_id now policy textless =
     (case parse_authorization_envelope (arm_json E)
             (serialise_authorization_envelope (arm_json E) (armed_envelope r textless_id now textless)) policy ''arm plan'' of
        Inl e \<Rightarrow>
          if exn_class e = EnvelopeError then arm_refuse (''the envelope would be invalid: '' @ exn_what e) else Inl e
      | Inr e \<Rightarrow> Inr e)"

definition add_envelope ::
  "'j arm_env \<Rightarrow> ArmRequest \<Rightarrow> string \<Rightarrow> string \<Rightarrow> bool \<Rightarrow> ArmPlan \<Rightarrow> ArmPlan result" where
  "add_envelope E r textless_id now textless plan =
     (if \<not> list_ex (\<lambda>spec. is_textless (ak_kind spec) = textless) (ar_kinds r) then Inr plan
      else and_then (arm_envelope E r textless_id now (pl_policy plan) textless) (\<lambda>e.
        Inr (plan\<lparr>pl_envelopes := pl_envelopes plan @ [e],
                  pl_changes := pl_changes plan @ [envelope_change (arm_show E) r textless e]\<rparr>)))"

definition armed_control :: "ControlState \<Rightarrow> ControlState" where
  "armed_control c = c\<lparr>paused := False, writes_enabled := True, dry_run := False\<rparr>"

text \<open>The two envelopes, those with text first, and the note on what they cannot bound.\<close>

definition finish_plan ::
  "'j arm_env \<Rightarrow> ArmRequest \<Rightarrow> bool \<Rightarrow> string \<Rightarrow> string \<Rightarrow> ArmPlan \<Rightarrow> ArmPlan result" where
  "finish_plan E r any_textless textless_id now plan =
     and_then (fold_result (add_envelope E r textless_id now) [False, True] plan) (\<lambda>plan1.
       Inr (if any_textless \<and> (ar_scope_terms r \<noteq> [] \<or> positive (ar_min_plan r) \<or> positive (ar_min_support r))
            then plan1\<lparr>pl_changes := pl_changes plan1 @
              [''note: scope and score floors apply to post/reply only; like/repost/follow are bounded by their ceilings'']\<rparr>
            else plan1))"

definition plan_arm ::
  "'j arm_env \<Rightarrow> ArmRequest \<Rightarrow> OutboundPolicy \<Rightarrow> ControlState \<Rightarrow> string \<Rightarrow> ArmPlan result" where
  "plan_arm E r policy control now =
     (if \<not> is_envelope_id (ar_envelope_id r) then
        arm_refuse ''envelope id must be 1-64 characters of [a-z0-9-], not starting or ending with a hyphen''
      else if ar_kinds r = [] then arm_refuse ''arming needs at least one action kind to authorise''
      else if \<not> floor_ok (ar_min_plan r) \<or> \<not> floor_ok (ar_min_support r) then
        arm_refuse ''score floors must be between 0 and 1''
      else and_then (fold_result arm_kind (ar_kinds r) (policy, {}, [])) (\<lambda>(policy1, seen, changes).
        let changes1 = changes @
              (if \<not> writes_enabled control \<or> dry_run control \<or> paused control
               then [''control: writes on, dry-run off, not paused''] else []);
            any_text = list_ex (\<lambda>spec. \<not> is_textless (ak_kind spec)) (ar_kinds r);
            any_textless = list_ex (\<lambda>spec. is_textless (ak_kind spec)) (ar_kinds r);
            textless_id = (if any_text then ar_envelope_id r @ ''-actions'' else ar_envelope_id r)
        in if any_textless \<and> \<not> is_envelope_id textless_id then
             arm_refuse ''envelope id is too long to add the -actions companion''
           else finish_plan E r any_textless textless_id now
             \<lparr>pl_policy = policy1, pl_control = armed_control control, pl_base_id = ar_envelope_id r,
              pl_envelopes = [], pl_changes = changes1\<rparr>))"

subsection \<open>Writing it\<close>

text \<open>
  The file writer of this module leaves its temporary file behind when a write or the rename
  fails: \<open>wr_reached\<close> bytes of it, the whole of it.
\<close>

record write_io =
  wr_create_ok :: bool
  wr_write_ok :: bool
  wr_reached :: nat
  wr_rename_ok :: bool

definition write_file_atomic :: "write_io \<Rightarrow> string \<Rightarrow> string \<Rightarrow> fs \<Rightarrow> unit result \<times> fs" where
  "write_file_atomic io path contents fs =
     (let tmp = tmp_path path in
      if \<not> wr_create_ok io then (throw Runtime_error (''cannot write '' @ tmp), fs)
      else if \<not> wr_write_ok io then
        (throw Runtime_error (''failed while writing '' @ tmp), fs(tmp := Present (take (wr_reached io) contents)))
      else if \<not> wr_rename_ok io then
        (throw Runtime_error (''cannot replace '' @ path), fs(tmp := Present contents))
      else (Inr (), fs(tmp := Missing, path := Present contents)))"

definition arm_envelope_ids :: "string \<Rightarrow> string list" where
  "arm_envelope_ids eid = [eid, eid @ ''-actions'']"

record arm_io =
  ai_removable :: "string \<Rightarrow> bool"
  ai_envelope :: "string \<Rightarrow> io"
  ai_policy :: write_io
  ai_control :: io

fun revoke_all :: "arm_io \<Rightarrow> string \<Rightarrow> string list \<Rightarrow> fs \<Rightarrow> unit result \<times> fs" where
  "revoke_all io dir [] fs = (Inr (), fs)"
| "revoke_all io dir (i # ids) fs =
     (case revoke_authorization_envelope (ai_removable io i) dir i fs of
        (Inl e, fs1) \<Rightarrow> (Inl e, fs1)
      | (Inr _, fs1) \<Rightarrow> revoke_all io dir ids fs1)"

fun save_all :: "'j cjson \<Rightarrow> arm_io \<Rightarrow> string \<Rightarrow> AuthorizationEnvelope list \<Rightarrow> fs \<Rightarrow> unit result \<times> fs" where
  "save_all J io dir [] fs = (Inr (), fs)"
| "save_all J io dir (e # es) fs =
     (case save_authorization_envelope J (ai_envelope io (ae_id e)) e dir fs of
        (Inl x, fs1) \<Rightarrow> (Inl x, fs1)
      | (Inr _, fs1) \<Rightarrow> save_all J io dir es fs1)"

definition save_policy :: "write_io \<Rightarrow> OutboundPolicy \<Rightarrow> string \<Rightarrow> fs \<Rightarrow> unit result \<times> fs" where
  "save_policy io policy path fs =
     (case serialise_outbound_policy policy of
        Inl e \<Rightarrow> (Inl e, fs)
      | Inr text \<Rightarrow> write_file_atomic io path text fs)"

text \<open>A step after the ones before it.\<close>

definition next_step :: "unit result \<times> fs \<Rightarrow> (fs \<Rightarrow> unit result \<times> fs) \<Rightarrow> unit result \<times> fs" where
  "next_step s f = (case s of (Inl e, fs) \<Rightarrow> (Inl e, fs) | (Inr _, fs) \<Rightarrow> f fs)"

definition apply_arm :: "'j cjson \<Rightarrow> arm_io \<Rightarrow> ArmPlan \<Rightarrow> ArmPaths \<Rightarrow> fs \<Rightarrow> unit result \<times> fs" where
  "apply_arm J io plan paths fs =
     next_step (next_step (next_step
       (revoke_all io (envelopes_dir paths) (arm_envelope_ids (pl_base_id plan)) fs)
       (save_all J io (envelopes_dir paths) (pl_envelopes plan)))
       (save_policy (ai_policy io) (pl_policy plan) (policy_file paths)))
       (save_control_state J (ai_control io) (pl_control plan) (control_file paths))"

definition disarm :: "'j cjson \<Rightarrow> arm_io \<Rightarrow> ArmPaths \<Rightarrow> string \<Rightarrow> fs \<Rightarrow> unit result \<times> fs" where
  "disarm J io paths eid fs =
     (case load_control_state J (control_file paths) fs of
        Inl e \<Rightarrow> (Inl e, fs)
      | Inr c \<Rightarrow>
          next_step (save_control_state J (ai_control io) (c\<lparr>writes_enabled := False\<rparr>) (control_file paths) fs)
            (revoke_all io (envelopes_dir paths) (arm_envelope_ids eid)))"


subsection \<open>What a plan is\<close>

lemma arm_refuse_neq [simp]: "arm_refuse m \<noteq> Inr x"
  by (simp add: arm_refuse_def throw_def)

definition spec_ok :: "ArmKindSpec \<Rightarrow> bool" where
  "spec_ok spec \<longleftrightarrow> is_executable_kind (ak_kind spec) \<and> 1 \<le> ak_max spec \<and> 1 \<le> ak_window spec \<and>
     ak_window spec \<le> kMaxOutboundWindowSeconds"

text \<open>The budgets a request leads to, from those there are.\<close>

definition armed_budgets :: "ArmKindSpec list \<Rightarrow> (OutboundActionKind \<Rightarrow> ActionBudget) \<Rightarrow> OutboundActionKind \<Rightarrow> ActionBudget" where
  "armed_budgets specs b k = (case find (\<lambda>spec. ak_kind spec = k) specs of Some spec \<Rightarrow> armed_budget spec | None \<Rightarrow> b k)"

lemma arm_kind_Inr:
  assumes "arm_kind spec (p, seen, changes) = Inr st"
  shows "spec_ok spec" and "ak_kind spec \<notin> seen"
    and "st = (p\<lparr>budgets := (budgets p)(ak_kind spec := armed_budget spec)\<rparr>, insert (ak_kind spec) seen,
           changes @ [budget_change p spec])"
  using assms by (auto simp: arm_kind_def Let_def spec_ok_def split: if_splits)

lemma arm_kinds_Inr:
  "fold_result arm_kind specs (p, seen, changes) = Inr (p', seen', changes') \<Longrightarrow>
     list_all spec_ok specs \<and> distinct (map ak_kind specs) \<and> (\<forall>spec \<in> set specs. ak_kind spec \<notin> seen) \<and>
     policy_version p' = policy_version p \<and> budgets p' = armed_budgets specs (budgets p)"
proof (induction specs arbitrary: p seen changes)
  case Nil
  then show ?case by (simp add: armed_budgets_def fun_eq_iff)
next
  case (Cons spec specs)
  obtain st where one: "arm_kind spec (p, seen, changes) = Inr st" and rest: "fold_result arm_kind specs st = Inr (p', seen', changes')"
    using Cons.prems by (auto simp: result_simps)
  note k = arm_kind_Inr [OF one]
  note IH = Cons.IH [OF rest [unfolded k(3)]]
  have "find (\<lambda>s. ak_kind s = ak_kind spec) specs = None" using IH by (auto simp: find_None_iff)
  then have "armed_budgets specs ((budgets p)(ak_kind spec := armed_budget spec)) = armed_budgets (spec # specs) (budgets p)"
    by (auto simp: armed_budgets_def fun_eq_iff split: option.split)
  moreover have "budgets p' = armed_budgets specs ((budgets p)(ak_kind spec := armed_budget spec))"
    using IH by (simp add: fun_upd_def)
  ultimately have "budgets p' = armed_budgets (spec # specs) (budgets p)" by simp
  then show ?case using IH k(1,2) by auto
qed

lemma add_envelope_Inr:
  assumes "add_envelope E r i now b plan = Inr plan'"
  shows "pl_policy plan' = pl_policy plan" "pl_control plan' = pl_control plan" "pl_base_id plan' = pl_base_id plan"
    and "\<And>e. e \<in> set (pl_envelopes plan') \<Longrightarrow> e \<in> set (pl_envelopes plan) \<or> envelope_ok (pl_policy plan) e"
  using assms
  by (auto simp: add_envelope_def result_simps arm_envelope_def throw_def arm_refuse_def
      split: if_splits sum.splits dest!: parse_envelope_ok)

lemma finish_plan_Inr:
  assumes "finish_plan E r any i now plan0 = Inr plan"
  shows "pl_policy plan = pl_policy plan0" "pl_control plan = pl_control plan0" "pl_base_id plan = pl_base_id plan0"
    and "\<And>e. e \<in> set (pl_envelopes plan) \<Longrightarrow> e \<in> set (pl_envelopes plan0) \<or> envelope_ok (pl_policy plan0) e"
proof -
  obtain q p where steps: "add_envelope E r i now False plan0 = Inr q" "add_envelope E r i now True q = Inr p"
    and p: "pl_policy plan = pl_policy p" "pl_control plan = pl_control p" "pl_base_id plan = pl_base_id p"
      "pl_envelopes plan = pl_envelopes p"
    using assms by (auto simp: finish_plan_def result_simps split: if_splits)
  note a = add_envelope_Inr [OF steps(1)] and b = add_envelope_Inr [OF steps(2)]
  show "pl_policy plan = pl_policy plan0" "pl_control plan = pl_control plan0" "pl_base_id plan = pl_base_id plan0"
    using a(1-3) b(1-3) p(1-3) by simp_all
  show "e \<in> set (pl_envelopes plan0) \<or> envelope_ok (pl_policy plan0) e" if "e \<in> set (pl_envelopes plan)" for e
    using a(4) [of e] b(4) [of e] that p(4) a(1) by auto
qed

lemma plan_arm_Inr:
  assumes "plan_arm E r policy control now = Inr plan"
  shows "is_envelope_id (ar_envelope_id r)" and "list_all spec_ok (ar_kinds r)" and "distinct (map ak_kind (ar_kinds r))"
    and "ar_kinds r \<noteq> []" and "policy_version (pl_policy plan) = policy_version policy"
    and "budgets (pl_policy plan) = armed_budgets (ar_kinds r) (budgets policy)"
    and "pl_control plan = armed_control control" and "pl_base_id plan = ar_envelope_id r"
    and "\<And>e. e \<in> set (pl_envelopes plan) \<Longrightarrow> envelope_ok (pl_policy plan) e"
proof -
  obtain p1 seen ch where kinds: "fold_result arm_kind (ar_kinds r) (policy, {}, []) = Inr (p1, seen, ch)"
    using assms by (auto simp: plan_arm_def result_simps split: if_splits)
  then obtain any i ch1 where fin: "finish_plan E r any i now
       \<lparr>pl_policy = p1, pl_control = armed_control control, pl_base_id = ar_envelope_id r, pl_envelopes = [], pl_changes = ch1\<rparr> = Inr plan"
    using assms by (auto simp: plan_arm_def Let_def split: if_splits)
  note f = finish_plan_Inr [OF fin]
  note k = arm_kinds_Inr [OF kinds]
  show "is_envelope_id (ar_envelope_id r)" "ar_kinds r \<noteq> []"
    using assms by (auto simp: plan_arm_def split: if_splits)
  show "list_all spec_ok (ar_kinds r)" "distinct (map ak_kind (ar_kinds r))" using k by blast+
  show "policy_version (pl_policy plan) = policy_version policy"
    "budgets (pl_policy plan) = armed_budgets (ar_kinds r) (budgets policy)"
    "pl_control plan = armed_control control" "pl_base_id plan = ar_envelope_id r"
    using k f(1-3) by simp_all
  show "envelope_ok (pl_policy plan) e" if "e \<in> set (pl_envelopes plan)" for e
    using f(1) f(4) [OF that] by simp
qed

lemma armed_budgets_ok:
  assumes "list_all spec_ok specs" and "distinct (map ak_kind specs)" and "\<forall>k. budget_ok (b k)"
  shows "(\<forall>k. budget_ok (armed_budgets specs b k)) \<longleftrightarrow> (\<forall>spec \<in> set specs. ak_max spec \<le> kMaxActionsInWindow)"
proof -
  have one: "budget_ok (armed_budget spec) \<longleftrightarrow> ak_max spec \<le> kMaxActionsInWindow" if "spec \<in> set specs" for spec
  proof -
    have s: "1 \<le> ak_max spec" "1 \<le> ak_window spec" "ak_window spec \<le> kMaxOutboundWindowSeconds"
      using assms(1) that by (auto simp: list_all_iff spec_ok_def)
    have "ak_window spec div int (ak_max spec) \<le> ak_window spec"
      using zdiv_mono2 [of "ak_window spec" 1 "int (ak_max spec)"] s by simp
    moreover have "0 \<le> ak_window spec div int (ak_max spec)"
      using s by (simp add: pos_imp_zdiv_nonneg_iff)
    ultimately have "ak_window spec div int (ak_max spec) div 2 \<le> ak_window spec" by linarith
    moreover have "0 \<le> ak_window spec div int (ak_max spec) div 2"
      using s by (simp add: pos_imp_zdiv_nonneg_iff)
    ultimately show ?thesis using s by (auto simp: budget_ok_def armed_budget_def)
  qed
  have get: "armed_budgets specs b (ak_kind spec) = armed_budget spec" if "spec \<in> set specs" for spec
  proof -
    have "find (\<lambda>s. ak_kind s = ak_kind spec) specs = Some spec"
      using assms(2) that by (induction specs) (auto simp: image_iff)
    then show ?thesis by (simp add: armed_budgets_def)
  qed
  show ?thesis
  proof
    assume "\<forall>k. budget_ok (armed_budgets specs b k)"
    then show "\<forall>spec \<in> set specs. ak_max spec \<le> kMaxActionsInWindow" using one get by metis
  next
    assume m: "\<forall>spec \<in> set specs. ak_max spec \<le> kMaxActionsInWindow"
    show "\<forall>k. budget_ok (armed_budgets specs b k)"
    proof
      fix k
      show "budget_ok (armed_budgets specs b k)"
        using assms(3) m one by (auto simp: armed_budgets_def find_Some_iff split: option.split dest!: nth_mem)
    qed
  qed
qed


subsection \<open>Writing and undoing\<close>

text \<open>The paths are of different files, none of the first two in the directory of envelopes.\<close>

definition arm_paths_ok :: "ArmPaths \<Rightarrow> bool" where
  "arm_paths_ok paths \<longleftrightarrow>
     control_file paths \<noteq> policy_file paths \<and> control_file paths \<noteq> tmp_path (policy_file paths) \<and>
     (\<forall>eid. control_file paths \<noteq> envelope_path (envelopes_dir paths) eid \<and>
            control_file paths \<noteq> tmp_path (envelope_path (envelopes_dir paths) eid))"

definition arm_io_ok :: "arm_io \<Rightarrow> bool" where
  "arm_io_ok io \<longleftrightarrow> (\<forall>i. ai_removable io i) \<and> (\<forall>i. ai_envelope io i = io_ok) \<and>
     wr_create_ok (ai_policy io) \<and> wr_write_ok (ai_policy io) \<and> wr_rename_ok (ai_policy io) \<and> ai_control io = io_ok"

lemma next_step_Inr: "next_step s f = (Inr (), fs') \<longleftrightarrow> (\<exists>fs. s = (Inr (), fs) \<and> f fs = (Inr (), fs'))"
  by (cases s; cases "fst s") (auto simp: next_step_def)

lemma revoke_frame:
  "revoke_authorization_envelope b dir i fs = (r, fs') \<Longrightarrow> p \<noteq> envelope_path dir i \<Longrightarrow> fs' p = fs p"
  by (auto simp: revoke_authorization_envelope_def split: if_splits)

lemma revoke_all_frame:
  "revoke_all io dir ids fs = (r, fs') \<Longrightarrow> (\<forall>i. p \<noteq> envelope_path dir i) \<Longrightarrow> fs' p = fs p"
proof (induction ids arbitrary: fs)
  case (Cons i ids)
  then show ?case by (auto dest: revoke_frame split: prod.splits sum.splits)
qed simp

lemma save_all_frame:
  "save_all J io dir es fs = (r, fs') \<Longrightarrow> (\<forall>i. p \<noteq> envelope_path dir i \<and> p \<noteq> tmp_path (envelope_path dir i)) \<Longrightarrow> fs' p = fs p"
proof (induction es arbitrary: fs)
  case (Cons e es)
  have "fs1 p = fs p" if "save_authorization_envelope J (ai_envelope io (ae_id e)) e dir fs = (x, fs1)" for x fs1
    using that Cons.prems(2)
      save_atomic_other [of "''authorization envelope''" "ai_envelope io (ae_id e)" "envelope_path dir (ae_id e)"
        "serialise_authorization_envelope J e" fs p]
    by (auto simp: save_authorization_envelope_def split: if_splits)
  then show ?case using Cons by (auto split: prod.splits sum.splits)
qed simp

lemma save_policy_frame:
  "save_policy io policy path fs = (r, fs') \<Longrightarrow> p \<noteq> path \<Longrightarrow> p \<noteq> tmp_path path \<Longrightarrow> fs' p = fs p"
  by (auto simp: save_policy_def write_file_atomic_def Let_def split: sum.splits if_splits)

text \<open>Whatever fails, the control state is the old one: it is written last.\<close>

lemma apply_arm_failed:
  assumes "arm_paths_ok paths" and "apply_arm J io plan paths fs = (Inl e, fs')"
  shows "fs' (control_file paths) = fs (control_file paths)"
proof -
  let ?c = "control_file paths" and ?d = "envelopes_dir paths"
  have c: "\<forall>i. ?c \<noteq> envelope_path ?d i \<and> ?c \<noteq> tmp_path (envelope_path ?d i)" "?c \<noteq> policy_file paths"
    "?c \<noteq> tmp_path (policy_file paths)"
    using assms(1) by (simp_all add: arm_paths_ok_def)
  obtain r1 fs1 where 1: "revoke_all io ?d (arm_envelope_ids (pl_base_id plan)) fs = (r1, fs1)" by fastforce
  obtain r2 fs2 where 2: "save_all J io ?d (pl_envelopes plan) fs1 = (r2, fs2)" by fastforce
  obtain r3 fs3 where 3: "save_policy (ai_policy io) (pl_policy plan) (policy_file paths) fs2 = (r3, fs3)" by fastforce
  have same: "fs1 ?c = fs ?c" "fs2 ?c = fs1 ?c" "fs3 ?c = fs2 ?c"
    using revoke_all_frame [OF 1] save_all_frame [OF 2] save_policy_frame [OF 3] c by simp_all
  then show ?thesis
    using assms(2) 1 2 3 save_control_failed [of J "ai_control io" "pl_control plan" ?c fs3]
    by (cases r1; cases r2; cases r3) (auto simp: apply_arm_def next_step_def)
qed

lemma revoke_all_succeeds:
  "\<forall>i. ai_removable io i \<Longrightarrow>
     (\<exists>fs'. revoke_all io dir ids fs = (Inr (), fs')) \<longleftrightarrow> list_all is_envelope_id ids"
proof (induction ids arbitrary: fs)
  case (Cons i ids)
  then show ?case
    by (cases "is_envelope_id i") (auto simp: revoke_authorization_envelope_def envelope_invalid_def throw_def)
qed simp

lemma save_all_succeeds:
  "\<forall>i. ai_envelope io i = io_ok \<Longrightarrow> list_all (is_envelope_id \<circ> ae_id) es \<Longrightarrow>
     \<exists>fs'. save_all J io dir es fs = (Inr (), fs')"
proof (induction es arbitrary: fs)
  case (Cons e es)
  then show ?case
    by (auto simp: save_authorization_envelope_def save_atomic_def io_ok_def Let_def)
qed simp

lemma companion_id: "is_envelope_id i \<Longrightarrow> is_envelope_id (i @ ''-actions'') \<longleftrightarrow> length i \<le> 56"
  by (auto simp: is_envelope_id_def is_lower_def is_digit_def code_def)

text \<open>With nothing failing outside, what still refuses a plan when it is written.\<close>

lemma apply_arm_succeeds:
  assumes plan: "plan_arm E r policy control now = Inr plan" and p: "policy_ok policy" and c: "control_ok control"
    and io: "arm_io_ok io"
  shows "(\<exists>fs'. apply_arm J io plan paths fs = (Inr (), fs')) \<longleftrightarrow>
    length (ar_envelope_id r) \<le> 56 \<and> (\<forall>spec \<in> set (ar_kinds r). ak_max spec \<le> kMaxActionsInWindow)"
proof -
  note facts = plan_arm_Inr [OF plan]
  have ids: "list_all is_envelope_id (arm_envelope_ids (pl_base_id plan)) \<longleftrightarrow> length (ar_envelope_id r) \<le> 56"
    using facts(1,8) companion_id by (simp add: arm_envelope_ids_def)
  have es: "list_all (is_envelope_id \<circ> ae_id) (pl_envelopes plan)"
    using facts(9) by (auto simp: list_all_iff envelope_ok_def)
  have "policy_ok (pl_policy plan) \<longleftrightarrow> (\<forall>spec \<in> set (ar_kinds r). ak_max spec \<le> kMaxActionsInWindow)"
    using armed_budgets_ok [OF facts(2,3), of "budgets policy"] p facts(5,6) by (simp add: policy_ok_def)
  moreover have "(\<exists>fs'. save_policy (ai_policy io) (pl_policy plan) (policy_file paths) fs1 = (Inr (), fs')) \<longleftrightarrow>
      policy_ok (pl_policy plan)" for fs1
    using io validate_policy_iff [of "pl_policy plan" "''<serialise>''" "()"]
    by (cases "validate_policy (pl_policy plan) ''<serialise>''")
      (auto simp: save_policy_def serialise_outbound_policy_def write_file_atomic_def arm_io_ok_def Let_def)
  moreover have "control_ok (pl_control plan)" using c facts(7) by (simp add: control_ok_def armed_control_def)
  then have "\<exists>fs'. save_control_state J (ai_control io) (pl_control plan) (control_file paths) fs1 = (Inr (), fs')" for fs1
    using io serialise_control_ok_iff [of J "pl_control plan"]
    by (auto simp: save_control_state_def arm_io_ok_def save_atomic_def io_ok_def Let_def)
  ultimately show ?thesis
    using revoke_all_succeeds [of io "envelopes_dir paths" "arm_envelope_ids (pl_base_id plan)" fs] ids io
      save_all_succeeds [OF _ es, of io J "envelopes_dir paths"]
    unfolding apply_arm_def next_step_Inr arm_io_ok_def by metis
qed

lemma disarm_writes_off:
  assumes paths: "arm_paths_ok paths" and load: "load_control_state J (control_file paths) fs = Inr c"
    and io: "ai_control io = io_ok" and run: "disarm J io paths eid fs = (r, fs')"
  shows "\<exists>text. serialise_control_state J (c\<lparr>writes_enabled := False\<rparr>) = Inr text \<and> fs' (control_file paths) = Present text"
    and "(\<forall>i. ai_removable io i) \<Longrightarrow> is_envelope_id eid \<Longrightarrow> isl r \<longleftrightarrow> 56 < length eid"
    and "r = Inr () \<Longrightarrow> load_authorization_envelope J (envelopes_dir paths) eid policy fs' = Inr None"
proof -
  let ?c = "c\<lparr>writes_enabled := False\<rparr>" and ?p = "control_file paths" and ?ids = "arm_envelope_ids eid"
  have "control_ok ?c" using load_control_ok [OF load] by (simp add: control_ok_def)
  then obtain doc where doc: "serialise_control_state J ?c = Inr doc" using serialise_control_ok_iff by blast
  define fs1 where "fs1 = fs(tmp_path ?p := Missing, ?p := Present doc)"
  have save: "save_control_state J (ai_control io) ?c ?p fs = (Inr (), fs1)"
    using doc io by (simp add: save_control_state_def save_atomic_def io_ok_def Let_def fs1_def)
  then have rest: "revoke_all io (envelopes_dir paths) ?ids fs1 = (r, fs')"
    using run load by (simp add: disarm_def next_step_def)
  have "fs' ?p = fs1 ?p" using revoke_all_frame [OF rest] paths by (simp add: arm_paths_ok_def)
  then show "\<exists>text. serialise_control_state J ?c = Inr text \<and> fs' ?p = Present text"
    using doc by (simp add: fs1_def)
  show "isl r \<longleftrightarrow> 56 < length eid" if "\<forall>i. ai_removable io i" "is_envelope_id eid"
    using revoke_all_succeeds [OF that(1), of "envelopes_dir paths" ?ids fs1] rest that(2) companion_id [OF that(2)]
    by (cases r) (auto simp: arm_envelope_ids_def)
  show "load_authorization_envelope J (envelopes_dir paths) eid policy fs' = Inr None" if ok: "r = Inr ()"
  proof -
    obtain fs2 where 2: "revoke_authorization_envelope (ai_removable io eid) (envelopes_dir paths) eid fs1 = (Inr (), fs2)"
      and 3: "revoke_authorization_envelope (ai_removable io (eid @ ''-actions'')) (envelopes_dir paths) (eid @ ''-actions'') fs2 = (Inr (), fs')"
      using rest ok by (auto simp: arm_envelope_ids_def split: prod.splits sum.splits)
    have "envelope_path (envelopes_dir paths) eid \<noteq> envelope_path (envelopes_dir paths) (eid @ ''-actions'')"
      by (simp add: envelope_path_def)
    then have "fs' (envelope_path (envelopes_dir paths) eid) = fs2 (envelope_path (envelopes_dir paths) eid)"
      by (rule revoke_frame [OF 3])
    also have "\<dots> = Missing" using 2 by (auto simp: revoke_authorization_envelope_def split: if_splits)
    finally have "fs' (envelope_path (envelopes_dir paths) eid) = Missing" .
    then show ?thesis by (rule load_envelope_missing)
  qed
qed


lemma load_control_cong: "fs' p = fs p \<Longrightarrow> load_control_state J p fs' = load_control_state J p fs"
  unfolding load_control_state_def read_text_def by (simp only:)

end
