(* ===== verification/Preflight.thy ===== *)
theory Preflight
  imports Arming Execute
begin

text \<open>
  The preflight report (\<open>run_preflight\<close> of src/src/app/autonomy/arming.cpp): every link of the
  unattended chain, checked by the code the executor runs, and whether the whole is ready.  A
  handler catches every exception; an undefined conversion is not one.
\<close>

record PreflightEnvironment =
  scheduler_on :: bool
  publishing_switch :: bool
  has_identifier :: bool
  has_password :: bool
  has_self_did :: bool
  engagement_open :: bool

record PreflightCheck =
  pc_name :: string
  pc_ok :: bool
  advisory :: bool
  pc_detail :: string

record PreflightReport =
  pr_checks :: "PreflightCheck list"
  pr_bounds :: "string list"
  ready :: bool

definition check :: "string \<Rightarrow> bool \<Rightarrow> string \<Rightarrow> PreflightCheck" where
  "check name ok detail = \<lparr>pc_name = name, pc_ok = ok, advisory = False, pc_detail = detail\<rparr>"

definition advise :: "string \<Rightarrow> bool \<Rightarrow> string \<Rightarrow> PreflightCheck" where
  "advise name ok detail = \<lparr>pc_name = name, pc_ok = ok, advisory = True, pc_detail = detail\<rparr>"

text \<open>\<open>try\<close> with a handler for \<open>std::exception\<close>.\<close>

definition catching :: "'a result \<Rightarrow> (exn \<Rightarrow> 'b) \<Rightarrow> ('a \<Rightarrow> 'b) \<Rightarrow> 'b result" where
  "catching r handler body =
     (case r of
        Inl e \<Rightarrow> if exn_class e = Undefined_behaviour then Inl e else Inr (handler e)
      | Inr x \<Rightarrow> Inr (body x))"

definition environment_checks :: "PreflightEnvironment \<Rightarrow> PreflightCheck list" where
  "environment_checks env =
     (let credentials = has_identifier env \<and> has_password env in
      [check ''scheduler'' (scheduler_on env)
         (if scheduler_on env then ''enabled (ATPERSON_SCHEDULER=1)''
          else ''off: set ATPERSON_SCHEDULER=1 so the daemon decides and proposes on its own''),
       check ''publishing-switch'' (publishing_switch env)
         (if publishing_switch env then ''on (ATPERSON_ALLOW_EXTERNAL_PUBLISHING)''
          else ''off: set ATPERSON_ALLOW_EXTERNAL_PUBLISHING=true; nothing is published without it''),
       check ''credentials'' credentials
         (if credentials then ''identifier and app password are set''
          else ''set ATPERSON_IDENTIFIER and ATPERSON_APP_PASSWORD so each cycle can open a session''),
       advise ''identity'' (has_self_did env)
         (if has_self_did env then ''ATPERSON_SELF_DID is set, so the entity's own posts are excluded from learning''
          else ''ATPERSON_SELF_DID is unset: the entity would learn from its own posts'')])"

definition guard_checks :: "ArmPaths \<Rightarrow> fs \<Rightarrow> PreflightCheck list result" where
  "guard_checks paths fs =
     (if denylist_file paths = [] then Inr []
      else catching (load_denylist (denylist_file paths) fs)
        (\<lambda>e. [check ''output-guard'' False (''denylist unreadable: '' @ exn_what e)])
        (\<lambda>terms. [advise ''output-guard'' (0 < length terms)
           (if 0 < length terms
            then ''structural rules on; denylist has '' @ nat_to_string (length terms) @ '' term(s)''
            else ''structural rules on (no URLs, mentions or hashtags, length, no repeated text); no denylist terms: add words the entity must never say to '' @
                 denylist_file paths)]))"

definition engagement_checks :: "PreflightEnvironment \<Rightarrow> ArmPaths \<Rightarrow> fs \<Rightarrow> PreflightCheck list result" where
  "engagement_checks env paths fs =
     (if do_not_engage_file paths = [] then Inr []
      else catching (load_do_not_engage (do_not_engage_file paths) fs)
        (\<lambda>e. [check ''engagement'' False (''do-not-engage list unreadable: '' @ exn_what e)])
        (\<lambda>l. if 0 < invalid_lines l
             then [check ''engagement'' False (nat_to_string (invalid_lines l) @ '' line(s) in '' @ do_not_engage_file paths @
               '' are not DIDs and are ignored, so the people they were meant to exclude are NOT excluded; fix them'')]
             else [advise ''engagement'' True
               ((if engagement_open env then ''open: any author may be liked, reposted or followed''
                 else ''invited: only people who engaged with it first'') @
                ''; do-not-engage list: '' @ nat_to_string (card (dids l)) @ '' DID(s)'')]))"

definition breaker_check :: "'j arm_env \<Rightarrow> int \<Rightarrow> BreakerState \<Rightarrow> PreflightCheck" where
  "breaker_check E now b =
     (let gate = breaker_gate b now in
      if gate = Gate_Closed then advise ''circuit-breaker'' True ''closed''
      else advise ''circuit-breaker'' False
        (breaker_gate_name gate @ '' after '' @ nat_to_string (unat (consecutive_failures b)) @ '' consecutive failure(s), '' @
         nat_to_string (unat (trips b)) @ '' trip(s); it retries by itself'' @
         (if gate = Gate_Open then '' at '' @ arm_instant E (open_until b) else '' on the next attempt'') @
         ''. Last failure: '' @ last_failure_detail b))"

definition breaker_checks :: "'j arm_env \<Rightarrow> ArmPaths \<Rightarrow> int \<Rightarrow> fs \<Rightarrow> PreflightCheck list result" where
  "breaker_checks E paths now fs =
     (if breaker_file paths = [] then Inr []
      else catching (load_breaker_state (arm_json E) (breaker_file paths) fs)
        (\<lambda>e. [check ''circuit-breaker'' False (''breaker state unreadable: '' @ exn_what e)])
        (\<lambda>b. [breaker_check E now b]))"

definition control_problems :: "ControlState \<Rightarrow> string list" where
  "control_problems c =
     (if paused c then [''paused (`control resume`)''] else []) @
     (if \<not> writes_enabled c then [''network writes are off (`control writes on`)''] else []) @
     (if dry_run c then [''dry-run is on (`control dry-run off`)''] else []) @
     (if offline_mode c then [''offline mode spools writes instead of publishing''] else [])"

definition control_check :: "ControlState \<Rightarrow> PreflightCheck" where
  "control_check c =
     (let problems = control_problems c in
      check ''control'' (problems = [])
        (if problems = [] then ''not paused, writes on, dry-run off, online'' else join ''; '' problems))"

definition control_checks :: "'j arm_env \<Rightarrow> ArmPaths \<Rightarrow> fs \<Rightarrow> (ControlState option \<times> PreflightCheck) result" where
  "control_checks E paths fs =
     catching (load_control_state (arm_json E) (control_file paths) fs)
       (\<lambda>e. (None, check ''control'' False (''control state unreadable: '' @ exn_what e)))
       (\<lambda>c. (Some c, control_check c))"

definition enabled_kinds :: "OutboundPolicy \<Rightarrow> OutboundActionKind list" where
  "enabled_kinds policy = filter (\<lambda>k. is_executable_kind k \<and> budget_enabled (budget_for policy k)) all_kinds"

definition policy_checks :: "'j arm_env \<Rightarrow> ArmPaths \<Rightarrow> fs \<Rightarrow> (OutboundPolicy option \<times> PreflightCheck) result" where
  "policy_checks E paths fs =
     catching (load_outbound_policy (arm_json E) (policy_file paths) fs)
       (\<lambda>e. (None, check ''policy'' False (''outbound policy unreadable: '' @ exn_what e)))
       (\<lambda>policy. (Some policy, check ''policy'' (enabled_kinds policy \<noteq> [])
          (if enabled_kinds policy = [] then ''no action kind is enabled; every kind is default-off''
           else ''enabled: '' @ join '', '' (map outbound_kind_name (enabled_kinds policy)))))"

subsection \<open>Which kinds can run unattended\<close>

text \<open>The envelopes that load, and what is wrong with the others.\<close>

fun load_envelopes ::
  "'j cjson \<Rightarrow> string \<Rightarrow> OutboundPolicy \<Rightarrow> fs \<Rightarrow> string list \<Rightarrow> (AuthorizationEnvelope list \<times> string list) result" where
  "load_envelopes J dir policy fs [] = Inr ([], [])"
| "load_envelopes J dir policy fs (i # ids) =
     and_then (catching (load_authorization_envelope J dir i policy fs)
         (\<lambda>e. ([], [''envelope '' @ i @ '' is unusable and covers nothing ('' @ exn_what e @ '')'']))
         (\<lambda>found. (case found of None \<Rightarrow> [] | Some e \<Rightarrow> [e], []))) (\<lambda>(es, problems).
       and_then (load_envelopes J dir policy fs ids) (\<lambda>(es2, problems2). Inr (es @ es2, problems @ problems2)))"

definition probe_evidence :: "OutboundActionKind \<Rightarrow> EnvelopeEvidence" where
  "probe_evidence k =
     (if is_textless k then \<lparr>ev_plan_score = None, ev_support_score = None\<rparr>
      else \<lparr>ev_plan_score = Some (Finite 1), ev_support_score = Some (Finite 1)\<rparr>)"

definition probe_text :: "OutboundActionKind \<Rightarrow> AuthorizationEnvelope \<Rightarrow> string" where
  "probe_text k e = (if is_textless k then [] else if scope_terms e = [] then ''x'' else hd (scope_terms e))"

definition probe_coverage :: "OutboundActionKind \<Rightarrow> int \<Rightarrow> AuthorizationEnvelope \<Rightarrow> EnvelopeCoverage" where
  "probe_coverage k now e = covers_action e k (probe_text k e) (probe_evidence k) empty_usage now"

definition bound_line :: "'j arm_env \<Rightarrow> OutboundPolicy \<Rightarrow> OutboundActionKind \<Rightarrow> AuthorizationEnvelope \<Rightarrow> EnvelopeKindRule \<Rightarrow> string" where
  "bound_line E policy k e r =
     (let b = budget_for policy k in
      outbound_kind_name k @ '': at most '' @ limit_text (min (max_in_window b) (rule_max_in_window r)) (rule_window_seconds r) @
      '' (policy '' @ limit_text (max_in_window b) (window_seconds b) @ '', envelope '' @ ae_id e @ '' '' @
      limit_text (rule_max_in_window r) (rule_window_seconds r) @ ''), '' @
      (case expires_at e of Some x \<Rightarrow> ''until '' @ x | None \<Rightarrow> ''no expiry'') @
      (if scope_terms e = [] then [] else '', scope: '' @ join '','' (scope_terms e)) @
      (if positive (min_plan_score r) \<or> positive (min_support_score r)
       then '', floors: plan>='' @ arm_show E (min_plan_score r) @ '' support>='' @ arm_show E (min_support_score r)
       else []))"

text \<open>The first envelope that covers the probe, or the last reason.\<close>

fun probe_envelopes :: "OutboundActionKind \<Rightarrow> int \<Rightarrow> string \<Rightarrow> AuthorizationEnvelope list \<Rightarrow> string + AuthorizationEnvelope" where
  "probe_envelopes k now why [] = Inl why"
| "probe_envelopes k now why (e # es) =
     (if covered (probe_coverage k now e) then Inr e
      else probe_envelopes k now (''envelope '' @ ae_id e @ '': '' @ cov_reason (probe_coverage k now e)) es)"

definition authorize_kind ::
  "'j arm_env \<Rightarrow> ControlState \<Rightarrow> OutboundPolicy \<Rightarrow> int \<Rightarrow> AuthorizationEnvelope list \<Rightarrow> OutboundActionKind \<Rightarrow> string + string" where
  "authorize_kind E c policy now es k =
     (if \<not> approval_required c then
        Inr (outbound_kind_name k @ '': '' @
             limit_text (max_in_window (budget_for policy k)) (window_seconds (budget_for policy k)) @
             '' (per-action approval is off; policy limits apply)'')
      else case probe_envelopes k now ''no envelope'' es of
        Inl why \<Rightarrow> Inl (outbound_kind_name k @ '' ('' @ why @ '')'')
      | Inr e \<Rightarrow>
          (case rule_for e k of
             None \<Rightarrow> Inr []
           | Some r \<Rightarrow> Inr (bound_line E policy k e r)))"

definition lefts :: "('a + 'b) list \<Rightarrow> 'a list" where
  "lefts xs = concat (map (\<lambda>x. case x of Inl a \<Rightarrow> [a] | Inr _ \<Rightarrow> []) xs)"

definition rights :: "('a + 'b) list \<Rightarrow> 'b list" where
  "rights xs = concat (map (\<lambda>x. case x of Inl _ \<Rightarrow> [] | Inr b \<Rightarrow> [b]) xs)"

text \<open>\<open>names\<close> are the files of the directory of envelopes.\<close>

definition authorization_check ::
  "'j arm_env \<Rightarrow> ArmPaths \<Rightarrow> string list \<Rightarrow> ControlState \<Rightarrow> OutboundPolicy \<Rightarrow> int \<Rightarrow> fs \<Rightarrow>
   (PreflightCheck \<times> string list) result" where
  "authorization_check E paths names c policy now fs =
     and_then (load_envelopes (arm_json E) (envelopes_dir paths) policy fs (list_authorization_envelopes names)) (\<lambda>(es, problems).
       let verdicts = map (authorize_kind E c policy now es) (enabled_kinds policy);
           bounds = rights verdicts; uncovered = lefts verdicts;
           detail =
             (if 0 < length bounds then nat_to_string (length bounds) @ '' kind(s) can act without per-action approval''
              else ''nothing is authorised to run unattended: grant an envelope (`autonomy arm --apply`) or every action waits for `control approve <digest>`'') @
             (if uncovered = [] then [] else ''; still needs per-action approval: '' @ join '', '' uncovered) @
             concat (map (\<lambda>problem. ''; '' @ problem) problems)
       in Inr (check ''authorization'' (0 < length bounds) detail, bounds))"

subsection \<open>The report\<close>

text \<open>Only when both documents were read.\<close>

definition authorization_part ::
  "'j arm_env \<Rightarrow> ArmPaths \<Rightarrow> string list \<Rightarrow> ControlState option \<Rightarrow> OutboundPolicy option \<Rightarrow> int \<Rightarrow> fs \<Rightarrow>
   (PreflightCheck list \<times> string list) result" where
  "authorization_part E paths names control policy now fs =
     (case (control, policy) of
        (Some c, Some p) \<Rightarrow> and_then (authorization_check E paths names c p now fs) (\<lambda>(line, bounds). Inr ([line], bounds))
      | _ \<Rightarrow> Inr ([], []))"

definition run_preflight ::
  "'j arm_env \<Rightarrow> PreflightEnvironment \<Rightarrow> ArmPaths \<Rightarrow> string list \<Rightarrow> int \<Rightarrow> fs \<Rightarrow> PreflightReport result" where
  "run_preflight E env paths names now fs =
     and_then (guard_checks paths fs) (\<lambda>guard.
     and_then (engagement_checks env paths fs) (\<lambda>engagement.
     and_then (breaker_checks E paths now fs) (\<lambda>breaker.
     and_then (control_checks E paths fs) (\<lambda>(control, control_line).
     and_then (policy_checks E paths fs) (\<lambda>(policy, policy_line).
     and_then (authorization_part E paths names control policy now fs) (\<lambda>(authorization, bounds).
     let checks = environment_checks env @ guard @ engagement @ breaker @ [control_line, policy_line] @ authorization in
     Inr \<lparr>pr_checks = checks, pr_bounds = bounds, ready = list_all (\<lambda>c. pc_ok c \<or> advisory c) checks\<rparr>))))))"


subsection \<open>What ready means\<close>

lemma catching_Inr:
  "catching r h f = Inr y \<longleftrightarrow>
     (\<exists>x. r = Inr x \<and> y = f x) \<or> (\<exists>e. r = Inl e \<and> exn_class e \<noteq> Undefined_behaviour \<and> y = h e)"
  by (auto simp: catching_def split: sum.splits)

lemma control_problems_none:
  "control_problems c = [] \<longleftrightarrow> \<not> paused c \<and> writes_enabled c \<and> \<not> dry_run c \<and> \<not> offline_mode c"
  by (simp add: control_problems_def)

lemma load_envelopes_Inr:
  "load_envelopes J dir policy fs ids = Inr (es, problems) \<Longrightarrow>
     (e \<in> set es \<longleftrightarrow> (\<exists>i \<in> set ids. load_authorization_envelope J dir i policy fs = Inr (Some e)))"
proof (induction ids arbitrary: es problems)
  case Nil
  then show ?case by simp
next
  case (Cons i ids)
  obtain es1 p1 es2 p2 where 1: "catching (load_authorization_envelope J dir i policy fs)
         (\<lambda>e. ([], [''envelope '' @ i @ '' is unusable and covers nothing ('' @ exn_what e @ '')'']))
         (\<lambda>found. (case found of None \<Rightarrow> [] | Some e \<Rightarrow> [e], [])) = Inr (es1, p1)"
    and 2: "load_envelopes J dir policy fs ids = Inr (es2, p2)" "es = es1 @ es2"
    using Cons.prems by (auto simp: result_simps)
  have "e \<in> set es1 \<longleftrightarrow> load_authorization_envelope J dir i policy fs = Inr (Some e)"
    using 1 unfolding catching_Inr by (auto split: option.splits)
  then show ?case using Cons.IH [OF 2(1)] 2(2) by auto
qed

lemma probe_envelopes_Inr:
  "probe_envelopes k now why es = Inr e \<Longrightarrow> e \<in> set es \<and> covered (probe_coverage k now e)"
  by (induction es arbitrary: why) (auto split: if_splits)

lemma rights_nonempty: "rights xs \<noteq> [] \<longleftrightarrow> (\<exists>y. Inr y \<in> set xs)"
  by (induction xs) (auto simp: rights_def split: sum.splits)

definition kind_authorized ::
  "'j arm_env \<Rightarrow> ArmPaths \<Rightarrow> string list \<Rightarrow> ControlState \<Rightarrow> OutboundPolicy \<Rightarrow> int \<Rightarrow> fs \<Rightarrow> OutboundActionKind \<Rightarrow> bool" where
  "kind_authorized E paths names c policy now fs k \<longleftrightarrow>
     \<not> approval_required c \<or>
     (\<exists>i \<in> set (list_authorization_envelopes names). \<exists>e.
        load_authorization_envelope (arm_json E) (envelopes_dir paths) i policy fs = Inr (Some e) \<and>
        covered (probe_coverage k now e))"

lemma authorization_check_ok:
  assumes "authorization_check E paths names c policy now fs = Inr (line, bounds)" and "pc_ok line"
  shows "\<exists>k. is_executable_kind k \<and> budget_enabled (budget_for policy k) \<and> kind_authorized E paths names c policy now fs k"
proof -
  obtain es problems where es: "load_envelopes (arm_json E) (envelopes_dir paths) policy fs (list_authorization_envelopes names) = Inr (es, problems)"
    and "rights (map (authorize_kind E c policy now es) (enabled_kinds policy)) \<noteq> []"
    using assms by (auto simp: authorization_check_def result_simps Let_def check_def)
  then obtain k y where k: "k \<in> set (enabled_kinds policy)" "authorize_kind E c policy now es k = Inr y"
    unfolding rights_nonempty by (auto simp: image_iff) metis
  have "kind_authorized E paths names c policy now fs k"
    using k(2) probe_envelopes_Inr [of k now "''no envelope''" es] load_envelopes_Inr [OF es]
    by (auto simp: authorize_kind_def kind_authorized_def split: if_splits sum.splits)
  then show ?thesis using k(1) by (auto simp: enabled_kinds_def)
qed

theorem ready_means:
  assumes "run_preflight E env paths names now fs = Inr rep" and "ready rep"
  shows "scheduler_on env \<and> publishing_switch env \<and> has_identifier env \<and> has_password env"
    and "\<exists>c policy k. load_control_state (arm_json E) (control_file paths) fs = Inr c \<and>
      load_outbound_policy (arm_json E) (policy_file paths) fs = Inr policy \<and>
      \<not> paused c \<and> writes_enabled c \<and> \<not> dry_run c \<and> \<not> offline_mode c \<and>
      is_executable_kind k \<and> budget_enabled (budget_for policy k) \<and> kind_authorized E paths names c policy now fs k"
proof -
  obtain g en b where parts: "guard_checks paths fs = Inr g" "engagement_checks env paths fs = Inr en" "breaker_checks E paths now fs = Inr b"
    using assms(1) by (auto simp: run_preflight_def result_simps)
  obtain c cl where ctl: "control_checks E paths fs = Inr (c, cl)" using assms(1) parts by (auto simp: run_preflight_def result_simps)
  obtain p pl where pol: "policy_checks E paths fs = Inr (p, pl)" using assms(1) parts ctl by (auto simp: run_preflight_def result_simps)
  obtain az bounds where auth: "authorization_part E paths names c p now fs = Inr (az, bounds)"
    using assms(1) parts ctl pol by (auto simp: run_preflight_def result_simps)
  have "ready rep = list_all (\<lambda>c. pc_ok c \<or> advisory c) (environment_checks env @ g @ en @ b @ [cl, pl] @ az)"
    using assms(1) by (auto simp: run_preflight_def parts ctl pol auth Let_def)
  then have all: "list_all (\<lambda>c. pc_ok c \<or> advisory c) (environment_checks env @ g @ en @ b @ [cl, pl] @ az)"
    using assms(2) by simp
  show "scheduler_on env \<and> publishing_switch env \<and> has_identifier env \<and> has_password env"
    using all by (simp add: environment_checks_def check_def advise_def Let_def)
  have "pc_ok cl \<or> advisory cl" "pc_ok pl \<or> advisory pl" "list_all (\<lambda>c. pc_ok c \<or> advisory c) az" using all by simp_all
  moreover have "\<exists>c0. load_control_state (arm_json E) (control_file paths) fs = Inr c0 \<and> c = Some c0 \<and> control_problems c0 = []"
    using ctl \<open>pc_ok cl \<or> advisory cl\<close> unfolding control_checks_def catching_Inr by (auto simp: control_check_def check_def Let_def)
  then obtain c0 where c0: "load_control_state (arm_json E) (control_file paths) fs = Inr c0" "c = Some c0" "control_problems c0 = []"
    by blast
  moreover have "\<exists>p0. load_outbound_policy (arm_json E) (policy_file paths) fs = Inr p0 \<and> p = Some p0"
    using pol \<open>pc_ok pl \<or> advisory pl\<close> unfolding policy_checks_def catching_Inr by (auto simp: check_def)
  then obtain p0 where p0: "load_outbound_policy (arm_json E) (policy_file paths) fs = Inr p0" "p = Some p0" by blast
  obtain line where line: "authorization_check E paths names c0 p0 now fs = Inr (line, bounds)" "az = [line]"
    using auth c0(2) p0(2) by (auto simp: authorization_part_def result_simps)
  have "\<not> advisory line" using line(1) by (auto simp: authorization_check_def result_simps Let_def check_def)
  with line(2) \<open>list_all (\<lambda>c. pc_ok c \<or> advisory c) az\<close> have "pc_ok line" by simp
  from authorization_check_ok [OF line(1) this] c0 p0 control_problems_none [of c0]
  show "\<exists>c policy k. load_control_state (arm_json E) (control_file paths) fs = Inr c \<and>
      load_outbound_policy (arm_json E) (policy_file paths) fs = Inr policy \<and>
      \<not> paused c \<and> writes_enabled c \<and> \<not> dry_run c \<and> \<not> offline_mode c \<and>
      is_executable_kind k \<and> budget_enabled (budget_for policy k) \<and> kind_authorized E paths names c policy now fs k"
    by blast
qed

text \<open>A search that meets no broken envelope finds one that covers, if there is one.\<close>

lemma find_covering_finds:
  assumes "\<forall>i \<in> set ids. \<not> isl (load_authorization_envelope J dir i policy fs)" and "i \<in> set ids"
    and "load_authorization_envelope J dir i policy fs = Inr (Some e)" and "covered (cover e)"
  shows "\<exists>c. find_covering J dir policy fs cover ids best = Inr c \<and> covered c"
  using assms
proof (induction ids arbitrary: best)
  case (Cons j ids)
  obtain found where found: "load_authorization_envelope J dir j policy fs = Inr found"
    using Cons.prems(1) by (cases "load_authorization_envelope J dir j policy fs") auto
  show ?case
  proof (cases found)
    case None
    then have "i \<in> set ids" using Cons.prems(2,3) found by auto
    then show ?thesis using Cons.IH Cons.prems None found by simp
  next
    case (Some e')
    show ?thesis
    proof (cases "covered (cover e')")
      case True
      then show ?thesis using Some found by simp
    next
      case False
      then have "i \<in> set ids" using Cons.prems(2-4) found Some by auto
      then show ?thesis using Cons.IH Cons.prems Some found False by simp
    qed
  qed
qed simp

lemma fresh_budget_allows:
  assumes "policy_ok policy" and "budget_enabled (budget_for policy (prop_kind p))"
  shows "outcome (evaluate_outbound_policy policy empty_budget_state p now) = Outcome_Allow"
proof -
  have "budget_ok (budgets policy (prop_kind p))" using assms(1) by (simp add: policy_ok_def)
  then have "0 < max_in_window (budgets policy (prop_kind p))" by (simp add: budget_ok_def)
  then show ?thesis
    using assms(2)
    by (simp add: evaluate_outbound_policy_def Let_def outbound_budget_status_def duplicate_elapsed_def empty_budget_state_def
        empty_usage_def count_outbound_actions_in_window_def last_outbound_action_at_def duplicate_outbound_recorded_at_def
        budget_for_def)
qed

definition probe_action :: "OutboundActionKind \<Rightarrow> string \<Rightarrow> OutboundAction" where
  "probe_action k s =
     \<lparr>act_kind = k, act_text = s, act_rkey = [], act_created_at = [], act_digest = [], act_reply_root = [],
      act_reply_parent = [], act_subject = [],
      act_plan_score = (if is_textless k then None else Some 1), act_support_score = (if is_textless k then None else Some 1)\<rparr>"

text \<open>The envelope the executor would find for an action, with the budget of a fresh installation.\<close>

definition executor_envelope ::
  "'j arm_env \<Rightarrow> ArmPaths \<Rightarrow> string list \<Rightarrow> OutboundPolicy \<Rightarrow> OutboundAction \<Rightarrow> int \<Rightarrow> fs \<Rightarrow> EnvelopeCoverage result" where
  "executor_envelope E paths names policy a now fs =
     find_covering_envelope (arm_json E) (envelopes_dir paths) names fs policy (act_kind a) (act_text a)
       \<lparr>ev_plan_score = map_option Finite (act_plan_score a), ev_support_score = map_option Finite (act_support_score a)\<rparr>
       empty_budget_state now"

theorem ready_admits:
  assumes "run_preflight E env paths names now fs = Inr rep" and "ready rep"
    and loads: "\<And>policy i. load_outbound_policy (arm_json E) (policy_file paths) fs = Inr policy \<Longrightarrow>
      i \<in> set (list_authorization_envelopes names) \<Longrightarrow>
      \<not> isl (load_authorization_envelope (arm_json E) (envelopes_dir paths) i policy fs)"
  shows "\<exists>c policy a cov. load_control_state (arm_json E) (control_file paths) fs = Inr c \<and>
    load_outbound_policy (arm_json E) (policy_file paths) fs = Inr policy \<and> is_executable_kind (act_kind a) \<and>
    executor_envelope E paths names policy a now fs = Inr cov \<and>
    gates_pass c policy empty_budget_state a now (publishing_switch env) (Some cov)"
proof -
  obtain c policy k where r: "load_control_state (arm_json E) (control_file paths) fs = Inr c"
    "load_outbound_policy (arm_json E) (policy_file paths) fs = Inr policy" "\<not> paused c" "writes_enabled c" "\<not> dry_run c"
    "is_executable_kind k" "budget_enabled (budget_for policy k)" "kind_authorized E paths names c policy now fs k"
    using ready_means(2) [OF assms(1,2)] by blast
  let ?ids = "list_authorization_envelopes names"
  have sw: "publishing_switch env" using ready_means(1) [OF assms(1,2)] by blast
  have ok: "policy_ok policy" by (rule load_policy_ok [OF r(2)])
  have ld: "\<forall>i \<in> set ?ids. \<not> isl (load_authorization_envelope (arm_json E) (envelopes_dir paths) i policy fs)"
    using loads [OF r(2)] by blast
  have ev: "\<lparr>ev_plan_score = map_option Finite (act_plan_score (probe_action k s)),
      ev_support_score = map_option Finite (act_support_score (probe_action k s))\<rparr> = probe_evidence k" for s
    by (simp add: probe_action_def probe_evidence_def)
  have fresh: "usage empty_budget_state k = empty_usage" by (simp add: empty_budget_state_def)
  have exec: "executor_envelope E paths names policy (probe_action k s) now fs =
      find_covering (arm_json E) (envelopes_dir paths) policy fs (\<lambda>e. covers_action e k s (probe_evidence k) empty_usage now) ?ids
        \<lparr>covered = False, cov_envelope_id = [], cov_reason = (if ?ids = [] then ''no_envelope'' else ''not_covered'')\<rparr>" for s
    unfolding executor_envelope_def ev by (simp add: find_covering_envelope_def probe_action_def fresh)
  have admit: "outcome (evaluate_outbound_policy policy empty_budget_state (outbound_action_proposal (probe_action k s)) now) = Outcome_Allow" for s
    by (rule fresh_budget_allows [OF ok]) (simp add: outbound_action_proposal_def probe_action_def r(7))
  have "\<exists>s cov. executor_envelope E paths names policy (probe_action k s) now fs = Inr cov \<and> (approval_required c \<longrightarrow> covered cov)"
  proof (cases "approval_required c")
    case True
    then obtain i e where e: "i \<in> set ?ids" "load_authorization_envelope (arm_json E) (envelopes_dir paths) i policy fs = Inr (Some e)"
      "covered (probe_coverage k now e)" using r(8) by (auto simp: kind_authorized_def)
    from find_covering_finds [OF ld e(1,2), of "\<lambda>e'. covers_action e' k (probe_text k e) (probe_evidence k) empty_usage now"] e(3)
    show ?thesis unfolding exec probe_coverage_def by blast
  next
    case False
    have "\<exists>cov. find_covering (arm_json E) (envelopes_dir paths) policy fs cover ids best = Inr cov"
      if "\<forall>i \<in> set ids. \<not> isl (load_authorization_envelope (arm_json E) (envelopes_dir paths) i policy fs)" for cover ids best
      using that
    proof (induction ids arbitrary: best)
      case (Cons i ids)
      then show ?case
        by (cases "load_authorization_envelope (arm_json E) (envelopes_dir paths) i policy fs") (auto split: option.splits)
    qed simp
    from this [OF ld] show ?thesis unfolding exec using False by blast
  qed
  then obtain s cov where s: "executor_envelope E paths names policy (probe_action k s) now fs = Inr cov"
    "approval_required c \<longrightarrow> covered cov" by blast
  have "gates_pass c policy empty_budget_state (probe_action k s) now (publishing_switch env) (Some cov)"
    using r(3-5) s(2) admit sw by (auto simp: gates_pass_def)
  moreover have "is_executable_kind (act_kind (probe_action k s))" using r(6) by (simp add: probe_action_def)
  ultimately show ?thesis using r(1,2) s(1) by blast
qed

end
