(* ===== verification/Samples_Arming.thy ===== *)
theory Samples_Arming
  imports Preflight Samples
begin

text \<open>
  A concrete arming, of one post a minute, and a concrete installation to report on, with and
  without a broken envelope file.
\<close>

definition arm_document :: node where
  "arm_document = Node_Object
     [(''format'', Node_String ''atperson-authorization-envelope''), (''version'', Node_Number 1),
      (''id'', Node_String ''e''), (''created_at'', Node_String ''2026-01-01T00:00:00Z''),
      (''scope_terms'', Node_Array []),
      (''kinds'', Node_Array [Node_Object [(''kind'', Node_String ''post''),
         (''max_in_window'', Node_Number 1), (''window_seconds'', Node_Number 60)]])]"

definition arm_sample_json :: "(string option \<times> node) cjson" where
  "arm_sample_json = table_cjson (\<lambda>t. Some arm_document) (\<lambda>_. [])"

definition arm_sample_env :: "(string option \<times> node) cjson \<Rightarrow> (string option \<times> node) arm_env" where
  "arm_sample_env J = \<lparr>arm_json = J, arm_show = (\<lambda>_. []), arm_instant = (\<lambda>_. [])\<rparr>"

definition post_spec :: "nat \<Rightarrow> ArmKindSpec" where
  "post_spec n = \<lparr>ak_kind = Kind_Post, ak_max = n, ak_window = 60\<rparr>"

definition post_request :: "nat \<Rightarrow> string \<Rightarrow> ArmRequest" where
  "post_request n eid =
     \<lparr>ar_kinds = [post_spec n], ar_scope_terms = [], ar_min_plan = Finite 0, ar_min_support = Finite 0,
      ar_expires_at = None, ar_envelope_id = eid\<rparr>"

definition arm_sample_paths :: ArmPaths where
  "arm_sample_paths =
     \<lparr>policy_file = ''policy.json'', control_file = ''control.json'', envelopes_dir = ''d'', denylist_file = [],
      breaker_file = [], do_not_engage_file = []\<rparr>"

definition arm_sample_io :: "io \<Rightarrow> arm_io" where
  "arm_sample_io control =
     \<lparr>ai_removable = (\<lambda>_. True), ai_envelope = (\<lambda>_. io_ok),
      ai_policy = \<lparr>wr_create_ok = True, wr_write_ok = True, wr_reached = 0, wr_rename_ok = True\<rparr>, ai_control = control\<rparr>"

lemma arm_sample_paths_ok: "arm_paths_ok arm_sample_paths"
  by (simp add: arm_paths_ok_def arm_sample_paths_def tmp_path_def envelope_path_def)

lemma arm_sample_io_ok: "arm_io_ok (arm_sample_io io_ok)"
  by (simp add: arm_io_ok_def arm_sample_io_def)

lemma post_request_planned:
  assumes "1 \<le> n" and "is_envelope_id eid"
  shows "\<exists>plan. plan_arm (arm_sample_env arm_sample_json) (post_request n eid) default_outbound_policy default_control_state
      ''2026-01-01T00:00:00Z'' = Inr plan"
proof -
  have k: "parse_outbound_kind ''post'' = Some Kind_Post" by code_simp
  have t: "parse_rfc3339_epoch ''2026-01-01T00:00:00Z'' \<noteq> None" by (simp add: rfc3339_eval)
  have i: "is_envelope_id ''e''" by (simp add: is_envelope_id_def is_lower_def is_digit_def code_def)
  define policy where "policy = default_outbound_policy\<lparr>budgets := (budgets default_outbound_policy)(Kind_Post := armed_budget (post_spec n))\<rparr>"
  have kinds: "fold_result arm_kind (ar_kinds (post_request n eid)) (default_outbound_policy, {}, []) =
      Inr (policy, {Kind_Post}, [budget_change default_outbound_policy (post_spec n)])"
    using assms(1) by (simp add: arm_kind_def Let_def post_request_def post_spec_def kMaxOutboundWindowSeconds_def policy_def)
  have "\<exists>e. parse_authorization_envelope arm_sample_json doc policy ''arm plan'' = Inr e" for doc
    using assms(1)
    by (simp add: i t k parse_authorization_envelope_def arm_sample_json_def arm_document_def table_simps env_require_string_def
        nonempty_string_def env_optional_string_def bad_instant_def to_uint32_def to_int64_def dbl_to_int_def trunc_zero_def
        required_array_def parse_scope_def parse_rules_def parse_rule_def number_at_least_one_def parse_floor_def has_key_def
        kMaxOutboundWindowSeconds_def policy_def budget_for_def armed_budget_def post_spec_def value_or_empty_def)
  then have e: "\<exists>e. arm_envelope (arm_sample_env arm_sample_json) r i now policy b = Inr e" for r i now b
    unfolding arm_envelope_def arm_sample_env_def by (metis arm_env.select_convs(1) sum.case(2))
  have "\<exists>plan. add_envelope (arm_sample_env arm_sample_json) r i now b p = Inr plan \<and> pl_policy plan = policy"
    if "pl_policy p = policy" for r i now b p
    using e [of r i now b] that by (auto simp: add_envelope_def)
  then have "\<exists>plan. finish_plan (arm_sample_env arm_sample_json) r any i now p = Inr plan" if "pl_policy p = policy" for r any i now p
    using that unfolding finish_plan_def by (metis (no_types, lifting) and_then.simps(2) fold_result.simps)
  moreover have "list_ex (\<lambda>spec. is_textless (ak_kind spec)) (ar_kinds (post_request n eid)) = False"
    by (simp add: post_request_def post_spec_def is_textless_def)
  ultimately show ?thesis
    using assms(2) kinds
    by (simp add: plan_arm_def Let_def post_request_def floor_ok_def dbl_isfinite_def)
qed

text \<open>The installation: writes on, approval required, one envelope; \<open>broken\<close> adds a file that is not JSON.\<close>

definition ready_control :: node where
  "ready_control = Node_Object
     [(''format'', Node_String control_format), (''version'', Node_Number 1), (''paused'', Node_Bool False),
      (''writes_enabled'', Node_Bool True), (''dry_run'', Node_Bool False), (''offline_mode'', Node_Bool False),
      (''approval_required'', Node_Bool True), (''approved_digests'', Node_Array [])]"

definition ready_json :: "(string option \<times> node) cjson" where
  "ready_json = table_cjson (\<lambda>t. if t = ''control'' then Some ready_control else if t = ''policy'' then Some (Node_Object open_policy_fields)
     else if t = ''env'' then Some arm_document else None) (\<lambda>_. [])"

definition ready_files :: "bool \<Rightarrow> fs" where
  "ready_files broken = (\<lambda>_. Missing)(''control.json'' := Present ''control'', ''policy.json'' := Present ''policy'',
     ''d/e.json'' := Present ''env'', ''d/a.json'' := (if broken then Present ''junk'' else Missing))"

definition ready_names :: "bool \<Rightarrow> string list" where
  "ready_names broken = (if broken then [''a.json'', ''e.json''] else [''e.json''])"

definition ready_env :: PreflightEnvironment where
  "ready_env =
     \<lparr>scheduler_on = True, publishing_switch = True, has_identifier = True, has_password = True, has_self_did = True,
      engagement_open = False\<rparr>"

definition ready_state :: ControlState where
  "ready_state = default_control_state\<lparr>writes_enabled := True, dry_run := False\<rparr>"

lemma ready_control_loads: "load_control_state ready_json ''control.json'' (ready_files b) = Inr ready_state"
  by (simp add: load_control_state_def ready_json_def table_simps ready_control_def ready_files_def
      read_text_def ctl_require_string_def ctl_require_version_def ctl_require_bool_def
      ctl_optional_string_def nonempty_string_def string_value_def control_format_def to_uint32_def dbl_to_int_def trunc_zero_def
      lifted_def default_control_state_def control_validate_def parse_digests_def ready_state_def)

lemma ready_policy_loads: "load_outbound_policy ready_json ''policy.json'' (ready_files b) = Inr loaded_policy"
proof -
  have k: "parse_outbound_kind ''post'' = Some Kind_Post" by code_simp
  have "validate_policy loaded_policy ''policy.json'' = Inr ()"
    using default_policy_ok
    by (simp add: validate_policy_iff policy_ok_def loaded_policy_def budget_ok_def budget_for_def default_budget_def
        default_outbound_policy_def kMaxActionsInWindow_def kMaxOutboundWindowSeconds_def)
  moreover have "fold_result (parse_policy_entry ready_json ''policy.json'')
      [(Some ''post'', Node_Object [(''enabled'', Node_Bool True)])] (default_outbound_policy, {}) =
      Inr (loaded_policy, {Kind_Post})"
    by (simp add: parse_policy_entry_def ready_json_def table_simps k parse_budget_def require_int64_def
        loaded_policy_def lifted_def integral_number_def default_budget_def)
  ultimately show ?thesis
    by (simp add: load_outbound_policy_def parse_outbound_policy_def ready_json_def table_simps
        ready_files_def read_text_def open_policy_fields_def policy_format_def to_uint32_def dbl_to_int_def
        trunc_zero_def integral_number_def dbl_isfinite_def dbl_is_whole_def del: fold_result.simps)
qed


definition ready_envelope :: AuthorizationEnvelope where
  "ready_envelope =
     \<lparr>ae_version = 1, ae_id = ''e'', expires_at = None, scope_terms = [],
       rules = [\<lparr>rule_kind = Kind_Post, rule_max_in_window = 1, rule_window_seconds = 60,
                 min_plan_score = Finite 0, min_support_score = Finite 0\<rparr>],
       note_text = [], created_at = ''2026-01-01T00:00:00Z''\<rparr>"

lemma ready_envelope_loads: "load_authorization_envelope ready_json ''d'' ''e'' loaded_policy (ready_files b) = Inr (Some ready_envelope)"
proof -
  have k: "parse_outbound_kind ''post'' = Some Kind_Post" by code_simp
  have t: "parse_rfc3339_epoch ''2026-01-01T00:00:00Z'' \<noteq> None" by (simp add: rfc3339_eval)
  have i: "is_envelope_id ''e''" by (simp add: is_envelope_id_def is_lower_def is_digit_def code_def)
  show ?thesis
    by (simp add: load_authorization_envelope_def i t k ready_files_def envelope_path_def read_text_def
        parse_authorization_envelope_def ready_json_def arm_document_def table_simps env_require_string_def nonempty_string_def
        env_optional_string_def bad_instant_def to_uint32_def to_int64_def dbl_to_int_def trunc_zero_def required_array_def
        parse_scope_def parse_rules_def parse_rule_def number_at_least_one_def parse_floor_def has_key_def
        kMaxOutboundWindowSeconds_def loaded_policy_def budget_for_def default_budget_def value_or_empty_def
        default_outbound_policy_def ready_envelope_def)
qed

lemma broken_envelope_throws:
  "load_authorization_envelope ready_json ''d'' ''a'' policy (ready_files True) =
     Inl (Exn EnvelopeError ''authorization envelope: d/a.json: not a valid JSON object'')"
proof -
  have i: "is_envelope_id ''a''" by (simp add: is_envelope_id_def is_lower_def is_digit_def code_def)
  show ?thesis
    by (simp add: load_authorization_envelope_def i ready_files_def envelope_path_def read_text_def
        parse_authorization_envelope_def ready_json_def table_simps envelope_invalid_def throw_def)
qed

lemma ready_names_listed: "list_authorization_envelopes (ready_names b) = (if b then [''a'', ''e''] else [''e''])"
proof -
  have "list_authorization_envelopes [''e.json''] = [''e'']" "list_authorization_envelopes [''a.json'', ''e.json''] = [''a'', ''e'']"
    by code_simp+
  then show ?thesis by (simp add: ready_names_def)
qed

lemma ready_preflight:
  "\<exists>rep. run_preflight (arm_sample_env ready_json) ready_env arm_sample_paths (ready_names b) 0 (ready_files b) = Inr rep \<and> ready rep"
proof -
  let ?E = "arm_sample_env ready_json" and ?P = arm_sample_paths
  have J: "arm_json ?E = ready_json" "control_file ?P = ''control.json''" "policy_file ?P = ''policy.json''"
    "envelopes_dir ?P = ''d''" "denylist_file ?P = []" "breaker_file ?P = []" "do_not_engage_file ?P = []"
    by (simp_all add: arm_sample_env_def arm_sample_paths_def)
  have kinds: "enabled_kinds loaded_policy = [Kind_Post]"
    by (simp add: enabled_kinds_def all_kinds_def kind_table_def budget_for_def loaded_policy_def default_outbound_policy_def
        default_budget_def)
  have cov: "covered (probe_coverage Kind_Post 0 ready_envelope)"
    by (simp add: probe_coverage_def covered_iff ready_envelope_def probe_text_def is_textless_def count_in_window_def
        empty_usage_def below_floor_def)
  have verdict: "\<exists>line. authorize_kind ?E ready_state loaded_policy 0 [ready_envelope] Kind_Post = Inr line"
    using cov by (auto simp: authorize_kind_def ready_envelope_def rule_for_def)
  have es: "\<exists>problems. load_envelopes ready_json ''d'' loaded_policy (ready_files b) (if b then [''a'', ''e''] else [''e'']) = Inr ([ready_envelope], problems)"
    by (cases b) (simp_all add: ready_envelope_loads broken_envelope_throws catching_def)
  have auth: "\<exists>line bounds. authorization_check ?E ?P (ready_names b) ready_state loaded_policy 0 (ready_files b) = Inr (line, bounds) \<and> pc_ok line"
    using verdict es by (auto simp: authorization_check_def J ready_names_listed kinds rights_def check_def Let_def)
  have ctl: "control_checks ?E ?P (ready_files b) = Inr (Some ready_state, control_check ready_state)"
    by (simp add: control_checks_def J ready_control_loads catching_def)
  have ctl_ok: "pc_ok (control_check ready_state)"
    by (simp add: control_check_def control_problems_def ready_state_def default_control_state_def check_def)
  have pol: "\<exists>line. policy_checks ?E ?P (ready_files b) = Inr (Some loaded_policy, line) \<and> pc_ok line"
    by (simp add: policy_checks_def J ready_policy_loads catching_def kinds check_def)
  have env: "list_all (\<lambda>c. pc_ok c \<or> advisory c) (environment_checks ready_env)"
    by (simp add: environment_checks_def ready_env_def check_def advise_def)
  show ?thesis
    using auth pol env ctl_ok
    by (auto simp: run_preflight_def guard_checks_def engagement_checks_def breaker_checks_def J ctl authorization_part_def)
qed

end
