(* ===== verification/Ingestion_State.thy ===== *)
theory Ingestion_State
  imports Sync_Facts Journal_Roundtrip Protocol_Syntax
begin

text \<open>
  The ingestion state (src/src/app/ingestion/state.hpp and state.cpp): the cursor of an
  interrupted traversal with the identity of the feed it belongs to, its document and validation.
\<close>

definition kSourceKindTimeline :: string where
  "kSourceKindTimeline = ''atproto-timeline''"

definition kSourceKindJetstream :: string where
  "kSourceKindJetstream = ''atproto-jetstream''"

definition kTimelineEndpoint :: string where
  "kTimelineEndpoint = ''app.bsky.feed.getTimeline''"

definition kJetstreamEndpoint :: string where
  "kJetstreamEndpoint = ''com.atproto.sync.subscribeRepos''"

definition ingestion_format :: string where
  "ingestion_format = ''atperson-ingestion-state''"

definition ingestion_invalid :: "string \<Rightarrow> 'a result" where
  "ingestion_invalid msg = throw IngestionStateError (''ingestion state: '' @ msg)"

definition ing_require_string :: "'j cjson \<Rightarrow> 'j \<Rightarrow> string \<Rightarrow> string result" where
  "ing_require_string J obj key =
     (case nonempty_string J (j_item J obj key) of
        None \<Rightarrow> ingestion_invalid (''missing or empty string field '' @ key)
      | Some s \<Rightarrow> Inr s)"

definition ing_optional_string :: "'j cjson \<Rightarrow> 'j \<Rightarrow> string \<Rightarrow> string option result" where
  "ing_optional_string J obj key =
     (case j_item J obj key of
        None \<Rightarrow> Inr None
      | Some v \<Rightarrow>
          if j_is_null J v then Inr None
          else case string_value J (Some v) of
            None \<Rightarrow> ingestion_invalid (''field '' @ key @ '' must be a string or null'')
          | Some s \<Rightarrow>
              if s = [] then ingestion_invalid (''field '' @ key @ '' must not be an empty string'') else Inr (Some s))"

definition account_did_field :: "'j cjson \<Rightarrow> 'j \<Rightarrow> string result" where
  "account_did_field J obj =
     (case j_item J obj ''account_did'' of
        None \<Rightarrow> Inr []
      | Some v \<Rightarrow>
          if j_is_null J v then Inr []
          else case string_value J (Some v) of
            None \<Rightarrow> ingestion_invalid ''field account_did must be a string or null''
          | Some s \<Rightarrow> Inr s)"

definition ing_require_u64 :: "'j cjson \<Rightarrow> 'j \<Rightarrow> string \<Rightarrow> u64 result" where
  "ing_require_u64 J obj key =
     (case j_item J obj key of
        None \<Rightarrow> ingestion_invalid (''field '' @ key @ '' must be a non-negative integer'')
      | Some v \<Rightarrow>
          if \<not> j_is_number J v \<or> dbl_lt (j_num J v) (Finite 0) \<or> dbl_lt (Finite (2 ^ 53)) (j_num J v)
          then ingestion_invalid (''field '' @ key @ '' must be a non-negative integer'')
          else and_then (to_uint64 (j_num J v)) (\<lambda>n. Inr (of_int n)))"

definition ing_require_version :: "'j cjson \<Rightarrow> 'j \<Rightarrow> u32 result" where
  "ing_require_version J obj =
     (case j_item J obj ''version'' of
        None \<Rightarrow> ingestion_invalid ''missing or invalid version''
      | Some v \<Rightarrow>
          if \<not> j_is_number J v \<or> dbl_lt (j_num J v) (Finite 0) then ingestion_invalid ''missing or invalid version''
          else and_then (to_uint32 (j_num J v)) (\<lambda>n.
            if n \<noteq> 1 then ingestion_invalid (''unsupported version '' @ int_to_string n @ '' (supported: 1)'')
            else Inr (of_int n)))"

subsection \<open>The identity of a feed\<close>

definition validate_ingestion :: "IngestionState \<Rightarrow> unit result" where
  "validate_ingestion s =
     (let src = ing_source s; cat = ing_catchup s; timeline = (src_kind src = kSourceKindTimeline) in
      if ing_version s \<noteq> 1 then ingestion_invalid (''unsupported version '' @ nat_to_string (unat (ing_version s)))
      else if \<not> timeline \<and> src_kind src \<noteq> kSourceKindJetstream then
        ingestion_invalid (''unsupported source kind '' @ src_kind src)
      else if src_service src = [] then ingestion_invalid ''source.service must be non-empty''
      else if timeline \<and> src_account_did src = [] then
        ingestion_invalid ''source.account_did must not be empty for a timeline feed''
      else if timeline \<and> \<not> starts_with (src_account_did src) ''did:'' then
        ingestion_invalid ''source.account_did must be a DID''
      else if \<not> timeline \<and> src_account_did src \<noteq> [] then
        ingestion_invalid ''source.account_did must be empty for a jetstream feed''
      else if src_endpoint src \<noteq> (if timeline then kTimelineEndpoint else kJetstreamEndpoint) then
        ingestion_invalid (''unsupported source endpoint '' @ src_endpoint src)
      else if cat_active cat \<and> (cat_cursor cat = None \<or> cat_cursor cat = Some []) then
        ingestion_invalid ''active catch-up requires a non-empty cursor''
      else if \<not> cat_active cat \<and> cat_cursor cat \<noteq> None then
        ingestion_invalid ''inactive catch-up must not carry a cursor''
      else if (protocol_repo cat = None) \<noteq> (protocol_revision cat = None) then
        ingestion_invalid ''protocol repository and revision must be paired''
      else if (case (protocol_repo cat, protocol_revision cat) of
                 (Some repo, Some revision) \<Rightarrow> \<not> is_did repo \<or> \<not> is_tid revision | _ \<Rightarrow> False) then
        ingestion_invalid ''protocol repository checkpoint has invalid identifiers''
      else Inr ())"

definition normalise_service :: "string \<Rightarrow> string" where
  "normalise_service s = rev (dropWhile (\<lambda>c. c = CHR ''/'') (rev s))"

definition endpoint_of :: "string \<Rightarrow> string" where
  "endpoint_of kind = (if kind = kSourceKindJetstream then kJetstreamEndpoint else kTimelineEndpoint)"

definition initial_ingestion_state :: "string \<Rightarrow> string \<Rightarrow> string \<Rightarrow> IngestionState" where
  "initial_ingestion_state service account kind =
     \<lparr>ing_version = 1,
      ing_source = \<lparr>src_kind = kind, src_service = normalise_service service, src_account_did = account,
                    src_endpoint = endpoint_of kind, src_algorithm = None\<rparr>,
      ing_catchup = \<lparr>cat_active = False, cat_cursor = None, protocol_repo = None, protocol_revision = None\<rparr>,
      ing_checkpoint = \<lparr>cp_generation = 0, cp_saved_at = None, cp_pages = 0, cp_seen = 0\<rparr>\<rparr>"

definition source_matches :: "IngestionState \<Rightarrow> string \<Rightarrow> string \<Rightarrow> string \<Rightarrow> bool" where
  "source_matches s service account kind \<longleftrightarrow>
     src_kind (ing_source s) = kind \<and> src_endpoint (ing_source s) = endpoint_of kind \<and>
     src_service (ing_source s) = normalise_service service \<and> src_account_did (ing_source s) = account \<and>
     src_algorithm (ing_source s) = None"

subsection \<open>The document\<close>

definition catchup_protocol :: "'j cjson \<Rightarrow> CatchupCursor \<Rightarrow> string" where
  "catchup_protocol J cat =
     (if protocol_repo cat \<noteq> None \<or> protocol_revision cat \<noteq> None
      then '',\"protocol_repo\":'' @ opt_quote J (protocol_repo cat) @
           '',\"protocol_revision\":'' @ opt_quote J (protocol_revision cat)
      else [])"

definition serialise_ingestion_state :: "'j cjson \<Rightarrow> IngestionState \<Rightarrow> string result" where
  "serialise_ingestion_state J s =
     and_then (validate_ingestion s) (\<lambda>_.
       let src = ing_source s; cat = ing_catchup s; cp = ing_checkpoint s in
       Inr (''{\"format\":'' @ quoted ingestion_format @
         '',\"version\":'' @ nat_to_string (unat (ing_version s)) @
         '',\"source\":{\"kind\":'' @ quoted (src_kind src) @
         '',\"service\":'' @ j_quote J (src_service src) @
         '',\"account_did\":'' @ j_quote J (src_account_did src) @
         '',\"endpoint\":'' @ quoted (src_endpoint src) @
         '',\"algorithm\":'' @ opt_quote J (src_algorithm src) @
         ''},\"catchup\":{\"active\":'' @ bool_text (cat_active cat) @
         '',\"cursor\":'' @ opt_quote J (cat_cursor cat) @ catchup_protocol J cat @
         ''},\"checkpoint\":{\"generation\":'' @ nat_to_string (unat (cp_generation cp)) @
         '',\"saved_at\":'' @ opt_quote J (cp_saved_at cp) @
         '',\"pages_completed\":'' @ nat_to_string (unat (cp_pages cp)) @
         '',\"observations_seen\":'' @ nat_to_string (unat (cp_seen cp)) @
         ''}}'' @ [char_of (10::nat)]))"

definition parse_feed_source :: "'j cjson \<Rightarrow> 'j \<Rightarrow> IngestionSource result" where
  "parse_feed_source J obj =
     and_then (ing_require_string J obj ''kind'') (\<lambda>kind.
     and_then (ing_require_string J obj ''service'') (\<lambda>service.
     and_then (account_did_field J obj) (\<lambda>account.
     and_then (ing_require_string J obj ''endpoint'') (\<lambda>endpoint.
     and_then (ing_optional_string J obj ''algorithm'') (\<lambda>algorithm.
       Inr \<lparr>src_kind = kind, src_service = service, src_account_did = account, src_endpoint = endpoint,
            src_algorithm = algorithm\<rparr>)))))"

definition parse_catchup :: "'j cjson \<Rightarrow> 'j \<Rightarrow> CatchupCursor result" where
  "parse_catchup J obj =
     (let active = j_item J obj ''active'' in
      if \<not> lifted (j_is_bool J) active then ingestion_invalid ''catchup.active must be a boolean''
      else and_then (ing_optional_string J obj ''cursor'') (\<lambda>cursor.
        and_then (ing_optional_string J obj ''protocol_repo'') (\<lambda>repo.
        and_then (ing_optional_string J obj ''protocol_revision'') (\<lambda>revision.
          Inr \<lparr>cat_active = lifted (j_is_true J) active, cat_cursor = cursor, protocol_repo = repo,
               protocol_revision = revision\<rparr>))))"

definition parse_checkpoint :: "'j cjson \<Rightarrow> 'j \<Rightarrow> IngestionCheckpoint result" where
  "parse_checkpoint J obj =
     and_then (ing_require_u64 J obj ''generation'') (\<lambda>generation.
     and_then (ing_optional_string J obj ''saved_at'') (\<lambda>saved.
     and_then (ing_require_u64 J obj ''pages_completed'') (\<lambda>pages.
     and_then (ing_require_u64 J obj ''observations_seen'') (\<lambda>seen.
       Inr \<lparr>cp_generation = generation, cp_saved_at = saved, cp_pages = pages, cp_seen = seen\<rparr>))))"

definition object_member :: "'j cjson \<Rightarrow> 'j \<Rightarrow> string \<Rightarrow> 'j result" where
  "object_member J doc key =
     (case j_item J doc key of
        None \<Rightarrow> ingestion_invalid (''missing '' @ key @ '' object'')
      | Some obj \<Rightarrow> if j_is_object J obj then Inr obj else ingestion_invalid (''missing '' @ key @ '' object''))"

definition parse_ingestion_state :: "'j cjson \<Rightarrow> string \<Rightarrow> string \<Rightarrow> IngestionState result" where
  "parse_ingestion_state J path t =
     (case j_parse J t of
        None \<Rightarrow> ingestion_invalid (path @ '' is not valid JSON'')
      | Some doc \<Rightarrow>
          if \<not> j_is_object J doc then ingestion_invalid (path @ '' is not a JSON object'')
          else and_then (ing_require_string J doc ''format'') (\<lambda>fmt.
            if fmt \<noteq> ingestion_format then ingestion_invalid (''unexpected format '' @ fmt)
            else and_then (ing_require_version J doc) (\<lambda>version.
            and_then (object_member J doc ''source'') (\<lambda>source_obj.
            and_then (parse_feed_source J source_obj) (\<lambda>src.
            and_then (object_member J doc ''catchup'') (\<lambda>catchup_obj.
            and_then (parse_catchup J catchup_obj) (\<lambda>cat.
            and_then (object_member J doc ''checkpoint'') (\<lambda>checkpoint_obj.
            and_then (parse_checkpoint J checkpoint_obj) (\<lambda>cp.
            let s = \<lparr>ing_version = version, ing_source = src, ing_catchup = cat, ing_checkpoint = cp\<rparr> in
            and_then (validate_ingestion s) (\<lambda>_. Inr s))))))))))"

text \<open>A state of another feed is reported and replaced by a fresh one.\<close>

definition load_ingestion_state ::
  "'j cjson \<Rightarrow> string \<Rightarrow> string \<Rightarrow> string \<Rightarrow> string \<Rightarrow> fs \<Rightarrow> IngestionState result" where
  "load_ingestion_state J path service account kind fs =
     (if fs path = Missing then Inr (initial_ingestion_state service account kind)
      else and_then (read_text ''ingestion state'' path fs) (\<lambda>t.
        and_then (parse_ingestion_state J path t) (\<lambda>s.
          Inr (if source_matches s service account kind then s else initial_ingestion_state service account kind))))"

definition stamped :: "string \<Rightarrow> IngestionState \<Rightarrow> IngestionState" where
  "stamped now s = s\<lparr>ing_checkpoint := (ing_checkpoint s)\<lparr>cp_saved_at := Some now\<rparr>\<rparr>"

definition save_ingestion_state ::
  "'j cjson \<Rightarrow> io \<Rightarrow> string \<Rightarrow> IngestionState \<Rightarrow> string \<Rightarrow> fs \<Rightarrow> unit result \<times> fs" where
  "save_ingestion_state J io now s path fs =
     (case serialise_ingestion_state J (stamped now s) of
        Inl e \<Rightarrow> (Inl e, fs)
      | Inr payload \<Rightarrow> save_atomic ''ingestion state'' io path payload fs)"

definition reset_ingestion_state :: "IngestionState \<Rightarrow> IngestionState" where
  "reset_ingestion_state s =
     s\<lparr>ing_catchup := \<lparr>cat_active = False, cat_cursor = None, protocol_repo = None, protocol_revision = None\<rparr>,
       ing_checkpoint := (ing_checkpoint s)\<lparr>cp_pages := 0, cp_seen := 0\<rparr>\<rparr>"


subsection \<open>What is saved is read back\<close>

definition opt_node :: "string option \<Rightarrow> node" where
  "opt_node v = (case v of Some s \<Rightarrow> Node_String s | None \<Rightarrow> Node_Null)"

definition count_node :: "u64 \<Rightarrow> node" where
  "count_node n = Node_Number (real (unat n))"

definition source_fields :: "IngestionSource \<Rightarrow> (string \<times> node) list" where
  "source_fields src =
     [(''kind'', Node_String (src_kind src)), (''service'', Node_String (src_service src)),
      (''account_did'', Node_String (src_account_did src)), (''endpoint'', Node_String (src_endpoint src)),
      (''algorithm'', opt_node (src_algorithm src))]"

definition catchup_fields :: "CatchupCursor \<Rightarrow> (string \<times> node) list" where
  "catchup_fields cat =
     [(''active'', Node_Bool (cat_active cat)), (''cursor'', opt_node (cat_cursor cat))] @
     (if protocol_repo cat \<noteq> None \<or> protocol_revision cat \<noteq> None
      then [(''protocol_repo'', opt_node (protocol_repo cat)), (''protocol_revision'', opt_node (protocol_revision cat))]
      else [])"

definition checkpoint_fields :: "IngestionCheckpoint \<Rightarrow> (string \<times> node) list" where
  "checkpoint_fields cp =
     [(''generation'', count_node (cp_generation cp)), (''saved_at'', opt_node (cp_saved_at cp)),
      (''pages_completed'', count_node (cp_pages cp)), (''observations_seen'', count_node (cp_seen cp))]"

definition ingestion_fields :: "IngestionState \<Rightarrow> (string \<times> node) list" where
  "ingestion_fields s =
     [(''format'', Node_String ingestion_format), (''version'', Node_Number (real (unat (ing_version s)))),
      (''source'', Node_Object (source_fields (ing_source s))), (''catchup'', Node_Object (catchup_fields (ing_catchup s))),
      (''checkpoint'', Node_Object (checkpoint_fields (ing_checkpoint s)))]"

text \<open>What the document can hold: counters that a double holds, no empty text where it is optional.\<close>

definition ingestion_ok :: "IngestionState \<Rightarrow> bool" where
  "ingestion_ok s \<longleftrightarrow>
     unat (cp_generation (ing_checkpoint s)) \<le> 2 ^ 53 \<and> unat (cp_pages (ing_checkpoint s)) \<le> 2 ^ 53 \<and>
     unat (cp_seen (ing_checkpoint s)) \<le> 2 ^ 53 \<and> src_algorithm (ing_source s) \<noteq> Some [] \<and>
     cp_saved_at (ing_checkpoint s) \<noteq> Some []"

lemma ingestion_invalid_neq [simp]: "ingestion_invalid m \<noteq> Inr x"
  by (simp add: ingestion_invalid_def throw_def)

text \<open>A member of an object that has exactly the given ones.\<close>

definition exactly :: "'j cjson \<Rightarrow> 'j \<Rightarrow> (string \<times> node) list \<Rightarrow> bool" where
  "exactly J x ns \<longleftrightarrow> (\<forall>n. map_of ns n = None \<longrightarrow> j_item J x n = None) \<and>
     (\<forall>n v. map_of ns n = Some v \<longrightarrow> (\<exists>y. j_item J x n = Some y \<and> is_node J y v))"

lemma exactly_string:
  "exactly J x ns \<Longrightarrow> map_of ns k = Some (Node_String s) \<Longrightarrow> s \<noteq> [] \<Longrightarrow> ing_require_string J x k = Inr s"
  by (fastforce simp: exactly_def ing_require_string_def nonempty_string_def)

lemma exactly_optional:
  assumes "exactly J x ns" and "map_of ns k = Some (opt_node v) \<or> map_of ns k = None \<and> v = None" and "v \<noteq> Some []"
  shows "ing_optional_string J x k = Inr v"
proof (cases v)
  case None
  have "j_item J x k = None \<or> (\<exists>y. j_item J x k = Some y \<and> j_is_null J y)"
  proof (cases "map_of ns k")
    case None
    then show ?thesis using assms(1) by (simp add: exactly_def)
  next
    case (Some w)
    then have "w = Node_Null" using assms(2) \<open>v = None\<close> by (simp add: opt_node_def)
    then obtain y where "j_item J x k = Some y" "is_node J y Node_Null"
      using assms(1) Some unfolding exactly_def by blast
    then show ?thesis by simp
  qed
  then show ?thesis using None by (auto simp: ing_optional_string_def)
next
  case (Some s)
  then have "map_of ns k = Some (Node_String s)" using assms(2) by (simp add: opt_node_def)
  then obtain y where "j_item J x k = Some y" "is_node J y (Node_String s)"
    using assms(1) unfolding exactly_def by blast
  then show ?thesis using Some assms(3) by (simp add: ing_optional_string_def string_value_def)
qed

lemma exactly_count:
  assumes "exactly J x ns" and "map_of ns k = Some (count_node n)" and "unat n \<le> 2 ^ 53"
  shows "ing_require_u64 J x k = Inr n"
proof -
  define m where "m = unat n"
  have n: "n = of_nat m" "m \<le> 2 ^ 53" using assms(3) by (simp_all add: m_def)
  have "map_of ns k = Some (Node_Number (real m))" using assms(2) by (simp only: count_node_def m_def)
  then obtain y where y: "j_item J x k = Some y" "is_node J y (Node_Number (real m))"
    using assms(1) unfolding exactly_def by blast
  have "real m \<le> 2 ^ 53" using n(2) by (metis of_nat_le_iff of_nat_numeral of_nat_power)
  moreover have "to_uint64 (Finite (real m)) = Inr (int m)"
    using n(2) by (simp add: to_uint64_def dbl_to_int_def trunc_zero_def)
  ultimately show ?thesis using y n(1) by (simp add: ing_require_u64_def)
qed

lemma validate_strings:
  assumes "validate_ingestion s = Inr ()"
  shows "ing_version s = 1" "src_kind (ing_source s) \<noteq> []" "src_service (ing_source s) \<noteq> []" "src_endpoint (ing_source s) \<noteq> []"
    "cat_cursor (ing_catchup s) \<noteq> Some []" "protocol_repo (ing_catchup s) \<noteq> Some []"
    "protocol_revision (ing_catchup s) \<noteq> Some []"
    "protocol_repo (ing_catchup s) = None \<longleftrightarrow> protocol_revision (ing_catchup s) = None"
    "cat_active (ing_catchup s) \<longleftrightarrow> cat_cursor (ing_catchup s) \<noteq> None"
  using assms
  by (auto simp: validate_ingestion_def Let_def kSourceKindTimeline_def kSourceKindJetstream_def kTimelineEndpoint_def
      kJetstreamEndpoint_def is_did_def is_tid_def split: if_splits option.splits)

lemma sub_object:
  assumes "members J doc ms" and "map_of ms k = Some (Node_Object ns)" and "distinct (map fst ns)"
  shows "\<exists>x. object_member J doc k = Inr x \<and> exactly J x ns"
  using member_object [OF assms] by (auto simp: object_member_def exactly_def)

lemma source_distinct: "distinct (map fst (source_fields src))"
  by (simp add: source_fields_def)

lemma catchup_distinct: "distinct (map fst (catchup_fields cat))"
  by (auto simp: catchup_fields_def)

lemma checkpoint_distinct: "distinct (map fst (checkpoint_fields cp))"
  by (simp add: checkpoint_fields_def)

theorem ingestion_round_trip:
  assumes reads: "reads_back J t (ingestion_fields s)" and valid: "validate_ingestion s = Inr ()" and ok: "ingestion_ok s"
  shows "parse_ingestion_state J path t = Inr s"
proof -
  obtain doc where doc: "j_parse J t = Some doc" "j_is_object J doc" "members J doc (ingestion_fields s)"
    using members_doc [OF reads] by blast
  note v = validate_strings [OF valid]
  obtain src where src: "object_member J doc ''source'' = Inr src" "exactly J src (source_fields (ing_source s))"
    using sub_object [OF doc(3) _ source_distinct, of "''source''" "ing_source s"] by (auto simp: ingestion_fields_def)
  obtain cat where cat: "object_member J doc ''catchup'' = Inr cat" "exactly J cat (catchup_fields (ing_catchup s))"
    using sub_object [OF doc(3) _ catchup_distinct, of "''catchup''" "ing_catchup s"] by (auto simp: ingestion_fields_def)
  obtain cp where cp: "object_member J doc ''checkpoint'' = Inr cp" "exactly J cp (checkpoint_fields (ing_checkpoint s))"
    using sub_object [OF doc(3) _ checkpoint_distinct, of "''checkpoint''" "ing_checkpoint s"] by (auto simp: ingestion_fields_def)
  note objs = src cat cp
  obtain f where f: "j_item J doc ''format'' = Some f" "is_node J f (Node_String ingestion_format)"
    using member_node [OF doc(3), of "''format''" "Node_String ingestion_format"] by (auto simp: ingestion_fields_def)
  have fmt: "ing_require_string J doc ''format'' = Inr ingestion_format"
    using f by (simp add: ing_require_string_def nonempty_string_def ingestion_format_def)
  obtain w where w: "j_item J doc ''version'' = Some w" "is_node J w (Node_Number 1)"
    using member_node [OF doc(3), of "''version''" "Node_Number 1"] v(1) by (auto simp: ingestion_fields_def)
  have ver: "ing_require_version J doc = Inr (ing_version s)"
    using w v(1) by (simp add: ing_require_version_def to_uint32_def dbl_to_int_def trunc_zero_def)
  have "map_of (source_fields (ing_source s)) ''account_did'' = Some (Node_String (src_account_did (ing_source s)))"
    by (simp add: source_fields_def)
  then obtain d where "j_item J src ''account_did'' = Some d" "is_node J d (Node_String (src_account_did (ing_source s)))"
    using objs(2) unfolding exactly_def by blast
  then have "account_did_field J src = Inr (src_account_did (ing_source s))"
    by (simp add: account_did_field_def string_value_def)
  then have S: "parse_feed_source J src = Inr (ing_source s)"
    using exactly_string [OF objs(2), of "''kind''"] exactly_string [OF objs(2), of "''service''"]
      exactly_string [OF objs(2), of "''endpoint''"] exactly_optional [OF objs(2), of "''algorithm''" "src_algorithm (ing_source s)"] v(2-4) ok
    by (simp add: parse_feed_source_def source_fields_def ingestion_ok_def)
  have "map_of (catchup_fields (ing_catchup s)) ''active'' = Some (Node_Bool (cat_active (ing_catchup s)))"
    by (simp add: catchup_fields_def)
  then obtain a where "j_item J cat ''active'' = Some a" "is_node J a (Node_Bool (cat_active (ing_catchup s)))"
    using objs(4) unfolding exactly_def by blast
  then have act: "lifted (j_is_bool J) (j_item J cat ''active'')"
    "lifted (j_is_true J) (j_item J cat ''active'') = cat_active (ing_catchup s)" by simp_all
  have C: "parse_catchup J cat = Inr (ing_catchup s)"
    using act exactly_optional [OF objs(4), of "''cursor''" "cat_cursor (ing_catchup s)"]
      exactly_optional [OF objs(4), of "''protocol_repo''" "protocol_repo (ing_catchup s)"]
      exactly_optional [OF objs(4), of "''protocol_revision''" "protocol_revision (ing_catchup s)"] v(5-8)
    by (cases "protocol_repo (ing_catchup s)"; cases "protocol_revision (ing_catchup s)")
      (simp_all add: parse_catchup_def Let_def catchup_fields_def)
  have P: "parse_checkpoint J cp = Inr (ing_checkpoint s)"
    using exactly_count [OF objs(6), of "''generation''"] exactly_count [OF objs(6), of "''pages_completed''"]
      exactly_count [OF objs(6), of "''observations_seen''"] exactly_optional [OF objs(6), of "''saved_at''" "cp_saved_at (ing_checkpoint s)"] ok
    by (simp add: parse_checkpoint_def checkpoint_fields_def ingestion_ok_def)
  have whole: "\<lparr>ing_version = ing_version s, ing_source = ing_source s, ing_catchup = ing_catchup s,
    ing_checkpoint = ing_checkpoint s\<rparr> = s" by simp
  show ?thesis
    using doc(1,2) fmt ver objs(1,3,5) S C P by (simp add: parse_ingestion_state_def Let_def whole valid)
qed

lemma stamped_parts [simp]:
  "ing_version (stamped now s) = ing_version s" "ing_source (stamped now s) = ing_source s"
  "ing_catchup (stamped now s) = ing_catchup s"
  by (simp_all add: stamped_def)

lemma stamped_validate [simp]: "validate_ingestion (stamped now s) = validate_ingestion s"
  unfolding validate_ingestion_def stamped_parts ..

lemma stamped_matches [simp]: "source_matches (stamped now s) = source_matches s"
  by (intro ext) (simp add: stamped_def source_matches_def)

text \<open>A state that is loaded is always the session's own.\<close>

lemma load_is_own:
  assumes "load_ingestion_state J path service account kind fs = Inr s"
  shows "source_matches s service account kind"
    and "cat_active (ing_catchup s) \<longleftrightarrow> cat_cursor (ing_catchup s) \<noteq> None"
proof -
  have init: "source_matches (initial_ingestion_state service account kind) service account kind"
    by (simp add: source_matches_def initial_ingestion_state_def)
  show "source_matches s service account kind"
    using assms init by (auto simp: load_ingestion_state_def result_simps split: if_splits)
  have "validate_ingestion s' = Inr ()" if "parse_ingestion_state J path t = Inr s'" for t s'
    using that by (auto simp: parse_ingestion_state_def result_simps Let_def split: option.splits if_splits)
  then show "cat_active (ing_catchup s) \<longleftrightarrow> cat_cursor (ing_catchup s) \<noteq> None"
    using assms validate_strings(9)
    by (auto simp: load_ingestion_state_def result_simps initial_ingestion_state_def split: if_splits)
qed

theorem save_then_load:
  assumes "save_ingestion_state J io now s path fs = (Inr (), fs')" and "fs' path = Present t"
    and "reads_back J t (ingestion_fields (stamped now s))" and "ingestion_ok s" and "now \<noteq> []"
  shows "load_ingestion_state J path service account kind fs' =
    Inr (if source_matches s service account kind then stamped now s else initial_ingestion_state service account kind)"
proof -
  have "validate_ingestion (stamped now s) = Inr ()"
    using assms(1) by (auto simp: save_ingestion_state_def serialise_ingestion_state_def result_simps split: sum.splits)
  moreover have "ingestion_ok (stamped now s)" using assms(4,5) by (simp add: ingestion_ok_def stamped_def)
  ultimately have "parse_ingestion_state J path t = Inr (stamped now s)"
    using ingestion_round_trip [OF assms(3)] by blast
  then show ?thesis using assms(2) by (simp add: load_ingestion_state_def read_text_def)
qed

lemma save_ingestion_failed: "save_ingestion_state J io now s path fs = (Inl e, fs') \<Longrightarrow> fs' path = fs path"
  by (auto simp: save_ingestion_state_def dest: save_atomic_failed split: sum.splits)


subsection \<open>What a sync run leaves can be saved\<close>

text \<open>The network names a cursor or none: never the empty text.\<close>

definition names_cursors :: "('g, 'j) sync_env \<Rightarrow> bool" where
  "names_cursors E \<longleftrightarrow> (\<forall>k c page. se_fetch E k c = Inr page \<longrightarrow> next_cursor page \<noteq> Some [])"

lemma loop_stands_at_a_cursor:
  assumes "names_cursors E" and "sync_loop counts E limits n cursor r w = Some (Inr (r', c), w')"
    and "0 < n \<or> (cursor \<noteq> None \<and> cursor \<noteq> Some [])"
  shows "sr_exhausted r' \<or> (c \<noteq> None \<and> c \<noteq> Some [])"
  using assms(2,3)
proof (induction n arbitrary: cursor r w)
  case 0
  then show ?case by simp
next
  case (Suc n)
  obtain page where page: "se_fetch E (sw_fetches w) cursor = Inr page"
    using Suc.prems(1) by (auto simp: Let_def split: sum.splits)
  obtain r1 w2 where items: "sync_items counts E (sp_items page) r (w\<lparr>sw_fetches := Suc (sw_fetches w)\<rparr>) = Some (Inr r1, w2)"
    using Suc.prems(1) page by (auto simp: Let_def split: option.splits sum.splits)
  show ?case
  proof (cases "next_cursor page")
    case None
    then show ?thesis using Suc.prems(1) page items by auto
  next
    case (Some k)
    then have k: "k \<noteq> []" using assms(1) page unfolding names_cursors_def by blast
    show ?thesis
    proof (cases "budget_spent limits (r1\<lparr>sr_pages := Suc (sr_pages r1)\<rparr>)")
      case True
      then have "c = Some k" using Suc.prems(1) page items Some by (simp add: Let_def)
      then show ?thesis using k by simp
    next
      case False
      then have "sync_loop counts E limits n (Some k) (r1\<lparr>sr_pages := Suc (sr_pages r1)\<rparr>) w2 = Some (Inr (r', c), w')"
        using Suc.prems(1) page items Some by (simp add: Let_def)
      then show ?thesis by (rule Suc.IH) (simp add: k)
    qed
  qed
qed

lemma run_keeps_source:
  "run_sync_with counts E limits s w = Some (a, s', w') \<Longrightarrow> ing_source s' = ing_source s \<and> ing_version s' = ing_version s"
  by (erule run_sync_cases) (auto simp: keep_cursor_def start_traversal_def split: sum.splits)

lemma start_keeps_catchup [simp]: "ing_catchup (start_traversal s) = ing_catchup s"
  by (simp add: start_traversal_def)

lemma run_keeps_valid:
  assumes "names_cursors E" and run: "run_sync_with counts E limits s w = Some (a, s', w')" and v: "validate_ingestion s = Inr ()"
  shows "validate_ingestion s' = Inr ()"
proof -
  note parts = run_keeps_source [OF run]
  have "(cat_active (ing_catchup s') \<longrightarrow> cat_cursor (ing_catchup s') \<noteq> None \<and> cat_cursor (ing_catchup s') \<noteq> Some []) \<and>
    (\<not> cat_active (ing_catchup s') \<longrightarrow> cat_cursor (ing_catchup s') = None) \<and>
    protocol_repo (ing_catchup s') = protocol_repo (ing_catchup s) \<and>
    protocol_revision (ing_catchup s') = protocol_revision (ing_catchup s)"
    using run
  proof (cases rule: run_sync_cases)
    case 1
    then show ?thesis using validate_strings [OF v] by auto
  next
    case (2 x)
    show ?thesis
    proof (cases x)
      case (Inl e)
      then show ?thesis using 2 validate_strings [OF v] by auto
    next
      case (Inr p)
      obtain r c where p: "p = (r, c)" by fastforce
      have "sr_exhausted r \<or> (c \<noteq> None \<and> c \<noteq> Some [])"
        using loop_stands_at_a_cursor [OF assms(1) 2(3) [unfolded Inr p]] 2(1) by simp
      then show ?thesis using 2(5) by (auto simp: Inr p keep_cursor_def)
    qed
  qed
  then show ?thesis using v parts by (auto simp: validate_ingestion_def Let_def split: if_splits)
qed

text \<open>The restart after a run: it goes on where the run stopped, on the run's own feed only.\<close>

lemma restart_after_run:
  assumes E: "names_cursors E" and run: "run_sync_with counts E limits s w = Some (a, s', w')"
    and v: "validate_ingestion s = Inr ()" and ok: "ingestion_ok s'" and now: "now \<noteq> []"
    and J: "\<And>t. serialise_ingestion_state J (stamped now s') = Inr t \<Longrightarrow> reads_back J t (ingestion_fields (stamped now s'))"
  shows "\<exists>fs'. save_ingestion_state J io_ok now s' path fs = (Inr (), fs') \<and>
    load_ingestion_state J path service account kind fs' =
      Inr (if source_matches s service account kind then stamped now s' else initial_ingestion_state service account kind)"
proof -
  have "validate_ingestion (stamped now s') = Inr ()" using run_keeps_valid [OF E run v] by simp
  then obtain t where t: "serialise_ingestion_state J (stamped now s') = Inr t"
    by (simp add: serialise_ingestion_state_def Let_def)
  define fs' where "fs' = fs(tmp_path path := Missing, path := Present t)"
  have save: "save_ingestion_state J io_ok now s' path fs = (Inr (), fs')"
    by (simp add: save_ingestion_state_def t save_atomic_def io_ok_def fs'_def)
  have "fs' path = Present t" by (simp add: fs'_def)
  from save_then_load [OF save this J [OF t] ok now] show ?thesis
    using save run_keeps_source [OF run] by (auto simp: source_matches_def)
qed

end
