(* ===== verification/Samples_Feed.thy ===== *)
theory Samples_Feed
  imports Ingestion_State Samples_Sync
begin

text \<open>
  A concrete feed: a timeline interrupted after one page, which has a successor, and a JSON
  library that reads the saved document back.
\<close>

definition feed_before :: IngestionState where
  "feed_before = initial_ingestion_state ''https://pds/'' ''did:plc:abcd'' kSourceKindTimeline"

definition feed_env :: "(nat, string option \<times> node) sync_env" where
  "feed_env = (sync_sample_env (sample_post Policy_Quote no_context))
     \<lparr>se_fetch := (\<lambda>k cursor. Inr \<lparr>sp_items = [], next_cursor = Some ''c2''\<rparr>)\<rparr>"

definition one_empty_page :: SyncResult where
  "one_empty_page = empty_sync_result\<lparr>sr_pages := 1\<rparr>"

definition feed_after :: IngestionState where
  "feed_after = keep_cursor one_empty_page (Some ''c2'') (start_traversal feed_before)"

definition feed_json :: "(string option \<times> node) cjson" where
  "feed_json = table_cjson (\<lambda>_. Some (Node_Object (ingestion_fields (stamped ''now'' feed_after)))) (\<lambda>_. [])"

lemma feed_before_valid: "validate_ingestion feed_before = Inr ()"
  by (simp add: feed_before_def initial_ingestion_state_def validate_ingestion_def normalise_service_def endpoint_of_def
      kSourceKindTimeline_def kSourceKindJetstream_def kTimelineEndpoint_def kJetstreamEndpoint_def starts_with_def)

lemma feed_before_own: "source_matches feed_before ''https://pds'' ''did:plc:abcd'' kSourceKindTimeline"
  by (simp add: source_matches_def feed_before_def initial_ingestion_state_def normalise_service_def)

lemma feed_after_ok: "ingestion_ok feed_after"
  by (simp add: ingestion_ok_def feed_after_def keep_cursor_def start_traversal_def feed_before_def
      initial_ingestion_state_def one_empty_page_def empty_sync_result_def)

lemma feed_reads_back: "reads_back feed_json t (ingestion_fields (stamped ''now'' feed_after))"
  unfolding feed_json_def
  by (rule table_reads_back)
    (auto simp: ingestion_fields_def source_fields_def catchup_fields_def checkpoint_fields_def opt_node_def
      count_node_def split: option.splits)

lemma feed_names_cursors: "names_cursors feed_env"
  by (simp add: names_cursors_def feed_env_def)

lemma feed_run:
  "\<exists>w. run_sync feed_env one_page feed_before (sync_sample_world None) = Some (Inr one_empty_page, feed_after, w)"
  by (simp add: run_sync_def run_sync_with_def one_page_def feed_env_def Let_def start_cursor_def feed_before_def
      initial_ingestion_state_def feed_after_def one_empty_page_def empty_sync_result_def)

lemma feed_after_cursor: "start_cursor feed_after = Some ''c2''"
  by (simp add: feed_after_def start_cursor_def keep_cursor_def one_empty_page_def empty_sync_result_def)

end
