(* ===== verification/Spec2Isabelle.thy ===== *)
theory Spec2Isabelle
  imports Samples_Stores Records Envelope Samples_Cycle Samples_Ledger Samples_Sync Samples_Arming Samples_Feed
begin

text \<open>
  ATperson is a C++ runtime around a small C core: it observes public AT Protocol records, decides,
  and, when its operator allows it, writes.  This development models the runtime's own logic: what
  may leave the machine, what is remembered, and what survives a crash.

  \<^bold>\<open>The parts and how they meet.\<close>  A scheduler cycle (app/scheduler/cycle.cpp) drains the offline spool,
  closes ended conversations, resolves expectations, turns decisions of the core into frozen
  proposal files, and executes the approved ones.  One execution is an attempt
  (app/outbound/attempt.cpp): it reloads the control state, the policy, the rate budget and the
  standing envelopes, asks every gate (app/outbound/execute.cpp), writes through the network or the
  spool, and records the outcome in the audit log and the journal.  The operator steers all this by
  files and by signed requests on a remote channel (app/control).  The protocol layer
  (src/protocol/protocol.cpp) decides what is well-formed, stores evidence and follows the firehose.
  What was observed is kept by the core's observation ledger (src/core/ledger): an append-only log, a
  commit marker beside it, and a hash index in memory.  The timeline sync (app/sync) fills it: page by
  page, each observation is appended, trained on, committed and linked to the action it answers, and
  the page's cursor is kept after that and, with the identity of its feed, saved by app/ingestion.  The
  operator lets the entity act alone by arming (app/autonomy/arming.cpp), which writes a policy, envelopes and
  the control state together, and asks beforehand with a preflight report.

  \<^bold>\<open>Theories.\<close>  \<open>Prelude\<close>, \<open>Std_Map\<close>, \<open>Bytes\<close>, \<open>Framing\<close>, \<open>Fixed_Width\<close>, \<open>Float32\<close>, \<open>Cjson\<close> and \<open>Files\<close>
  hold what the components share: exceptions as the left of a sum, the parts of \<open>std::string\<close> used,
  binary framing, number encodings, the JSON library's interface (a record of its accessors; a
  property that needs the library to read back what it printed says so with \<open>reads_back\<close>), and
  files, each in one of four states.  \<open>Rfc3339\<close> is state/time.cpp, \<open>Jsonl\<close> state/jsonl.hpp, \<open>Records\<close>
  state/records.cpp.
  \<open>Outbound_Actions\<close>, \<open>Outbound_Config\<close>, \<open>Outbound_Budget\<close>, \<open>Outbound_Evaluate\<close>, \<open>Outbound_Document\<close>,
  \<open>Execute\<close>, \<open>Spool\<close> and \<open>Attempt\<close> are the files of outbound/ with those names.  \<open>Control_State\<close>,
  \<open>Control_Remote\<close>, \<open>Remote_Poll\<close> and \<open>Envelope\<close> are control/.  \<open>Journal_Store\<close>, \<open>Journal_Parse\<close> and
  \<open>Journal_Roundtrip\<close> are journal/store.cpp, \<open>Resolve\<close> journal/resolve.cpp, \<open>Intent\<close> and \<open>Intent_Facts\<close>
  intent/.  \<open>Breaker\<close>, \<open>Text_Guard\<close>, \<open>Engagement\<close>, \<open>Drives\<close>, \<open>Scheduler_Config\<close> and \<open>Scheduler_Cycle\<close> are
  scheduler/, with the facts about cycles in \<open>Scheduler_Facts\<close> and \<open>Scheduler_Queue\<close>; \<open>Decision\<close> is the
  digest of a decision and the keys made from it.  \<open>Protocol_Syntax\<close>, \<open>Protocol_Facts\<close>, \<open>Evidence\<close>,
  \<open>Evidence_Ledger\<close> and \<open>Stream_Cursor\<close> are protocol.cpp.  \<open>Core_Format\<close> and \<open>Core_Index\<close> are the C
  files format.c and index.c of the observation ledger, \<open>Core_Ledger\<close> its off.c, commit.c, append.c,
  outcome.c and query.c, \<open>Core_Recover\<close> recover.c, migrate.c and lifecycle.c; \<open>Core_Ledger_Facts\<close> and
  \<open>Core_Ledger_Failures\<close> hold what the ledger promises and what it does not.  \<open>Ingestion_Policy\<close> is
  ingestion/policy.cpp, \<open>Sync_Engine\<close> sync/engine.cpp and linkage.cpp over the wrapper ledger.cpp,
  \<open>Sync_Facts\<close> what a run does to the ledger, \<open>Sync_Parallel\<close> and \<open>Sync_Handover\<close> sync/parallel.cpp.  \<open>Ingestion_State\<close> is ingestion/state.cpp,
  \<open>Arming\<close> and \<open>Preflight\<close> are the two halves of autonomy/arming.cpp.  The \<open>Samples\<close> theories hold the concrete
  values the witnesses use.

  \<^bold>\<open>Correspondence.\<close>  A struct is a record with its fields (prefixed where two structs share a name), an
  enum a datatype, a function a definition of the same name; a thrown exception is \<open>Inl\<close>, and what was
  already changed when it was thrown stays changed.  Machine integers are words where the code's
  arithmetic can wrap, and \<open>int\<close> or \<open>nat\<close> with explicit bounds elsewhere.  Calls that may fail in the
  operating system take the outcome as an argument (\<open>io\<close>, \<open>append_outcome\<close>, \<open>fail_at\<close>), so every error
  path is a branch.  Loops over lists and directories are structural recursions: no fuel is used; the
  traversal of pages recurs on the page limit of its configuration.  The one loop without a bound of its own, the probe of the ledger's index, is a partial function whose
  \<open>None\<close> is a loop that does not end, and it is proved to end.

  \<^bold>\<open>What the lemma groups show.\<close>  Rate limits over whole runs, with clocks that step back; that nothing is
  written without every gate; that records, journal lines, spool entries and requests read back; that
  a crash during a save or an append loses nothing committed; that the remote channel applies each
  request once; that the ledger refines the in-memory store and the cursor never crosses a gap; that
  the scheduler acts only on vetted, unaltered proposals, in bounded number, and that conversations
  stay within their caps over the life of an installation; that an observation ledger restarts with
  what the process held, however its last call failed, and what breaks when the process goes on after
  a failed commit; that a sync run returns, keeps its cursor behind its commits and learns nothing
  twice, and where its linker and its pool lose something; that its cursor survives a restart for its
  own feed; that arming grants what was asked, that a failed arming and a disarming leave writes off,
  and what a preflight that says ready does and does not promise.

  \<^bold>\<open>Not modelled.\<close>  The graph, memory, neural network and planner of the C core enter as arguments that
  answer the runtime's questions, and the ledger's compaction is left out; the network clients, threads, signals and the command line are input and
  output around the modelled operations.
\<close>

section \<open>Outbound policy and the action budget\<close>

text \<open>
  C1: An outbound policy whose limits the retained history can carry is enforced over every
  run.  Whatever actions are proposed, at whatever times (the clock may step back), the number
  of admitted actions of a kind in any window of the configured width never exceeds the
  configured limit.
\<close>
theorem admitted_within_window:
  assumes "policy_enforceable policy"
  shows "in_window (au_log (run (admit_step policy) reqs audited_start) k)
           (window_seconds (budget_for policy k)) t \<le> max_in_window (budget_for policy k)"
  using admission.run_window [of policy reqs k t] assms by (simp add: enforceable_or_default_def)

lemma sample_policy_enforceable: "policy_enforceable sample_policy"
  by (simp add: policy_enforceable_def sample_policy_def budget_for_def kMaxOutboundRecordsPerKind_def)

theorem admitted_within_window_witness:
  "policy_enforceable sample_policy \<and>
   in_window (au_log (run (admit_step sample_policy)
       [(sample_proposal, 100), (sample_proposal, 110), (sample_proposal, 140)] audited_start) Kind_Post) 60 150 \<le> 1"
  using admitted_within_window [OF sample_policy_enforceable,
      of "[(sample_proposal, 100), (sample_proposal, 110), (sample_proposal, 140)]" Kind_Post 150]
    sample_policy_enforceable
  by (simp add: sample_policy_def budget_for_def)

text \<open>
  C2: Execution writes only behind every gate.  An action is reported executed exactly when
  the entity is not paused, the policy admits the action, dry-run is off, writes are enabled,
  the action is authorised (approvals are not required, its digest is approved, or a standing
  envelope covers it), external publishing is allowed, and the whole write went through.
\<close>
theorem executed_exactly_behind_gates:
  "exe_outcome (fst (execute_outbound_action J c policy budget a W now attest external_ok envelope w)) = Exec_Executed \<longleftrightarrow>
     \<not> paused c \<and>
     outcome (evaluate_outbound_policy policy budget (outbound_action_proposal a) now) = Outcome_Allow \<and>
     \<not> dry_run c \<and> writes_enabled c \<and>
     (if approval_required c
      then act_digest a \<in> set (approved_digests c) \<or> (\<exists>cov. envelope = Some cov \<and> covered cov)
      else True) \<and>
     external_ok \<and>
     (\<exists>written att w'. write_phase J W attest a w = (Inr (written, att), w'))"
proof (cases "gates_pass c policy budget a now external_ok envelope")
  case True
  obtain x w' where x: "write_phase J W attest a w = (x, w')" by fastforce
  show ?thesis
    using True execute_open [OF True, of J W attest w]
    by (cases x) (auto simp: x gates_pass_def Let_def denied_def split: prod.splits)
next
  case False
  then show ?thesis
    using execute_closed [OF False, of J W attest w] by (auto simp: gates_pass_def)
qed

text \<open>
  C3: Execution refines admission.  The budget an execution leaves is the budget
  \<open>admit_outbound_action\<close> computes when the action was executed, and the old one otherwise; the
  flag that makes the caller save it says the same.
\<close>
theorem execution_refines_admission:
  "case execute_outbound_action J c policy budget a W now attest external_ok envelope w of
     (res, budget', w') \<Rightarrow>
       exe_budget_recorded res = (exe_outcome res = Exec_Executed) \<and>
       budget' = (if exe_outcome res = Exec_Executed
                  then snd (admit_outbound_action policy budget (outbound_action_proposal a) now)
                  else budget)"
  using execute_budget [of J c policy budget a W now attest external_ok envelope w]
  by (cases "execute_outbound_action J c policy budget a W now attest external_ok envelope w") auto

section \<open>The attempt and the offline spool\<close>







section \<open>Remote control by the operator\<close>

text \<open>
  C7: A remote request is applied exactly when remote control is configured, its author is the
  operator, it is the next in sequence, its argument has the shape its operation takes and an
  approval would not overflow the list.  An applied request performs its operation and advances
  the watermark by one; a refused one changes neither the control state nor the watermark.
\<close>
theorem remote_request_applied_iff:
  "case apply_control_request now s w r op_did did of
     (rep, s', w') \<Rightarrow>
       (rep_applied rep \<longleftrightarrow>
          op_did \<noteq> [] \<and> did = op_did \<and> req_seq r = w + 1 \<and> request_shape_ok r \<and>
          \<not> (req_op r = Approve \<and> req_arg r \<notin> set (approved_digests s) \<and>
             kMaxApprovedDigests \<le> length (approved_digests s))) \<and>
       (s', w') = (if rep_applied rep then (apply_op now (req_op r) (req_arg r) s, w + 1) else (s, w))"
proof -
  obtain rep s' w' where a: "apply_control_request now s w r op_did did = (rep, s', w')"
    by (cases "apply_control_request now s w r op_did did") auto
  show ?thesis
    using apply_accepted_iff [OF a] apply_accepted [OF a] apply_refused [OF a] by (auto simp: a)
qed

text \<open>
  C8: Over any sequence of delivered requests, replays and gaps included, the stored control
  state stays valid and the watermark never moves back.
\<close>
theorem remote_channel_invariant:
  assumes "control_ok s"
  shows "control_ok (fst (run (deliver op_did) msgs (s, w))) \<and> w \<le> snd (run (deliver op_did) msgs (s, w))"
  using channel.run_keeps [of "(s, w)" op_did msgs] channel.run_rank [of "(s, w)" op_did msgs] assms by simp

theorem remote_channel_invariant_witness:
  "control_ok default_control_state \<and>
   control_ok (fst (run (deliver ''did:plc:op'') [(''t'', pause_request 1), (''t'', pause_request 1)]
     (default_control_state, 0)))"
  using remote_channel_invariant [OF control_ok_default, of "''did:plc:op''"
      "[(''t'', pause_request 1), (''t'', pause_request 1)]" 0]
  by simp




section \<open>Standing authorization envelopes\<close>


section \<open>Documents, clocks and files\<close>

text \<open>
  C11: A frozen action document parses to the action it was written from: kind, text or subject,
  reply references, key, digest and scores.
\<close>
theorem action_document_reads_back:
  assumes "reads_back J (serialise_outbound_action J a) (action_fields a)" and "action_ok a"
  shows "parse_outbound_action J (serialise_outbound_action J a) source = Inr a"
  using assms by (rule action_round_trip)

theorem action_document_reads_back_witness:
  "parse_outbound_action (action_json sample_action) ''{}'' ''f'' = Inr sample_action"
  using action_document_reads_back [of "action_json sample_action" sample_action "''f''"]
    action_json_reads_back [OF sample_actions_keyed(1)] sample_actions_ok(1)
  by simp

text \<open>
  C12: A crash after any number of the file operations of a save (create the temporary file, add
  the payload byte by byte, rename) leaves either the old committed file or the complete new
  one, and touches no file but the temporary one beside it; all of the operations together are
  the save the stores call.
\<close>
theorem save_survives_crash:
  assumes "fs' \<in> set (save_crash_states path payload fs)"
  shows "(fs' path = fs path \<or> fs' path = Present payload) \<and>
     (\<forall>p. p \<noteq> path \<longrightarrow> p \<noteq> tmp_path path \<longrightarrow> fs' p = fs p) \<and>
     last (save_crash_states path payload fs) = snd (save_atomic label io_ok path payload fs)"
  using save_crash_safe [OF assms] save_crash_last by auto

theorem save_survives_crash_witness:
  "((\<lambda>_. Missing)(''f.tmp'' := Present ''a'')) \<in> set (save_crash_states ''f'' ''ab'' (\<lambda>_. Missing)) \<and>
   ((\<lambda>_. Missing)(''f.tmp'' := Present ''a'')) ''f'' = Missing"
proof -
  have "((\<lambda>_. Missing)(''f.tmp'' := Present ''a'')) \<in> set (save_crash_states ''f'' ''ab'' (\<lambda>_. Missing))"
    by (simp add: save_crash_states_def save_ops_def tmp_path_def upt_rec)
  with save_survives_crash [OF this] show ?thesis by simp
qed


section \<open>Unattended execution: breaker, output guard, engagement\<close>

text \<open>
  C13: The output guard lets a text through exactly when it is not blank, is well-formed UTF-8
  within the length limit, has no URL, no \<open>@\<close> or \<open>#\<close> before a word character and no \<open>did:\<close>,
  matches no denied term, and repeats no text inside the window, where two texts are the same
  when their lower-cased words are.
\<close>
theorem output_guard_allows_iff:
  "verdict_allowed (check_output_text t cfg recent now) \<longleftrightarrow>
     \<not> list_all is_space t \<and>
     (\<exists>cps. list_all scalar_value cps \<and> t = concat (map utf8_encode cps) \<and> length cps \<le> max_codepoints cfg) \<and>
     \<not> has_url (lower_ascii t) \<and>
     (\<nexists>u c v. t = u @ CHR ''@'' # c # v \<and> is_word_byte c) \<and>
     (\<nexists>u v. lower_ascii t = u @ ''did:'' @ v) \<and>
     (\<nexists>u c v. t = u @ CHR ''#'' # c # v \<and> is_word_byte c) \<and>
     (\<nexists>d. d \<in> set (denied_terms cfg) \<and> d \<noteq> [] \<and> term_matches (lower_ascii t) d) \<and>
     \<not> (0 < repeat_window_seconds cfg \<and>
        (\<exists>r. r \<in> set recent \<and> now - at_epoch r \<le> repeat_window_seconds cfg \<and>
             words_of (recent_text r) = words_of t))"
  unfolding check_allowed_iff followed_by_word_iff contains_sub_iff denied_by_None is_repeat_iff utf8_codepoints_iff
  by blast

section \<open>Protocol identifiers\<close>

section \<open>Evidence, the firehose cursor and the journal\<close>





text \<open>
  C16: The cursor tells the history of its stream.  After any calls, accepted or refused, the
  position is that of the last event that took effect, the accepted positions increase (by one
  when the stream is contiguous, except across a resynchronisation), and the revision stored for
  a repository is the last one accepted for it.
\<close>
theorem cursor_tells_history:
  assumes "cursor_run contiguous es s"
  shows "last_sequence s = (if es = [] then 0 else ev_seq (last es)) \<and>
     successively (follows contiguous) es \<and> revision_for s = revisions_of es \<and>
     \<not> (resync_required s \<and> es = [])"
  using cursor_run_ok [OF assms] by (auto simp: cursor_ok_def)

theorem cursor_tells_history_witness:
  "\<exists>s. cursor_run True [Observe 5 ''did:plc:abcd'' ''2222222222222''] s \<and> last_sequence s = 5 \<and>
     revision_for s ''did:plc:abcd'' = Some ''2222222222222''"
proof -
  obtain s where s: "observe_stream 5 ''did:plc:abcd'' ''2222222222222'' True initial_cursor = (Cur_Initialized, s)"
    by (simp add: observe_stream_def observe_sequence_def initial_cursor_def sample_did sample_tid)
  have "cursor_run True ([] @ [Observe 5 ''did:plc:abcd'' ''2222222222222'']) s"
    by (rule run_step [OF run_start step_first [OF s]])
  from this cursor_tells_history [OF this] show ?thesis
    by (auto simp: revisions_of_def)
qed

text \<open>
  C17: A gap stops the stream and a verified resynchronisation starts it again: while the mark is
  set no event moves the cursor, and after a resynchronisation to a position not behind it the
  next event is accepted.
\<close>
theorem gap_stops_until_resync:
  assumes "resync_required s" and "last_sequence s \<noteq> 0" and "last_sequence s \<le> seq"
    and "is_did repo" and "is_tid rv" and "seq + 1 \<noteq> 0"
  shows "snd (observe_stream q repo' rv' contiguous s) = s \<and>
     (\<exists>s1 s2. complete_resync seq repo rv Verified s = (True, s1) \<and>
        observe_stream (seq + 1) repo rv contiguous s1 = (Cur_Advanced, s2) \<and> last_sequence s2 = seq + 1)"
  using stopped_observe(1) [OF assms(1,2)] resync_resumes [OF assms(1,3-5,2,6)] by blast

theorem gap_stops_until_resync_witness:
  "snd (observe_stream 9 ''did:plc:abcd'' ''2222222222222'' True stopped_cursor) = stopped_cursor \<and>
   (\<exists>s1. complete_resync 7 ''did:plc:abcd'' ''2222222222222'' Verified stopped_cursor = (True, s1) \<and>
      fst (observe_stream 8 ''did:plc:abcd'' ''2222222222222'' True s1) = Cur_Advanced)"
  using gap_stops_until_resync [of stopped_cursor 7 "''did:plc:abcd''" "''2222222222222''" 9
      "''did:plc:abcd''" "''2222222222222''" True] sample_did sample_tid
  by (auto simp: stopped_cursor_def)

text \<open>
  C18: The journal keeps what it reported.  After an append to a journal of whole entries, whatever
  went wrong with it, the file loads to the old entries, or to the old entries and the new one; a
  reported success means the new one is there and nothing is torn.
\<close>
theorem journal_append_survives:
  assumes "list_all (printable J) es" and "printable J e"
    and "append_journal_entry J ao e (log_of (map (serialise_journal_entry J) es)) = (r, bytes)"
  shows "\<exists>es' cut. load_journal J (Present bytes) = Inr ((journal_of es')\<lparr>repaired_torn_tail := cut\<rparr>) \<and>
     (case r of Inr _ \<Rightarrow> es' = es @ [e] \<and> \<not> cut | Inl _ \<Rightarrow> es' \<in> {es, es @ [e]})"
  using journal_append_loads [OF assms] by (cases r) auto

theorem journal_append_survives_witness:
  "\<exists>bytes. append_journal_entry journal_json Append_ok sample_event [] = (Inr (), bytes) \<and>
     load_journal journal_json (Present bytes) = Inr ((journal_of [sample_event])\<lparr>repaired_torn_tail := False\<rparr>)"
proof -
  obtain bytes where a: "append_journal_entry journal_json Append_ok sample_event
      (log_of (map (serialise_journal_entry journal_json) [])) = (Inr (), bytes)"
    by (simp add: append_journal_entry_def append_line_def Let_def)
  have "list_all (printable journal_json) []" by simp
  from journal_append_survives [OF this sample_event_printable a] a show ?thesis by (auto simp: log_of_def)
qed

section \<open>Pending conversations\<close>


section \<open>The scheduler\<close>







text \<open>
  C22: A proposal is exactly what the operator saw.  Through a whole cycle a queued file is left
  as it is or taken out, never rewritten, and a proposal in quarantine that is not queued does
  not come back.
\<close>
theorem queued_proposals_are_frozen:
  assumes "run_scheduler_cycle cfg E W = (r, W')" and "is_json_name n"
  shows "(\<forall>t. map_of (proposals W) n = Some t \<longrightarrow> map_of (proposals W') n \<in> {None, Some t}) \<and>
    (map_of (quarantined W) n \<noteq> None \<and> map_of (proposals W) n = None \<longrightarrow> map_of (proposals W') n = None)"
  using cycle_keeps_proposals [OF assms] by blast

theorem queued_proposals_are_frozen_witness:
  "\<exists>r W. run_scheduler_cycle sample_config sample_cycle_env sample_cycle_world = (r, W) \<and>
     map_of (proposals W) sample_name \<in> {None, Some ''{}''}"
proof -
  obtain r W where run: "run_scheduler_cycle sample_config sample_cycle_env sample_cycle_world = (r, W)" by fastforce
  from queued_proposals_are_frozen [OF run sample_json_name] run show ?thesis
    by (simp add: sample_cycle_world_def)
qed

text \<open>
  C23: What the scheduler writes is well-typed for the rest of the system: a decision's digest
  has the shape the control state approves, a like's too, and the record key of a proposal is a
  timestamp identifier of the protocol, at any clock and any decision.
\<close>
theorem proposal_names_well_formed:
  "is_control_digest_shape (decision_digest context d) \<and>
   is_control_digest_shape (graduated_like_digest subject d) \<and> is_tid (proposal_tid now digest)"
  using hex16_shape proposal_tid_is_tid by (simp add: decision_digest_def graduated_like_digest_def)

section \<open>The observation ledger\<close>





text \<open>
  C26: The ledger's calls return.  In any life of the ledger, a lookup ends (the probe of the hash
  table, which has no bound of its own, meets a free slot) and so does an append, whatever fails.
\<close>
theorem ledger_calls_return:
  assumes "ledger_life L D"
  shows "(\<exists>r. ledger_lookup L source digest = Some r) \<and> (\<exists>r. append_ledger io x L D = Some r)"
proof -
  note h = life_healthy [OF assms]
  show ?thesis
    using append_returns [OF h, of io x] lookup_is_search [OF h, of source digest]
    by (auto simp: ledger_lookup_def)
qed

theorem ledger_calls_return_witness:
  "\<exists>s r. append_ledger append_well sample_observation (sample_ledger s) sample_disk = Some r"
proof -
  obtain s where "ledger_life (sample_ledger s) sample_disk" by (rule sample_ledger_life)
  from ledger_calls_return [OF this, of "[]" 0 append_well sample_observation] show ?thesis by blast
qed

text \<open>
  C27: The index answers as a search would: in any life of the ledger, a lookup finds the first
  entry with that source and digest, and no two entries have the same.
\<close>
theorem ledger_lookup_is_search:
  assumes "ledger_life L D"
  shows "ledger_find L source digest =
      Some (find (\<lambda>i. led_source_id (fst (cl_items L ! i)) = source \<and> led_digest (fst (cl_items L ! i)) = digest)
        [0..<length (cl_items L)]) \<and>
    distinct (map (\<lambda>x. (led_source_id (fst x), led_digest (fst x))) (cl_items L))"
  using lookup_is_search [OF life_healthy [OF assms]] life_healthy [OF assms] by (simp add: healthy_def)

theorem ledger_lookup_is_search_witness:
  "\<exists>s. ledger_find (sample_ledger s) ''at://x/y/z'' 9 = Some (Some 0)"
proof -
  obtain s where "ledger_life (sample_ledger s) sample_disk" by (rule sample_ledger_life)
  from ledger_lookup_is_search [OF this, of "''at://x/y/z''" 9] show ?thesis
    by (intro exI [of _ s])
      (simp add: sample_ledger_def sample_item_def sample_observation_def entry_of_def)
qed

text \<open>
  C28: A lost marker breaks the ledger.  When a commit fails after its record is durable, the
  process goes on, and the next append is acknowledged as new, then the ledger it leaves cannot be
  opened: recovery answers a format error and nothing repairs it.
\<close>
theorem lost_marker_breaks_ledger:
  assumes "ledger_life L D" and "observation_ok x" and "observation_ok y" and "ap_commit io = Commit_unmarked"
    and "append_ledger io x L D = Some (r1, i1, ATP_ERR_IO, L1, D1)"
    and "append_ledger io2 y L1 D1 = Some (Led_New, i2, ATP_OK, L2, D2)"
    and "cl_committed L + 2 * (9 + body_max) < 2 ^ 64"
  shows "recover all_well D2 = Some (Inl ATP_ERR_FORMAT, D2)"
  by (rule failed_append_then_append [OF life_healthy [OF assms(1)] assms(2,3,5,4,6,7)])

theorem lost_marker_breaks_ledger_witness:
  "\<exists>L D. append_ledger append_well sample_observation unmarked_ledger unmarked_disk = Some (Led_New, 1, ATP_OK, L, D) \<and>
     recover all_well D = Some (Inl ATP_ERR_FORMAT, D)"
proof -
  obtain L D where a: "append_ledger append_well sample_observation unmarked_ledger unmarked_disk = Some (Led_New, 1, ATP_OK, L, D)"
    using sample_second_append by blast
  have "ap_commit (append_well\<lparr>ap_commit := Commit_unmarked\<rparr>) = Commit_unmarked" by simp
  from lost_marker_breaks_ledger [OF new_ledger_life sample_observation_facts(1,1) this sample_unmarked_append a]
  show ?thesis using a by (simp add: new_ledger_def body_max_def context_bytes_def payload_limit_def)
qed

text \<open>
  C29: A failed outcome overrides an acknowledged one.  When a patch reaches the log but its sync
  fails, and a later patch is acknowledged, a restart succeeds with the failed patch in force and
  the acknowledged one gone.
\<close>
theorem failed_outcome_overrides_acknowledged:
  assumes "ledger_life L D" and "room L" and "set_outcome Commit_unsynced i o1 L D = (ATP_ERR_IO, L1, D1)"
    and "set_outcome Commit_ok j o2 L1 D1 = (ATP_OK, L2, D2)" and "cl_items L2 \<noteq> cl_items L"
  shows "cl_items L2 = set_item_outcome (unat j - 1) o2 (cl_items L) \<and>
    (\<exists>L3 D3. recover all_well D2 = Some (Inr L3, D3) \<and> cl_items L3 = set_item_outcome (unat i - 1) o1 (cl_items L))"
proof -
  note wins = failed_outcome_wins [OF life_healthy [OF assms(1)] assms(2-5)]
  have "length (set_item_outcome (unat i - 1) o1 (cl_items L)) \<le> 2 ^ 60"
    using assms(2) by (simp add: room_def set_item_outcome_def)
  then show ?thesis using restart_succeeds [OF wins(3)] wins(2) by blast
qed

theorem failed_outcome_overrides_acknowledged_witness:
  "\<exists>s L2 D1 D2 L3 D3. set_outcome Commit_unsynced 1 Ledger_Withdrawn (sample_ledger s) sample_disk = (ATP_ERR_IO, sample_ledger s, D1) \<and>
     set_outcome Commit_ok 1 Ledger_Learned (sample_ledger s) D1 = (ATP_OK, L2, D2) \<and>
     recover all_well D2 = Some (Inr L3, D3) \<and> led_outcome (fst (hd (cl_items L2))) = Ledger_Learned \<and>
     led_outcome (fst (hd (cl_items L3))) = Ledger_Withdrawn"
proof -
  obtain s where s: "ledger_life (sample_ledger s) sample_disk" by (rule sample_ledger_life)
  obtain D1 where o: "set_outcome Commit_unsynced 1 Ledger_Withdrawn (sample_ledger s) sample_disk = (ATP_ERR_IO, sample_ledger s, D1)"
    using sample_unsynced by blast
  obtain L2 D2 where p: "set_outcome Commit_ok 1 Ledger_Learned (sample_ledger s) D1 = (ATP_OK, L2, D2)"
    "cl_items L2 \<noteq> cl_items (sample_ledger s)"
    using sample_acknowledged by blast
  from failed_outcome_overrides_acknowledged [OF s sample_ledger_room o p]
  show ?thesis using o p by (fastforce simp: sample_ledger_def set_item_outcome_def)
qed

section \<open>The timeline sync\<close>

text \<open>
  C30: The cursor follows the commits.  A sync run over pages of at most \<open>B\<close> observations, started
  on a ledger that a restart would read, always returns, whatever system call fails on the way.
  What was committed stays committed and a restart recovers the ledger it leaves.  A run that
  fails keeps the cursor it started from; one that succeeds has committed every observation of
  every page it read, and only then stands at the cursor of the last of them.
\<close>
theorem sync_cursor_follows_commits:
  assumes "well E" and "pages_within B E" and "sound (nat (max_pages limits) * B) w"
  shows "\<exists>a s' w'. run_sync E limits s w = Some (a, s', w') \<and> survives w w' \<and>
    (case a of
       Inl e \<Rightarrow> ing_catchup s' = ing_catchup s
     | Inr r \<Rightarrow>
         run_pages E limits s w \<noteq> [] \<and> sr_pages r = length (run_pages E limits s w) \<and>
         sr_seen r = sum_list (map (length \<circ> sp_items) (run_pages E limits s w)) \<and>
         (\<forall>p \<in> set (run_pages E limits s w). observation_id ` set (sp_items p) \<subseteq> committed_ids (sw_ledger w')) \<and>
         (cat_active (ing_catchup s') \<longleftrightarrow> \<not> sr_exhausted r) \<and>
         cat_cursor (ing_catchup s') = next_cursor (last (run_pages E limits s w)))"
proof -
  obtain a s' w' where run: "run_sync_with trainable E limits s w = Some (a, s', w')" and w: "sound (sw_turn w' - sw_turn w + 0) w"
    using run_returns [OF assms, of trainable s] by auto
  note facts = run_commits [OF assms(1) run w]
  show ?thesis
    using run facts by (intro exI [of _ a] exI [of _ s'] exI [of _ w']) (auto simp: run_sync_def split: sum.splits)
qed

theorem sync_cursor_follows_commits_witness:
  "\<exists>a s w. run_sync (sync_sample_env (sample_post Policy_Quote no_context)) one_page fresh_state (sync_sample_world None) = Some (Inr a, s, w) \<and>
     sr_learned a = 1 \<and> (''at://x/y/z'', atp_ledger_digest ''hello'') \<in> committed_ids (sw_ledger w)"
proof -
  let ?x = "sample_post Policy_Quote no_context"
  have "sound (nat (max_pages one_page) * 1) (sync_sample_world None)"
    by (rule sync_sample_sound) (simp add: one_page_def)
  note run = sync_cursor_follows_commits [OF sync_sample_well this, of ?x fresh_state]
  have "trainable ?x" by (simp add: trainable_def sample_post_def)
  then obtain s w where w: "run_sync (sync_sample_env ?x) one_page fresh_state (sync_sample_world None) = Some (Inr (one_result True), s, w)"
    using sample_run [of trainable Policy_Quote] by (auto simp: run_sync_def)
  have "observation_id ?x \<in> committed_ids (sw_ledger w)" using run unfolding w sample_pages by simp
  moreover have "observation_id ?x = (''at://x/y/z'', atp_ledger_digest ''hello'')"
    using sample_post_facts(1) by (simp add: observation_id_def sample_post_def)
  ultimately show ?thesis using w by (intro exI [of _ "one_result True"] exI [of _ s] exI [of _ w]) (simp add: one_result_def)
qed



text \<open>
  C32: A link that fails is lost.  When the linker throws on an observation that was just committed,
  no later handling of it, in this run or another, with any ledger that kept the commit, tries
  the link again: it is a duplicate, and only the count of observations moves.
\<close>
theorem failed_link_is_never_retried:
  assumes "well E" and "sound (Suc n) w" and "process_observation E x w = Some (Inr True, w1)"
    and "link_step E (sw_turn w) x w1 = (Inl e, w2)"
    and "well F" and "sound (Suc k) v" and "committed_ids (sw_ledger w2) \<subseteq> committed_ids (sw_ledger v)"
    and "process_observation F x v = Some (Inr b, v')"
  shows "b = False \<and> v' = v\<lparr>sw_turn := Suc (sw_turn v)\<rparr>"
  by (rule failed_link_lost [OF assms])

theorem failed_link_is_never_retried_witness:
  "\<exists>e w1 w2 v. process_observation (sync_sample_env answer_post) answer_post (sync_sample_world (Some answered)) = Some (Inr True, w1) \<and>
     link_step (sync_sample_env answer_post) 0 answer_post w1 = (Inl e, w2) \<and>
     process_observation (sync_sample_env answer_post) answer_post w2 = Some (Inr False, v) \<and> sw_journal v = []"
proof -
  let ?E = "sync_sample_env answer_post"
  obtain w1 e w2 b v where p: "process_observation ?E answer_post (sync_sample_world (Some answered)) = Some (Inr True, w1)"
    "link_step ?E 0 answer_post w1 = (Inl e, w2)" "sound 5 w2" "process_observation ?E answer_post w2 = Some (Inr b, v)"
    "sw_journal w2 = []"
    using answer_run by blast
  have t: "sw_turn (sync_sample_world (Some answered) :: nat sync_world) = 0" by (simp add: sync_sample_world_def)
  have s: "sound (Suc 5) (sync_sample_world (Some answered))" "sound (Suc 4) w2"
    using sync_sample_sound [of "Suc 5"] p(3) by simp_all
  from failed_link_is_never_retried [OF sync_sample_well(1) s(1) p(1) p(2) [folded t] sync_sample_well(1) s(2) subset_refl p(4)]
  have "b = False \<and> v = w2\<lparr>sw_turn := Suc (sw_turn w2)\<rparr>" .
  then show ?thesis using p by auto
qed

text \<open>
  C33: A fetched page arrives.  When the fetch succeeds, in every interleaving of the worker and the
  owner either the owner has the page or one of them can move, and every step brings the end
  nearer, so the owner gets it after finitely many steps.
\<close>
theorem fetched_page_arrives:
  assumes "handed False s"
  shows "(hd_owner s = Owner_got \<or> (\<exists>t. hand_step False s t)) \<and>
    (\<forall>t. hand_step False s t \<longrightarrow> handed False t \<and> hand_left t < hand_left s)"
  using no_deadlock [OF assms] handed_step [OF assms] hand_left_decreases by blast

theorem fetched_page_arrives_witness:
  "\<exists>t. hand_step False hand_start t \<and> hand_left t < hand_left hand_start"
  using fetched_page_arrives [OF handed_start] by (auto simp: hand_start_def)

text \<open>
  C34: A failed fetch can be missed.  There is an interleaving in which the fetch throws, the worker
  sets its flag and notifies, and then the owner, which had looked just before, waits: nothing
  can move any more, and the run never ends.
\<close>
theorem failed_fetch_can_hang:
  "\<exists>s. handed True s \<and> hd_owner s = Owner_waiting \<and> hd_worker s = Worker_done \<and> hd_error s \<and>
     (\<nexists>t. hand_step True s t)"
  using lost_wakeup by blast

section \<open>Arming\<close>



text \<open>
  C36: A failed arming arms nothing.  If applying a plan throws at any step, the control state on
  disk is the one that was there; so when writes were off, no action passes the gates, whatever
  was already written of the policy and the envelopes.
\<close>
theorem failed_arm_is_inert:
  assumes "arm_paths_ok paths" and "apply_arm J io plan paths fs = (Inl e, fs')"
    and "load_control_state J (control_file paths) fs = Inr c" and "\<not> writes_enabled c"
  shows "load_control_state J (control_file paths) fs' = Inr c \<and> \<not> gates_pass c policy budget a now ext envelope"
  using load_control_cong [of fs' "control_file paths" fs J] apply_arm_failed [OF assms(1,2)] assms(3,4) by (simp add: gates_pass_def)

theorem failed_arm_is_inert_witness:
  "\<exists>plan e fs'. apply_arm arm_sample_json (arm_sample_io (io_ok\<lparr>create_ok := False\<rparr>)) plan arm_sample_paths (\<lambda>_. Missing) = (Inl e, fs') \<and>
     pl_control plan = armed_control default_control_state \<and>
     load_control_state arm_sample_json ''control.json'' fs' = Inr default_control_state"
proof -
  have i: "is_envelope_id ''e''" by (simp add: is_envelope_id_def is_lower_def is_digit_def code_def)
  obtain plan where plan: "plan_arm (arm_sample_env arm_sample_json) (post_request 1 ''e'') default_outbound_policy default_control_state
      ''2026-01-01T00:00:00Z'' = Inr plan"
    using post_request_planned [OF _ i, of 1] by auto
  let ?io = "arm_sample_io (io_ok\<lparr>create_ok := False\<rparr>)"
  have nc: "save_control_state J (ai_control ?io) c p fs \<noteq> (Inr (), fs1)" for J :: "(string option \<times> node) cjson" and c p fs fs1
    by (simp add: save_control_state_def save_atomic_def arm_sample_io_def io_ok_def Let_def throw_def split: sum.split)
  obtain x fs' where run: "apply_arm arm_sample_json ?io plan arm_sample_paths (\<lambda>_. Missing) = (x, fs')" by fastforce
  have "x \<noteq> Inr ()"
    using run nc by (auto simp: apply_arm_def next_step_Inr)
  then obtain e where e: "apply_arm arm_sample_json ?io plan arm_sample_paths (\<lambda>_. Missing) = (Inl e, fs')"
    using run by (cases x) auto
  have c: "load_control_state arm_sample_json (control_file arm_sample_paths) (\<lambda>_. Missing) = Inr default_control_state"
    by (simp add: load_control_missing)
  have w: "\<not> writes_enabled default_control_state" by (simp add: default_control_state_def)
  have p: "control_file arm_sample_paths = ''control.json''" by (simp add: arm_sample_paths_def)
  from failed_arm_is_inert [OF arm_sample_paths_ok e c w] plan_arm_Inr(7) [OF plan] e
  show ?thesis unfolding p by blast
qed

text \<open>
  C37: Disarming holds whatever fails after it.  Once its first write is done, the control state on
  disk is the old one with writes off, even when a revocation fails later; it then fails only if
  a file cannot be removed or the id is too long for its companion, and when it does not fail the
  envelope is gone.
\<close>
theorem disarm_holds:
  assumes "arm_paths_ok paths" and "load_control_state J (control_file paths) fs = Inr c" and "ai_control io = io_ok"
    and "disarm J io paths eid fs = (r, fs')"
  shows "(\<exists>t. serialise_control_state J (c\<lparr>writes_enabled := False\<rparr>) = Inr t \<and> fs' (control_file paths) = Present t) \<and>
    ((\<forall>i. ai_removable io i) \<and> is_envelope_id eid \<longrightarrow> (isl r \<longleftrightarrow> 56 < length eid)) \<and>
    (r = Inr () \<longrightarrow> load_authorization_envelope J (envelopes_dir paths) eid policy fs' = Inr None)"
  using disarm_writes_off [OF assms] by blast

theorem disarm_holds_witness:
  "\<exists>fs' t. disarm arm_sample_json (arm_sample_io io_ok) arm_sample_paths (replicate 60 CHR ''e'') (\<lambda>_. Missing) = (t, fs') \<and> isl t \<and>
     fs' ''control.json'' \<noteq> Missing"
proof -
  let ?i = "replicate 60 CHR ''e''"
  obtain r fs' where run: "disarm arm_sample_json (arm_sample_io io_ok) arm_sample_paths ?i (\<lambda>_. Missing) = (r, fs')" by fastforce
  have c: "load_control_state arm_sample_json (control_file arm_sample_paths) (\<lambda>_. Missing) = Inr default_control_state"
    by (simp add: load_control_missing)
  have io: "ai_control (arm_sample_io io_ok) = io_ok" "\<forall>i. ai_removable (arm_sample_io io_ok) i" by (simp_all add: arm_sample_io_def)
  have i: "is_envelope_id ?i" by (simp add: is_envelope_id_def is_lower_def is_digit_def code_def list_all_iff)
  from disarm_holds [OF arm_sample_paths_ok c io(1) run] io(2) i
  show ?thesis using run by (intro exI [of _ fs'] exI [of _ r]) (auto simp: arm_sample_paths_def)
qed

text \<open>
  C38: Ready means that something can run.  When the preflight reports ready and every envelope
  file can be read, the control state, policy and envelopes on disk let some action of an
  executable kind through every gate of the executor, on the budget of a fresh installation.
\<close>
theorem preflight_ready_admits:
  assumes "run_preflight E env paths names now fs = Inr rep" and "ready rep"
    and "\<And>policy i. load_outbound_policy (arm_json E) (policy_file paths) fs = Inr policy \<Longrightarrow>
      i \<in> set (list_authorization_envelopes names) \<Longrightarrow>
      \<not> isl (load_authorization_envelope (arm_json E) (envelopes_dir paths) i policy fs)"
  shows "\<exists>c policy a cov. load_control_state (arm_json E) (control_file paths) fs = Inr c \<and>
    load_outbound_policy (arm_json E) (policy_file paths) fs = Inr policy \<and> is_executable_kind (act_kind a) \<and>
    executor_envelope E paths names policy a now fs = Inr cov \<and>
    gates_pass c policy empty_budget_state a now (publishing_switch env) (Some cov)"
  by (rule ready_admits [OF assms])

theorem preflight_ready_admits_witness:
  "\<exists>a cov. executor_envelope (arm_sample_env ready_json) arm_sample_paths (ready_names False) loaded_policy a 0 (ready_files False) = Inr cov \<and>
     gates_pass ready_state loaded_policy empty_budget_state a 0 True (Some cov)"
proof -
  let ?E = "arm_sample_env ready_json"
  obtain rep where rep: "run_preflight ?E ready_env arm_sample_paths (ready_names False) 0 (ready_files False) = Inr rep" "ready rep"
    using ready_preflight [of False] by blast
  have J: "arm_json ?E = ready_json" "control_file arm_sample_paths = ''control.json''" "policy_file arm_sample_paths = ''policy.json''"
    "envelopes_dir arm_sample_paths = ''d''" by (simp_all add: arm_sample_env_def arm_sample_paths_def)
  have loads: "\<not> isl (load_authorization_envelope (arm_json ?E) (envelopes_dir arm_sample_paths) i policy (ready_files False))"
    if "load_outbound_policy (arm_json ?E) (policy_file arm_sample_paths) (ready_files False) = Inr policy"
      "i \<in> set (list_authorization_envelopes (ready_names False))" for policy i
    using that by (simp add: J ready_policy_loads ready_names_listed) (metis isl_def ready_envelope_loads sum.disc(2))
  from preflight_ready_admits [OF rep loads] show ?thesis
    by (auto simp: J ready_control_loads ready_policy_loads ready_env_def)
qed

text \<open>
  C39: Ready does not survive a broken envelope file.  There is an installation with one file in
  the directory of envelopes that is not JSON where the preflight reports ready, and yet the
  executor's search for an envelope throws for every action, at every time, with every budget.
\<close>
theorem preflight_ready_but_blocked:
  "\<exists>rep. run_preflight (arm_sample_env ready_json) ready_env arm_sample_paths (ready_names True) 0 (ready_files True) = Inr rep \<and>
     ready rep \<and>
     (\<forall>policy k s evidence budget now.
        isl (find_covering_envelope ready_json ''d'' (ready_names True) (ready_files True) policy k s evidence budget now))"
  using ready_preflight [of True] by (simp add: find_covering_envelope_def ready_names_listed broken_envelope_throws)




end
